(* ===== verification/Prelude.thy ===== *)
theory Prelude
  imports Main "HOL-Library.Word" "HOL-Library.Sublist"
begin

text \<open>
  The library every component of the development builds on: the collections of rewrite rules the
  component theories fill, the type names of the model (Go's \<open>[]byte\<close>, \<open>int\<close> and map types), and
  generic facts on lists, options and words that several components need.
\<close>

section \<open>Collections\<close>

named_theorems conn_simps
  \<open>effects of one connection operation on the fields of a named web socket\<close>

named_theorems codec_simps
  \<open>what a decoder returns on the output of its encoder\<close>

named_theorems inv_intros
  \<open>preservation of a component's invariant by one of its operations\<close>

section \<open>Types of the source language\<close>

type_synonym byte = "8 word"
type_synonym bytes = "8 word list"

abbreviation byte_of :: "char \<Rightarrow> byte" where
  "byte_of c \<equiv> of_char c"

abbreviation bytes_of :: "string \<Rightarrow> bytes" where
  "bytes_of s \<equiv> map of_char s"

text \<open>Go's conversion \<open>string(b)\<close> of a byte slice; a Go string is a sequence of bytes.\<close>

definition string_of :: "bytes \<Rightarrow> string" where
  "string_of bs = map (\<lambda>b. char_of (unat b)) bs"

text \<open>Go's \<open>int\<close> on the 64-bit targets: its least and its greatest value.\<close>

definition min_int :: int where
  "min_int = - (2 ^ 63)"

definition max_int :: int where
  "max_int = 2 ^ 63 - 1"

section \<open>Strings and bytes\<close>

lemma unat_of_char [simp]: "unat (of_char c :: byte) = of_char c"
proof -
  have "(of_char c :: byte) = of_nat (of_char c)"
    by (rule of_nat_of_char [symmetric])
  moreover have "take_bit 8 (of_char c) = (of_char c :: nat)"
    using nat_of_char_less_256 [of c] by (simp add: take_bit_nat_eq_self_iff)
  ultimately show ?thesis
    by (simp add: unsigned_of_nat)
qed

lemma string_of_bytes_of [simp]: "string_of (bytes_of s) = s"
  by (simp add: string_of_def comp_def)

lemma of_char_char_of_byte: "of_char (char_of (unat b)) = (b :: byte)"
proof (subst word_unat_eq_iff)
  have "unat b < 256"
    using unsigned_less [of b, where ?'a = nat] by simp
  then show "unat (of_char (char_of (unat b)) :: byte) = unat b"
    by simp
qed

lemma bytes_of_string_of [simp]: "bytes_of (string_of bs) = bs"
  by (simp add: string_of_def comp_def of_char_char_of_byte)

lemma length_string_of [simp]: "length (string_of bs) = length bs"
  by (simp add: string_of_def)

lemma string_of_append: "string_of (xs @ ys) = string_of xs @ string_of ys"
  by (simp add: string_of_def)

text \<open>Big-endian integers: \<open>k\<close> bytes of a number, and the number of some bytes.\<close>

definition be_bytes :: "nat \<Rightarrow> nat \<Rightarrow> bytes" where
  "be_bytes k n = map (\<lambda>i. word_of_nat (n div 256 ^ i mod 256)) (rev [0..<k])"

definition be_val :: "bytes \<Rightarrow> nat" where
  "be_val bs = foldl (\<lambda>n b. 256 * n + unat b) 0 bs"

lemma length_be_bytes [simp]: "length (be_bytes k n) = k"
  by (simp add: be_bytes_def)

lemma be_bytes_Suc: "be_bytes (Suc k) n = be_bytes k (n div 256) @ [word_of_nat (n mod 256)]"
proof -
  have "rev [0..<Suc k] = map Suc (rev [0..<k]) @ [0]"
    by (simp add: map_Suc_upt upt_conv_Cons flip: rev_map del: upt_Suc)
  then show ?thesis
    by (simp add: be_bytes_def comp_def div_mult2_eq del: upt_Suc)
qed

lemma be_val_be_bytes [codec_simps]: "be_val (be_bytes k n) = n mod 256 ^ k"
proof (induction k arbitrary: n)
  case 0
  then show ?case by (simp add: be_val_def be_bytes_def)
next
  case (Suc k)
  have "unat (word_of_nat (n mod 256) :: byte) = n mod 256"
    by (simp add: unsigned_of_nat take_bit_eq_mod)
  with Suc [of "n div 256"] show ?case
    by (simp add: be_bytes_Suc be_val_def mod_mult2_eq mult.commute)
qed

lemma be_val_bound: "be_val bs < 256 ^ length bs"
proof (induction bs rule: rev_induct)
  case Nil
  then show ?case by (simp add: be_val_def)
next
  case (snoc b bs)
  have "unat b < 256"
    using unsigned_less [of b, where ?'a = nat] by simp
  with snoc show ?case
    by (simp add: be_val_def)
qed

section \<open>Lists\<close>

text \<open>
  The removal loop of the source,
  \<open>for i, x := range xs { if p(x) { xs = append(xs[:i], xs[i+1:]...); break } }\<close>:
  it deletes the first match and leaves the order of the rest.
\<close>

fun remove_first :: "('a \<Rightarrow> bool) \<Rightarrow> 'a list \<Rightarrow> 'a list" where
  "remove_first p [] = []"
| "remove_first p (x # xs) = (if p x then xs else x # remove_first p xs)"

lemma remove_first_none: "\<forall>x\<in>set xs. \<not> p x \<Longrightarrow> remove_first p xs = xs"
  by (induction xs) auto

lemma remove_first_append:
  "remove_first p (xs @ ys) =
     (if \<exists>x\<in>set xs. p x then remove_first p xs @ ys else xs @ remove_first p ys)"
  by (induction xs) auto

lemma set_remove_first_subset: "set (remove_first p xs) \<subseteq> set xs"
  by (induction xs) auto

lemma remove_first_keeps: "x \<in> set xs \<Longrightarrow> \<not> p x \<Longrightarrow> x \<in> set (remove_first p xs)"
  by (induction xs) auto

lemma length_remove_first:
  "length (remove_first p xs) = (if \<exists>x\<in>set xs. p x then length xs - 1 else length xs)"
  by (induction xs) (auto simp: Suc_diff_1 split: if_splits dest: length_pos_if_in_set)

lemma distinct_map_remove_first:
  "distinct (map f xs) \<Longrightarrow> distinct (map f (remove_first p xs))"
  by (induction xs) (use set_remove_first_subset in fastforce)+

lemma remove_first_eq_filter:
  "distinct (map f xs) \<Longrightarrow> remove_first (\<lambda>x. f x = k) xs = filter (\<lambda>x. f x \<noteq> k) xs"
proof (induction xs)
  case Nil
  then show ?case by simp
next
  case (Cons x xs)
  show ?case
  proof (cases "f x = k")
    case True
    with Cons.prems have "\<forall>y\<in>set xs. f y \<noteq> k" by (auto simp: image_iff)
    then have "filter (\<lambda>y. f y \<noteq> k) xs = xs"
      by simp
    with True show ?thesis by simp
  qed (use Cons in simp)
qed

lemma mset_image_remove_first_ids:
  "distinct (map f xs) \<Longrightarrow> f ` set (remove_first (\<lambda>x. f x = k) xs) = f ` set xs - {k}"
  by (auto simp: remove_first_eq_filter)

text \<open>A loop that skips some elements and emits one item for each other one.\<close>

lemma concat_map_skip:
  "concat (map (\<lambda>x. if p x then [] else [f x]) xs) = map f (filter (\<lambda>x. \<not> p x) xs)"
  by (induction xs) auto

lemma concat_map_select:
  "concat (map (\<lambda>x. if p x then [f x] else []) xs) = map f (filter p xs)"
  by (induction xs) auto

lemma find_Some_first:
  "List.find p xs = Some x \<Longrightarrow> x \<in> set xs \<and> p x"
  by (induction xs) (auto split: if_splits)

lemma find_unique:
  "distinct (map f xs) \<Longrightarrow> d \<in> set xs \<Longrightarrow> f d = k \<Longrightarrow> List.find (\<lambda>x. f x = k) xs = Some d"
  by (induction xs) (auto simp: image_iff)

lemma find_none: "\<forall>x\<in>set xs. \<not> p x \<Longrightarrow> List.find p xs = None"
  by (induction xs) auto

section \<open>Maps\<close>

text \<open>A Go map of booleans read at a key that may be missing.\<close>

definition map_flag :: "('k \<Rightarrow> bool option) \<Rightarrow> 'k \<Rightarrow> bool" where
  "map_flag m k = (m k = Some True)"

lemma map_flag_update [simp]: "map_flag (m(k \<mapsto> b)) k' = (if k' = k then b else map_flag m k')"
  by (simp add: map_flag_def)

lemma map_flag_empty [simp]: "\<not> map_flag Map.empty k"
  by (simp add: map_flag_def)

end
