(* ===== verification/Go_Strings.thy ===== *)
theory Go_Strings
  imports Prelude
begin

text \<open>
  The functions of Go's standard packages \<open>strings\<close>, \<open>strconv\<close> and \<open>path\<close> that the source calls,
  on strings as byte sequences. Case mapping and white space are the ASCII ones: the strings they
  are applied to are HTTP header fields and DNS names.
\<close>

section \<open>Package strings\<close>

text \<open>\<open>strings.Split(s, sep)\<close> for a separator of one byte: never an empty list.\<close>

fun split_on :: "char \<Rightarrow> string \<Rightarrow> string list" where
  "split_on c [] = [[]]"
| "split_on c (x # xs) =
     (if x = c then [] # split_on c xs
      else (case split_on c xs of [] \<Rightarrow> [[x]] | w # ws \<Rightarrow> (x # w) # ws))"

fun str_join :: "string \<Rightarrow> string list \<Rightarrow> string" where
  "str_join sep [] = []"
| "str_join sep [w] = w"
| "str_join sep (w # v # ws) = w @ sep @ str_join sep (v # ws)"

fun has_prefix :: "string \<Rightarrow> string \<Rightarrow> bool" where
  "has_prefix s [] = True"
| "has_prefix [] (p # ps) = False"
| "has_prefix (x # xs) (p # ps) = (x = p \<and> has_prefix xs ps)"

fun str_contains :: "string \<Rightarrow> string \<Rightarrow> bool" where
  "str_contains [] sub = (sub = [])"
| "str_contains (x # xs) sub = (has_prefix (x # xs) sub \<or> str_contains xs sub)"

definition trim_suffix :: "string \<Rightarrow> string \<Rightarrow> string" where
  "trim_suffix s suf =
     (if has_prefix (rev s) (rev suf) then take (length s - length suf) s else s)"

text \<open>\<open>strings.Trim\<close> for a predicate on bytes.\<close>

definition trim_by :: "(char \<Rightarrow> bool) \<Rightarrow> string \<Rightarrow> string" where
  "trim_by p s = rev (dropWhile p (rev (dropWhile p s)))"

definition is_space :: "char \<Rightarrow> bool" where
  "is_space c = (c \<in> {CHR '' '', CHR 0x09, CHR 0x0A, CHR 0x0B, CHR 0x0C, CHR 0x0D})"

definition trim_space :: "string \<Rightarrow> string" where
  "trim_space s = trim_by is_space s"

definition lower_char :: "char \<Rightarrow> char" where
  "lower_char c =
     (let n = (of_char c :: nat) in if 65 \<le> n \<and> n \<le> 90 then char_of (n + 32) else c)"

definition to_lower :: "string \<Rightarrow> string" where
  "to_lower s = map lower_char s"

definition equal_fold :: "string \<Rightarrow> string \<Rightarrow> bool" where
  "equal_fold s t = (to_lower s = to_lower t)"

text \<open>\<open>strings.FieldsFunc\<close>: the maximal runs of bytes that are not separators.\<close>

fun fields_func :: "(char \<Rightarrow> bool) \<Rightarrow> string \<Rightarrow> string list" where
  "fields_func p [] = []"
| "fields_func p (x # xs) =
     (if p x then fields_func p xs
      else if xs = [] then [[x]]
      else if p (hd xs) then [x] # fields_func p xs
      else (case fields_func p xs of [] \<Rightarrow> [[x]] | w # ws \<Rightarrow> (x # w) # ws))"

lemma has_prefix_iff: "has_prefix s p \<longleftrightarrow> prefix p s"
  by (induction s p rule: has_prefix.induct) auto

lemma str_contains_iff: "str_contains s sub \<longleftrightarrow> (\<exists>a b. s = a @ sub @ b)"
proof (induction s)
  case Nil
  then show ?case by auto
next
  case (Cons x xs)
  have "(\<exists>a b. x # xs = a @ sub @ b) \<longleftrightarrow>
      (\<exists>b. x # xs = sub @ b) \<or> (\<exists>a b. xs = a @ sub @ b)"
    by (metis append_Cons append_eq_Cons_conv eq_Nil_appendI)
  with Cons show ?case
    by (auto simp: has_prefix_iff prefix_def)
qed

lemma split_on_nonempty [simp]: "split_on c s \<noteq> []"
  by (cases s) (auto split: list.splits)

lemma str_join_Cons: "ws \<noteq> [] \<Longrightarrow> str_join sep (w # ws) = w @ sep @ str_join sep ws"
  by (cases ws) auto

lemma str_join_Cons_Cons: "str_join sep ((x # w) # ws) = x # str_join sep (w # ws)"
  by (cases ws) auto

lemma str_join_split_on [simp]: "str_join [c] (split_on c s) = s"
proof (induction s)
  case Nil
  then show ?case by simp
next
  case (Cons x xs)
  then show ?case
    by (cases "split_on c xs") (auto simp: str_join_Cons str_join_Cons_Cons)
qed

lemma split_on_no_sep: "c \<notin> set w \<Longrightarrow> split_on c w = [w]"
  by (induction w) auto

lemma split_on_append_sep:
  "c \<notin> set w \<Longrightarrow> split_on c (w @ c # s) = w # split_on c s"
  by (induction w) auto

lemma split_on_last_sep:
  "c \<notin> set w \<Longrightarrow> split_on c (s @ c # w) = split_on c s @ [w]"
proof (induction s)
  case Nil
  then show ?case by (simp add: split_on_no_sep)
next
  case (Cons x xs)
  then show ?case by (auto split: list.splits)
qed

lemma split_on_str_join:
  "ws \<noteq> [] \<Longrightarrow> \<forall>w\<in>set ws. c \<notin> set w \<Longrightarrow> split_on c (str_join [c] ws) = ws"
proof (induction ws rule: list_nonempty_induct)
  case (single w)
  then show ?case by (simp add: split_on_no_sep)
next
  case (cons w ws)
  then show ?case by (simp add: str_join_Cons split_on_append_sep)
qed

lemma split_on_parts: "w \<in> set (split_on c s) \<Longrightarrow> c \<notin> set w"
  by (induction s arbitrary: w) (auto split: if_splits list.splits)

lemma str_join_snoc:
  "ws \<noteq> [] \<Longrightarrow> str_join sep (ws @ [w]) = str_join sep ws @ sep @ w"
  by (induction ws rule: list_nonempty_induct) (auto simp: str_join_Cons)

lemma str_join_last:
  "ws \<noteq> [] \<Longrightarrow> last ws \<noteq> [] \<Longrightarrow> str_join sep ws \<noteq> [] \<and> last (str_join sep ws) = last (last ws)"
  by (induction ws rule: list_nonempty_induct) (auto simp: str_join_Cons)

lemma fields_func_parts:
  "w \<in> set (fields_func p s) \<Longrightarrow> w \<noteq> [] \<and> (\<forall>c\<in>set w. \<not> p c)"
proof (induction s arbitrary: w)
  case Nil
  then show ?case by simp
next
  case (Cons x xs)
  then show ?case
    by (cases "fields_func p xs") (fastforce split: if_splits)+
qed

lemma fields_func_no_sep: "w \<noteq> [] \<Longrightarrow> \<forall>c\<in>set w. \<not> p c \<Longrightarrow> fields_func p w = [w]"
  by (induction w rule: list_nonempty_induct) (auto simp: neq_Nil_conv)

lemma fields_func_append_sep:
  assumes "w \<noteq> []" and "\<forall>c\<in>set w. \<not> p c" and "p x"
  shows "fields_func p (w @ x # s) = w # fields_func p s"
  using assms(1,2)
proof (induction w rule: list_nonempty_induct)
  case (single y)
  with assms(3) show ?case by simp
next
  case (cons y ys)
  then have "\<not> p (hd (ys @ x # s))" by (cases ys) auto
  with cons show ?case by simp
qed

section \<open>Package strconv\<close>

definition digit_char :: "nat \<Rightarrow> char" where
  "digit_char d = char_of (48 + d)"

definition is_digit :: "char \<Rightarrow> bool" where
  "is_digit c = (48 \<le> (of_char c :: nat) \<and> (of_char c :: nat) \<le> 57)"

definition digit_val :: "char \<Rightarrow> nat" where
  "digit_val c = of_char c - 48"

fun nat_dec :: "nat \<Rightarrow> string" where
  "nat_dec n = (if n < 10 then [digit_char n] else nat_dec (n div 10) @ [digit_char (n mod 10)])"

declare nat_dec.simps [simp del]

definition itoa :: "int \<Rightarrow> string" where
  "itoa i = (if i < 0 then CHR ''-'' # nat_dec (nat (- i)) else nat_dec (nat i))"

definition dec_val :: "string \<Rightarrow> nat" where
  "dec_val s = foldl (\<lambda>n c. 10 * n + digit_val c) 0 s"

text \<open>
  \<open>strconv.Atoi\<close> on a 64-bit target: the value and whether the error is nil. A syntax error gives
  0, a value out of range the nearest bound, both with an error.
\<close>

definition atoi_unsigned :: "bool \<Rightarrow> string \<Rightarrow> int \<times> bool" where
  "atoi_unsigned neg s =
     (if s = [] \<or> \<not> list_all is_digit s then (0, False)
      else let n = int (dec_val s) in
        if neg then (if n > 2 ^ 63 then (min_int, False) else (- n, True))
        else (if n \<ge> 2 ^ 63 then (max_int, False) else (n, True)))"

definition atoi :: "string \<Rightarrow> int \<times> bool" where
  "atoi s =
     (case s of
        [] \<Rightarrow> (0, False)
      | c # cs \<Rightarrow>
          if c = CHR ''-'' then atoi_unsigned True cs
          else if c = CHR ''+'' then atoi_unsigned False cs
          else atoi_unsigned False s)"

lemma is_digit_digit_char: "d < 10 \<Longrightarrow> is_digit (digit_char d)"
  by (simp add: is_digit_def digit_char_def)

lemma digit_val_digit_char [simp]: "d < 10 \<Longrightarrow> digit_val (digit_char d) = d"
  by (simp add: digit_val_def digit_char_def)

lemma dec_val_snoc: "dec_val (s @ [c]) = 10 * dec_val s + digit_val c"
  by (simp add: dec_val_def)

lemma nat_dec_props:
  "nat_dec n \<noteq> [] \<and> list_all is_digit (nat_dec n) \<and> dec_val (nat_dec n) = n"
proof (induction n rule: nat_dec.induct)
  case (1 n)
  show ?case
  proof (cases "n < 10")
    case True
    then show ?thesis
      by (subst (1 2 3) nat_dec.simps) (simp add: is_digit_digit_char dec_val_def)
  next
    case False
    with 1 show ?thesis
      by (subst (1 2 3) nat_dec.simps) (simp add: is_digit_digit_char dec_val_snoc)
  qed
qed

lemma nat_dec_nonempty [simp]: "nat_dec n \<noteq> []"
  and nat_dec_digits [simp]: "list_all is_digit (nat_dec n)"
  and dec_val_nat_dec [simp]: "dec_val (nat_dec n) = n"
  using nat_dec_props by blast+

lemma digit_not_sign: "is_digit c \<Longrightarrow> c \<noteq> CHR ''-'' \<and> c \<noteq> CHR ''+''"
  by (auto simp: is_digit_def)

lemma atoi_itoa [codec_simps]:
  assumes "min_int \<le> i" and "i \<le> max_int"
  shows "atoi (itoa i) = (i, True)"
proof (cases "i < 0")
  case True
  with assms show ?thesis
    by (simp add: atoi_def itoa_def atoi_unsigned_def min_int_def Let_def)
next
  case False
  obtain c cs where eq: "nat_dec (nat i) = c # cs"
    by (cases "nat_dec (nat i)") auto
  moreover have "is_digit c"
    using nat_dec_digits [of "nat i"] eq by simp
  moreover have "dec_val (c # cs) = nat i" and "list_all is_digit (c # cs)"
    using dec_val_nat_dec [of "nat i"] nat_dec_digits [of "nat i"] eq by simp_all
  ultimately show ?thesis
    using False assms digit_not_sign [of c]
    by (simp add: atoi_def itoa_def atoi_unsigned_def max_int_def Let_def)
qed

lemma itoa_inj: "itoa i = itoa j \<Longrightarrow> i = j"
proof -
  assume eq: "itoa i = itoa j"
  have hd: "hd (nat_dec n) \<noteq> CHR ''-''" for n
    using nat_dec_digits [of n] digit_not_sign by (cases "nat_dec n") auto
  have "nat_dec (nat k) \<noteq> CHR ''-'' # s" for k s
    using hd [of "nat k"] by (metis list.sel(1))
  then have "(i < 0) = (j < 0)"
    using eq by (metis itoa_def)
  with eq show ?thesis
    unfolding itoa_def
    by (metis dec_val_nat_dec int_nat_eq list.inject neg_equal_iff_equal not_less
        neg_0_le_iff_le order_less_imp_le)
qed

section \<open>Package path\<close>

text \<open>\<open>path.Base\<close>: the last element of a path, after trailing slashes are removed.\<close>

definition path_base :: "string \<Rightarrow> string" where
  "path_base p =
     (if p = [] then ''.''
      else let q = rev (dropWhile (\<lambda>c. c = CHR ''/'') (rev p)) in
        if q = [] then ''/'' else last (split_on CHR ''/'' q))"

lemma path_base_last:
  assumes "w \<noteq> []" and "CHR ''/'' \<notin> set w"
  shows "path_base (s @ CHR ''/'' # w) = w"
proof -
  obtain v c where w: "w = v @ [c]"
    using assms(1) by (cases w rule: rev_cases) auto
  with assms(2) have "c \<noteq> CHR ''/''" by auto
  with w have "dropWhile (\<lambda>c. c = CHR ''/'') (rev (s @ CHR ''/'' # w)) = rev (s @ CHR ''/'' # w)"
    by simp
  with assms show ?thesis
    by (simp add: path_base_def split_on_last_sep Let_def)
qed

end
