(* ===== verification/Go_Net.thy ===== *)
theory Go_Net
  imports Go_Strings
begin

text \<open>
  \<open>net.IP\<close> as the source uses it: the two text forms and their parsing. None is the nil address.
\<close>

type_synonym ip = "bytes option"

definition v4_prefix :: bytes where
  "v4_prefix = replicate 10 0 @ [255, 255]"

text \<open>\<open>IP.To4\<close>: the four bytes of an IPv4 address in either representation.\<close>

definition to4 :: "bytes \<Rightarrow> bytes option" where
  "to4 b =
     (if length b = 4 then Some b
      else if length b = 16 \<and> take 12 b = v4_prefix then Some (drop 12 b) else None)"

text \<open>Hexadecimal in lower case without leading zeros.\<close>

fun nat_hex :: "nat \<Rightarrow> string" where
  "nat_hex n =
     (let d = char_of (if n mod 16 < 10 then 48 + n mod 16 else 87 + n mod 16) in
      if n < 16 then [d] else nat_hex (n div 16) @ [d])"

declare nat_hex.simps [simp del]

fun groups16 :: "bytes \<Rightarrow> nat list" where
  "groups16 (a # b # r) = (256 * unat a + unat b) # groups16 r"
| "groups16 _ = []"

text \<open>The first longest run of zero groups, as start and length.\<close>

fun zero_run :: "nat \<Rightarrow> nat \<times> nat \<Rightarrow> nat list \<Rightarrow> nat \<times> nat" where
  "zero_run i best [] = best"
| "zero_run i best (g # gs) =
     (let n = length (takeWhile (\<lambda>h. h = 0) (g # gs)) in
      zero_run (Suc i) (if n > snd best then (i, n) else best) gs)"

definition v6_string :: "bytes \<Rightarrow> string" where
  "v6_string b =
     (let gs = groups16 b; (s, n) = zero_run 0 (0, 0) gs; txt = map nat_hex gs in
      if n < 2 then str_join '':'' txt
      else str_join '':'' (take s txt) @ ''::'' @ str_join '':'' (drop (s + n) txt))"

definition ip_string :: "ip \<Rightarrow> string" where
  "ip_string a =
     (case a of
        None \<Rightarrow> ''<nil>''
      | Some b \<Rightarrow>
          (case to4 b of
             Some q \<Rightarrow> str_join ''.'' (map (\<lambda>d. nat_dec (unat d)) q)
           | None \<Rightarrow> if length b = 16 then v6_string b else ''?''))"

text \<open>
  \<open>net.ParseIP\<close> of the dotted form, and of the form with eight groups. The source never parses an
  address with two colons in a row.
\<close>

definition parse_v4 :: "string \<Rightarrow> ip" where
  "parse_v4 s =
     (let ps = split_on CHR ''.'' s in
      if length ps = 4 \<and> list_all (\<lambda>p. p \<noteq> [] \<and> list_all is_digit p \<and> dec_val p \<le> 255) ps
      then Some (v4_prefix @ map (\<lambda>p. word_of_nat (dec_val p)) ps) else None)"

definition hex_digit_val :: "char \<Rightarrow> nat" where
  "hex_digit_val c =
     (let n = (of_char c :: nat) in
      if 48 \<le> n \<and> n \<le> 57 then n - 48 else if 97 \<le> n \<and> n \<le> 102 then n - 87
      else if 65 \<le> n \<and> n \<le> 70 then n - 55 else 16)"

definition hex_num :: "string \<Rightarrow> nat" where
  "hex_num s = foldl (\<lambda>n c. 16 * n + hex_digit_val c) 0 s"

definition parse_v6 :: "string \<Rightarrow> ip" where
  "parse_v6 s =
     (let ps = split_on CHR '':'' s in
      if length ps = 8
         \<and> list_all (\<lambda>p. p \<noteq> [] \<and> list_all (\<lambda>c. hex_digit_val c < 16) p \<and> hex_num p \<le> 65535) ps
      then Some (concat (map (\<lambda>p. [word_of_nat (hex_num p div 256), word_of_nat (hex_num p mod 256)]) ps))
      else None)"

definition parse_ip :: "string \<Rightarrow> ip" where
  "parse_ip s =
     (if CHR ''.'' \<in> set (takeWhile (\<lambda>c. c \<noteq> CHR '':'') s) then parse_v4 s
      else if CHR '':'' \<in> set s then parse_v6 s else None)"

lemma length_v4_prefix [simp]: "length v4_prefix = 12"
  by (simp add: v4_prefix_def)

lemma to4_v4 [simp]: "length q = 4 \<Longrightarrow> to4 (v4_prefix @ q) = Some q"
  by (simp add: to4_def)

lemma ip_string_v4:
  "length q = 4 \<Longrightarrow> ip_string (Some (v4_prefix @ q)) = str_join ''.'' (map (\<lambda>d. nat_dec (unat d)) q)"
  by (simp add: ip_string_def)

lemma nat_dec_no_char: "\<not> is_digit c \<Longrightarrow> c \<notin> set (nat_dec n)"
  using nat_dec_digits [of n] by (auto simp: list_all_iff simp del: nat_dec_digits)

text \<open>Printing an IPv4 address and parsing it gives the address back.\<close>

lemma parse_ip_string_v4 [codec_simps]:
  assumes "length q = 4"
  shows "parse_ip (ip_string (Some (v4_prefix @ q))) = Some (v4_prefix @ q)"
proof -
  let ?ps = "map (\<lambda>d. nat_dec (unat d)) q"
  have nd: "\<not> is_digit (CHR ''.'')" "\<not> is_digit (CHR '':'')"
    by (simp_all add: is_digit_def)
  have p: "split_on CHR ''.'' (str_join ''.'' ?ps) = ?ps"
    using assms nat_dec_no_char [OF nd(1)] by (intro split_on_str_join) auto
  have u: "unat (d :: byte) \<le> 255" for d
    using unsigned_less [of d, where ?'a = nat] by simp
  have "parse_v4 (str_join ''.'' ?ps) = Some (v4_prefix @ q)"
    using assms u nat_dec_digits [unfolded list_all_iff]
    by (simp add: parse_v4_def p list_all_iff comp_def)
  moreover obtain a b r where q: "q = a # b # r"
    using assms by (cases q; cases "tl q") auto
  have c: "set (nat_dec (unat a)) \<inter> {CHR '':''} = {}"
    using nat_dec_no_char [OF nd(2)] by simp
  have "CHR ''.'' \<in> set (takeWhile (\<lambda>c. c \<noteq> CHR '':'') (str_join ''.'' ?ps))"
    using c by (cases r) (auto simp: q takeWhile_append)
  ultimately show ?thesis
    by (simp add: ip_string_v4 [OF assms] parse_ip_def)
qed

end
