(* ===== verification/Dns_Types.thy ===== *)
theory Dns_Types
  imports Go_Net
begin

text \<open>
  \<open>miekg/dns/types.go\<close>, \<open>dns.go\<close>, \<open>msg.go\<close> and \<open>defaults.go\<close>: the data of a DNS message and the functions
  that start a query or a reply. The record types mDNS uses have constructors of their own; any other
  one is an \<open>OtherRR\<close>, the name of its Go type and its fields after the header.
\<close>

type_synonym u16 = "16 word"

definition TypeNone :: u16 where "TypeNone = 0"
definition TypeA :: u16 where "TypeA = 1"
definition TypeSOA :: u16 where "TypeSOA = 6"
definition TypePTR :: u16 where "TypePTR = 12"
definition TypeTXT :: u16 where "TypeTXT = 16"
definition TypeAAAA :: u16 where "TypeAAAA = 28"
definition TypeSRV :: u16 where "TypeSRV = 33"
definition TypeANY :: u16 where "TypeANY = 255"
definition TypeIXFR :: u16 where "TypeIXFR = 251"
definition TypeAXFR :: u16 where "TypeAXFR = 252"
definition ClassINET :: u16 where "ClassINET = 1"

lemmas rr_types =
  TypeNone_def TypeA_def TypeSOA_def TypePTR_def TypeTXT_def TypeAAAA_def TypeSRV_def TypeANY_def
  TypeIXFR_def TypeAXFR_def

definition OpcodeQuery :: int where "OpcodeQuery = 0"
definition OpcodeNotify :: int where "OpcodeNotify = 4"
definition OpcodeUpdate :: int where "OpcodeUpdate = 5"
definition RcodeSuccess :: int where "RcodeSuccess = 0"
definition RcodeFormatError :: int where "RcodeFormatError = 1"

record rr_header =
  RRName :: string
  Rrtype :: u16
  Class :: u16
  Ttl :: "32 word"
  Rdlength :: u16

text \<open>The options of an EDNS0 record, from \<open>edns.go\<close>.\<close>

datatype edns0 =
    EDNS0_NSID string
  | EDNS0_SUBNET u16 byte byte ip bool
  | EDNS0_UL "32 word"
  | EDNS0_LLQ u16 u16 u16 "64 word" "32 word"
  | EDNS0_DAU bytes
  | EDNS0_DHU bytes
  | EDNS0_N3U bytes
  | EDNS0_EXPIRE "32 word"

text \<open>
  The fields of a record as reflection sees them: a value of one of the kinds that occur, or the fields
  of a structure inside.
\<close>

datatype gval =
    VStr string
  | VU8 byte
  | VU16 u16
  | VU32 "32 word"
  | VU64 "64 word"
  | VStrs "string list"
  | VIP ip
  | VU16s "u16 list"
  | VOpts "edns0 list"
  | VStruct "gval list"

datatype rr =
    PTR (rr_hdr: rr_header) string
  | SRV (rr_hdr: rr_header) (srv_prio: u16) (srv_weight: u16) (srv_port: u16) (srv_target: string)
  | TXT (rr_hdr: rr_header) "string list"
  | RR_A (rr_hdr: rr_header) ip
  | RR_AAAA (rr_hdr: rr_header) ip
  | OtherRR (rr_hdr: rr_header) "string \<times> gval list"

record question =
  QName :: string
  Qtype :: u16
  Qclass :: u16

record msg_hdr =
  Id :: u16
  Response :: bool
  Opcode :: int
  Authoritative :: bool
  Truncated :: bool
  RecursionDesired :: bool
  RecursionAvailable :: bool
  Zero :: bool
  AuthenticatedData :: bool
  CheckingDisabled :: bool
  Rcode :: int

record dns_msg = msg_hdr +
  Compress :: bool
  Question :: "question list"
  Answer :: "rr list"
  Ns :: "rr list"
  Extra :: "rr list"

definition new_msg :: dns_msg where
  "new_msg =
     \<lparr>Id = 0, Response = False, Opcode = 0, Authoritative = False, Truncated = False,
      RecursionDesired = False, RecursionAvailable = False, Zero = False, AuthenticatedData = False,
      CheckingDisabled = False, Rcode = 0, Compress = False, Question = [], Answer = [], Ns = [],
      Extra = []\<rparr>"

definition SetReply :: "dns_msg \<Rightarrow> dns_msg \<Rightarrow> dns_msg" where
  "SetReply m request =
     (let m1 = m\<lparr>Id := Id request, RecursionDesired := RecursionDesired request, Response := True,
                 Opcode := OpcodeQuery, Rcode := RcodeSuccess\<rparr> in
      case Question request of [] \<Rightarrow> m1 | q # _ \<Rightarrow> m1\<lparr>Question := [q]\<rparr>)"

text \<open>The identifier is what the variable function \<open>Id\<close> of the package returns.\<close>

definition SetQuestion :: "dns_msg \<Rightarrow> u16 \<Rightarrow> string \<Rightarrow> u16 \<Rightarrow> dns_msg" where
  "SetQuestion m ident z t =
     m\<lparr>Id := ident, RecursionDesired := True,
       Question := [\<lparr>QName = z, Qtype = t, Qclass = ClassINET\<rparr>]\<rparr>"

definition SetNotify :: "dns_msg \<Rightarrow> u16 \<Rightarrow> string \<Rightarrow> dns_msg" where
  "SetNotify m ident z =
     m\<lparr>Opcode := OpcodeNotify, Authoritative := True, Id := ident,
       Question := [\<lparr>QName = z, Qtype = TypeSOA, Qclass = ClassINET\<rparr>]\<rparr>"

definition SetRcode :: "dns_msg \<Rightarrow> dns_msg \<Rightarrow> int \<Rightarrow> dns_msg" where
  "SetRcode m request rcode = (SetReply m request)\<lparr>Rcode := rcode\<rparr>"

definition SetRcodeFormatError :: "dns_msg \<Rightarrow> dns_msg \<Rightarrow> dns_msg" where
  "SetRcodeFormatError m request =
     m\<lparr>Rcode := RcodeFormatError, Opcode := OpcodeQuery, Response := True, Authoritative := False,
       Id := Id request\<rparr>"

definition SetUpdate :: "dns_msg \<Rightarrow> u16 \<Rightarrow> string \<Rightarrow> dns_msg" where
  "SetUpdate m ident z =
     m\<lparr>Id := ident, Response := False, Opcode := OpcodeUpdate, Compress := False,
       Question := [\<lparr>QName = z, Qtype = TypeSOA, Qclass = ClassINET\<rparr>]\<rparr>"

definition SetAxfr :: "dns_msg \<Rightarrow> u16 \<Rightarrow> string \<Rightarrow> dns_msg" where
  "SetAxfr m ident z =
     m\<lparr>Id := ident, Question := [\<lparr>QName = z, Qtype = TypeAXFR, Qclass = ClassINET\<rparr>]\<rparr>"

lemma SetReply_fields [simp]:
  "Id (SetReply m r) = Id r" "Response (SetReply m r)" "Answer (SetReply m r) = Answer m"
  "RecursionDesired (SetReply m r) = RecursionDesired r" "Rcode (SetReply m r) = RcodeSuccess"
  by (simp_all add: SetReply_def Let_def split: list.splits)

lemma SetReply_question:
  "Question m = [] \<Longrightarrow> Question (SetReply m r) = take 1 (Question r)"
  by (simp add: SetReply_def Let_def split: list.splits)

end
