(* ===== verification/Dns_Labels.thy ===== *)
theory Dns_Labels
  imports Dns_Types
begin

text \<open>
  \<open>miekg/dns/labels.go\<close>, the name functions of \<open>defaults.go\<close> and the compression map of \<open>msg.go\<close> that
  counts lengths: where the labels of a name start, and what two names have in common. The lemmas
  show that the scan ends, that its offsets lie in the name, and that on names without escapes the
  functions compute what they are meant to: the list of labels and their common suffix.
\<close>

section \<open>Fully qualified names\<close>

definition IsFqdn :: "string \<Rightarrow> bool" where
  "IsFqdn s = (s \<noteq> [] \<and> last s = CHR ''.'')"

definition Fqdn :: "string \<Rightarrow> string" where
  "Fqdn s = (if IsFqdn s then s else s @ ''.'')"

section \<open>Scanning\<close>

text \<open>The Go slice \<open>s[a:b]\<close>.\<close>

definition go_slice :: "'a list \<Rightarrow> nat \<Rightarrow> nat \<Rightarrow> 'a list" where
  "go_slice s a b = take (b - a) (drop a s)"

text \<open>The loop of \<open>NextLabel\<close> at index \<open>i\<close>.\<close>

function next_label :: "string \<Rightarrow> nat \<Rightarrow> bool \<Rightarrow> nat \<times> bool" where
  "next_label s i quote =
     (if Suc i < length s then
        (if s ! i = CHR 0x5C then next_label s (Suc i) (\<not> quote)
         else if s ! i = CHR ''.'' then
           (if quote then next_label s (Suc i) False else (Suc i, False))
         else next_label s (Suc i) False)
      else (Suc i, True))"
  by auto

termination
  by (relation "measure (\<lambda>(s, i, quote). length s - i)") auto

declare next_label.simps [simp del]

definition NextLabel :: "string \<Rightarrow> nat \<Rightarrow> nat \<times> bool" where
  "NextLabel s offset = next_label s offset False"

lemma next_label_bound:
  "next_label s i quote = (j, False) \<Longrightarrow> i < j \<and> j < length s"
proof (induction s i quote rule: next_label.induct)
  case (1 s i quote)
  from "1.prems" have i: "Suc i < length s"
    by (simp add: next_label.simps [of s i] split: if_splits)
  with 1 show ?case
    by (fastforce simp: next_label.simps [of s i] split: if_splits)
qed

lemma NextLabel_bound: "NextLabel s i = (j, False) \<Longrightarrow> i < j \<and> j < length s"
  by (simp add: NextLabel_def next_label_bound)

text \<open>The loops of \<open>Split\<close> and \<open>CountLabel\<close>.\<close>

function split_loop :: "string \<Rightarrow> nat \<Rightarrow> nat list" where
  "split_loop s off =
     (case NextLabel s off of (off1, end1) \<Rightarrow> if end1 then [] else off1 # split_loop s off1)"
  by auto

termination
  by (relation "measure (\<lambda>(s, off). length s - off)") (auto dest!: NextLabel_bound [OF sym])

function count_loop :: "string \<Rightarrow> nat \<Rightarrow> nat \<Rightarrow> nat" where
  "count_loop s off labels =
     (case NextLabel s off of
        (off1, end1) \<Rightarrow> if end1 then Suc labels else count_loop s off1 (Suc labels))"
  by auto

termination
  by (relation "measure (\<lambda>(s, off, labels). length s - off)") (auto dest!: NextLabel_bound [OF sym])

declare split_loop.simps [simp del] count_loop.simps [simp del]

text \<open>\<open>Split\<close> returns nil for the root: here the empty list, which no other name gives.\<close>

definition Split :: "string \<Rightarrow> nat list" where
  "Split s = (if s = ''.'' then [] else 0 # split_loop s 0)"

definition CountLabel :: "string \<Rightarrow> nat" where
  "CountLabel s = (if s = ''.'' then 0 else count_loop s 0 0)"

text \<open>The slices between consecutive offsets, then the rest: the body of \<open>SplitDomainName\<close>.\<close>

fun cut_labels :: "string \<Rightarrow> nat \<Rightarrow> nat list \<Rightarrow> nat \<Rightarrow> string list" where
  "cut_labels s begin1 [] fqdnEnd = [go_slice s begin1 fqdnEnd]"
| "cut_labels s begin1 (e # es) fqdnEnd = go_slice s begin1 (e - 1) # cut_labels s e es fqdnEnd"

definition SplitDomainName :: "string \<Rightarrow> string list" where
  "SplitDomainName s =
     (if s = [] then []
      else let idx = Split s; fqdnEnd = (if last s = CHR ''.'' then length s - 1 else length s)
           in if idx = [] then [] else cut_labels s 0 (tl idx) fqdnEnd)"

definition PrevLabel :: "string \<Rightarrow> nat \<Rightarrow> nat \<times> bool" where
  "PrevLabel s n =
     (if n = 0 then (length s, False)
      else let lab = Split s in
        if lab = [] \<or> n > length lab then (0, True) else (lab ! (length lab - n), False))"

text \<open>The loop of \<open>CompareDomainName\<close>; \<open>i1\<close> is always \<open>j1 - 1\<close> and \<open>i2\<close> is \<open>j2 - 1\<close>.\<close>

fun compare_loop :: "string \<Rightarrow> nat list \<Rightarrow> nat \<Rightarrow> string \<Rightarrow> nat list \<Rightarrow> nat \<Rightarrow> nat \<Rightarrow> nat" where
  "compare_loop s1 l1 (Suc i1) s2 l2 (Suc i2) n =
     (if go_slice s1 (l1 ! i1) (l1 ! Suc i1) = go_slice s2 (l2 ! i2) (l2 ! Suc i2)
      then compare_loop s1 l1 i1 s2 l2 i2 (Suc n) else n)"
| "compare_loop s1 l1 j1 s2 l2 j2 n = n"

definition CompareDomainName :: "string \<Rightarrow> string \<Rightarrow> nat" where
  "CompareDomainName a b =
     (let s1 = Fqdn a; s2 = Fqdn b; l1 = Split s1; l2 = Split s2 in
      if l1 = [] \<or> l2 = [] then 0
      else let j1 = length l1 - 1; j2 = length l2 - 1 in
        if drop (l1 ! j1) s1 = drop (l2 ! j2) s2 then compare_loop s1 l1 j1 s2 l2 j2 1 else 0)"

definition IsSubDomain :: "string \<Rightarrow> string \<Rightarrow> bool" where
  "IsSubDomain parent child = (CompareDomainName parent child = CountLabel parent)"

section \<open>The compression map of \<open>Len\<close>\<close>

definition compressionLenHelper :: "(string \<rightharpoonup> nat) \<Rightarrow> string \<Rightarrow> (string \<rightharpoonup> nat)" where
  "compressionLenHelper c s =
     foldl (\<lambda>c off. let pref = drop off s in
              if c pref = None then c(pref \<mapsto> length pref) else c) c (rev (Split s))"

function search_loop :: "(string \<rightharpoonup> nat) \<Rightarrow> string \<Rightarrow> nat \<Rightarrow> bool \<Rightarrow> (nat \<times> bool) option" where
  "search_loop c s off end1 =
     (if off > length s then None
      else if c (drop off s) \<noteq> None then Some (length (drop off s), True)
      else if end1 then Some (0, False)
      else case NextLabel s off of (off1, e) \<Rightarrow> search_loop c s off1 e)"
  by auto

lemma next_label_step:
  "Suc i < length s \<Longrightarrow>
   next_label s i quote = (Suc i, False) \<or> (\<exists>q. next_label s i quote = next_label s (Suc i) q)"
  by (subst (1 2) next_label.simps) auto

lemma next_label_end:
  "next_label s i quote = (j, True) \<Longrightarrow> j = (if Suc i < length s then length s else Suc i)"
proof (induction "length s - i" arbitrary: i quote rule: less_induct)
  case less
  show ?case
  proof (cases "Suc i < length s")
    case True
    from next_label_step [OF this, of quote] less.prems
    obtain q where "next_label s (Suc i) q = (j, True)" by auto
    from less.hyps [OF _ this] True have "j = (if Suc (Suc i) < length s then length s else Suc (Suc i))"
      by simp
    with True show ?thesis by (simp split: if_splits)
  qed (use less.prems in \<open>simp add: next_label.simps [of s i]\<close>)
qed

termination search_loop
  by (relation "measure (\<lambda>(c, s, off, e). (if e then 0 else Suc (length s - off)))")
    (auto split: prod.split dest!: NextLabel_bound)

declare search_loop.simps [simp del]

text \<open>
  The slice \<open>s[off:]\<close> panics if the offset is past the end of the name: then the value is None. The
  offset \<open>NextLabel\<close> returns at the end is the length of the name.
\<close>

definition compressionLenSearch :: "(string \<rightharpoonup> nat) \<Rightarrow> string \<Rightarrow> (nat \<times> bool) option" where
  "compressionLenSearch c s = (if s = [] then Some (0, False) else search_loop c s 0 False)"

lemma search_loop_total:
  "off < length s \<or> (end1 \<and> off \<le> length s) \<Longrightarrow> search_loop c s off end1 \<noteq> None"
proof (induction c s off end1 rule: search_loop.induct)
  case (1 c s off end1)
  obtain off1 e where nl: "NextLabel s off = (off1, e)"
    by fastforce
  have off1: "off1 < length s \<or> (e \<and> off1 \<le> length s)" if "off < length s"
  proof (cases e)
    case True
    then show ?thesis
      using nl next_label_end [of s off False off1] that by (auto simp: NextLabel_def)
  next
    case False
    then show ?thesis
      using NextLabel_bound nl by auto
  qed
  show ?case
    using 1 nl off1 by (subst search_loop.simps) (auto simp del: not_None_eq)
qed

lemma compressionLenSearch_total: "compressionLenSearch c s \<noteq> None"
  by (cases "s = []") (use search_loop_total [of 0 s False c] in \<open>auto simp: compressionLenSearch_def\<close>)

section \<open>Plain names\<close>

definition plain_label :: "string \<Rightarrow> bool" where
  "plain_label l = (l \<noteq> [] \<and> CHR ''.'' \<notin> set l \<and> CHR 0x5C \<notin> set l)"

definition dotted :: "string list \<Rightarrow> string" where
  "dotted ls = concat (map (\<lambda>l. l @ ''.'') ls)"

lemma dotted_simps [simp]:
  "dotted [] = []" "dotted (l # ls) = l @ CHR ''.'' # dotted ls" "dotted (xs @ ys) = dotted xs @ dotted ys"
  by (simp_all add: dotted_def)

lemma dotted_eq_Nil [simp]: "dotted ls = [] \<longleftrightarrow> ls = []"
  by (cases ls) simp_all

lemma last_dotted: "ls \<noteq> [] \<Longrightarrow> last (dotted ls) = CHR ''.''"
  by (cases ls rule: rev_cases) simp_all

lemma scan_plain:
  "\<forall>c\<in>set l. c \<noteq> CHR ''.'' \<and> c \<noteq> CHR 0x5C \<Longrightarrow> r \<noteq> [] \<Longrightarrow>
   next_label (pre @ l @ r) (length pre) False = next_label (pre @ l @ r) (length pre + length l) False"
proof (induction l arbitrary: pre)
  case (Cons c l)
  then have "next_label (pre @ (c # l) @ r) (length pre) False = next_label (pre @ (c # l) @ r) (Suc (length pre)) False"
    by (subst next_label.simps) (simp add: nth_append)
  also have "\<dots> = next_label (pre @ (c # l) @ r) (length pre + length (c # l)) False"
    using Cons.IH [of "pre @ [c]"] Cons.prems by simp
  finally show ?case .
qed simp

lemma NextLabel_plain:
  assumes "plain_label l"
  shows "NextLabel (pre @ l @ CHR ''.'' # r) (length pre) = (length pre + length l + 1, r = [])"
proof -
  have "NextLabel (pre @ l @ CHR ''.'' # r) (length pre) =
      next_label (pre @ l @ CHR ''.'' # r) (length pre + length l) False"
    using assms scan_plain [of l "CHR ''.'' # r" pre] by (auto simp: NextLabel_def plain_label_def)
  also have "\<dots> = (length pre + length l + 1, r = [])"
    by (subst next_label.simps) (auto simp: nth_append)
  finally show ?thesis .
qed

lemma split_loop_dotted:
  "\<forall>l\<in>set ls. plain_label l \<Longrightarrow> ls \<noteq> [] \<Longrightarrow>
   split_loop (pre @ dotted ls) (length pre) =
     map (\<lambda>i. length pre + length (dotted (take i ls))) [1..<length ls]"
proof (induction ls arbitrary: pre)
  case (Cons l ls)
  have nl: "NextLabel (pre @ l @ CHR ''.'' # dotted ls) (length pre) = (length pre + length l + 1, ls = [])"
    using NextLabel_plain [of l pre "dotted ls"] Cons.prems by simp
  show ?case
  proof (cases "ls = []")
    case False
    have "split_loop (pre @ dotted (l # ls)) (length (pre @ l @ ''.'')) =
        map (\<lambda>i. length (pre @ l @ ''.'') + length (dotted (take i ls))) [1..<length ls]"
      using Cons.IH [of "pre @ l @ ''.''"] Cons.prems False by simp
    moreover have "[1..<length (l # ls)] = 1 # map Suc [1..<length ls]"
      using False by (simp add: map_Suc_upt upt_conv_Cons Suc_lessI del: upt_Suc)
    ultimately show ?thesis
      using False by (subst split_loop.simps) (simp add: nl comp_def add.assoc del: upt_Suc)
  next
    case True
    with nl show ?thesis by (subst split_loop.simps) simp
  qed
qed simp

lemma dotted_not_root: "\<forall>l\<in>set ls. plain_label l \<Longrightarrow> dotted ls \<noteq> ''.''"
  by (cases ls) (auto simp: plain_label_def append_eq_Cons_conv)

lemma Split_dotted:
  assumes "\<forall>l\<in>set ls. plain_label l" "ls \<noteq> []"
  shows "Split (dotted ls) = map (\<lambda>i. length (dotted (take i ls))) [0..<length ls]"
proof -
  have "[0..<length ls] = 0 # [1..<length ls]"
    using assms(2) by (simp add: upt_conv_Cons)
  with split_loop_dotted [OF assms, of "[]"] dotted_not_root [OF assms(1)] show ?thesis
    by (simp add: Split_def)
qed

lemma go_slice_dotted:
  "i < length ls \<Longrightarrow> go_slice (dotted ls) (length (dotted (take i ls))) (length (dotted (take (Suc i) ls)) - 1) = ls ! i"
  "i < length ls \<Longrightarrow> go_slice (dotted ls) (length (dotted (take i ls))) (length (dotted (take (Suc i) ls))) = ls ! i @ ''.''"
proof -
  assume i: "i < length ls"
  then have "dotted ls = dotted (take i ls) @ (ls ! i) @ CHR ''.'' # dotted (drop (Suc i) ls)"
    by (metis append.assoc append_Cons append_Nil append_take_drop_id dotted_simps(2,3) Cons_nth_drop_Suc)
  moreover have "length (dotted (take (Suc i) ls)) = length (dotted (take i ls)) + length (ls ! i) + 1"
    using i by (simp add: take_Suc_conv_app_nth)
  ultimately show
    "go_slice (dotted ls) (length (dotted (take i ls))) (length (dotted (take (Suc i) ls)) - 1) = ls ! i"
    "go_slice (dotted ls) (length (dotted (take i ls))) (length (dotted (take (Suc i) ls))) = ls ! i @ ''.''"
    by (simp_all add: go_slice_def)
qed

lemma cut_labels_dotted:
  "k < length ls \<Longrightarrow>
   cut_labels (dotted ls) (length (dotted (take k ls)))
     (map (\<lambda>i. length (dotted (take i ls))) [Suc k..<length ls]) (length (dotted ls) - 1) = drop k ls"
proof (induction "length ls - k" arbitrary: k rule: less_induct)
  case less
  show ?case
  proof (cases "Suc k < length ls")
    case True
    then have "[Suc k..<length ls] = Suc k # [Suc (Suc k)..<length ls]"
      by (simp add: upt_conv_Cons)
    then show ?thesis
      using True less.hyps [of "Suc k"] go_slice_dotted(1) [of k ls] by (simp add: Cons_nth_drop_Suc)
  next
    case False
    then have "Suc k = length ls"
      using less.prems by simp
    then show ?thesis
      using go_slice_dotted(1) [of k ls] by (simp add: Cons_nth_drop_Suc [symmetric])
  qed
qed

lemma SplitDomainName_dotted:
  assumes "\<forall>l\<in>set ls. plain_label l"
  shows "SplitDomainName (dotted ls) = ls"
proof (cases "ls = []")
  case False
  have "tl (Split (dotted ls)) = map (\<lambda>i. length (dotted (take i ls))) [Suc 0..<length ls]"
    unfolding Split_dotted [OF assms False] using False by (simp add: upt_conv_Cons)
  then show ?thesis
    using False cut_labels_dotted [of 0 ls] last_dotted [OF False] Split_dotted [OF assms False]
    by (simp add: SplitDomainName_def Let_def)
qed (simp add: SplitDomainName_def)

lemma count_loop_split: "count_loop s off n = Suc (n + length (split_loop s off))"
proof (induction s off n rule: count_loop.induct)
  case (1 s off n)
  then show ?case
    by (subst count_loop.simps, subst split_loop.simps) (auto split: prod.split)
qed

lemma CountLabel_Split: "CountLabel s = length (Split s)"
  by (simp add: CountLabel_def Split_def count_loop_split)

text \<open>The number of labels two names share at their ends.\<close>

definition common_suffix :: "'a list \<Rightarrow> 'a list \<Rightarrow> nat" where
  "common_suffix xs ys = length (takeWhile (\<lambda>(x, y). x = y) (zip (rev xs) (rev ys)))"

lemma compare_loop_dotted:
  assumes "\<forall>l\<in>set xs. plain_label l" "\<forall>l\<in>set ys. plain_label l"
  shows "i < length xs \<Longrightarrow> j < length ys \<Longrightarrow>
    compare_loop (dotted xs) (Split (dotted xs)) i (dotted ys) (Split (dotted ys)) j n =
    n + common_suffix (take i xs) (take j ys)"
proof (induction "dotted xs" "Split (dotted xs)" i "dotted ys" "Split (dotted ys)" j n
    rule: compare_loop.induct)
  case (1 i j n)
  have eq: "go_slice (dotted xs) (Split (dotted xs) ! i) (Split (dotted xs) ! Suc i) = xs ! i @ ''.''"
    "go_slice (dotted ys) (Split (dotted ys) ! j) (Split (dotted ys) ! Suc j) = ys ! j @ ''.''"
    using "1.prems" assms go_slice_dotted(2) [of i xs] go_slice_dotted(2) [of j ys]
    by (cases xs; cases ys; simp add: Split_dotted del: dotted_simps upt_Suc)+
  show ?case
    using 1 eq by (auto simp: common_suffix_def take_Suc_conv_app_nth)
qed (simp_all add: common_suffix_def)

lemma Fqdn_dotted: "ls \<noteq> [] \<Longrightarrow> Fqdn (dotted ls) = dotted ls"
  by (simp add: Fqdn_def IsFqdn_def last_dotted)

lemma CompareDomainName_dotted:
  assumes "\<forall>l\<in>set xs. plain_label l" "\<forall>l\<in>set ys. plain_label l" "xs \<noteq> []" "ys \<noteq> []"
  shows "CompareDomainName (dotted xs) (dotted ys) = common_suffix xs ys"
proof -
  obtain as a where xs: "xs = as @ [a]"
    using assms(3) by (cases xs rule: rev_cases) auto
  obtain bs b where ys: "ys = bs @ [b]"
    using assms(4) by (cases ys rule: rev_cases) auto
  have last: "drop (Split (dotted xs) ! (length xs - 1)) (dotted xs) = a @ ''.''"
    "drop (Split (dotted ys) ! (length ys - 1)) (dotted ys) = b @ ''.''"
    using assms by (simp_all add: Split_dotted) (simp_all add: xs ys)
  have lens: "length (Split (dotted xs)) = length xs" "length (Split (dotted ys)) = length ys"
    using assms by (simp_all add: Split_dotted)
  then have "Split (dotted xs) \<noteq> []" "Split (dotted ys) \<noteq> []"
    using assms(3,4) by auto
  then have "CompareDomainName (dotted xs) (dotted ys) =
      (if a = b then 1 + common_suffix as bs else 0)"
    using assms last lens compare_loop_dotted [OF assms(1,2), of "length xs - 1" "length ys - 1" 1]
    by (simp add: CompareDomainName_def Fqdn_dotted Let_def) (simp add: xs ys)
  then show ?thesis
    by (simp add: xs ys common_suffix_def)
qed

lemma common_suffix_all: "common_suffix xs ys = length xs \<longleftrightarrow> (\<exists>zs. ys = zs @ xs)"
proof -
  have "length (takeWhile (\<lambda>(x, y). x = y) (zip as bs)) = length as \<longleftrightarrow> (\<exists>cs. bs = as @ cs)"
    for as bs :: "'a list"
    by (induction as bs rule: list_induct2') auto
  from this [of "rev xs" "rev ys"] show ?thesis
    unfolding common_suffix_def by (simp, metis rev_append rev_rev_ident)
qed

lemma IsSubDomain_dotted:
  assumes "\<forall>l\<in>set ps. plain_label l" "\<forall>l\<in>set cs. plain_label l" "ps \<noteq> []" "cs \<noteq> []"
  shows "IsSubDomain (dotted ps) (dotted cs) \<longleftrightarrow> (\<exists>pre. cs = pre @ ps)"
  using CompareDomainName_dotted [OF assms] assms
  by (simp add: IsSubDomain_def CountLabel_Split Split_dotted common_suffix_all)

end
