(* ===== verification/Dns_Names.thy ===== *)
theory Dns_Names
  imports Dns_Labels
begin

text \<open>
  Domain names on the wire, from \<open>miekg/dns/msg.go\<close>: \<open>packDomainName\<close>, which rewrites the escapes of the
  text in place while it copies labels to the buffer, and \<open>UnpackDomainName\<close>, which follows compression
  pointers. An access outside the buffer is a panic.
\<close>

unbundle bit_operations_syntax

datatype dns_error = ErrBuf | ErrFqdn | ErrRdata | ErrRcode | ErrExtendedRcode | DnsError string | OtherError string

definition maxCompressionOffset :: nat where "maxCompressionOffset = 2 * 2 ^ 13"

definition dddToByte :: "string \<Rightarrow> char" where
  "dddToByte s =
     char_of ((of_char (s ! 0) - 48) * 100 + (of_char (s ! 1) - 48) * 10 + (of_char (s ! 2) - 48) :: nat)"

section \<open>Packing a name\<close>

text \<open>
  The variables of the loop of \<open>packDomainName\<close>. \<open>pk_bs\<close> is the array, which keeps its length; the name
  is its first \<open>pk_ls\<close> characters. \<open>pk_pointer\<close> is \<open>(pointer, nameoffset)\<close> once a suffix was found in the
  map.
\<close>

record packing =
  pk_i :: nat
  pk_ls :: nat
  pk_bs :: string
  pk_off :: nat
  pk_labels :: nat
  pk_begin :: nat
  pk_ro :: string
  pk_fresh :: bool
  pk_escaped :: bool
  pk_msg :: "bytes option"
  pk_map :: "string \<rightharpoonup> nat"
  pk_pointer :: "(nat \<times> nat) option"

text \<open>The loops that move the characters behind an escape to the left.\<close>

definition shift_left :: "string \<Rightarrow> nat \<Rightarrow> nat \<Rightarrow> string" where
  "shift_left bs i ls = take i bs @ go_slice bs (Suc i) ls @ drop (ls - 1) bs"

definition shift_left2 :: "string \<Rightarrow> nat \<Rightarrow> nat \<Rightarrow> string" where
  "shift_left2 bs i ls = take (Suc i) bs @ go_slice bs (i + 3) ls @ drop (ls - 2) bs"

definition escape_step :: "nat \<Rightarrow> packing \<Rightarrow> dns_error + packing" where
  "escape_step lenmsg st =
     (let i = pk_i st; bs = shift_left (pk_bs st) i (pk_ls st); ls = pk_ls st - 1 in
      if pk_off st + 1 > lenmsg then Inl ErrBuf
      else let (bs2, ls2) =
             (if i + 2 < ls \<and> is_digit (bs ! i) \<and> is_digit (bs ! (i + 1)) \<and> is_digit (bs ! (i + 2))
              then (shift_left2 (bs[i := dddToByte (drop i bs)]) i ls, ls - 2)
              else if bs ! i = CHR ''t'' then (bs[i := CHR 0x09], ls)
              else if bs ! i = CHR ''r'' then (bs[i := CHR 0x0D], ls)
              else if bs ! i = CHR ''n'' then (bs[i := CHR 0x0A], ls)
              else (bs, ls))
           in Inr (st\<lparr>pk_i := i + 1, pk_ls := ls2, pk_bs := bs2, pk_escaped := (bs2 ! i = CHR ''.''),
                      pk_fresh := False\<rparr>))"

text \<open>The length byte and the label, written at the offset; the check is before each byte.\<close>

definition put_label :: "bytes option \<Rightarrow> nat \<Rightarrow> string \<Rightarrow> bytes option" where
  "put_label msg off l =
     map_option (\<lambda>m. take off m @ (word_of_nat (length l) # bytes_of l) @ drop (off + 1 + length l) m) msg"

definition dot_step :: "nat \<Rightarrow> bool \<Rightarrow> packing \<Rightarrow> dns_error + packing" where
  "dot_step lenmsg compress st =
     (let i = pk_i st; bs = pk_bs st; off = pk_off st; l = go_slice bs (pk_begin st) i in
      if i > 0 \<and> bs ! (i - 1) = CHR ''.'' \<and> \<not> pk_escaped st then Inl ErrRdata
      else if i - pk_begin st \<ge> 64 then Inl ErrRdata
      else if off + 1 + (i - pk_begin st) > lenmsg then Inl ErrBuf
      else
        let st1 = st\<lparr>pk_msg := put_label (pk_msg st) off l, pk_off := off + 1 + (i - pk_begin st)\<rparr>;
            st2 = (if compress \<and> \<not> pk_fresh st1 then st1\<lparr>pk_ro := bs, pk_fresh := True\<rparr> else st1);
            key = drop (pk_begin st2) (pk_ro st2)
        in if compress \<and> key \<noteq> ''.'' \<and> pk_map st2 key \<noteq> None
           then Inr (st2\<lparr>pk_pointer := Some (the (pk_map st2 key), off)\<rparr>)
           else Inr (st2\<lparr>pk_map := (if compress \<and> key \<noteq> ''.'' \<and> off < maxCompressionOffset
                                   then (pk_map st2)(key \<mapsto> off) else pk_map st2),
                         pk_labels := pk_labels st2 + 1, pk_begin := i + 1, pk_escaped := False,
                         pk_i := i + 1\<rparr>))"

definition pack_step :: "nat \<Rightarrow> bool \<Rightarrow> packing \<Rightarrow> dns_error + packing" where
  "pack_step lenmsg compress st =
     (if pk_bs st ! pk_i st = CHR 0x5C then escape_step lenmsg st
      else if pk_bs st ! pk_i st = CHR ''.'' then dot_step lenmsg compress st
      else Inr (st\<lparr>pk_escaped := False, pk_i := pk_i st + 1\<rparr>))"

lemma pack_step_progress:
  "pack_step lenmsg compress st = Inr st1 \<Longrightarrow> pk_i st < pk_ls st \<Longrightarrow> pk_pointer st1 = None \<Longrightarrow>
   pk_ls st1 - pk_i st1 < pk_ls st - pk_i st"
  by (auto simp: pack_step_def escape_step_def dot_step_def Let_def split: if_splits)

function pack_loop :: "nat \<Rightarrow> bool \<Rightarrow> packing \<Rightarrow> dns_error + packing" where
  "pack_loop lenmsg compress st =
     (if pk_i st \<ge> pk_ls st then Inr st
      else case pack_step lenmsg compress st of
        Inl e \<Rightarrow> Inl e
      | Inr st1 \<Rightarrow> if pk_pointer st1 \<noteq> None then Inr st1 else pack_loop lenmsg compress st1)"
  by auto

termination
  by (relation "measure (\<lambda>(lenmsg, compress, st). pk_ls st - pk_i st)")
    (auto dest!: pack_step_progress simp del: not_None_eq)

declare pack_loop.simps [simp del]

text \<open>The end of \<open>packDomainName\<close>: a pointer or the terminating zero. None is a panic.\<close>

definition pack_end :: "packing \<Rightarrow> (nat \<times> nat \<times> bytes option \<times> (string \<rightharpoonup> nat)) option" where
  "pack_end st =
     (if pk_bs st = ''.'' then Some (pk_off st, pk_labels st, pk_msg st, pk_map st)
      else case pk_pointer st of
        Some (p, at) \<Rightarrow>
          (case pk_msg st of
             None \<Rightarrow> None
           | Some m \<Rightarrow>
               if at + 1 < length m
               then Some (at + 2, pk_labels st,
                 Some (take at m @ be_bytes 2 (unat ((word_of_nat p :: u16) XOR 0xC000)) @ drop (at + 2) m),
                 pk_map st)
               else None)
      | None \<Rightarrow>
          (case pk_msg st of
             None \<Rightarrow> Some (pk_off st + 1, pk_labels st, None, pk_map st)
           | Some m \<Rightarrow>
               if pk_off st < length m
               then Some (pk_off st + 1, pk_labels st, Some (m[pk_off st := 0]), pk_map st)
               else None))"

definition packDomainName ::
  "string \<Rightarrow> bytes option \<Rightarrow> nat \<Rightarrow> (string \<rightharpoonup> nat) \<Rightarrow> bool \<Rightarrow>
     (dns_error + nat \<times> nat \<times> bytes option \<times> (string \<rightharpoonup> nat)) option" where
  "packDomainName s msg off m compress =
     (let lenmsg = (case msg of None \<Rightarrow> 256 | Some b \<Rightarrow> length b) in
      if s = [] then Some (Inr (off, 0, msg, m))
      else if msg \<noteq> None \<and> last s \<noteq> CHR ''.'' then Some (Inl ErrFqdn)
      else
        let t = (if last s \<noteq> CHR ''.'' then s @ ''.'' else s) in
        case pack_loop lenmsg compress
               \<lparr>pk_i = 0, pk_ls = length t, pk_bs = t, pk_off = off, pk_labels = 0, pk_begin = 0,
                pk_ro = t, pk_fresh = True, pk_escaped = False, pk_msg = msg, pk_map = m,
                pk_pointer = None\<rparr> of
          Inl e \<Rightarrow> Some (Inl e)
        | Inr st \<Rightarrow> map_option Inr (pack_end st))"

text \<open>\<open>IsDomainName\<close>: the number of labels, and whether the name is valid.\<close>

definition IsDomainName :: "string \<Rightarrow> (nat \<times> bool) option" where
  "IsDomainName s =
     (case packDomainName s None 0 Map.empty False of
        None \<Rightarrow> None
      | Some (Inl e) \<Rightarrow> Some (0, False)
      | Some (Inr (off, labels, r)) \<Rightarrow> Some (labels, True))"

section \<open>Unpacking a name\<close>

definition pad3 :: "nat \<Rightarrow> string" where
  "pad3 n = (let d = nat_dec n in replicate (3 - length d) (CHR ''0'') @ d)"

definition escape_char :: "char \<Rightarrow> string" where
  "escape_char b =
     (if b \<in> set ''.();@ '' \<or> b = CHR 0x22 \<or> b = CHR 0x5C then [CHR 0x5C, b]
      else if b = CHR 0x09 then [CHR 0x5C, CHR ''t'']
      else if b = CHR 0x0D then [CHR 0x5C, CHR ''r'']
      else if (of_char b :: nat) < 32 \<or> (of_char b :: nat) \<ge> 127 then CHR 0x5C # pad3 (of_char b)
      else [b])"

text \<open>
  The loop of \<open>UnpackDomainName\<close>. It returns the name and the offset behind it; \<open>off1\<close> is the offset
  behind the first pointer, once one was followed.
\<close>

function unpack_loop :: "bytes \<Rightarrow> nat \<Rightarrow> string \<Rightarrow> nat \<Rightarrow> nat \<Rightarrow> dns_error + string \<times> nat" where
  "unpack_loop msg off s ptr off1 =
     (if off \<ge> length msg then Inl ErrBuf
      else let c = unat (msg ! off); kind = unat (msg ! off AND 0xC0) in
        if kind = 0 then
          (if c = 0 then (if s = [] then Inr (''.'', off + 1)
                          else Inr (s, if ptr = 0 then off + 1 else off1))
           else if off + 1 + c > length msg then Inl ErrBuf
           else unpack_loop msg (off + 1 + c)
                  (s @ concat (map escape_char (string_of (go_slice msg (off + 1) (off + 1 + c)))) @ ''.'')
                  ptr off1)
        else if kind = 0xC0 then
          (if off + 1 \<ge> length msg then Inl ErrBuf
           else if ptr + 1 > 10 then Inl (DnsError ''too many compression pointers'')
           else unpack_loop msg (256 * (c - 0xC0) + unat (msg ! (off + 1))) s (ptr + 1)
                  (if ptr = 0 then off + 2 else off1))
        else Inl ErrRdata)"
  by auto

termination
  by (relation "measures [\<lambda>(msg, off, s, ptr, off1). 11 - ptr,
                          \<lambda>(msg, off, s, ptr, off1). length msg - off]") auto

declare unpack_loop.simps [simp del]

definition UnpackDomainName :: "bytes \<Rightarrow> nat \<Rightarrow> dns_error + string \<times> nat" where
  "UnpackDomainName msg off = unpack_loop msg off [] 0 0"

end
