(* ===== verification/Dns_Layout.thy ===== *)
theory Dns_Layout
  imports Dns_Names
begin

text \<open>
  What reflection sees of the structures of \<open>miekg/dns/types.go\<close>, \<open>edns.go\<close> and \<open>tsig.go\<close>: the names, tags
  and kinds of their fields in order, and the table \<open>typeToRR\<close> from type codes to structures. Packing and
  unpacking walk over these lists. \<open>PrivateRR\<close>, whose field is an interface, is left out: it is made only by
  a program that registers a type of its own.
\<close>

section \<open>Type codes\<close>

definition TypeNS :: u16 where "TypeNS = 2"
definition TypeMD :: u16 where "TypeMD = 3"
definition TypeMF :: u16 where "TypeMF = 4"
definition TypeCNAME :: u16 where "TypeCNAME = 5"
definition TypeMB :: u16 where "TypeMB = 7"
definition TypeMG :: u16 where "TypeMG = 8"
definition TypeMR :: u16 where "TypeMR = 9"
definition TypeNULL :: u16 where "TypeNULL = 10"
definition TypeWKS :: u16 where "TypeWKS = 11"
definition TypeHINFO :: u16 where "TypeHINFO = 13"
definition TypeMINFO :: u16 where "TypeMINFO = 14"
definition TypeMX :: u16 where "TypeMX = 15"
definition TypeRP :: u16 where "TypeRP = 17"
definition TypeAFSDB :: u16 where "TypeAFSDB = 18"
definition TypeX25 :: u16 where "TypeX25 = 19"
definition TypeISDN :: u16 where "TypeISDN = 20"
definition TypeRT :: u16 where "TypeRT = 21"
definition TypeNSAP :: u16 where "TypeNSAP = 22"
definition TypeNSAPPTR :: u16 where "TypeNSAPPTR = 23"
definition TypeSIG :: u16 where "TypeSIG = 24"
definition TypeKEY :: u16 where "TypeKEY = 25"
definition TypePX :: u16 where "TypePX = 26"
definition TypeGPOS :: u16 where "TypeGPOS = 27"
definition TypeLOC :: u16 where "TypeLOC = 29"
definition TypeNXT :: u16 where "TypeNXT = 30"
definition TypeEID :: u16 where "TypeEID = 31"
definition TypeNIMLOC :: u16 where "TypeNIMLOC = 32"
definition TypeATMA :: u16 where "TypeATMA = 34"
definition TypeNAPTR :: u16 where "TypeNAPTR = 35"
definition TypeKX :: u16 where "TypeKX = 36"
definition TypeCERT :: u16 where "TypeCERT = 37"
definition TypeDNAME :: u16 where "TypeDNAME = 39"
definition TypeOPT :: u16 where "TypeOPT = 41"
definition TypeDS :: u16 where "TypeDS = 43"
definition TypeSSHFP :: u16 where "TypeSSHFP = 44"
definition TypeIPSECKEY :: u16 where "TypeIPSECKEY = 45"
definition TypeRRSIG :: u16 where "TypeRRSIG = 46"
definition TypeNSEC :: u16 where "TypeNSEC = 47"
definition TypeDNSKEY :: u16 where "TypeDNSKEY = 48"
definition TypeDHCID :: u16 where "TypeDHCID = 49"
definition TypeNSEC3 :: u16 where "TypeNSEC3 = 50"
definition TypeNSEC3PARAM :: u16 where "TypeNSEC3PARAM = 51"
definition TypeTLSA :: u16 where "TypeTLSA = 52"
definition TypeHIP :: u16 where "TypeHIP = 55"
definition TypeNINFO :: u16 where "TypeNINFO = 56"
definition TypeRKEY :: u16 where "TypeRKEY = 57"
definition TypeTALINK :: u16 where "TypeTALINK = 58"
definition TypeCDS :: u16 where "TypeCDS = 59"
definition TypeCDNSKEY :: u16 where "TypeCDNSKEY = 60"
definition TypeOPENPGPKEY :: u16 where "TypeOPENPGPKEY = 61"
definition TypeSPF :: u16 where "TypeSPF = 99"
definition TypeUINFO :: u16 where "TypeUINFO = 100"
definition TypeUID :: u16 where "TypeUID = 101"
definition TypeGID :: u16 where "TypeGID = 102"
definition TypeUNSPEC :: u16 where "TypeUNSPEC = 103"
definition TypeNID :: u16 where "TypeNID = 104"
definition TypeL32 :: u16 where "TypeL32 = 105"
definition TypeL64 :: u16 where "TypeL64 = 106"
definition TypeLP :: u16 where "TypeLP = 107"
definition TypeEUI48 :: u16 where "TypeEUI48 = 108"
definition TypeEUI64 :: u16 where "TypeEUI64 = 109"
definition TypeTKEY :: u16 where "TypeTKEY = 249"
definition TypeTSIG :: u16 where "TypeTSIG = 250"
definition TypeMAILB :: u16 where "TypeMAILB = 253"
definition TypeMAILA :: u16 where "TypeMAILA = 254"
definition TypeURI :: u16 where "TypeURI = 256"
definition TypeCAA :: u16 where "TypeCAA = 257"
definition TypeTA :: u16 where "TypeTA = 32768"
definition TypeDLV :: u16 where "TypeDLV = 32769"
definition TypeReserved :: u16 where "TypeReserved = 65535"

lemmas type_codes =
  rr_types TypeNS_def TypeMD_def TypeMF_def TypeCNAME_def TypeMB_def TypeMG_def TypeMR_def TypeNULL_def
  TypeWKS_def TypeHINFO_def TypeMINFO_def TypeMX_def TypeRP_def TypeAFSDB_def TypeX25_def TypeISDN_def
  TypeRT_def TypeNSAP_def TypeNSAPPTR_def TypeSIG_def TypeKEY_def TypePX_def TypeGPOS_def TypeLOC_def
  TypeNXT_def TypeEID_def TypeNIMLOC_def TypeATMA_def TypeNAPTR_def TypeKX_def TypeCERT_def
  TypeDNAME_def TypeOPT_def TypeDS_def TypeSSHFP_def TypeIPSECKEY_def TypeRRSIG_def TypeNSEC_def
  TypeDNSKEY_def TypeDHCID_def TypeNSEC3_def TypeNSEC3PARAM_def TypeTLSA_def TypeHIP_def TypeNINFO_def
  TypeRKEY_def TypeTALINK_def TypeCDS_def TypeCDNSKEY_def TypeOPENPGPKEY_def TypeSPF_def TypeUINFO_def
  TypeUID_def TypeGID_def TypeUNSPEC_def TypeNID_def TypeL32_def TypeL64_def TypeLP_def TypeEUI48_def
  TypeEUI64_def TypeTKEY_def TypeTSIG_def TypeMAILB_def TypeMAILA_def TypeURI_def TypeCAA_def
  TypeTA_def TypeDLV_def TypeReserved_def

section \<open>Fields\<close>

text \<open>
  The kinds that \<open>reflect\<close> tells apart, with the element type of a slice; \<open>KStruct\<close> has the name of the
  structure inside.
\<close>

datatype gkind =
    KUint8
  | KUint16
  | KUint32
  | KUint64
  | KString
  | KStrings
  | KIP
  | KUint16s
  | KOpts
  | KStruct string "gfield list"
and gfield = Field string string gkind

section \<open>Structures\<close>

definition layout_RR_Header :: "gfield list" where
  "layout_RR_Header =
     [Field ''Name'' ''cdomain-name'' KString,
      Field ''Rrtype'' [] KUint16,
      Field ''Class'' [] KUint16,
      Field ''Ttl'' [] KUint32,
      Field ''Rdlength'' [] KUint16]"

definition layout_Header :: "gfield list" where
  "layout_Header =
     [Field ''Id'' [] KUint16,
      Field ''Bits'' [] KUint16,
      Field ''Qdcount'' [] KUint16,
      Field ''Ancount'' [] KUint16,
      Field ''Nscount'' [] KUint16,
      Field ''Arcount'' [] KUint16]"

definition layout_Question :: "gfield list" where
  "layout_Question =
     [Field ''Name'' ''cdomain-name'' KString,
      Field ''Qtype'' [] KUint16,
      Field ''Qclass'' [] KUint16]"

definition layout_RRSIG :: "gfield list" where
  "layout_RRSIG =
     [Field ''Hdr'' [] (KStruct ''RR_Header'' layout_RR_Header),
      Field ''TypeCovered'' [] KUint16,
      Field ''Algorithm'' [] KUint8,
      Field ''Labels'' [] KUint8,
      Field ''OrigTtl'' [] KUint32,
      Field ''Expiration'' [] KUint32,
      Field ''Inception'' [] KUint32,
      Field ''KeyTag'' [] KUint16,
      Field ''SignerName'' ''domain-name'' KString,
      Field ''Signature'' ''base64'' KString]"

definition layout_DS :: "gfield list" where
  "layout_DS =
     [Field ''Hdr'' [] (KStruct ''RR_Header'' layout_RR_Header),
      Field ''KeyTag'' [] KUint16,
      Field ''Algorithm'' [] KUint8,
      Field ''DigestType'' [] KUint8,
      Field ''Digest'' ''hex'' KString]"

definition layout_DNSKEY :: "gfield list" where
  "layout_DNSKEY =
     [Field ''Hdr'' [] (KStruct ''RR_Header'' layout_RR_Header),
      Field ''Flags'' [] KUint16,
      Field ''Protocol'' [] KUint8,
      Field ''Algorithm'' [] KUint8,
      Field ''PublicKey'' ''base64'' KString]"

definition layout_A :: "gfield list" where
  "layout_A =
     [Field ''Hdr'' [] (KStruct ''RR_Header'' layout_RR_Header),
      Field ''A'' ''a'' KIP]"

definition layout_AAAA :: "gfield list" where
  "layout_AAAA =
     [Field ''Hdr'' [] (KStruct ''RR_Header'' layout_RR_Header),
      Field ''AAAA'' ''aaaa'' KIP]"

definition layout_AFSDB :: "gfield list" where
  "layout_AFSDB =
     [Field ''Hdr'' [] (KStruct ''RR_Header'' layout_RR_Header),
      Field ''Subtype'' [] KUint16,
      Field ''Hostname'' ''cdomain-name'' KString]"

definition layout_ANY :: "gfield list" where
  "layout_ANY =
     [Field ''Hdr'' [] (KStruct ''RR_Header'' layout_RR_Header)]"

definition layout_CDNSKEY :: "gfield list" where
  "layout_CDNSKEY =
     [Field ''DNSKEY'' [] (KStruct ''DNSKEY'' layout_DNSKEY)]"

definition layout_CDS :: "gfield list" where
  "layout_CDS =
     [Field ''DS'' [] (KStruct ''DS'' layout_DS)]"

definition layout_CERT :: "gfield list" where
  "layout_CERT =
     [Field ''Hdr'' [] (KStruct ''RR_Header'' layout_RR_Header),
      Field ''Type'' [] KUint16,
      Field ''KeyTag'' [] KUint16,
      Field ''Algorithm'' [] KUint8,
      Field ''Certificate'' ''base64'' KString]"

definition layout_CNAME :: "gfield list" where
  "layout_CNAME =
     [Field ''Hdr'' [] (KStruct ''RR_Header'' layout_RR_Header),
      Field ''Target'' ''cdomain-name'' KString]"

definition layout_DHCID :: "gfield list" where
  "layout_DHCID =
     [Field ''Hdr'' [] (KStruct ''RR_Header'' layout_RR_Header),
      Field ''Digest'' ''base64'' KString]"

definition layout_DLV :: "gfield list" where
  "layout_DLV =
     [Field ''DS'' [] (KStruct ''DS'' layout_DS)]"

definition layout_DNAME :: "gfield list" where
  "layout_DNAME =
     [Field ''Hdr'' [] (KStruct ''RR_Header'' layout_RR_Header),
      Field ''Target'' ''domain-name'' KString]"

definition layout_EID :: "gfield list" where
  "layout_EID =
     [Field ''Hdr'' [] (KStruct ''RR_Header'' layout_RR_Header),
      Field ''Endpoint'' ''hex'' KString]"

definition layout_EUI48 :: "gfield list" where
  "layout_EUI48 =
     [Field ''Hdr'' [] (KStruct ''RR_Header'' layout_RR_Header),
      Field ''Address'' ''uint48'' KUint64]"

definition layout_EUI64 :: "gfield list" where
  "layout_EUI64 =
     [Field ''Hdr'' [] (KStruct ''RR_Header'' layout_RR_Header),
      Field ''Address'' [] KUint64]"

definition layout_GID :: "gfield list" where
  "layout_GID =
     [Field ''Hdr'' [] (KStruct ''RR_Header'' layout_RR_Header),
      Field ''Gid'' [] KUint32]"

definition layout_GPOS :: "gfield list" where
  "layout_GPOS =
     [Field ''Hdr'' [] (KStruct ''RR_Header'' layout_RR_Header),
      Field ''Longitude'' [] KString,
      Field ''Latitude'' [] KString,
      Field ''Altitude'' [] KString]"

definition layout_HINFO :: "gfield list" where
  "layout_HINFO =
     [Field ''Hdr'' [] (KStruct ''RR_Header'' layout_RR_Header),
      Field ''Cpu'' [] KString,
      Field ''Os'' [] KString]"

definition layout_HIP :: "gfield list" where
  "layout_HIP =
     [Field ''Hdr'' [] (KStruct ''RR_Header'' layout_RR_Header),
      Field ''HitLength'' [] KUint8,
      Field ''PublicKeyAlgorithm'' [] KUint8,
      Field ''PublicKeyLength'' [] KUint16,
      Field ''Hit'' ''hex'' KString,
      Field ''PublicKey'' ''base64'' KString,
      Field ''RendezvousServers'' ''domain-name'' KStrings]"

definition layout_IPSECKEY :: "gfield list" where
  "layout_IPSECKEY =
     [Field ''Hdr'' [] (KStruct ''RR_Header'' layout_RR_Header),
      Field ''Precedence'' [] KUint8,
      Field ''GatewayType'' [] KUint8,
      Field ''Algorithm'' [] KUint8,
      Field ''Gateway'' ''ipseckey'' KString,
      Field ''PublicKey'' ''base64'' KString]"

definition layout_KEY :: "gfield list" where
  "layout_KEY =
     [Field ''DNSKEY'' [] (KStruct ''DNSKEY'' layout_DNSKEY)]"

definition layout_KX :: "gfield list" where
  "layout_KX =
     [Field ''Hdr'' [] (KStruct ''RR_Header'' layout_RR_Header),
      Field ''Preference'' [] KUint16,
      Field ''Exchanger'' ''domain-name'' KString]"

definition layout_L32 :: "gfield list" where
  "layout_L32 =
     [Field ''Hdr'' [] (KStruct ''RR_Header'' layout_RR_Header),
      Field ''Preference'' [] KUint16,
      Field ''Locator32'' ''a'' KIP]"

definition layout_L64 :: "gfield list" where
  "layout_L64 =
     [Field ''Hdr'' [] (KStruct ''RR_Header'' layout_RR_Header),
      Field ''Preference'' [] KUint16,
      Field ''Locator64'' [] KUint64]"

definition layout_LOC :: "gfield list" where
  "layout_LOC =
     [Field ''Hdr'' [] (KStruct ''RR_Header'' layout_RR_Header),
      Field ''Version'' [] KUint8,
      Field ''Size'' [] KUint8,
      Field ''HorizPre'' [] KUint8,
      Field ''VertPre'' [] KUint8,
      Field ''Latitude'' [] KUint32,
      Field ''Longitude'' [] KUint32,
      Field ''Altitude'' [] KUint32]"

definition layout_LP :: "gfield list" where
  "layout_LP =
     [Field ''Hdr'' [] (KStruct ''RR_Header'' layout_RR_Header),
      Field ''Preference'' [] KUint16,
      Field ''Fqdn'' ''domain-name'' KString]"

definition layout_MB :: "gfield list" where
  "layout_MB =
     [Field ''Hdr'' [] (KStruct ''RR_Header'' layout_RR_Header),
      Field ''Mb'' ''cdomain-name'' KString]"

definition layout_MD :: "gfield list" where
  "layout_MD =
     [Field ''Hdr'' [] (KStruct ''RR_Header'' layout_RR_Header),
      Field ''Md'' ''cdomain-name'' KString]"

definition layout_MF :: "gfield list" where
  "layout_MF =
     [Field ''Hdr'' [] (KStruct ''RR_Header'' layout_RR_Header),
      Field ''Mf'' ''cdomain-name'' KString]"

definition layout_MG :: "gfield list" where
  "layout_MG =
     [Field ''Hdr'' [] (KStruct ''RR_Header'' layout_RR_Header),
      Field ''Mg'' ''cdomain-name'' KString]"

definition layout_MINFO :: "gfield list" where
  "layout_MINFO =
     [Field ''Hdr'' [] (KStruct ''RR_Header'' layout_RR_Header),
      Field ''Rmail'' ''cdomain-name'' KString,
      Field ''Email'' ''cdomain-name'' KString]"

definition layout_MR :: "gfield list" where
  "layout_MR =
     [Field ''Hdr'' [] (KStruct ''RR_Header'' layout_RR_Header),
      Field ''Mr'' ''cdomain-name'' KString]"

definition layout_MX :: "gfield list" where
  "layout_MX =
     [Field ''Hdr'' [] (KStruct ''RR_Header'' layout_RR_Header),
      Field ''Preference'' [] KUint16,
      Field ''Mx'' ''cdomain-name'' KString]"

definition layout_NAPTR :: "gfield list" where
  "layout_NAPTR =
     [Field ''Hdr'' [] (KStruct ''RR_Header'' layout_RR_Header),
      Field ''Order'' [] KUint16,
      Field ''Preference'' [] KUint16,
      Field ''Flags'' [] KString,
      Field ''Service'' [] KString,
      Field ''Regexp'' [] KString,
      Field ''Replacement'' ''domain-name'' KString]"

definition layout_NID :: "gfield list" where
  "layout_NID =
     [Field ''Hdr'' [] (KStruct ''RR_Header'' layout_RR_Header),
      Field ''Preference'' [] KUint16,
      Field ''NodeID'' [] KUint64]"

definition layout_NIMLOC :: "gfield list" where
  "layout_NIMLOC =
     [Field ''Hdr'' [] (KStruct ''RR_Header'' layout_RR_Header),
      Field ''Locator'' ''hex'' KString]"

definition layout_NINFO :: "gfield list" where
  "layout_NINFO =
     [Field ''Hdr'' [] (KStruct ''RR_Header'' layout_RR_Header),
      Field ''ZSData'' ''txt'' KStrings]"

definition layout_NS :: "gfield list" where
  "layout_NS =
     [Field ''Hdr'' [] (KStruct ''RR_Header'' layout_RR_Header),
      Field ''Ns'' ''cdomain-name'' KString]"

definition layout_NSAP :: "gfield list" where
  "layout_NSAP =
     [Field ''Hdr'' [] (KStruct ''RR_Header'' layout_RR_Header),
      Field ''Length'' [] KUint8,
      Field ''Nsap'' [] KString]"

definition layout_NSAPPTR :: "gfield list" where
  "layout_NSAPPTR =
     [Field ''Hdr'' [] (KStruct ''RR_Header'' layout_RR_Header),
      Field ''Ptr'' ''domain-name'' KString]"

definition layout_NSEC :: "gfield list" where
  "layout_NSEC =
     [Field ''Hdr'' [] (KStruct ''RR_Header'' layout_RR_Header),
      Field ''NextDomain'' ''domain-name'' KString,
      Field ''TypeBitMap'' ''nsec'' KUint16s]"

definition layout_NSEC3 :: "gfield list" where
  "layout_NSEC3 =
     [Field ''Hdr'' [] (KStruct ''RR_Header'' layout_RR_Header),
      Field ''Hash'' [] KUint8,
      Field ''Flags'' [] KUint8,
      Field ''Iterations'' [] KUint16,
      Field ''SaltLength'' [] KUint8,
      Field ''Salt'' ''size-hex'' KString,
      Field ''HashLength'' [] KUint8,
      Field ''NextDomain'' ''size-base32'' KString,
      Field ''TypeBitMap'' ''nsec'' KUint16s]"

definition layout_NSEC3PARAM :: "gfield list" where
  "layout_NSEC3PARAM =
     [Field ''Hdr'' [] (KStruct ''RR_Header'' layout_RR_Header),
      Field ''Hash'' [] KUint8,
      Field ''Flags'' [] KUint8,
      Field ''Iterations'' [] KUint16,
      Field ''SaltLength'' [] KUint8,
      Field ''Salt'' ''hex'' KString]"

definition layout_OPENPGPKEY :: "gfield list" where
  "layout_OPENPGPKEY =
     [Field ''Hdr'' [] (KStruct ''RR_Header'' layout_RR_Header),
      Field ''PublicKey'' ''base64'' KString]"

definition layout_OPT :: "gfield list" where
  "layout_OPT =
     [Field ''Hdr'' [] (KStruct ''RR_Header'' layout_RR_Header),
      Field ''Option'' ''opt'' KOpts]"

definition layout_PTR :: "gfield list" where
  "layout_PTR =
     [Field ''Hdr'' [] (KStruct ''RR_Header'' layout_RR_Header),
      Field ''Ptr'' ''cdomain-name'' KString]"

definition layout_PX :: "gfield list" where
  "layout_PX =
     [Field ''Hdr'' [] (KStruct ''RR_Header'' layout_RR_Header),
      Field ''Preference'' [] KUint16,
      Field ''Map822'' ''domain-name'' KString,
      Field ''Mapx400'' ''domain-name'' KString]"

definition layout_RKEY :: "gfield list" where
  "layout_RKEY =
     [Field ''Hdr'' [] (KStruct ''RR_Header'' layout_RR_Header),
      Field ''Flags'' [] KUint16,
      Field ''Protocol'' [] KUint8,
      Field ''Algorithm'' [] KUint8,
      Field ''PublicKey'' ''base64'' KString]"

definition layout_RP :: "gfield list" where
  "layout_RP =
     [Field ''Hdr'' [] (KStruct ''RR_Header'' layout_RR_Header),
      Field ''Mbox'' ''domain-name'' KString,
      Field ''Txt'' ''domain-name'' KString]"

definition layout_RT :: "gfield list" where
  "layout_RT =
     [Field ''Hdr'' [] (KStruct ''RR_Header'' layout_RR_Header),
      Field ''Preference'' [] KUint16,
      Field ''Host'' ''cdomain-name'' KString]"

definition layout_SIG :: "gfield list" where
  "layout_SIG =
     [Field ''RRSIG'' [] (KStruct ''RRSIG'' layout_RRSIG)]"

definition layout_SOA :: "gfield list" where
  "layout_SOA =
     [Field ''Hdr'' [] (KStruct ''RR_Header'' layout_RR_Header),
      Field ''Ns'' ''cdomain-name'' KString,
      Field ''Mbox'' ''cdomain-name'' KString,
      Field ''Serial'' [] KUint32,
      Field ''Refresh'' [] KUint32,
      Field ''Retry'' [] KUint32,
      Field ''Expire'' [] KUint32,
      Field ''Minttl'' [] KUint32]"

definition layout_SPF :: "gfield list" where
  "layout_SPF =
     [Field ''Hdr'' [] (KStruct ''RR_Header'' layout_RR_Header),
      Field ''Txt'' ''txt'' KStrings]"

definition layout_SRV :: "gfield list" where
  "layout_SRV =
     [Field ''Hdr'' [] (KStruct ''RR_Header'' layout_RR_Header),
      Field ''Priority'' [] KUint16,
      Field ''Weight'' [] KUint16,
      Field ''Port'' [] KUint16,
      Field ''Target'' ''domain-name'' KString]"

definition layout_SSHFP :: "gfield list" where
  "layout_SSHFP =
     [Field ''Hdr'' [] (KStruct ''RR_Header'' layout_RR_Header),
      Field ''Algorithm'' [] KUint8,
      Field ''Type'' [] KUint8,
      Field ''FingerPrint'' ''hex'' KString]"

definition layout_TA :: "gfield list" where
  "layout_TA =
     [Field ''Hdr'' [] (KStruct ''RR_Header'' layout_RR_Header),
      Field ''KeyTag'' [] KUint16,
      Field ''Algorithm'' [] KUint8,
      Field ''DigestType'' [] KUint8,
      Field ''Digest'' ''hex'' KString]"

definition layout_TALINK :: "gfield list" where
  "layout_TALINK =
     [Field ''Hdr'' [] (KStruct ''RR_Header'' layout_RR_Header),
      Field ''PreviousName'' ''domain-name'' KString,
      Field ''NextName'' ''domain-name'' KString]"

definition layout_TKEY :: "gfield list" where
  "layout_TKEY =
     [Field ''Hdr'' [] (KStruct ''RR_Header'' layout_RR_Header),
      Field ''Algorithm'' ''domain-name'' KString,
      Field ''Inception'' [] KUint32,
      Field ''Expiration'' [] KUint32,
      Field ''Mode'' [] KUint16,
      Field ''Error'' [] KUint16,
      Field ''KeySize'' [] KUint16,
      Field ''Key'' [] KString,
      Field ''OtherLen'' [] KUint16,
      Field ''OtherData'' [] KString]"

definition layout_TLSA :: "gfield list" where
  "layout_TLSA =
     [Field ''Hdr'' [] (KStruct ''RR_Header'' layout_RR_Header),
      Field ''Usage'' [] KUint8,
      Field ''Selector'' [] KUint8,
      Field ''MatchingType'' [] KUint8,
      Field ''Certificate'' ''hex'' KString]"

definition layout_TSIG :: "gfield list" where
  "layout_TSIG =
     [Field ''Hdr'' [] (KStruct ''RR_Header'' layout_RR_Header),
      Field ''Algorithm'' ''domain-name'' KString,
      Field ''TimeSigned'' ''uint48'' KUint64,
      Field ''Fudge'' [] KUint16,
      Field ''MACSize'' [] KUint16,
      Field ''MAC'' ''size-hex'' KString,
      Field ''OrigId'' [] KUint16,
      Field ''Error'' [] KUint16,
      Field ''OtherLen'' [] KUint16,
      Field ''OtherData'' ''size-hex'' KString]"

definition layout_TXT :: "gfield list" where
  "layout_TXT =
     [Field ''Hdr'' [] (KStruct ''RR_Header'' layout_RR_Header),
      Field ''Txt'' ''txt'' KStrings]"

definition layout_UID :: "gfield list" where
  "layout_UID =
     [Field ''Hdr'' [] (KStruct ''RR_Header'' layout_RR_Header),
      Field ''Uid'' [] KUint32]"

definition layout_UINFO :: "gfield list" where
  "layout_UINFO =
     [Field ''Hdr'' [] (KStruct ''RR_Header'' layout_RR_Header),
      Field ''Uinfo'' [] KString]"

definition layout_URI :: "gfield list" where
  "layout_URI =
     [Field ''Hdr'' [] (KStruct ''RR_Header'' layout_RR_Header),
      Field ''Priority'' [] KUint16,
      Field ''Weight'' [] KUint16,
      Field ''Target'' ''txt'' KStrings]"

definition layout_WKS :: "gfield list" where
  "layout_WKS =
     [Field ''Hdr'' [] (KStruct ''RR_Header'' layout_RR_Header),
      Field ''Address'' ''a'' KIP,
      Field ''Protocol'' [] KUint8,
      Field ''BitMap'' ''wks'' KUint16s]"

definition layout_X25 :: "gfield list" where
  "layout_X25 =
     [Field ''Hdr'' [] (KStruct ''RR_Header'' layout_RR_Header),
      Field ''PSDNAddress'' [] KString]"

definition layout_RFC3597 :: "gfield list" where
  "layout_RFC3597 =
     [Field ''Hdr'' [] (KStruct ''RR_Header'' layout_RR_Header),
      Field ''Rdata'' ''hex'' KString]"

section \<open>The table of structures\<close>

definition rr_table :: "(u16 \<times> string \<times> gfield list) list" where
  "rr_table =
     [(TypeA, ''A'', layout_A),
      (TypeAAAA, ''AAAA'', layout_AAAA),
      (TypeAFSDB, ''AFSDB'', layout_AFSDB),
      (TypeCDS, ''CDS'', layout_CDS),
      (TypeCERT, ''CERT'', layout_CERT),
      (TypeCNAME, ''CNAME'', layout_CNAME),
      (TypeDHCID, ''DHCID'', layout_DHCID),
      (TypeDLV, ''DLV'', layout_DLV),
      (TypeDNAME, ''DNAME'', layout_DNAME),
      (TypeKEY, ''KEY'', layout_KEY),
      (TypeDNSKEY, ''DNSKEY'', layout_DNSKEY),
      (TypeDS, ''DS'', layout_DS),
      (TypeEUI48, ''EUI48'', layout_EUI48),
      (TypeEUI64, ''EUI64'', layout_EUI64),
      (TypeGID, ''GID'', layout_GID),
      (TypeGPOS, ''GPOS'', layout_GPOS),
      (TypeEID, ''EID'', layout_EID),
      (TypeHINFO, ''HINFO'', layout_HINFO),
      (TypeHIP, ''HIP'', layout_HIP),
      (TypeKX, ''KX'', layout_KX),
      (TypeL32, ''L32'', layout_L32),
      (TypeL64, ''L64'', layout_L64),
      (TypeLOC, ''LOC'', layout_LOC),
      (TypeLP, ''LP'', layout_LP),
      (TypeMB, ''MB'', layout_MB),
      (TypeMD, ''MD'', layout_MD),
      (TypeMF, ''MF'', layout_MF),
      (TypeMG, ''MG'', layout_MG),
      (TypeMINFO, ''MINFO'', layout_MINFO),
      (TypeMR, ''MR'', layout_MR),
      (TypeMX, ''MX'', layout_MX),
      (TypeNAPTR, ''NAPTR'', layout_NAPTR),
      (TypeNID, ''NID'', layout_NID),
      (TypeNINFO, ''NINFO'', layout_NINFO),
      (TypeNIMLOC, ''NIMLOC'', layout_NIMLOC),
      (TypeNS, ''NS'', layout_NS),
      (TypeNSAP, ''NSAP'', layout_NSAP),
      (TypeNSAPPTR, ''NSAPPTR'', layout_NSAPPTR),
      (TypeNSEC3, ''NSEC3'', layout_NSEC3),
      (TypeNSEC3PARAM, ''NSEC3PARAM'', layout_NSEC3PARAM),
      (TypeNSEC, ''NSEC'', layout_NSEC),
      (TypeOPENPGPKEY, ''OPENPGPKEY'', layout_OPENPGPKEY),
      (TypeOPT, ''OPT'', layout_OPT),
      (TypePTR, ''PTR'', layout_PTR),
      (TypeRKEY, ''RKEY'', layout_RKEY),
      (TypeRP, ''RP'', layout_RP),
      (TypePX, ''PX'', layout_PX),
      (TypeSIG, ''SIG'', layout_SIG),
      (TypeRRSIG, ''RRSIG'', layout_RRSIG),
      (TypeRT, ''RT'', layout_RT),
      (TypeSOA, ''SOA'', layout_SOA),
      (TypeSPF, ''SPF'', layout_SPF),
      (TypeSRV, ''SRV'', layout_SRV),
      (TypeSSHFP, ''SSHFP'', layout_SSHFP),
      (TypeTA, ''TA'', layout_TA),
      (TypeTALINK, ''TALINK'', layout_TALINK),
      (TypeTKEY, ''TKEY'', layout_TKEY),
      (TypeTLSA, ''TLSA'', layout_TLSA),
      (TypeTSIG, ''TSIG'', layout_TSIG),
      (TypeTXT, ''TXT'', layout_TXT),
      (TypeUID, ''UID'', layout_UID),
      (TypeUINFO, ''UINFO'', layout_UINFO),
      (TypeURI, ''URI'', layout_URI),
      (TypeWKS, ''WKS'', layout_WKS),
      (TypeX25, ''X25'', layout_X25)]"

definition typeToRR :: "u16 \<Rightarrow> (string \<times> gfield list) option" where
  "typeToRR = map_of rr_table"

text \<open>The fields of a structure by its name.\<close>

definition layout_of :: "string \<Rightarrow> gfield list" where
  "layout_of n = (case map_of
     [(''RRSIG'', layout_RRSIG),
      (''DS'', layout_DS),
      (''DNSKEY'', layout_DNSKEY),
      (''A'', layout_A),
      (''AAAA'', layout_AAAA),
      (''AFSDB'', layout_AFSDB),
      (''ANY'', layout_ANY),
      (''CDNSKEY'', layout_CDNSKEY),
      (''CDS'', layout_CDS),
      (''CERT'', layout_CERT),
      (''CNAME'', layout_CNAME),
      (''DHCID'', layout_DHCID),
      (''DLV'', layout_DLV),
      (''DNAME'', layout_DNAME),
      (''EID'', layout_EID),
      (''EUI48'', layout_EUI48),
      (''EUI64'', layout_EUI64),
      (''GID'', layout_GID),
      (''GPOS'', layout_GPOS),
      (''HINFO'', layout_HINFO),
      (''HIP'', layout_HIP),
      (''IPSECKEY'', layout_IPSECKEY),
      (''KEY'', layout_KEY),
      (''KX'', layout_KX),
      (''L32'', layout_L32),
      (''L64'', layout_L64),
      (''LOC'', layout_LOC),
      (''LP'', layout_LP),
      (''MB'', layout_MB),
      (''MD'', layout_MD),
      (''MF'', layout_MF),
      (''MG'', layout_MG),
      (''MINFO'', layout_MINFO),
      (''MR'', layout_MR),
      (''MX'', layout_MX),
      (''NAPTR'', layout_NAPTR),
      (''NID'', layout_NID),
      (''NIMLOC'', layout_NIMLOC),
      (''NINFO'', layout_NINFO),
      (''NS'', layout_NS),
      (''NSAP'', layout_NSAP),
      (''NSAPPTR'', layout_NSAPPTR),
      (''NSEC'', layout_NSEC),
      (''NSEC3'', layout_NSEC3),
      (''NSEC3PARAM'', layout_NSEC3PARAM),
      (''OPENPGPKEY'', layout_OPENPGPKEY),
      (''OPT'', layout_OPT),
      (''PTR'', layout_PTR),
      (''PX'', layout_PX),
      (''RKEY'', layout_RKEY),
      (''RP'', layout_RP),
      (''RT'', layout_RT),
      (''SIG'', layout_SIG),
      (''SOA'', layout_SOA),
      (''SPF'', layout_SPF),
      (''SRV'', layout_SRV),
      (''SSHFP'', layout_SSHFP),
      (''TA'', layout_TA),
      (''TALINK'', layout_TALINK),
      (''TKEY'', layout_TKEY),
      (''TLSA'', layout_TLSA),
      (''TSIG'', layout_TSIG),
      (''TXT'', layout_TXT),
      (''UID'', layout_UID),
      (''UINFO'', layout_UINFO),
      (''URI'', layout_URI),
      (''WKS'', layout_WKS),
      (''X25'', layout_X25),
      (''RFC3597'', layout_RFC3597)] n of Some l \<Rightarrow> l | None \<Rightarrow> [])"

end
