(* ===== verification/Dns_Mux.thy ===== *)
theory Dns_Mux
  imports Dns_Layout Dns_Labels
begin

text \<open>
  \<open>ServeMux\<close> of \<open>miekg/dns/server.go\<close>: a request goes to the handler whose pattern most closely matches the
  name in its question. The table is a map from patterns to handlers, whatever those are.
\<close>

section \<open>The table\<close>

type_synonym 'h mux = "string \<rightharpoonup> 'h"

text \<open>None is the panic on an empty pattern.\<close>

definition mux_Handle :: "'h mux \<Rightarrow> string \<Rightarrow> 'h \<Rightarrow> 'h mux option" where
  "mux_Handle z pattern h = (if pattern = [] then None else Some (z(Fqdn pattern \<mapsto> h)))"

definition mux_HandleRemove :: "'h mux \<Rightarrow> string \<Rightarrow> 'h mux option" where
  "mux_HandleRemove z pattern = (if pattern = [] then None else Some (z(Fqdn pattern := None)))"

section \<open>Matching\<close>

text \<open>The loop over the labels: \<open>found\<close> is the handler kept for a query for a DS record.\<close>

function match_loop :: "'h mux \<Rightarrow> string \<Rightarrow> bool \<Rightarrow> nat \<Rightarrow> 'h option \<Rightarrow> 'h option" where
  "match_loop z q isDS off found =
     (case (z (map lower_char (drop off q)), isDS) of
        (Some h, False) \<Rightarrow> Some h
      | (r, _) \<Rightarrow>
          let found1 = (case r of None \<Rightarrow> found | Some h \<Rightarrow> Some h); (off1, end1) = NextLabel q off in
          if end1 then (case z ''.'' of Some h \<Rightarrow> Some h | None \<Rightarrow> found1)
          else match_loop z q isDS off1 found1)"
  by auto

termination
  by (relation "measure (\<lambda>(z, q, isDS, off, found). length q - off)") (auto dest!: NextLabel_bound [OF sym])

declare match_loop.simps [simp del]

definition mux_match :: "'h mux \<Rightarrow> string \<Rightarrow> u16 \<Rightarrow> 'h option" where
  "mux_match z q t = match_loop z q (t = TypeDS) 0 None"

text \<open>
  What serves a request: None is the handler that replies with a server failure.
\<close>

definition mux_ServeDNS :: "'h mux \<Rightarrow> dns_msg \<Rightarrow> 'h option" where
  "mux_ServeDNS z request =
     (case Question request of
        [q] \<Rightarrow> mux_match z (QName q) (Qtype q)
      | _ \<Rightarrow> None)"

section \<open>The closest match\<close>

text \<open>The zones a name of these labels is in, the closest first, and the handlers registered for them.\<close>

fun label_tails :: "'a list \<Rightarrow> 'a list list" where
  "label_tails [] = []"
| "label_tails (l # ls) = (l # ls) # label_tails ls"

definition zone_handlers :: "'h mux \<Rightarrow> string list \<Rightarrow> 'h list" where
  "zone_handlers z ls = List.map_filter (\<lambda>t. z (map lower_char (dotted t))) (label_tails ls)"

lemma zone_handlers_simps [simp]:
  "zone_handlers z [] = []"
  "zone_handlers z (l # ls) =
     (case z (map lower_char (dotted (l # ls))) of None \<Rightarrow> zone_handlers z ls | Some h \<Rightarrow> h # zone_handlers z ls)"
  by (simp_all add: zone_handlers_def List.map_filter_def split: option.splits)

definition chosen_handler :: "'h mux \<Rightarrow> bool \<Rightarrow> 'h list \<Rightarrow> 'h option \<Rightarrow> 'h option" where
  "chosen_handler z isDS hs found =
     (if isDS then
        (case z ''.'' of Some h \<Rightarrow> Some h | None \<Rightarrow> if hs = [] then found else Some (last hs))
      else if hs \<noteq> [] then Some (hd hs)
      else case z ''.'' of Some h \<Rightarrow> Some h | None \<Rightarrow> found)"

lemma match_loop_dotted:
  "\<forall>l\<in>set ls. plain_label l \<Longrightarrow> ls \<noteq> [] \<Longrightarrow>
   match_loop z (pre @ dotted ls) isDS (length pre) found = chosen_handler z isDS (zone_handlers z ls) found"
proof (induction ls arbitrary: pre found)
  case (Cons l ls)
  have nl: "NextLabel (pre @ l @ CHR ''.'' # dotted ls) (length pre) = (length pre + length l + 1, ls = [])"
    using NextLabel_plain [of l pre "dotted ls"] Cons.prems by simp
  have tl: "match_loop z (pre @ l @ CHR ''.'' # dotted ls) isDS (length pre + length l + 1) f =
      chosen_handler z isDS (zone_handlers z ls) f" if "ls \<noteq> []" for f
    using Cons.IH [of "pre @ l @ ''.''" f] Cons.prems that by simp
  show ?case
  proof (cases "ls = []")
    case True
    then have "NextLabel (pre @ l @ ''.'') (length pre) = (length pre + length l + 1, True)"
      using nl by simp
    then show ?thesis
      using True by (subst match_loop.simps) (auto simp: chosen_handler_def split: option.splits)
  next
    case False
    then show ?thesis
      using tl [OF False] by (subst match_loop.simps)
        (cases isDS; auto simp: nl chosen_handler_def split: option.splits)
  qed
qed simp

lemma mux_match_dotted:
  "\<forall>l\<in>set ls. plain_label l \<Longrightarrow> ls \<noteq> [] \<Longrightarrow>
   mux_match z (dotted ls) t = chosen_handler z (t = TypeDS) (zone_handlers z ls) None"
  using match_loop_dotted [of ls z "[]" "t = TypeDS" None] by (simp add: mux_match_def)

end
