(* ===== verification/Dns_Name_Codec.thy ===== *)
theory Dns_Name_Codec
  imports Dns_Names
begin

text \<open>
  Names on the wire are what RFC 1035 says: labels with their lengths, then a zero. \<open>UnpackDomainName\<close>
  reads them, \<open>packDomainName\<close> writes them, and packing the text of a name that came off the wire gives
  the same bytes again, whatever bytes its labels hold. The offset after a name lies in the message.
\<close>

unbundle bit_operations_syntax

definition wire_label :: "string \<Rightarrow> bool" where
  "wire_label l = (l \<noteq> [] \<and> length l \<le> 63)"

definition wire_labels :: "string list \<Rightarrow> bytes" where
  "wire_labels ls = concat (map (\<lambda>l. word_of_nat (length l) # bytes_of l) ls)"

definition wire_name :: "string list \<Rightarrow> bytes" where
  "wire_name ls = wire_labels ls @ [0]"

definition label_text :: "string \<Rightarrow> string" where
  "label_text l = concat (map escape_char l)"

definition labels_text :: "string list \<Rightarrow> string" where
  "labels_text ls = concat (map (\<lambda>l. label_text l @ ''.'') ls)"

definition name_text :: "string list \<Rightarrow> string" where
  "name_text ls = (if ls = [] then ''.'' else labels_text ls)"

lemma wire_labels_simps [simp]:
  "wire_labels [] = []" "wire_labels (l # ls) = word_of_nat (length l) # bytes_of l @ wire_labels ls"
  by (simp_all add: wire_labels_def)

lemma labels_text_simps [simp]:
  "labels_text [] = []" "labels_text (l # ls) = label_text l @ CHR ''.'' # labels_text ls"
  by (simp_all add: labels_text_def)

lemma label_text_simps [simp]:
  "label_text [] = []" "label_text (c # l) = escape_char c @ label_text l"
  by (simp_all add: label_text_def)

section \<open>Unpacking\<close>

lemma length_byte_all:
  "list_all (\<lambda>n. unat ((word_of_nat n :: byte) AND 0xC0) = 0 \<and> unat (word_of_nat n :: byte) = n) [0..<64]"
  by code_simp

lemma length_byte:
  assumes "n < 64"
  shows "unat ((word_of_nat n :: byte) AND 0xC0) = 0" "unat (word_of_nat n :: byte) = n"
  using length_byte_all assms by (auto simp: list_all_iff)

lemma unpack_labels:
  assumes "list_all wire_label ls"
  shows "unpack_loop (pre @ wire_name ls @ post) (length pre) s ptr off1 =
     Inr (if s @ labels_text ls = [] then (''.'', length pre + 1)
          else (s @ labels_text ls, if ptr = 0 then length pre + length (wire_name ls) else off1))"
  using assms
proof (induction ls arbitrary: pre s)
  case Nil
  then show ?case
    by (subst unpack_loop.simps) (simp add: wire_name_def Let_def)
next
  case (Cons l ls)
  define m where "m = pre @ wire_name (l # ls) @ post"
  have n: "length l < 64" "l \<noteq> []"
    using Cons.prems by (auto simp: wire_label_def)
  have m': "m = (pre @ word_of_nat (length l) # bytes_of l) @ wire_name ls @ post"
    by (simp add: m_def wire_name_def)
  have at: "m ! length pre = word_of_nat (length l)"
    by (simp add: m')
  have label: "go_slice m (length pre + 1) (length pre + 1 + length l) = bytes_of l"
    by (simp add: m' go_slice_def)
  have "unpack_loop m (length pre) s ptr off1 =
      unpack_loop m (length pre + 1 + length l) (s @ label_text l @ ''.'') ptr off1"
    using n length_byte [OF n(1)] label
    by (subst unpack_loop.simps) (auto simp: at Let_def label_text_def, simp_all add: m')
  also have "\<dots> = Inr (s @ labels_text (l # ls),
      if ptr = 0 then length pre + length (wire_name (l # ls)) else off1)"
    using Cons.IH [of "pre @ word_of_nat (length l) # bytes_of l" "s @ label_text l @ ''.''"] Cons.prems
    by (simp add: m' wire_name_def add.assoc)
  finally show ?case
    by (simp add: m_def)
qed

theorem UnpackDomainName_wire:
  assumes "list_all wire_label ls"
  shows "UnpackDomainName (pre @ wire_name ls @ post) (length pre) =
     Inr (name_text ls, length pre + length (wire_name ls))"
  using unpack_labels [OF assms, of pre post "[]" 0 0]
  by (cases ls) (auto simp: UnpackDomainName_def name_text_def wire_name_def)

section \<open>Packing\<close>

lemma pad3_digits:
  assumes "n < 1000"
  shows "pad3 n = [digit_char (n div 100), digit_char (n div 10 mod 10), digit_char (n mod 10)]"
proof -
  have zero: "CHR ''0'' = digit_char 0"
    by code_simp
  consider "n < 10" | "10 \<le> n" "n < 100" | "100 \<le> n"
    by linarith
  then show ?thesis
  proof cases
    case 1
    then show ?thesis
      by (simp add: pad3_def nat_dec.simps [of n] zero numeral_2_eq_2)
  next
    case 2
    then have "n div 10 < 10"
      by simp
    with 2 show ?thesis
      by (simp add: pad3_def nat_dec.simps [of n] nat_dec.simps [of "n div 10"] zero)
  next
    case 3
    then have "n div 10 div 10 < 10" "n div 10 div 10 = n div 100"
      using assms by (simp_all add: div_mult2_eq [symmetric])
    moreover from 3 have "\<not> n div 10 < 10"
      by simp
    ultimately show ?thesis
      using 3 by (simp add: pad3_def nat_dec.simps [of n] nat_dec.simps [of "n div 10"]
          nat_dec.simps [of "n div 100"])
  qed
qed

lemma pad3_cases:
  fixes c :: char
  shows "\<exists>x y z. pad3 (of_char c) = [x, y, z] \<and> is_digit x \<and> is_digit y \<and> is_digit z \<and>
    (\<forall>r. dddToByte (x # y # z # r) = c)"
proof -
  define n where "n = (of_char c :: nat)"
  have n: "n < 256"
    by (simp add: n_def)
  have d: "(of_char (digit_char k) :: nat) = 48 + k" if "k < 10" for k
    using that by (simp add: digit_char_def)
  have k: "n div 100 < 10" "n div 10 mod 10 < 10" "n mod 10 < 10"
    using n by auto
  have eq: "n div 100 * 100 + n div 10 mod 10 * 10 + n mod 10 = n"
  proof -
    have "n div 100 = n div 10 div 10"
      by (simp add: div_mult2_eq [symmetric])
    then show ?thesis
      using div_mult_mod_eq [of n 10] div_mult_mod_eq [of "n div 10" 10] by linarith
  qed
  have sum: "char_of (n div 100 * 100 + n div 10 mod 10 * 10 + n mod 10) = c"
    unfolding eq by (simp add: n_def)
  have "dddToByte (digit_char x # digit_char y # digit_char z # r) = char_of (x * 100 + y * 10 + z)"
    if "x < 10" "y < 10" "z < 10" for x y z r
    using that by (simp only: dddToByte_def One_nat_def numeral_2_eq_2 nth_Cons_0 nth_Cons_Suc d
        add_diff_cancel_left')
  from this [OF k] sum have "dddToByte (digit_char (n div 100) # digit_char (n div 10 mod 10) #
      digit_char (n mod 10) # r) = c" for r
    by (simp only:)
  moreover have "pad3 (of_char c) = [digit_char (n div 100), digit_char (n div 10 mod 10), digit_char (n mod 10)]"
    using pad3_digits [of n] order.strict_trans [OF n, of 1000] unfolding n_def by simp
  ultimately show ?thesis
    using k is_digit_digit_char by blast
qed

lemma shift_left_escape:
  "shift_left (P @ e # Q @ X) (length P) (length P + 1 + length Q) = P @ Q @ last (e # Q) # X"
  by (cases Q rule: rev_cases) (simp_all add: shift_left_def go_slice_def)

lemma shift_left2_escape:
  "shift_left2 (P @ c # y # z # R @ X) (length P) (length P + 3 + length R) =
     P @ c # R @ drop (length R) (y # z # R @ X)"
  by (simp add: shift_left2_def go_slice_def)

text \<open>
  One round of the loop reads one byte of a label, escaped or not: the text \<open>escape_char c\<close> at the
  current position becomes \<open>c\<close>. \<open>R\<close> is the text still to come and \<open>X\<close> what is left behind its end.
\<close>

lemma escape_char_cases:
  obtains "escape_char c = [c]" "c \<noteq> CHR 0x5C" "c \<noteq> CHR ''.''"
    | e where "escape_char c = [CHR 0x5C, e]" "\<not> is_digit e"
        "c = (if e = CHR ''t'' then CHR 0x09 else if e = CHR ''r'' then CHR 0x0D else e)" "e \<noteq> CHR ''n''"
    | x y z where "escape_char c = [CHR 0x5C, x, y, z]" "is_digit x" "is_digit y" "is_digit z"
        "\<And>r. dddToByte (x # y # z # r) = c" "c \<noteq> CHR ''.''"
proof -
  consider "c \<in> set ''.();@ '' \<or> c = CHR 0x22 \<or> c = CHR 0x5C" | "c = CHR 0x09" | "c = CHR 0x0D"
    | "\<not> (c \<in> set ''.();@ '' \<or> c = CHR 0x22 \<or> c = CHR 0x5C)" "c \<noteq> CHR 0x09" "c \<noteq> CHR 0x0D"
    by blast
  then show ?thesis
  proof cases
    case 1
    then have "escape_char c = [CHR 0x5C, c]"
      by (simp add: escape_char_def)
    moreover have "\<not> is_digit c \<and> c \<noteq> CHR ''t'' \<and> c \<noteq> CHR ''r'' \<and> c \<noteq> CHR ''n''"
      using 1 by (auto simp: is_digit_def)
    ultimately show ?thesis
      using that(2) [of c] by simp
  next
    case 2
    then show ?thesis
      using that(2) [of "CHR ''t''"] by (simp add: escape_char_def is_digit_def)
  next
    case 3
    then show ?thesis
      using that(2) [of "CHR ''r''"] by (simp add: escape_char_def is_digit_def)
  next
    case 4
    obtain x y z where p: "pad3 (of_char c) = [x, y, z]" "is_digit x" "is_digit y" "is_digit z"
      "\<And>r. dddToByte (x # y # z # r) = c"
      using pad3_cases [of c] by blast
    show ?thesis
    proof (cases "(of_char c :: nat) < 32 \<or> (of_char c :: nat) \<ge> 127")
      case True
      with 4 p have "escape_char c = [CHR 0x5C, x, y, z]"
        by (simp add: escape_char_def)
      with 4 p show ?thesis
        using that(3) by simp
    next
      case False
      with 4 have "escape_char c = [c]"
        by (simp add: escape_char_def)
      with 4 show ?thesis
        using that(1) by simp
    qed
  qed
qed

lemma pack_byte:
  assumes bs: "pk_bs st = P @ escape_char c @ R @ X" and i: "pk_i st = length P"
    and ls: "pk_ls st = length P + length (escape_char c) + length R" and R: "R \<noteq> []"
    and off: "pk_off st + 1 \<le> lenmsg"
  shows "\<exists>X' f. pack_step lenmsg compress st = Inr (st\<lparr>pk_i := length P + 1,
     pk_ls := length P + 1 + length R, pk_bs := P @ c # R @ X', pk_escaped := (c = CHR ''.''),
     pk_fresh := f\<rparr>)"
proof (cases c rule: escape_char_cases)
  case 1
  have "pack_step lenmsg compress st = Inr (st\<lparr>pk_escaped := False, pk_i := length P + 1\<rparr>)"
    using 1 bs i by (simp add: pack_step_def)
  also have "st\<lparr>pk_escaped := False, pk_i := length P + 1\<rparr> = st\<lparr>pk_i := length P + 1,
     pk_ls := length P + 1 + length R, pk_bs := P @ c # R @ X, pk_escaped := (c = CHR ''.''),
     pk_fresh := pk_fresh st\<rparr>"
    using 1 bs ls by (intro packing.equality) simp_all
  finally show ?thesis by blast
next
  case (2 e)
  define X1 where "X1 = last (CHR 0x5C # e # R) # X"
  have sh: "shift_left (pk_bs st) (pk_i st) (pk_ls st) = P @ e # R @ X1"
    using shift_left_escape [of P "CHR 0x5C" "e # R" X] 2 bs i ls by (simp add: X1_def)
  have "pack_step lenmsg compress st = escape_step lenmsg st"
    using 2 bs i by (simp add: pack_step_def)
  also have "\<dots> = Inr (st\<lparr>pk_i := length P + 1, pk_ls := length P + 1 + length R,
      pk_bs := P @ c # R @ X1, pk_escaped := (c = CHR ''.''), pk_fresh := False\<rparr>)"
    unfolding escape_step_def sh Let_def using 2 i ls off
    by (auto simp: intro!: packing.equality)
  finally show ?thesis by blast
next
  case (3 x y z)
  define X1 where "X1 = last (CHR 0x5C # x # y # z # R) # X"
  have sh: "shift_left (pk_bs st) (pk_i st) (pk_ls st) = P @ x # y # z # R @ X1"
    using shift_left_escape [of P "CHR 0x5C" "x # y # z # R" X] 3 bs i ls by (simp add: X1_def)
  define X2 where "X2 = drop (length R) (y # z # R @ X1)"
  have sh2: "shift_left2 (P @ c # y # z # R @ X1) (length P) (Suc (Suc (Suc (length P + length R)))) = P @ c # R @ X2"
    using shift_left2_escape [of P c y z R X1] by (simp add: X2_def numeral_3_eq_3)
  have "pack_step lenmsg compress st = escape_step lenmsg st"
    using 3 bs i by (simp add: pack_step_def)
  also have "\<dots> = Inr (st\<lparr>pk_i := length P + 1, pk_ls := length P + 1 + length R,
      pk_bs := P @ c # R @ X2, pk_escaped := (c = CHR ''.''), pk_fresh := False\<rparr>)"
    unfolding escape_step_def sh Let_def using 3 i ls off R sh2
    by (auto simp: nth_append intro!: packing.equality)
  finally show ?thesis by blast
qed

lemma pack_loop_byte:
  assumes bs: "pk_bs st = P @ escape_char c @ R @ X" and i: "pk_i st = length P"
    and ls: "pk_ls st = length P + length (escape_char c) + length R" and R: "R \<noteq> []"
    and off: "pk_off st + 1 \<le> lenmsg" and p: "pk_pointer st = None"
  shows "\<exists>X' f. pack_loop lenmsg compress st = pack_loop lenmsg compress (st\<lparr>pk_i := length P + 1,
     pk_ls := length P + 1 + length R, pk_bs := P @ c # R @ X', pk_escaped := (c = CHR ''.''),
     pk_fresh := f\<rparr>)"
proof -
  obtain X' f where "pack_step lenmsg compress st = Inr (st\<lparr>pk_i := length P + 1,
     pk_ls := length P + 1 + length R, pk_bs := P @ c # R @ X', pk_escaped := (c = CHR ''.''),
     pk_fresh := f\<rparr>)"
    using pack_byte [OF bs i ls R off] by blast
  moreover have "\<not> pk_ls st \<le> pk_i st"
    using i ls R by (cases R) auto
  ultimately show ?thesis
    using p by (subst pack_loop.simps) auto
qed

lemma pack_loop_bytes:
  assumes "R \<noteq> []" "pk_off st + 1 \<le> lenmsg" "pk_pointer st = None"
  shows "pk_bs st = P @ label_text cs @ R @ X \<Longrightarrow> pk_i st = length P \<Longrightarrow>
     pk_ls st = length P + length (label_text cs) + length R \<Longrightarrow>
   \<exists>X' f. pack_loop lenmsg compress st = pack_loop lenmsg compress (st\<lparr>pk_i := length P + length cs,
     pk_ls := length P + length cs + length R, pk_bs := P @ cs @ R @ X',
     pk_escaped := (if cs = [] then pk_escaped st else last cs = CHR ''.''), pk_fresh := f\<rparr>)"
  using assms
proof (induction cs arbitrary: st P X)
  case Nil
  then have "st = st\<lparr>pk_i := length P, pk_ls := length P + length R, pk_bs := P @ R @ X,
      pk_escaped := pk_escaped st, pk_fresh := pk_fresh st\<rparr>"
    by (intro packing.equality) simp_all
  then show ?case
    by (intro exI [of _ X] exI [of _ "pk_fresh st"]) simp
next
  case (Cons c cs)
  have "label_text cs @ R \<noteq> []"
    using Cons.prems by simp
  from pack_loop_byte [OF _ Cons.prems(2) _ this Cons.prems(5,6), of c X compress] Cons.prems(1,3)
  obtain X1 f1 where one: "pack_loop lenmsg compress st = pack_loop lenmsg compress (st\<lparr>pk_i := length P + 1,
     pk_ls := length P + 1 + length (label_text cs @ R), pk_bs := P @ c # (label_text cs @ R) @ X1,
     pk_escaped := (c = CHR ''.''), pk_fresh := f1\<rparr>)" (is "_ = pack_loop lenmsg compress ?st1")
    by auto
  obtain X2 f2 where "pack_loop lenmsg compress ?st1 = pack_loop lenmsg compress (?st1\<lparr>
     pk_i := length (P @ [c]) + length cs, pk_ls := length (P @ [c]) + length cs + length R,
     pk_bs := (P @ [c]) @ cs @ R @ X2,
     pk_escaped := (if cs = [] then pk_escaped ?st1 else last cs = CHR ''.''), pk_fresh := f2\<rparr>)"
    using Cons.IH [of ?st1 "P @ [c]" X1] Cons.prems by auto
  moreover have "?st1\<lparr>pk_i := length (P @ [c]) + length cs, pk_ls := length (P @ [c]) + length cs + length R,
     pk_bs := (P @ [c]) @ cs @ R @ X2,
     pk_escaped := (if cs = [] then pk_escaped ?st1 else last cs = CHR ''.''), pk_fresh := f2\<rparr> =
    st\<lparr>pk_i := length P + length (c # cs), pk_ls := length P + length (c # cs) + length R,
     pk_bs := P @ (c # cs) @ R @ X2,
     pk_escaped := (if c # cs = [] then pk_escaped st else last (c # cs) = CHR ''.''), pk_fresh := f2\<rparr>"
    by (intro packing.equality) auto
  ultimately show ?case
    using one by metis
qed

text \<open>The dot behind a label writes it out.\<close>

lemma pack_loop_dot:
  assumes l: "wire_label l" and bs: "pk_bs st = P @ l @ CHR ''.'' # R @ X" and i: "pk_i st = length P + length l"
    and ls: "pk_ls st = length P + length l + 1 + length R" and b: "pk_begin st = length P"
    and e: "pk_escaped st = (last l = CHR ''.'')" and off: "pk_off st + 1 + length l \<le> lenmsg"
    and p: "pk_pointer st = None"
  shows "pack_loop lenmsg False st = pack_loop lenmsg False (st\<lparr>pk_i := length P + length l + 1,
     pk_msg := put_label (pk_msg st) (pk_off st) l, pk_off := pk_off st + 1 + length l,
     pk_labels := pk_labels st + 1, pk_begin := length P + length l + 1, pk_escaped := False\<rparr>)"
proof -
  have dot: "pk_bs st ! pk_i st = CHR ''.''"
    using bs i by (simp add: nth_append)
  have before: "pk_bs st ! (pk_i st - 1) = last l"
    using bs i l by (cases l rule: rev_cases) (auto simp: wire_label_def nth_append)
  have lab: "go_slice (pk_bs st) (pk_begin st) (pk_i st) = l"
    using bs i b by (simp add: go_slice_def)
  have len: "pk_i st - pk_begin st = length l" "length l < 64"
    using i b l by (auto simp: wire_label_def)
  have "pack_step lenmsg False st = Inr (st\<lparr>pk_i := length P + length l + 1,
     pk_msg := put_label (pk_msg st) (pk_off st) l, pk_off := pk_off st + 1 + length l,
     pk_labels := pk_labels st + 1, pk_begin := length P + length l + 1, pk_escaped := False\<rparr>)"
    using dot before lab len off e i
    by (auto simp: pack_step_def dot_step_def Let_def intro!: packing.equality)
  then show ?thesis
    using p i ls by (subst pack_loop.simps) simp
qed

lemma put_label_extend:
  assumes "put_label (Some (take off m @ w @ drop (off + length w) m)) (off + length w) l = r"
    and "off + length w + 1 + length l \<le> length m"
  shows "r = Some (take off m @ (w @ word_of_nat (length l) # bytes_of l) @
            drop (off + length (w @ word_of_nat (length l) # bytes_of l)) m)"
  using assms by (auto simp: put_label_def ac_simps)

lemma pack_loop_labels:
  assumes "list_all wire_label ls"
  shows "pk_bs st = P @ labels_text ls @ X \<Longrightarrow> pk_i st = length P \<Longrightarrow> pk_begin st = length P \<Longrightarrow>
     pk_ls st = length P + length (labels_text ls) \<Longrightarrow> \<not> pk_escaped st \<Longrightarrow> pk_pointer st = None \<Longrightarrow>
     pk_msg st = Some (take off m @ w @ drop (off + length w) m) \<Longrightarrow> pk_off st = off + length w \<Longrightarrow>
     off + length w + length (wire_labels ls) \<le> length m \<Longrightarrow>
   \<exists>st'. pack_loop (length m) False st = Inr st' \<and> pk_pointer st' = None \<and> pk_map st' = pk_map st \<and>
     pk_msg st' = Some (take off m @ (w @ wire_labels ls) @ drop (off + length (w @ wire_labels ls)) m) \<and>
     pk_off st' = off + length (w @ wire_labels ls) \<and> pk_labels st' = pk_labels st + length ls \<and>
     (2 \<le> length P \<or> ls \<noteq> [] \<longrightarrow> 2 \<le> length (pk_bs st'))"
  using assms
proof (induction ls arbitrary: st P X w)
  case Nil
  then have "pack_loop (length m) False st = Inr st"
    by (subst pack_loop.simps) simp
  with Nil show ?case by simp
next
  case (Cons l ls)
  have l: "wire_label l" and off: "pk_off st + 1 + length l \<le> length m"
    using Cons.prems by auto
  define R where "R = labels_text ls"
  obtain X1 f1 where one: "pack_loop (length m) False st = pack_loop (length m) False
     (st\<lparr>pk_i := length P + length l, pk_ls := length P + length l + length (CHR ''.'' # R),
         pk_bs := P @ l @ (CHR ''.'' # R) @ X1,
         pk_escaped := (if l = [] then pk_escaped st else last l = CHR ''.''), pk_fresh := f1\<rparr>)"
    (is "_ = pack_loop (length m) False ?st1")
    using pack_loop_bytes [of "CHR ''.'' # R" st "length m" P l X False] Cons.prems off
    by (auto simp: R_def)
  define P1 where "P1 = P @ l @ ''.''"
  define st2 where "st2 = ?st1\<lparr>pk_i := length P + length l + 1,
     pk_msg := put_label (pk_msg ?st1) (pk_off ?st1) l, pk_off := pk_off ?st1 + 1 + length l,
     pk_labels := pk_labels ?st1 + 1, pk_begin := length P + length l + 1, pk_escaped := False\<rparr>"
  have two: "pack_loop (length m) False ?st1 = pack_loop (length m) False st2"
    unfolding st2_def by (rule pack_loop_dot [of l _ P R X1]) (use l off Cons.prems in \<open>auto simp: wire_label_def\<close>)
  define w1 where "w1 = w @ word_of_nat (length l) # bytes_of l"
  have msg: "pk_msg st2 = Some (take off m @ w1 @ drop (off + length w1) m)"
    unfolding w1_def by (rule put_label_extend [of off m w l]) (use Cons.prems in \<open>auto simp: st2_def\<close>)
  have st2: "pk_bs st2 = P1 @ labels_text ls @ X1" "pk_i st2 = length P1" "pk_begin st2 = length P1"
    "pk_ls st2 = length P1 + length (labels_text ls)" "\<not> pk_escaped st2" "pk_pointer st2 = None"
    "pk_off st2 = off + length w1" "off + length w1 + length (wire_labels ls) \<le> length m"
    "pk_map st2 = pk_map st" "pk_labels st2 = pk_labels st + 1"
    using Cons.prems by (auto simp: st2_def P1_def R_def w1_def)
  have "list_all wire_label ls"
    using Cons.prems by simp
  from Cons.IH [OF st2(1-6) msg st2(7,8) this] obtain st' where
    "pack_loop (length m) False st2 = Inr st'" "pk_pointer st' = None" "pk_map st' = pk_map st2"
    "pk_msg st' = Some (take off m @ (w1 @ wire_labels ls) @ drop (off + length (w1 @ wire_labels ls)) m)"
    "pk_off st' = off + length (w1 @ wire_labels ls)" "pk_labels st' = pk_labels st2 + length ls"
    "2 \<le> length P1 \<or> ls \<noteq> [] \<longrightarrow> 2 \<le> length (pk_bs st')"
    by blast
  moreover have "2 \<le> length P1"
    using l by (cases l) (auto simp: P1_def wire_label_def)
  ultimately show ?case
    using one two st2(9,10) by (intro exI [of _ st']) (simp add: w1_def)
qed

theorem packDomainName_wire:
  assumes ls: "list_all wire_label ls" and room: "off + length (wire_name ls) \<le> length m"
  shows "packDomainName (name_text ls) (Some m) off cm False =
     Some (Inr (off + length (wire_name ls), max 1 (length ls),
       Some (take off m @ wire_name ls @ drop (off + length (wire_name ls)) m), cm))"
proof (cases "ls = []")
  case True
  then show ?thesis
    using room by (simp add: packDomainName_def name_text_def pack_loop.simps pack_step_def dot_step_def
        pack_end_def put_label_def wire_name_def go_slice_def Let_def)
next
  case False
  define t where "t = labels_text ls"
  have t: "t \<noteq> []" "last t = CHR ''.''"
    using False by (cases ls rule: rev_cases; simp add: t_def labels_text_def)+
  define st where "st = \<lparr>pk_i = 0, pk_ls = length t, pk_bs = t, pk_off = off, pk_labels = 0, pk_begin = 0,
                pk_ro = t, pk_fresh = True, pk_escaped = False, pk_msg = Some m, pk_map = cm,
                pk_pointer = None\<rparr>"
  obtain st' where st': "pack_loop (length m) False st = Inr st'" "pk_pointer st' = None" "pk_map st' = cm"
    "pk_msg st' = Some (take off m @ wire_labels ls @ drop (off + length (wire_labels ls)) m)"
    "pk_off st' = off + length (wire_labels ls)" "pk_labels st' = length ls" "2 \<le> length (pk_bs st')"
    using pack_loop_labels [OF ls, where st = st and P = "[]" and X = "[]" and w = "[]" and off = off and m = m] room False
    by (auto simp: st_def t_def wire_name_def)
  have m: "(take off m @ wire_labels ls @ drop (off + length (wire_labels ls)) m)[off + length (wire_labels ls) := 0] =
      take off m @ wire_name ls @ drop (off + length (wire_name ls)) m"
    using room by (simp add: wire_name_def list_update_append flip: Cons_nth_drop_Suc)
  have "pk_bs st' \<noteq> ''.''"
    using st'(7) by auto
  then have "pack_end st' = Some (off + length (wire_name ls), length ls,
      Some (take off m @ wire_name ls @ drop (off + length (wire_name ls)) m), cm)"
    using st' room m by (simp add: pack_end_def wire_name_def)
  moreover have "max 1 (length ls) = length ls"
    using False by (cases ls) auto
  ultimately show ?thesis
    using t st'(1) False by (simp add: packDomainName_def name_text_def Let_def flip: t_def st_def)
qed

section \<open>Offsets\<close>

lemma unpack_loop_bound:
  "unpack_loop msg off s ptr off1 = Inr (t, off2) \<Longrightarrow> (0 < ptr \<longrightarrow> off1 \<le> length msg) \<Longrightarrow>
   off2 \<le> length msg"
proof (induction msg off s ptr off1 rule: unpack_loop.induct)
  case (1 msg off s ptr off1)
  note IH = 1(1,2)
  define c where "c = unat (msg ! off)"
  define kind where "kind = unat (msg ! off AND 0xC0)"
  have off: "off < length msg"
    using 1(3) by (simp add: unpack_loop.simps [of msg off] split: if_splits)
  note step = 1(3) [unfolded unpack_loop.simps [of msg off s ptr off1] Let_def
      c_def [symmetric] kind_def [symmetric]]
  consider "kind = 0" "c = 0" | "kind = 0" "c \<noteq> 0" | "kind = 0xC0" | "kind \<noteq> 0" "kind \<noteq> 0xC0"
    by blast
  then show ?case
  proof cases
    case 1
    with off step "1.prems"(2) show ?thesis
      by (auto split: if_splits)
  next
    case 2
    with off step have "\<not> length msg < off + 1 + c"
      by (simp split: if_splits)
    with IH(1) [OF _ c_def kind_def] off 2 step "1.prems"(2) show ?thesis
      by simp
  next
    case 3
    with off step have "\<not> length msg \<le> off + 1" "\<not> 10 < ptr + 1"
      by (simp_all split: if_splits)
    with IH(2) [OF _ c_def kind_def] off 3 step "1.prems"(2) show ?thesis
      by simp
  next
    case 4
    with off step show ?thesis by simp
  qed
qed

text \<open>A pointer to the root: the offset returned is the one behind the root, not behind the pointer.\<close>

lemma unpack_pointer_to_root:
  assumes "off + 1 < length msg" "unat (msg ! off AND 0xC0) = 0xC0"
    and p: "p = 256 * (unat (msg ! off) - 0xC0) + unat (msg ! (off + 1))" "p < length msg" "msg ! p = 0"
  shows "UnpackDomainName msg off = Inr (''.'', p + 1)"
proof -
  have "unpack_loop msg off [] 0 0 = unpack_loop msg p [] 1 (off + 2)"
    using assms(1,2) p(1) by (subst unpack_loop.simps) (simp add: Let_def)
  also have "\<dots> = Inr (''.'', p + 1)"
    using p(2,3) by (subst unpack_loop.simps) simp
  finally show ?thesis
    by (simp add: UnpackDomainName_def)
qed

lemma pointer_to_root:
  assumes "off + 1 < length msg" and "p < off" and "p < 16384" and "msg ! p = 0"
    and "unat (msg ! off) = 192 + p div 256" and "unat (msg ! (off + 1)) = p mod 256"
  shows "UnpackDomainName msg off = Inr (''.'', p + 1)"
proof -
  have all: "\<forall>n\<in>{192..<256}. unat ((word_of_nat n :: byte) AND 0xC0) = 0xC0"
    by code_simp
  have "192 + p div 256 \<in> {192..<256}"
    using assms(3) by simp
  with all have "unat ((word_of_nat (192 + p div 256) :: byte) AND 0xC0) = 0xC0"
    by blast
  moreover have "msg ! off = word_of_nat (192 + p div 256)"
    by (simp flip: assms(5))
  ultimately have "unat (msg ! off AND 0xC0) = 0xC0"
    by metis
  then show ?thesis
    using assms by (intro unpack_pointer_to_root) auto
qed

end
