(* ===== verification/Dns_Text.thy ===== *)
theory Dns_Text
  imports Dns_Name_Codec
begin

text \<open>
  How the parts of \<open>miekg/dns/msg.go\<close> that walk over records end, and the character strings of text
  records: \<open>packTxt\<close> and \<open>packTxtString\<close>, \<open>unpackTxt\<close> and \<open>unpackTxtString\<close>.
\<close>

section \<open>Outcomes\<close>

text \<open>
  A call returns a value, returns an error, or panics. Functions that pack or unpack also return an
  offset with an error; it is the length of the message, and no caller looks at anything else of it.
\<close>

datatype 'a outcome = Ret 'a | Fail dns_error | Panic

primrec obind :: "'a outcome \<Rightarrow> ('a \<Rightarrow> 'b outcome) \<Rightarrow> 'b outcome" where
  "obind (Ret x) f = f x"
| "obind (Fail e) f = Fail e"
| "obind Panic f = Panic"

lemma obind_Ret_iff: "obind r f = Ret y \<longleftrightarrow> (\<exists>x. r = Ret x \<and> f x = Ret y)"
  by (cases r) simp_all

lemma obind_Panic_iff: "obind r f = Panic \<longleftrightarrow> r = Panic \<or> (\<exists>x. r = Ret x \<and> f x = Panic)"
  by (cases r) simp_all

lemma obind_assoc: "obind (obind r f) g = obind r (\<lambda>x. obind (f x) g)"
  by (cases r) simp_all

lemma obind_Ret_id [simp]: "obind r Ret = r"
  by (cases r) simp_all

text \<open>Bytes written into a buffer that has room for them.\<close>

definition write_at :: "bytes \<Rightarrow> nat \<Rightarrow> bytes \<Rightarrow> bytes" where
  "write_at m off bs = take off m @ bs @ drop (off + length bs) m"

lemma length_write_at [simp]: "off + length bs \<le> length m \<Longrightarrow> length (write_at m off bs) = length m"
  by (simp add: write_at_def)

lemma write_at_append [simp]:
  "length w = off \<Longrightarrow> write_at (w @ r) off bs = (w @ bs) @ drop (length bs) r"
  by (simp add: write_at_def)

section \<open>Character strings\<close>

text \<open>
  The loop of \<open>packTxtString\<close> over what is left of the text: the room for a byte is checked before every
  character, escaped or not.
\<close>

function txt_loop :: "string \<Rightarrow> bytes \<Rightarrow> nat \<Rightarrow> dns_error + nat \<times> bytes" where
  "txt_loop bs msg off =
     (case bs of
        [] \<Rightarrow> Inr (off, msg)
      | c # r \<Rightarrow>
          if length msg \<le> off then Inl ErrBuf
          else if c = CHR 0x5C then
            (case r of
               [] \<Rightarrow> Inr (off, msg)
             | d # r1 \<Rightarrow>
                 if 2 < length r \<and> is_digit d \<and> is_digit (r ! 1) \<and> is_digit (r ! 2)
                 then txt_loop (drop 3 r) (msg[off := of_char (dddToByte r)]) (off + 1)
                 else if d = CHR ''t'' then txt_loop r1 (msg[off := 0x09]) (off + 1)
                 else if d = CHR ''r'' then txt_loop r1 (msg[off := 0x0D]) (off + 1)
                 else if d = CHR ''n'' then txt_loop r1 (msg[off := 0x0A]) (off + 1)
                 else txt_loop r1 (msg[off := of_char d]) (off + 1))
          else txt_loop r (msg[off := of_char c]) (off + 1))"
  by pat_completeness auto

termination txt_loop
  by (relation "measure (\<lambda>(bs, msg, off). length bs)") auto

declare txt_loop.simps [simp del]

text \<open>The buffer \<open>tmp\<close> has 1025 bytes; a longer string is outside its capacity.\<close>

definition packTxtString :: "string \<Rightarrow> bytes \<Rightarrow> nat \<Rightarrow> (nat \<times> bytes) outcome" where
  "packTxtString s msg offset =
     (if offset \<ge> length msg then Fail ErrBuf
      else if length s > 1025 then Panic
      else case txt_loop s msg (offset + 1) of
        Inl e \<Rightarrow> Fail e
      | Inr (off1, m) \<Rightarrow>
          (let l = off1 - offset - 1 in
           if l > 255 then Fail (DnsError ''string exceeded 255 bytes in txt'')
           else Ret (off1, m[offset := word_of_nat l])))"

fun packTxt_loop :: "string list \<Rightarrow> bytes \<Rightarrow> nat \<Rightarrow> (nat \<times> bytes) outcome" where
  "packTxt_loop [] msg offset = Ret (offset, msg)"
| "packTxt_loop (t # ts) msg offset =
     (if length t > 1025 then Fail ErrBuf
      else obind (packTxtString t msg offset) (\<lambda>(off1, m). packTxt_loop ts m off1))"

definition packTxt :: "string list \<Rightarrow> bytes \<Rightarrow> nat \<Rightarrow> (nat \<times> bytes) outcome" where
  "packTxt txt msg offset =
     (if txt = [] then
        (if offset \<ge> length msg then Fail ErrBuf else Ret (offset, msg[offset := 0]))
      else packTxt_loop txt msg offset)"

definition txt_escape_char :: "char \<Rightarrow> string" where
  "txt_escape_char b =
     (if b = CHR 0x22 \<or> b = CHR 0x5C then [CHR 0x5C, b]
      else if b = CHR 0x09 then [CHR 0x5C, CHR ''t'']
      else if b = CHR 0x0D then [CHR 0x5C, CHR ''r'']
      else if b = CHR 0x0A then [CHR 0x5C, CHR ''n'']
      else if (of_char b :: nat) < 32 \<or> (of_char b :: nat) > 127 then CHR 0x5C # pad3 (of_char b)
      else [b])"

definition txt_escape :: "string \<Rightarrow> string" where
  "txt_escape s = concat (map txt_escape_char s)"

definition unpackTxtString :: "bytes \<Rightarrow> nat \<Rightarrow> dns_error + string \<times> nat" where
  "unpackTxtString msg offset =
     (if offset + 1 > length msg then Inl (DnsError ''overflow unpacking txt'')
      else let l = unat (msg ! offset) in
        if offset + l + 1 > length msg then Inl (DnsError ''overflow unpacking txt'')
        else Inr (txt_escape (string_of (go_slice msg (offset + 1) (offset + 1 + l))), offset + 1 + l))"

lemma unpackTxtString_bounds:
  "unpackTxtString msg off = Inr (s, off1) \<Longrightarrow> off < off1 \<and> off1 \<le> length msg"
  by (auto simp: unpackTxtString_def Let_def split: if_splits)

function unpackTxt :: "bytes \<Rightarrow> nat \<Rightarrow> nat \<Rightarrow> dns_error + string list \<times> nat" where
  "unpackTxt msg offset rdend =
     (if offset < rdend then
        (case unpackTxtString msg offset of
           Inl e \<Rightarrow> Inl e
         | Inr (s, off1) \<Rightarrow>
             (case unpackTxt msg off1 rdend of
                Inl e \<Rightarrow> Inl e
              | Inr (ss, off2) \<Rightarrow> Inr (s # ss, off2)))
      else Inr ([], offset))"
  by auto

termination unpackTxt
  by (relation "measure (\<lambda>(msg, offset, rdend). rdend - offset)")
    (auto dest!: unpackTxtString_bounds)

declare unpackTxt.simps [simp del]

section \<open>Unpacking inverts packing\<close>

lemma txt_escape_simps [simp]:
  "txt_escape [] = []" "txt_escape (c # s) = txt_escape_char c @ txt_escape s"
  by (simp_all add: txt_escape_def)

lemma txt_loop_Nil [simp]: "txt_loop [] msg off = Inr (off, msg)"
  by (subst txt_loop.simps) simp

lemma list_update_write: "off < length m \<Longrightarrow> m[off := b] = write_at m off [b]"
  by (simp add: write_at_def upd_conv_take_nth_drop)

text \<open>One byte: its escape is read as the byte it stands for.\<close>

lemma txt_loop_char:
  assumes "off < length msg"
  shows "txt_loop (txt_escape_char c @ r) msg off = txt_loop r (msg[off := of_char c]) (off + 1)"
proof -
  obtain x y z where ddd: "pad3 (of_char c) = [x, y, z]" "is_digit x" "is_digit y" "is_digit z"
    "\<And>r. dddToByte (x # y # z # r) = c"
    using pad3_cases [of c] by blast
  have d: "\<not> is_digit (CHR 0x22)" "\<not> is_digit (CHR 0x5C)" "\<not> is_digit (CHR ''t'')"
    "\<not> is_digit (CHR ''r'')" "\<not> is_digit (CHR ''n'')"
    by (simp_all add: is_digit_def)
  have n: "of_char (CHR 0x09) = (0x09 :: byte)" "of_char (CHR 0x0D) = (0x0D :: byte)"
    "of_char (CHR 0x0A) = (0x0A :: byte)"
    by simp_all
  show ?thesis
    using assms ddd d n
    by (subst txt_loop.simps) (auto simp: txt_escape_char_def)
qed

lemma txt_loop_escape:
  "off + length t \<le> length msg \<Longrightarrow>
   txt_loop (txt_escape t) msg off = Inr (off + length t, write_at msg off (bytes_of t))"
proof (induction t arbitrary: msg off)
  case Nil
  then show ?case by (simp add: write_at_def)
next
  case (Cons c t)
  then have "txt_loop (txt_escape (c # t)) msg off =
      txt_loop (txt_escape t) (msg[off := of_char c]) (off + 1)"
    by (simp add: txt_loop_char)
  also have "\<dots> = Inr (off + 1 + length t, write_at (msg[off := of_char c]) (off + 1) (bytes_of t))"
    using Cons.prems by (subst Cons.IH) simp_all
  also have "write_at (msg[off := of_char c]) (off + 1) (bytes_of t) = write_at msg off (bytes_of (c # t))"
    using Cons.prems by (simp add: list_update_write) (simp add: write_at_def min_def add.commute)
  finally show ?case by simp
qed

lemma length_txt_escape_char: "1 \<le> length (txt_escape_char c)" "length (txt_escape_char c) \<le> 4"
proof -
  obtain x y z where "pad3 (of_char c) = [x, y, z]"
    using pad3_cases [of c] by blast
  then show "1 \<le> length (txt_escape_char c)" "length (txt_escape_char c) \<le> 4"
    by (auto simp: txt_escape_char_def)
qed

lemma length_txt_escape: "length t \<le> length (txt_escape t)" "length (txt_escape t) \<le> 4 * length t"
proof -
  show "length t \<le> length (txt_escape t)"
  proof (induction t)
    case (Cons c t)
    then show ?case
      using length_txt_escape_char(1) [of c] by simp
  qed simp
  show "length (txt_escape t) \<le> 4 * length t"
  proof (induction t)
    case (Cons c t)
    then show ?case
      using length_txt_escape_char(2) [of c] by simp
  qed simp
qed

text \<open>A character string on the wire.\<close>

definition wire_txt :: "string \<Rightarrow> bytes" where
  "wire_txt t = word_of_nat (length t) # bytes_of t"

lemma length_wire_txt [simp]: "length (wire_txt t) = Suc (length t)"
  by (simp add: wire_txt_def)

lemma packTxtString_wire:
  assumes "length t \<le> 255" "length w + 1 + length t \<le> length (w @ r)"
  shows "packTxtString (txt_escape t) (w @ r) (length w) =
     Ret (length w + 1 + length t, (w @ wire_txt t) @ drop (1 + length t) r)"
proof -
  obtain b r1 where r: "r = b # r1"
    using assms(2) by (cases r) auto
  have "length (txt_escape t) \<le> 1025"
    using assms(1) length_txt_escape(2) [of t] by simp
  moreover have "txt_loop (txt_escape t) (w @ r) (length w + 1) =
     Inr (length w + 1 + length t, (w @ b # bytes_of t) @ drop (length t) r1)"
    using assms(2) txt_loop_escape [of "length w + 1" t "w @ r"] by (simp add: r write_at_def)
  ultimately show ?thesis
    using assms by (simp add: packTxtString_def r wire_txt_def Let_def list_update_append)
qed

lemma unpackTxtString_wire:
  assumes "length t \<le> 255"
  shows "unpackTxtString (w @ wire_txt t @ r) (length w) = Inr (txt_escape t, length w + 1 + length t)"
proof -
  have "unat (word_of_nat (length t) :: byte) = length t"
    using assms by (simp add: unsigned_of_nat take_bit_eq_mod)
  then show ?thesis
    by (simp add: unpackTxtString_def wire_txt_def Let_def go_slice_def nth_append)
qed

lemma packTxt_loop_wire:
  "list_all (\<lambda>t. length t \<le> 255) ts \<Longrightarrow> length w + length (concat (map wire_txt ts)) \<le> length (w @ r) \<Longrightarrow>
   packTxt_loop (map txt_escape ts) (w @ r) (length w) =
     Ret (length (w @ concat (map wire_txt ts)),
          (w @ concat (map wire_txt ts)) @ drop (length (concat (map wire_txt ts))) r)"
proof (induction ts arbitrary: w r)
  case Nil
  then show ?case by simp
next
  case (Cons t ts)
  have "\<not> 1025 < length (txt_escape t)"
    using Cons.prems length_txt_escape(2) [of t] by simp
  with Cons.prems Cons.IH [of "w @ wire_txt t" "drop (1 + length t) r"] show ?case
    by (simp add: packTxtString_wire [of t w r, simplified])
      (simp add: ac_simps)
qed

lemma unpackTxt_wire:
  "list_all (\<lambda>t. length t \<le> 255) ts \<Longrightarrow>
   unpackTxt (w @ concat (map wire_txt ts) @ r) (length w) (length w + length (concat (map wire_txt ts))) =
     Inr (map txt_escape ts, length w + length (concat (map wire_txt ts)))"
proof (induction ts arbitrary: w)
  case Nil
  then show ?case by (subst unpackTxt.simps) simp
next
  case (Cons t ts)
  have "unpackTxtString (w @ wire_txt t @ concat (map wire_txt ts) @ r) (length w) =
      Inr (txt_escape t, length w + 1 + length t)"
    using Cons.prems by (intro unpackTxtString_wire) simp
  moreover have "unpackTxt ((w @ wire_txt t) @ concat (map wire_txt ts) @ r) (length (w @ wire_txt t))
      (length (w @ wire_txt t) + length (concat (map wire_txt ts))) =
    Inr (map txt_escape ts, length (w @ wire_txt t) + length (concat (map wire_txt ts)))"
    using Cons by (intro Cons.IH) simp
  ultimately show ?case
    by (subst unpackTxt.simps) (simp add: ac_simps)
qed

end
