(* ===== verification/Go_Crypto.thy ===== *)
theory Go_Crypto
  imports Prelude
begin

text \<open>
  \<open>crypto/sha1\<close> and \<open>encoding/base64\<close> as the WebSocket handshake uses them (FIPS 180-4, RFC 4648).
\<close>

type_synonym w32 = "32 word"

unbundle bit_operations_syntax

section \<open>SHA-1\<close>

definition rotl :: "nat \<Rightarrow> w32 \<Rightarrow> w32" where
  "rotl n w = push_bit n w OR drop_bit (32 - n) w"

definition be32 :: "bytes \<Rightarrow> w32" where
  "be32 bs = word_of_nat (foldl (\<lambda>n b. 256 * n + unat b) 0 bs)"

definition sha1_pad :: "bytes \<Rightarrow> bytes" where
  "sha1_pad m =
     m @ [128] @ replicate ((119 - length m mod 64) mod 64) 0 @ be_bytes 8 (8 * length m)"

fun split_every :: "nat \<Rightarrow> nat \<Rightarrow> 'a list \<Rightarrow> 'a list list" where
  "split_every 0 k xs = []"
| "split_every (Suc n) k xs = take k xs # split_every n k (drop k xs)"

text \<open>The message schedule, the latest word first.\<close>

fun sha1_extend :: "nat \<Rightarrow> w32 list \<Rightarrow> w32 list" where
  "sha1_extend 0 ws = ws"
| "sha1_extend (Suc n) ws =
     sha1_extend n (rotl 1 ((ws ! 2 XOR ws ! 7) XOR (ws ! 13 XOR ws ! 15)) # ws)"

definition sha1_fk :: "nat \<Rightarrow> w32 \<Rightarrow> w32 \<Rightarrow> w32 \<Rightarrow> w32 \<times> w32" where
  "sha1_fk t b c d =
     (if t < 20 then ((b AND c) OR (NOT b AND d), 0x5A827999)
      else if t < 40 then (b XOR c XOR d, 0x6ED9EBA1)
      else if t < 60 then ((b AND c) OR (b AND d) OR (c AND d), 0x8F1BBCDC)
      else (b XOR c XOR d, 0xCA62C1D6))"

type_synonym sha1_state = "w32 \<times> w32 \<times> w32 \<times> w32 \<times> w32"

fun sha1_rounds :: "nat \<Rightarrow> w32 list \<Rightarrow> sha1_state \<Rightarrow> sha1_state" where
  "sha1_rounds t [] st = st"
| "sha1_rounds t (w # ws) (a, b, c, d, e) =
     (let (f, k) = sha1_fk t b c d in
      sha1_rounds (Suc t) ws (rotl 5 a + f + e + k + w, a, rotl 30 b, c, d))"

definition sha1_block :: "sha1_state \<Rightarrow> bytes \<Rightarrow> sha1_state" where
  "sha1_block st blk =
     (let ws = rev (sha1_extend 64 (rev (map be32 (split_every 16 4 blk))));
          (a, b, c, d, e) = st;
          (a', b', c', d', e') = sha1_rounds 0 ws st in
      (a + a', b + b', c + c', d + d', e + e'))"

definition sha1_init :: sha1_state where
  "sha1_init = (0x67452301, 0xEFCDAB89, 0x98BADCFE, 0x10325476, 0xC3D2E1F0)"

definition sha1 :: "bytes \<Rightarrow> bytes" where
  "sha1 m =
     (let p = sha1_pad m;
          (a, b, c, d, e) = foldl sha1_block sha1_init (split_every (length p div 64) 64 p) in
      concat (map (\<lambda>w. be_bytes 4 (unat w)) [a, b, c, d, e]))"

lemma length_sha1: "length (sha1 m) = 20"
  by (simp add: sha1_def Let_def split: prod.splits)

text \<open>The padded message is a whole number of 64-byte blocks.\<close>

lemma sha1_pad_blocks: "64 dvd length (sha1_pad m)"
proof -
  define q r where "q = length m div 64" and "r = length m mod 64"
  have m: "length m = 64 * q + r" and r: "r < 64"
    by (simp_all add: q_def r_def)
  have "64 dvd 64 * q + r + 9 + (119 - r) mod 64"
  proof (cases "r \<le> 55")
    case True
    then have "(119 - r) mod 64 = 55 - r"
      by (simp add: mod_if)
    with True have "64 * q + r + 9 + (119 - r) mod 64 = 64 * (q + 1)"
      by simp
    then show ?thesis by (simp only: dvd_triv_left)
  next
    case False
    then have "(119 - r) mod 64 = 119 - r"
      by simp
    with False r have "64 * q + r + 9 + (119 - r) mod 64 = 64 * (q + 2)"
      by simp
    then show ?thesis by (simp only: dvd_triv_left)
  qed
  moreover have "length (sha1_pad m) = 64 * q + r + 9 + (119 - r) mod 64"
    using r by (simp add: sha1_pad_def m)
  ultimately show ?thesis by simp
qed

section \<open>Base64\<close>

definition b64_char :: "nat \<Rightarrow> char" where
  "b64_char n =
     (if n < 26 then char_of (65 + n) else if n < 52 then char_of (71 + n)
      else if n < 62 then char_of (n - 4) else if n = 62 then CHR ''+'' else CHR ''/'')"

fun base64 :: "bytes \<Rightarrow> string" where
  "base64 [] = []"
| "base64 [a] =
     [b64_char (unat a div 4), b64_char (unat a mod 4 * 16), CHR ''='', CHR ''='']"
| "base64 [a, b] =
     [b64_char (unat a div 4), b64_char (unat a mod 4 * 16 + unat b div 16),
      b64_char (unat b mod 16 * 4), CHR ''='']"
| "base64 (a # b # c # r) =
     [b64_char (unat a div 4), b64_char (unat a mod 4 * 16 + unat b div 16),
      b64_char (unat b mod 16 * 4 + unat c div 64), b64_char (unat c mod 64)] @ base64 r"

lemma length_base64: "length (base64 bs) = 4 * ((length bs + 2) div 3)"
proof (induction bs rule: base64.induct)
  case (4 a b c r)
  have "(length (a # b # c # r) + 2) div 3 = Suc ((length r + 2) div 3)"
    using div_add_self2 [of 3 "length r + 2"] by simp
  with 4 show ?case by simp
qed simp_all

lemma base64_not_empty: "bs \<noteq> [] \<Longrightarrow> base64 bs \<noteq> []"
  by (cases bs rule: base64.cases) auto

text \<open>The characters of an encoding are letters, digits and \<open>+/=\<close>.\<close>

lemma b64_char_range: "n < 64 \<Longrightarrow> 43 \<le> (of_char (b64_char n) :: nat) \<and> (of_char (b64_char n) :: nat) \<le> 122"
  by (auto simp: b64_char_def)

lemma byte_split_bounds:
  "unat (a :: byte) div 4 < 64" "unat (a :: byte) mod 4 * 16 + unat (b :: byte) div 16 < 64"
  "unat (b :: byte) mod 16 * 4 + unat (c :: byte) div 64 < 64" "unat (b :: byte) mod 16 * 4 < 64"
  "unat (a :: byte) mod 4 * 16 < 64" "unat (a :: byte) mod 64 < 64"
proof -
  have u: "unat (x :: byte) < 256" for x
    using unsigned_less [of x, where ?'a = nat] by simp
  have d: "unat (x :: byte) div 4 < 64" "unat (x :: byte) div 16 < 16" "unat (x :: byte) div 64 < 4" for x
    using u [of x] by (simp_all add: less_mult_imp_div_less)
  have m: "unat (x :: byte) mod 4 < 4" "unat (x :: byte) mod 16 < 16" for x
    by simp_all
  show "unat a div 4 < 64" "unat a mod 64 < 64"
    using d by simp_all
  show "unat a mod 4 * 16 + unat b div 16 < 64" "unat a mod 4 * 16 < 64"
    using d(2) [of b] m(1) [of a] by linarith+
  show "unat b mod 16 * 4 + unat c div 64 < 64" "unat b mod 16 * 4 < 64"
    using d(3) [of c] m(2) [of b] by linarith+
qed

lemma base64_range:
  "\<forall>c\<in>set (base64 bs). 43 \<le> (of_char c :: nat) \<and> (of_char c :: nat) \<le> 122"
  by (induction bs rule: base64.induct) (simp_all add: b64_char_range byte_split_bounds)

end
