(* ===== verification/Go_Json.thy ===== *)
theory Go_Json
  imports Go_Strings
begin

text \<open>
  Go's package \<open>encoding/json\<close> as the proxy uses it: \<open>Marshal\<close> of the four-field wire messages
  and \<open>Unmarshal\<close> into them. Strings are byte sequences in UTF-8; the encoder replaces what is not
  valid UTF-8 by U+FFFD and escapes HTML characters, the decoder accepts the whole JSON grammar,
  matches field names without regard to case and reports a type mismatch as an error. Recursion
  through nested values is bounded by fuel; the length of the text is always enough
  (\<open>jval_fuel\<close>).
\<close>

section \<open>UTF-8\<close>

abbreviation cc :: "char \<Rightarrow> nat" where
  "cc c \<equiv> of_char c"

definition is_cont :: "char \<Rightarrow> bool" where
  "is_cont c = (128 \<le> cc c \<and> cc c \<le> 191)"

text \<open>The size of the valid rune at the front, as \<open>utf8.DecodeRune\<close> finds it.\<close>

definition lead_size :: "nat \<Rightarrow> nat" where
  "lead_size n =
     (if n < 128 then 1 else if n < 194 then 0 else if n \<le> 223 then 2
      else if n \<le> 239 then 3 else if n \<le> 244 then 4 else 0)"

definition second_ok :: "nat \<Rightarrow> nat \<Rightarrow> bool" where
  "second_ok n b =
     ((n = 224 \<longrightarrow> 160 \<le> b) \<and> (n = 237 \<longrightarrow> b \<le> 159) \<and> (n = 240 \<longrightarrow> 144 \<le> b) \<and> (n = 244 \<longrightarrow> b \<le> 143))"

fun rune_size :: "string \<Rightarrow> nat option" where
  "rune_size [] = None"
| "rune_size (a # t) =
     (let k = lead_size (cc a) in
      if k = 1 then Some 1
      else if k = 0 \<or> length t < k - 1 \<or> \<not> list_all is_cont (take (k - 1) t)
        \<or> \<not> second_ok (cc a) (cc (hd t)) then None
      else Some k)"

declare rune_size.simps [simp del]

definition utf8_encode :: "nat \<Rightarrow> string" where
  "utf8_encode r =
     (if r < 128 then [char_of r]
      else if r < 2048 then [char_of (192 + r div 64), char_of (128 + r mod 64)]
      else if r < 65536 then
        [char_of (224 + r div 4096), char_of (128 + r div 64 mod 64), char_of (128 + r mod 64)]
      else
        [char_of (240 + r div 262144), char_of (128 + r div 4096 mod 64),
         char_of (128 + r div 64 mod 64), char_of (128 + r mod 64)])"

definition replacement :: string where
  "replacement = [CHR 0xEF, CHR 0xBF, CHR 0xBD]"

lemma lead_size_le: "lead_size n \<le> 4"
  by (simp add: lead_size_def)

lemma rune_size_bounds: "rune_size s = Some k \<Longrightarrow> 0 < k \<and> k \<le> length s"
  by (cases s) (auto simp: rune_size.simps Let_def split: if_splits)

lemma rune_size_ascii: "cc c < 128 \<Longrightarrow> rune_size (c # s) = Some 1"
  by (simp add: rune_size.simps lead_size_def)

lemma rune_size_append:
  assumes "rune_size s = Some k"
  shows "rune_size (take k s @ r) = Some k"
proof (cases s)
  case Nil
  with assms show ?thesis by (simp add: rune_size.simps)
next
  case (Cons a t)
  with assms obtain j where k: "k = Suc j" and t: "j \<le> length t"
    using rune_size_bounds [OF assms] by (cases k) auto
  have "j \<noteq> 0 \<Longrightarrow> hd (take j t @ r) = hd t"
    using t by (cases t; cases j) auto
  with Cons assms k t show ?thesis
    by (auto simp: rune_size.simps Let_def min_def split: if_splits)
qed

lemma rune_size_large: "rune_size s = Some k \<Longrightarrow> k \<noteq> 1 \<Longrightarrow> 128 \<le> cc (hd s)"
  by (cases s) (auto simp: rune_size.simps lead_size_def Let_def split: if_splits)

section \<open>Encoding\<close>

definition hex_char :: "nat \<Rightarrow> char" where
  "hex_char d = (if d < 10 then char_of (48 + d) else char_of (87 + d))"

definition u_escape :: "nat \<Rightarrow> string" where
  "u_escape v =
     [CHR 0x5C, CHR ''u''] @ [hex_char (v div 4096 mod 16), hex_char (v div 256 mod 16),
      hex_char (v div 16 mod 16), hex_char (v mod 16)]"

definition enc_ascii :: "char \<Rightarrow> string" where
  "enc_ascii c =
     (if c = CHR 0x5C \<or> c = CHR 0x22 then [CHR 0x5C, c]
      else if c = CHR 0x0A then [CHR 0x5C, CHR ''n'']
      else if c = CHR 0x0D then [CHR 0x5C, CHR ''r'']
      else if cc c < 32 \<or> c = CHR ''<'' \<or> c = CHR ''>'' \<or> c = CHR ''&'' then u_escape (cc c)
      else [c])"

function enc_str :: "string \<Rightarrow> string" where
  "enc_str [] = []"
| "enc_str (c # s) =
     (case rune_size (c # s) of
        None \<Rightarrow> u_escape 65533 @ enc_str s
      | Some k \<Rightarrow>
          (if k = 1 then enc_ascii c
           else if take 3 (c # s) = [CHR 0xE2, CHR 0x80, CHR 0xA8] then u_escape 8232
           else if take 3 (c # s) = [CHR 0xE2, CHR 0x80, CHR 0xA9] then u_escape 8233
           else take k (c # s)) @ enc_str (drop (k - 1) s))"
  by pat_completeness auto
termination
  by (relation "measure length") auto

text \<open>What a string becomes when it goes through the encoder: invalid bytes are replaced.\<close>

function to_valid_utf8 :: "string \<Rightarrow> string" where
  "to_valid_utf8 [] = []"
| "to_valid_utf8 (c # s) =
     (case rune_size (c # s) of
        None \<Rightarrow> replacement @ to_valid_utf8 s
      | Some k \<Rightarrow> take k (c # s) @ to_valid_utf8 (drop (k - 1) s))"
  by pat_completeness auto
termination
  by (relation "measure length") auto

lemma to_valid_utf8_ascii: "\<forall>c\<in>set s. cc c < 128 \<Longrightarrow> to_valid_utf8 s = s"
  by (induction s) (auto simp: rune_size_ascii)

definition json_string :: "string \<Rightarrow> string" where
  "json_string s = CHR 0x22 # enc_str s @ [CHR 0x22]"

section \<open>Decoding\<close>

definition hex_val :: "char \<Rightarrow> nat option" where
  "hex_val c =
     (let n = cc c in
      if 48 \<le> n \<and> n \<le> 57 then Some (n - 48)
      else if 97 \<le> n \<and> n \<le> 102 then Some (n - 87)
      else if 65 \<le> n \<and> n \<le> 70 then Some (n - 55)
      else None)"

fun hex4 :: "string \<Rightarrow> (nat \<times> string) option" where
  "hex4 (a # b # c # d # s) =
     (case (hex_val a, hex_val b, hex_val c, hex_val d) of
        (Some w, Some x, Some y, Some z) \<Rightarrow> Some (4096 * w + 256 * x + 16 * y + z, s)
      | _ \<Rightarrow> None)"
| "hex4 _ = None"

text \<open>The rune of a \<open>\u\<close> escape, with the second half of a surrogate pair consumed.\<close>

definition u_rune :: "nat \<Rightarrow> string \<Rightarrow> nat \<times> string" where
  "u_rune v s =
     (if 55296 \<le> v \<and> v \<le> 57343 then
        (case s of
           e # u # t \<Rightarrow>
             (if e = CHR 0x5C \<and> u = CHR ''u'' then
                (case hex4 t of
                   Some (v2, t2) \<Rightarrow>
                     if v \<le> 56319 \<and> 56320 \<le> v2 \<and> v2 \<le> 57343
                     then (65536 + (v - 55296) * 1024 + (v2 - 56320), t2)
                     else (65533, s)
                 | None \<Rightarrow> (65533, s))
              else (65533, s))
         | _ \<Rightarrow> (65533, s))
      else (v, s))"

definition simple_escape :: "char \<Rightarrow> char option" where
  "simple_escape e =
     (if e = CHR 0x22 \<or> e = CHR 0x5C \<or> e = CHR ''/'' then Some e
      else if e = CHR ''b'' then Some (CHR 0x08)
      else if e = CHR ''f'' then Some (CHR 0x0C)
      else if e = CHR ''n'' then Some (CHR 0x0A)
      else if e = CHR ''r'' then Some (CHR 0x0D)
      else if e = CHR ''t'' then Some (CHR 0x09)
      else None)"

definition prepend :: "string \<Rightarrow> (string \<times> string) option \<Rightarrow> (string \<times> string) option" where
  "prepend p r = map_option (\<lambda>(v, s). (p @ v, s)) r"

lemma hex4_length: "hex4 s = Some (v, t) \<Longrightarrow> length t < length s"
  by (induction s rule: hex4.induct) (auto split: option.splits)

lemma u_rune_length: "u_rune v s = (r, t) \<Longrightarrow> length t \<le> length s"
  by (auto simp: u_rune_def dest!: hex4_length split: if_splits list.splits option.splits)

function dec_str :: "string \<Rightarrow> (string \<times> string) option" where
  "dec_str [] = None"
| "dec_str (c # s) =
     (if c = CHR 0x22 then Some ([], s)
      else if c = CHR 0x5C then
        (case s of
           [] \<Rightarrow> None
         | e # t \<Rightarrow>
             if e = CHR ''u'' then
               (case hex4 t of
                  None \<Rightarrow> None
                | Some (v, t2) \<Rightarrow>
                    prepend (utf8_encode (fst (u_rune v t2))) (dec_str (snd (u_rune v t2))))
             else (case simple_escape e of None \<Rightarrow> None | Some x \<Rightarrow> prepend [x] (dec_str t)))
      else if cc c < 32 then None
      else (case rune_size (c # s) of
              None \<Rightarrow> prepend replacement (dec_str s)
            | Some k \<Rightarrow> prepend (take k (c # s)) (dec_str (drop (k - 1) s))))"
  by pat_completeness auto
termination
proof (relation "measure length", goal_cases)
  case (2 c s e t x v t2)
  then have "length t2 < length t"
    by (auto dest: hex4_length)
  moreover have "length (snd (u_rune v t2)) \<le> length t2"
    by (rule u_rune_length) (rule prod.collapse [symmetric])
  ultimately show ?case
    using 2 by simp
qed auto

declare dec_str.simps [simp del]

lemma dec_str_length: "dec_str s = Some (v, r) \<Longrightarrow> length r < length s"
proof (induction s arbitrary: v r rule: dec_str.induct)
  case 1
  then show ?case by (simp add: dec_str.simps)
next
  case (2 c s)
  note IH = "2.IH"
  show ?case
  proof (cases "c = CHR 0x22 \<or> c = CHR 0x5C \<or> cc c < 32")
    case False
    with 2(5) IH(3,4) show ?thesis
      by (auto simp: dec_str.simps(2) [of c s] prepend_def split: option.splits) force+
  next
    case True
    show ?thesis
    proof (cases "c = CHR 0x5C")
      case False
      with True 2(5) show ?thesis
        by (auto simp: dec_str.simps(2) [of c s] split: if_splits)
    next
      case esc: True
      with 2(5) obtain e t where s: "s = e # t"
        by (cases s) (auto simp: dec_str.simps(2) [of "CHR 0x5C" "[]"])
      show ?thesis
      proof (cases "e = CHR ''u''")
        case True
        with esc s 2(5) obtain w t2 v2 where h: "hex4 t = Some (w, t2)"
          and d: "dec_str (snd (u_rune w t2)) = Some (v2, r)"
          by (auto simp: dec_str.simps(2) [of "CHR 0x5C"] prepend_def split: option.splits)
        have "length r < length (snd (u_rune w t2))"
          using IH(1) [OF _ _ s True h refl d] esc by simp
        moreover have "length (snd (u_rune w t2)) \<le> length t2"
          by (rule u_rune_length) (rule prod.collapse [symmetric])
        ultimately show ?thesis
          using hex4_length [OF h] s by simp
      next
        case False
        with esc s 2(5) obtain x v2 where "simple_escape e = Some x" "dec_str t = Some (v2, r)"
          by (auto simp: dec_str.simps(2) [of "CHR 0x5C"] prepend_def split: option.splits)
        then have "length r < length t"
          using IH(2) [OF _ _ s False] esc by simp
        with s show ?thesis by simp
      qed
    qed
  qed
qed

subsection \<open>Numbers\<close>

definition scan_int :: "string \<Rightarrow> (string \<times> string) option" where
  "scan_int s =
     (case s of
        [] \<Rightarrow> None
      | c # t \<Rightarrow>
          if c = CHR ''0'' then Some ([c], t)
          else if is_digit c then Some (takeWhile is_digit s, dropWhile is_digit s)
          else None)"

definition scan_frac :: "string \<Rightarrow> (string \<times> string) option" where
  "scan_frac s =
     (case s of
        [] \<Rightarrow> Some ([], [])
      | c # t \<Rightarrow>
          if c = CHR ''.'' then
            (if takeWhile is_digit t = [] then None
             else Some (c # takeWhile is_digit t, dropWhile is_digit t))
          else Some ([], s))"

definition scan_exp :: "string \<Rightarrow> (string \<times> string) option" where
  "scan_exp s =
     (case s of
        [] \<Rightarrow> Some ([], [])
      | c # t \<Rightarrow>
          if c = CHR ''e'' \<or> c = CHR ''E'' then
            (let sg = (case t of d # _ \<Rightarrow> if d = CHR ''+'' \<or> d = CHR ''-'' then [d] else [] | [] \<Rightarrow> []);
                 u = drop (length sg) t in
             if takeWhile is_digit u = [] then None
             else Some (c # sg @ takeWhile is_digit u, dropWhile is_digit u))
          else Some ([], s))"

definition scan_num :: "string \<Rightarrow> (string \<times> string) option" where
  "scan_num s =
     (let sg = (case s of c # _ \<Rightarrow> if c = CHR ''-'' then [c] else [] | [] \<Rightarrow> []) in
      case scan_int (drop (length sg) s) of
        None \<Rightarrow> None
      | Some (i, s1) \<Rightarrow>
          (case scan_frac s1 of
             None \<Rightarrow> None
           | Some (f, s2) \<Rightarrow>
               (case scan_exp s2 of
                  None \<Rightarrow> None
                | Some (e, s3) \<Rightarrow> Some (sg @ i @ f @ e, s3))))"

subsection \<open>Values\<close>

datatype json =
    JNull
  | JBool bool
  | JNum string
  | JStr string
  | JArr "json list"
  | JObj "(string \<times> json) list"

definition json_ws :: "char \<Rightarrow> bool" where
  "json_ws c = (c = CHR '' '' \<or> c = CHR 0x09 \<or> c = CHR 0x0A \<or> c = CHR 0x0D)"

definition skip_ws :: "string \<Rightarrow> string" where
  "skip_ws s = dropWhile json_ws s"

definition scan_word :: "string \<Rightarrow> (json \<times> string) option" where
  "scan_word s =
     (if has_prefix s ''null'' then Some (JNull, drop 4 s)
      else if has_prefix s ''true'' then Some (JBool True, drop 4 s)
      else if has_prefix s ''false'' then Some (JBool False, drop 5 s)
      else map_option (\<lambda>(n, r). (JNum n, r)) (scan_num s))"

fun jval :: "nat \<Rightarrow> string \<Rightarrow> (json \<times> string) option"
  and jelems :: "nat \<Rightarrow> string \<Rightarrow> (json list \<times> string) option"
  and jmembers :: "nat \<Rightarrow> string \<Rightarrow> ((string \<times> json) list \<times> string) option" where
  "jval 0 s = None"
| "jval (Suc n) s =
     (case skip_ws s of
        [] \<Rightarrow> None
      | c # t \<Rightarrow>
          if c = CHR 0x22 then map_option (\<lambda>(v, r). (JStr v, r)) (dec_str t)
          else if c = CHR ''{'' then
            (case skip_ws t of
               [] \<Rightarrow> None
             | d # u \<Rightarrow>
                 if d = CHR ''}'' then Some (JObj [], u)
                 else map_option (\<lambda>(v, r). (JObj v, r)) (jmembers n t))
          else if c = CHR ''['' then
            (case skip_ws t of
               [] \<Rightarrow> None
             | d # u \<Rightarrow>
                 if d = CHR '']'' then Some (JArr [], u)
                 else map_option (\<lambda>(v, r). (JArr v, r)) (jelems n t))
          else scan_word (c # t))"
| "jelems 0 s = None"
| "jelems (Suc n) s =
     (case jval n s of
        None \<Rightarrow> None
      | Some (v, r) \<Rightarrow>
          (case skip_ws r of
             [] \<Rightarrow> None
           | c # t \<Rightarrow>
               if c = CHR '','' then map_option (\<lambda>(vs, u). (v # vs, u)) (jelems n t)
               else if c = CHR '']'' then Some ([v], t)
               else None))"
| "jmembers 0 s = None"
| "jmembers (Suc n) s =
     (case skip_ws s of
        [] \<Rightarrow> None
      | q # t \<Rightarrow>
          if q \<noteq> CHR 0x22 then None
          else (case dec_str t of
                  None \<Rightarrow> None
                | Some (k, r) \<Rightarrow>
                    (case skip_ws r of
                       [] \<Rightarrow> None
                     | c # u \<Rightarrow>
                         if c \<noteq> CHR '':'' then None
                         else (case jval n u of
                                 None \<Rightarrow> None
                               | Some (v, r2) \<Rightarrow>
                                   (case skip_ws r2 of
                                      [] \<Rightarrow> None
                                    | d # w \<Rightarrow>
                                        if d = CHR '','' then
                                          map_option (\<lambda>(ms, z). ((k, v) # ms, z)) (jmembers n w)
                                        else if d = CHR ''}'' then Some ([(k, v)], w)
                                        else None)))))"

definition parse_json :: "string \<Rightarrow> json option" where
  "parse_json s =
     (case jval (Suc (2 * length s)) s of
        None \<Rightarrow> None
      | Some (v, r) \<Rightarrow> if skip_ws r = [] then Some v else None)"

declare jval.simps [simp del] jelems.simps [simp del] jmembers.simps [simp del]

section \<open>The wire messages\<close>

text \<open>
  \<open>ProxyWireMessage\<close> and \<open>ControlWireMessage\<close> have the same four fields and the same encoding.
\<close>

record wire =
  Action :: string
  Source :: int
  Target :: int
  Payload :: string

definition zero_wire :: wire where
  "zero_wire = \<lparr>Action = [], Source = 0, Target = 0, Payload = []\<rparr>"

definition json_field :: "string \<Rightarrow> string \<Rightarrow> string" where
  "json_field k v = json_string k @ CHR '':'' # v"

definition marshal :: "wire \<Rightarrow> string" where
  "marshal m =
     CHR ''{'' # json_field ''Action'' (json_string (Action m))
     @ CHR '','' # json_field ''Source'' (itoa (Source m))
     @ CHR '','' # json_field ''Target'' (itoa (Target m))
     @ CHR '','' # json_field ''Payload'' (json_string (Payload m)) @ ''}''"

text \<open>
  Field names are matched without regard to ASCII case; in \<open>Source\<close>, whose letters include an S,
  the long s (U+017F) counts as one.
\<close>

fun fold_long_s :: "string \<Rightarrow> string" where
  "fold_long_s (a # b # s) =
     (if a = CHR 0xC5 \<and> b = CHR 0xBF then CHR ''s'' # fold_long_s s else a # fold_long_s (b # s))"
| "fold_long_s s = s"

definition key_is :: "string \<Rightarrow> string \<Rightarrow> bool" where
  "key_is name k =
     (equal_fold name k \<or> (name = ''Source'' \<and> equal_fold name (fold_long_s k)))"

definition set_string :: "(string \<Rightarrow> wire \<Rightarrow> wire) \<Rightarrow> json \<Rightarrow> wire \<times> bool \<Rightarrow> wire \<times> bool" where
  "set_string upd v st =
     (case v of JStr s \<Rightarrow> (upd s (fst st), snd st) | JNull \<Rightarrow> st | _ \<Rightarrow> (fst st, False))"

definition set_int :: "(int \<Rightarrow> wire \<Rightarrow> wire) \<Rightarrow> json \<Rightarrow> wire \<times> bool \<Rightarrow> wire \<times> bool" where
  "set_int upd v st =
     (case v of
        JNum n \<Rightarrow> (if snd (atoi n) then (upd (fst (atoi n)) (fst st), snd st) else (fst st, False))
      | JNull \<Rightarrow> st
      | _ \<Rightarrow> (fst st, False))"

definition set_member :: "wire \<times> bool \<Rightarrow> string \<times> json \<Rightarrow> wire \<times> bool" where
  "set_member st kv =
     (let k = fst kv; v = snd kv in
      if key_is ''Action'' k then set_string (\<lambda>s. Action_update (\<lambda>_. s)) v st
      else if key_is ''Source'' k then set_int (\<lambda>i. Source_update (\<lambda>_. i)) v st
      else if key_is ''Target'' k then set_int (\<lambda>i. Target_update (\<lambda>_. i)) v st
      else if key_is ''Payload'' k then set_string (\<lambda>s. Payload_update (\<lambda>_. s)) v st
      else st)"

text \<open>\<open>json.Unmarshal(buf, &m)\<close> into a zero message; None is a non-nil error.\<close>

definition unmarshal :: "string \<Rightarrow> wire option" where
  "unmarshal s =
     (case parse_json s of
        None \<Rightarrow> None
      | Some v \<Rightarrow>
          (case v of
             JNull \<Rightarrow> Some zero_wire
           | JObj ms \<Rightarrow>
               (let st = foldl set_member (zero_wire, True) ms in
                if snd st then Some (fst st) else None)
           | _ \<Rightarrow> None))"

text \<open>The values a Go \<open>int\<close> can hold.\<close>

definition int_in_range :: "int \<Rightarrow> bool" where
  "int_in_range i = (min_int \<le> i \<and> i \<le> max_int)"

section \<open>Round trips\<close>

lemma hex_val_hex_char [simp]: "d < 16 \<Longrightarrow> hex_val (hex_char d) = Some d"
  by (auto simp: hex_val_def hex_char_def Let_def)

lemma hex_digits_sum:
  assumes "v < 65536"
  shows "4096 * (v div 4096 mod 16) + 256 * (v div 256 mod 16) + 16 * (v div 16 mod 16) + v mod 16
    = (v :: nat)"
proof -
  define a where "a = v div 16"
  define b where "b = a div 16"
  define c where "c = b div 16"
  have c: "v div 4096 = c" and b: "v div 256 = b"
    by (simp_all add: a_def b_def c_def div_mult2_eq [symmetric])
  have "v = 16 * a + v mod 16" and "a = 16 * b + a mod 16" and "b = 16 * c + b mod 16"
    by (simp_all add: a_def b_def c_def)
  moreover have "c mod 16 = c"
    using assms c by simp
  ultimately show ?thesis
    unfolding c b a_def [symmetric] by linarith
qed

lemma hex4_digits:
  assumes "a < 16" "b < 16" "c < 16" "d < 16"
  shows "hex4 ([hex_char a, hex_char b, hex_char c, hex_char d] @ r)
    = Some (4096 * a + 256 * b + 16 * c + d, r)"
  using assms by simp

lemma hex4_u_escape:
  assumes "v < 65536"
  shows "hex4 ([hex_char (v div 4096 mod 16), hex_char (v div 256 mod 16),
      hex_char (v div 16 mod 16), hex_char (v mod 16)] @ r) = Some (v, r)"
proof -
  have "hex4 ([hex_char (v div 4096 mod 16), hex_char (v div 256 mod 16),
      hex_char (v div 16 mod 16), hex_char (v mod 16)] @ r) =
      Some (4096 * (v div 4096 mod 16) + 256 * (v div 256 mod 16) + 16 * (v div 16 mod 16) + v mod 16, r)"
    by (rule hex4_digits) simp_all
  then show ?thesis
    by (simp only: hex_digits_sum [OF assms])
qed

lemma dec_str_u:
  assumes "hex4 t = Some (v, r)" and "u_rune v r = (v, r)"
  shows "dec_str (CHR 0x5C # CHR ''u'' # t) = prepend (utf8_encode v) (dec_str r)"
  using assms by (simp add: dec_str.simps(2) [of "CHR 0x5C"])

lemma dec_str_u_escape:
  assumes "v < 65536" and "\<not> (55296 \<le> v \<and> v \<le> 57343)"
  shows "dec_str (u_escape v @ r) = prepend (utf8_encode v) (dec_str r)"
proof -
  have "u_rune v r = (v, r)"
    using assms(2) by (auto simp: u_rune_def)
  with hex4_u_escape [OF assms(1), of r] show ?thesis
    unfolding u_escape_def by (simp add: dec_str_u del: hex4.simps)
qed

lemma dec_str_enc_ascii:
  assumes "cc c < 128"
  shows "dec_str (enc_ascii c @ r) = prepend [c] (dec_str r)"
proof -
  consider (q) "c = CHR 0x5C \<or> c = CHR 0x22" | (n) "c = CHR 0x0A" | (r) "c = CHR 0x0D"
    | (u) "c \<noteq> CHR 0x5C" "c \<noteq> CHR 0x22" "c \<noteq> CHR 0x0A" "c \<noteq> CHR 0x0D"
        "cc c < 32 \<or> c = CHR ''<'' \<or> c = CHR ''>'' \<or> c = CHR ''&''"
    | (plain) "c \<noteq> CHR 0x5C" "c \<noteq> CHR 0x22" "c \<noteq> CHR 0x0A" "c \<noteq> CHR 0x0D"
        "\<not> (cc c < 32 \<or> c = CHR ''<'' \<or> c = CHR ''>'' \<or> c = CHR ''&'')"
    by blast
  then show ?thesis
  proof cases
    case u
    then have "enc_ascii c = u_escape (cc c)"
      by (simp add: enc_ascii_def)
    moreover have "utf8_encode (cc c) = [c]"
      using assms by (simp add: utf8_encode_def)
    ultimately show ?thesis
      using assms dec_str_u_escape [of "cc c" r] by simp
  next
    case plain
    then show ?thesis
      using assms by (simp add: enc_ascii_def dec_str.simps(2) [of c r] rune_size_ascii)
  qed (auto simp: enc_ascii_def dec_str.simps(2) [of "CHR 0x5C"] simple_escape_def)
qed

lemma dec_str_rune:
  assumes "rune_size (c # s) = Some k" and "k \<noteq> 1"
  shows "dec_str (take k (c # s) @ r) = prepend (take k (c # s)) (dec_str r)"
proof -
  obtain j where k: "k = Suc j" and j: "j \<le> length s"
    using rune_size_bounds [OF assms(1)] by (cases k) auto
  have "128 \<le> cc c"
    using rune_size_large [OF assms] by simp
  then have "c \<noteq> CHR 0x22" "c \<noteq> CHR 0x5C" "\<not> cc c < 32"
    by auto
  moreover have "rune_size (c # take j s @ r) = Some (Suc j)"
    using rune_size_append [OF assms(1), of r] k by simp
  ultimately show ?thesis
    using k j by (simp add: dec_str.simps(2) [of c "take j s @ r"])
qed

lemma utf8_escaped:
  "utf8_encode 65533 = replacement"
  "utf8_encode 8232 = [CHR 0xE2, CHR 0x80, CHR 0xA8]"
  "utf8_encode 8233 = [CHR 0xE2, CHR 0x80, CHR 0xA9]"
  by (simp_all add: utf8_encode_def replacement_def char_of_eq_iff take_bit_eq_mod)

lemma lead_size_one: "lead_size n = Suc 0 \<longleftrightarrow> n < 128"
  by (simp add: lead_size_def)

lemma rune_size_one: "rune_size (c # s) = Some k \<Longrightarrow> k = 1 \<longleftrightarrow> cc c < 128"
  by (auto simp: rune_size.simps lead_size_one Let_def split: if_splits)

lemma prepend_prepend: "prepend p (prepend q r) = prepend (p @ q) r"
  by (cases r) (auto simp: prepend_def)

lemma dec_str_enc_str:
  "dec_str (enc_str s @ CHR 0x22 # r) = Some (to_valid_utf8 s, r)"
proof (induction s arbitrary: r rule: enc_str.induct)
  case 1
  show ?case by (simp add: dec_str.simps(2))
next
  case (2 c s)
  show ?case
  proof (cases "rune_size (c # s)")
    case None
    with "2.IH"(1) show ?thesis
      by (simp add: dec_str_u_escape utf8_escaped prepend_def)
  next
    case (Some k)
    note IH = "2.IH"(2) [OF Some, unfolded One_nat_def]
    show ?thesis
    proof (cases "k = 1")
      case True
      moreover have "cc c < 128"
        using rune_size_one [OF Some] True by simp
      ultimately show ?thesis
        using Some IH by (simp add: dec_str_enc_ascii prepend_def)
    next
      case False
      have three: "take k (c # s) = [CHR 0xE2, CHR 0x80, x]"
        if "take 3 (c # s) = [CHR 0xE2, CHR 0x80, x]" for x
      proof -
        from that have "c = CHR 0xE2" by simp
        with Some False have "k = 3"
          by (simp add: rune_size.simps lead_size_def Let_def split: if_splits)
        with that show ?thesis by simp
      qed
      have *: "prepend p (Some (v, r)) = Some (p @ v, r)" for p v
        by (simp add: prepend_def)
      show ?thesis
        unfolding enc_str.simps to_valid_utf8.simps Some option.case append_assoc
        using three False
        by (simp add: IH dec_str_u_escape dec_str_rune [OF Some False] utf8_escaped * del: take_Suc_Cons)
    qed
  qed
qed

subsection \<open>Numbers\<close>

lemma nat_dec_head: "hd (nat_dec n) = CHR ''0'' \<longleftrightarrow> n = 0"
proof (induction n rule: nat_dec.induct)
  case (1 n)
  show ?case
  proof (cases "n < 10")
    case True
    then show ?thesis
      by (simp add: nat_dec.simps [of n] digit_char_def char_of_eq_iff take_bit_eq_mod)
  next
    case False
    with 1 show ?thesis
      by (simp add: nat_dec.simps [of n])
  qed
qed

lemma scan_int_nat_dec:
  assumes "r = [] \<or> \<not> is_digit (hd r)"
  shows "scan_int (nat_dec n @ r) = Some (nat_dec n, r)"
proof -
  obtain c cs where eq: "nat_dec n = c # cs"
    by (cases "nat_dec n") auto
  have digits: "\<forall>x\<in>set (c # cs). is_digit x"
    using nat_dec_digits [of n] eq by (simp add: list_all_iff)
  show ?thesis
  proof (cases "n = 0")
    case True
    then have "nat_dec n = ''0''"
      by (simp add: nat_dec.simps [of 0] digit_char_def char_of_eq_iff take_bit_eq_mod)
    then show ?thesis by (simp add: scan_int_def)
  next
    case False
    then have "c \<noteq> CHR ''0''"
      using nat_dec_head [of n] eq by simp
    moreover have "takeWhile is_digit (cs @ r) = cs" "dropWhile is_digit (cs @ r) = r"
      using digits assms by (cases r; simp add: takeWhile_append2 dropWhile_append2)+
    ultimately show ?thesis
      using digits eq by (simp add: scan_int_def)
  qed
qed

text \<open>What follows a number in a message, a comma, ends it.\<close>

lemma scan_num_itoa: "scan_num (itoa i @ CHR '','' # r) = Some (itoa i, CHR '','' # r)"
proof -
  have r: "CHR '','' # r = [] \<or> \<not> is_digit (hd (CHR '','' # r))"
    by (simp add: is_digit_def)
  have hd: "nat_dec n = c # cs \<Longrightarrow> c \<noteq> CHR ''-''" for n c cs
    using nat_dec_digits [of n] digit_not_sign [of c] by simp
  show ?thesis
  proof (cases "i < 0")
    case True
    then show ?thesis
      using scan_int_nat_dec [OF r, of "nat (- i)"]
      by (simp add: itoa_def scan_num_def scan_frac_def scan_exp_def)
  next
    case False
    obtain c cs where "nat_dec (nat i) = c # cs"
      by (cases "nat_dec (nat i)") auto
    with hd have "nat_dec (nat i) = c # cs" "c \<noteq> CHR ''-''" by blast+
    with False show ?thesis
      using scan_int_nat_dec [OF r, of "nat i"]
      by (simp add: itoa_def scan_num_def scan_frac_def scan_exp_def)
  qed
qed

lemma itoa_first:
  obtains c cs where "itoa i = c # cs" and "is_digit c \<or> c = CHR ''-''"
proof -
  have "\<exists>c cs. nat_dec n = c # cs \<and> is_digit c" for n
    using nat_dec_digits [of n] by (cases "nat_dec n") auto
  then show thesis
    using that by (cases "i < 0") (fastforce simp: itoa_def)+
qed

lemma jval_itoa:
  "jval (Suc n) (itoa i @ CHR '','' # r) = Some (JNum (itoa i), CHR '','' # r)"
proof -
  obtain c cs where i: "itoa i = c # cs" and c: "is_digit c \<or> c = CHR ''-''"
    by (rule itoa_first)
  then have "c \<noteq> CHR 0x22" "c \<noteq> CHR ''{''" "c \<noteq> CHR ''[''" "\<not> json_ws c"
    "c \<noteq> CHR ''n''" "c \<noteq> CHR ''t''" "c \<noteq> CHR ''f''"
    by (auto simp: is_digit_def json_ws_def)
  with i scan_num_itoa [of i r] show ?thesis
    by (simp add: jval.simps skip_ws_def scan_word_def)
qed

subsection \<open>Messages\<close>

lemma jval_json_string: "jval (Suc n) (json_string s @ r) = Some (JStr (to_valid_utf8 s), r)"
  by (simp add: jval.simps json_string_def skip_ws_def json_ws_def dec_str_enc_str)

lemma jmembers_field:
  assumes "jval n (v @ d # w) = Some (x, d # w)" and "\<not> json_ws d" and "to_valid_utf8 k = k"
  shows "jmembers (Suc n) (json_field k v @ d # w) =
    (if d = CHR '','' then map_option (\<lambda>(ms, z). ((k, x) # ms, z)) (jmembers n w)
     else if d = CHR ''}'' then Some ([(k, x)], w)
     else None)"
  using assms
  by (simp add: jmembers.simps json_field_def json_string_def dec_str_enc_str skip_ws_def json_ws_def)

lemma jmembers_string_field:
  assumes "to_valid_utf8 k = k"
  shows "jmembers (Suc (Suc n)) (json_field k (json_string s) @ CHR '','' # w) =
      map_option (\<lambda>(ms, z). ((k, JStr (to_valid_utf8 s)) # ms, z)) (jmembers (Suc n) w)"
    and "jmembers (Suc (Suc n)) (json_field k (json_string s) @ ''}'') =
      Some ([(k, JStr (to_valid_utf8 s))], [])"
  using assms jmembers_field [OF jval_json_string, of "CHR '',''" k n s w]
    jmembers_field [OF jval_json_string, of "CHR ''}''" k n s "[]"]
  by (simp_all add: json_ws_def)

lemma jmembers_int_field:
  assumes "to_valid_utf8 k = k"
  shows "jmembers (Suc (Suc n)) (json_field k (itoa i) @ CHR '','' # w) =
      map_option (\<lambda>(ms, z). ((k, JNum (itoa i)) # ms, z)) (jmembers (Suc n) w)"
  using assms jmembers_field [OF jval_itoa, of k n i w] by (simp add: json_ws_def)

lemma field_names:
  "to_valid_utf8 ''Action'' = ''Action''" "to_valid_utf8 ''Source'' = ''Source''"
  "to_valid_utf8 ''Target'' = ''Target''" "to_valid_utf8 ''Payload'' = ''Payload''"
  by (rule to_valid_utf8_ascii, simp)+

lemma jval_marshal:
  "jval (Suc (Suc (Suc (Suc (Suc (Suc n)))))) (marshal m) =
     Some (JObj [(''Action'', JStr (to_valid_utf8 (Action m))), (''Source'', JNum (itoa (Source m))),
       (''Target'', JNum (itoa (Target m))), (''Payload'', JStr (to_valid_utf8 (Payload m)))], [])"
proof -
  have obj: "jval (Suc k) (CHR ''{'' # json_field f v @ r) =
      map_option (\<lambda>(v, r). (JObj v, r)) (jmembers k (json_field f v @ r))" for k f v r
    by (simp add: jval.simps skip_ws_def json_ws_def json_field_def json_string_def)
  show ?thesis
    unfolding marshal_def obj
    by (simp only: jmembers_string_field jmembers_int_field field_names option.map prod.case)
qed

lemma six_le_marshal: "\<exists>n. length (marshal m) = Suc (Suc (Suc (Suc (Suc n))))"
proof -
  have "5 \<le> length (marshal m)"
    by (simp add: marshal_def json_field_def json_string_def)
  then obtain n where "length (marshal m) = 5 + n"
    using le_Suc_ex by blast
  then show ?thesis by simp
qed

lemma key_is_fields:
  "key_is ''Action'' ''Action''" "key_is ''Source'' ''Source''" "key_is ''Target'' ''Target''"
  "key_is ''Payload'' ''Payload''"
  "\<not> key_is ''Action'' ''Source''" "\<not> key_is ''Action'' ''Target''" "\<not> key_is ''Action'' ''Payload''"
  "\<not> key_is ''Source'' ''Target''" "\<not> key_is ''Source'' ''Payload''" "\<not> key_is ''Target'' ''Payload''"
  by (simp_all add: key_is_def equal_fold_def to_lower_def lower_char_def Let_def char_of_eq_iff)

text \<open>What arrives is what was sent, up to invalid UTF-8 in the two strings.\<close>

lemma unmarshal_marshal [codec_simps]:
  assumes "int_in_range (Source m)" and "int_in_range (Target m)"
  shows "unmarshal (marshal m) =
    Some (m\<lparr>Action := to_valid_utf8 (Action m), Payload := to_valid_utf8 (Payload m)\<rparr>)"
proof -
  obtain n where "length (marshal m) = Suc (Suc (Suc (Suc (Suc n))))"
    using six_le_marshal by blast
  then have "parse_json (marshal m) = Some
     (JObj [(''Action'', JStr (to_valid_utf8 (Action m))), (''Source'', JNum (itoa (Source m))),
       (''Target'', JNum (itoa (Target m))), (''Payload'', JStr (to_valid_utf8 (Payload m)))])"
    by (simp add: parse_json_def jval_marshal skip_ws_def)
  moreover have "atoi (itoa (Source m)) = (Source m, True)" "atoi (itoa (Target m)) = (Target m, True)"
    using assms by (simp_all add: int_in_range_def codec_simps)
  ultimately show ?thesis
    by (simp add: unmarshal_def set_member_def key_is_fields set_string_def set_int_def zero_wire_def Let_def)
qed

subsection \<open>Fuel\<close>

lemma skip_ws_length: "length (skip_ws s) \<le> length s"
  by (simp add: skip_ws_def length_dropWhile_le)


lemma dropWhile_length: "length (dropWhile p s) \<le> length s"
  by (rule length_dropWhile_le)

lemma scan_num_length: "scan_num s = Some (v, r) \<Longrightarrow> length r < length s"
proof -
  have i: "length r < length s" if "scan_int s = Some (v, r)" for s v r
    using that length_dropWhile_le [of is_digit "tl s"]
    by (auto simp: scan_int_def split: list.splits if_splits)
  have f: "length r \<le> length s" if "scan_frac s = Some (v, r)" for s v r
    using that length_dropWhile_le [of is_digit "tl s"]
    by (auto simp: scan_frac_def split: list.splits if_splits)
  have e: "length r \<le> length s" if "scan_exp s = Some (v, r)" for s v r
    using that length_dropWhile_le [of is_digit "tl s"] length_dropWhile_le [of is_digit "tl (tl s)"]
    by (auto simp: scan_exp_def Let_def split: list.splits if_splits)
  assume "scan_num s = Some (v, r)"
  then show ?thesis
    by (auto simp: scan_num_def Let_def dest!: i f e split: list.splits option.splits if_splits)
qed

lemma scan_word_length: "scan_word s = Some (v, r) \<Longrightarrow> s \<noteq> [] \<Longrightarrow> length r < length s"
  by (auto simp: scan_word_def dest: scan_num_length split: if_splits)

lemma skip_ws_Cons: "skip_ws s = c # t \<Longrightarrow> length t < length s"
  using skip_ws_length [of s] by simp

lemma json_length:
  "jval n s = Some (v, r) \<Longrightarrow> length r < length s"
  "jelems n s = Some (vs, r) \<Longrightarrow> length r < length s"
  "jmembers n s = Some (ms, r) \<Longrightarrow> length r < length s"
proof (induction n s and n s and n s arbitrary: v r and vs r and ms r
    rule: jval_jelems_jmembers.induct)
  case (2 n s)
  then show ?case
    by (auto simp: jval.simps dest!: skip_ws_Cons dec_str_length scan_word_length
        split: list.splits if_splits) fastforce+
next
  case (4 n s)
  then show ?case
    by (auto simp: jelems.simps dest!: skip_ws_Cons split: list.splits if_splits option.splits) fastforce+
next
  case (6 n s)
  then show ?case
    by (auto simp: jmembers.simps dest!: skip_ws_Cons dec_str_length
        split: list.splits if_splits option.splits) fastforce+
qed (simp_all add: jval.simps jelems.simps jmembers.simps)

lemma json_fuel:
  "2 * length s < n \<Longrightarrow> 2 * length s < m \<Longrightarrow> jval n s = jval m s"
  "Suc (2 * length s) < n \<Longrightarrow> Suc (2 * length s) < m \<Longrightarrow> jelems n s = jelems m s"
  "2 * length s < n \<Longrightarrow> 2 * length s < m \<Longrightarrow> jmembers n s = jmembers m s"
proof (induction n arbitrary: m s)
  case 0
  {
    case 1 then show ?case by simp
  next
    case 2 then show ?case by simp
  next
    case 3 then show ?case by simp
  }
next
  case (Suc n)
  note IH = Suc.IH
  {
    case 1
    then obtain k where m: "m = Suc k" and n: "2 * length s \<le> n" "2 * length s \<le> k"
      by (cases m) auto
    have "jelems n t = jelems k t" "jmembers n t = jmembers k t" if "skip_ws s = c # t" for c t
      using skip_ws_Cons [OF that] n IH(2) [of t k] IH(3) [of t k] by simp_all
    then show ?case
      by (simp add: m jval.simps split: list.splits)
  next
    case 2
    then obtain k where m: "m = Suc k" and n: "Suc (2 * length s) \<le> n" "Suc (2 * length s) \<le> k"
      by (cases m) auto
    have v: "jval n s = jval k s"
      using n IH(1) [of s k] by simp
    have "jelems n t = jelems k t" if "jval k s = Some (x, r)" "skip_ws r = c # t" for x r c t
      using json_length(1) [OF that(1)] skip_ws_Cons [OF that(2)] n IH(2) [of t k] by simp
    then show ?case
      by (simp add: m jelems.simps v split: list.splits option.splits)
  next
    case 3
    then obtain k where m: "m = Suc k" and n: "2 * length s \<le> n" "2 * length s \<le> k"
      by (cases m) auto
    have v: "jval n u = jval k u"
      if "skip_ws s = q # t" "dec_str t = Some (x, r)" "skip_ws r = c # u" for q t x r c u
      using skip_ws_Cons [OF that(1)] dec_str_length [OF that(2)] skip_ws_Cons [OF that(3)] n
        IH(1) [of u k] by simp
    have "jmembers n w = jmembers k w"
      if "skip_ws s = q # t" "dec_str t = Some (x, r)" "skip_ws r = c # u"
        "jval k u = Some (y, r2)" "skip_ws r2 = d # w" for q t x r c u y r2 d w
      using skip_ws_Cons [OF that(1)] dec_str_length [OF that(2)] skip_ws_Cons [OF that(3)]
        json_length(1) [OF that(4)] skip_ws_Cons [OF that(5)] n IH(3) [of w k] by simp
    with v show ?case
      by (simp add: m jmembers.simps split: list.splits option.splits)
  }
qed

text \<open>\<open>parse_json\<close> does not depend on its bound: any larger one gives the same value.\<close>

lemma jval_fuel: "2 * length s < n \<Longrightarrow> jval n s = jval (Suc (2 * length s)) s"
  by (rule json_fuel(1)) simp_all

end
