(* ===== verification/Go_Encoding.thy ===== *)
theory Go_Encoding
  imports Go_Crypto Go_Json
begin

text \<open>
  Go's packages \<open>encoding/hex\<close>, \<open>encoding/base64\<close> and \<open>encoding/base32\<close> (with the extended hex alphabet) as
  \<open>miekg/dns/msg.go\<close> uses them, from their documentation and RFC 4648. None is a decoding error.
\<close>

section \<open>Hexadecimal\<close>

definition hex_encode :: "bytes \<Rightarrow> string" where
  "hex_encode bs = concat (map (\<lambda>b. [hex_char (unat b div 16), hex_char (unat b mod 16)]) bs)"

fun hex_decode :: "string \<Rightarrow> bytes option" where
  "hex_decode [] = Some []"
| "hex_decode [a] = None"
| "hex_decode (a # b # r) =
     (case (hex_val a, hex_val b, hex_decode r) of
        (Some x, Some y, Some bs) \<Rightarrow> Some (word_of_nat (16 * x + y) # bs)
      | _ \<Rightarrow> None)"

section \<open>Base 64\<close>

definition b64_val :: "char \<Rightarrow> nat option" where
  "b64_val c =
     (let n = (of_char c :: nat) in
      if 65 \<le> n \<and> n \<le> 90 then Some (n - 65)
      else if 97 \<le> n \<and> n \<le> 122 then Some (n - 71)
      else if 48 \<le> n \<and> n \<le> 57 then Some (n + 4)
      else if c = CHR ''+'' then Some 62
      else if c = CHR ''/'' then Some 63 else None)"

text \<open>New lines are left out before the groups of four are read.\<close>

definition drop_newlines :: "string \<Rightarrow> string" where
  "drop_newlines s = filter (\<lambda>c. c \<noteq> CHR 0x0A \<and> c \<noteq> CHR 0x0D) s"

fun b64_groups :: "string \<Rightarrow> bytes option" where
  "b64_groups [] = Some []"
| "b64_groups (a # b # c # d # r) =
     (case (b64_val a, b64_val b) of
        (Some x, Some y) \<Rightarrow>
          (let b0 = word_of_nat (4 * x + y div 16) in
           if c = CHR ''='' then (if d = CHR ''='' \<and> r = [] then Some [b0] else None)
           else case b64_val c of
             None \<Rightarrow> None
           | Some z \<Rightarrow>
               (let b1 = word_of_nat (16 * (y mod 16) + z div 4) in
                if d = CHR ''='' then (if r = [] then Some [b0, b1] else None)
                else case (b64_val d, b64_groups r) of
                  (Some w, Some bs) \<Rightarrow> Some (b0 # b1 # word_of_nat (64 * (z mod 4) + w) # bs)
                | _ \<Rightarrow> None))
      | _ \<Rightarrow> None)"
| "b64_groups _ = None"

definition base64_decode :: "string \<Rightarrow> bytes option" where
  "base64_decode s = b64_groups (drop_newlines s)"

definition base64_decoded_len :: "nat \<Rightarrow> nat" where
  "base64_decoded_len n = n div 4 * 3"

section \<open>Base 32, extended hex alphabet\<close>

definition b32_char :: "nat \<Rightarrow> char" where
  "b32_char n = (if n < 10 then char_of (48 + n) else char_of (55 + n))"

definition b32_val :: "char \<Rightarrow> nat option" where
  "b32_val c =
     (let n = (of_char c :: nat) in
      if 48 \<le> n \<and> n \<le> 57 then Some (n - 48)
      else if 65 \<le> n \<and> n \<le> 86 then Some (n - 55) else None)"

text \<open>How many characters stand for a group of that many bytes, and back.\<close>

definition b32_chars :: "nat \<Rightarrow> nat" where
  "b32_chars k = (8 * k + 4) div 5"

definition b32_group :: "bytes \<Rightarrow> string" where
  "b32_group g =
     (let v = be_val (g @ replicate (5 - length g) 0); k = b32_chars (length g) in
      map (\<lambda>i. b32_char (v div 32 ^ (7 - i) mod 32)) [0..<k] @ replicate (8 - k) (CHR ''=''))"

function base32_encode :: "bytes \<Rightarrow> string" where
  "base32_encode bs = (if bs = [] then [] else b32_group (take 5 bs) @ base32_encode (drop 5 bs))"
  by auto

termination base32_encode
  by (relation "measure length") auto

declare base32_encode.simps [simp del]

text \<open>The bytes of one group of eight characters, and the number of characters before the padding.\<close>

definition b32_block :: "string \<Rightarrow> (bytes \<times> nat) option" where
  "b32_block s =
     (let g = takeWhile (\<lambda>c. c \<noteq> CHR ''='') s; n = length g; vs = map b32_val g in
      if n \<notin> {2, 4, 5, 7, 8} \<or> drop n s \<noteq> replicate (8 - n) (CHR ''='') \<or> None \<in> set vs then None
      else Some (take (5 * n div 8)
             (be_bytes 5 (foldl (\<lambda>a x. 32 * a + the x) 0 (vs @ replicate (8 - n) (Some 0)))), n))"

text \<open>A last group with padding may be followed by no more characters than it has before the padding.\<close>

function b32_groups :: "string \<Rightarrow> bytes option" where
  "b32_groups s =
     (if s = [] then Some []
      else if length s < 8 then None
      else case b32_block (take 8 s) of
        None \<Rightarrow> None
      | Some (out, n) \<Rightarrow>
          if n < 8 then (if length s - 8 \<le> n then Some out else None)
          else map_option (\<lambda>r. out @ r) (b32_groups (drop 8 s)))"
  by auto

termination b32_groups
  by (relation "measure length") simp_all

declare b32_groups.simps [simp del]

definition base32_decode :: "string \<Rightarrow> bytes option" where
  "base32_decode s = b32_groups (drop_newlines s)"

section \<open>Decoding inverts encoding\<close>

lemma byte_parts:
  fixes b :: byte
  shows "unat b div 16 < 16" "unat b mod 16 < 16" "word_of_nat (16 * (unat b div 16) + unat b mod 16) = b"
proof -
  have "unat b < 256"
    using unsigned_less [of b] by simp
  then show "unat b div 16 < 16" "unat b mod 16 < 16"
    by auto
  show "word_of_nat (16 * (unat b div 16) + unat b mod 16) = b"
    by simp
qed

lemma hex_decode_encode: "hex_decode (hex_encode bs) = Some bs"
  by (induction bs) (simp_all add: hex_encode_def byte_parts)

lemma b64_val_char: "n < 64 \<Longrightarrow> b64_val (b64_char n) = Some n"
  by (auto simp: b64_val_def b64_char_def Let_def)

lemma b64_char_not_special:
  assumes "n < 64"
  shows "b64_char n \<noteq> CHR ''=''" "b64_char n \<noteq> CHR 0x0A" "b64_char n \<noteq> CHR 0x0D"
proof -
  have "(of_char (b64_char n) :: nat) \<notin> {61, 10, 13}"
    using assms by (auto simp: b64_char_def)
  then show "b64_char n \<noteq> CHR ''=''" "b64_char n \<noteq> CHR 0x0A" "b64_char n \<noteq> CHR 0x0D"
    by auto
qed

lemma byte_b64_parts:
  fixes a b c :: byte
  shows "unat a div 4 < 64" "unat a mod 4 * 16 < 64" "unat a mod 4 * 16 + unat b div 16 < 64"
    "unat b mod 16 * 4 < 64" "unat b mod 16 * 4 + unat c div 64 < 64" "unat c mod 64 < 64"
    "4 * (unat a div 4) + (unat a mod 4 * 16) div 16 = unat a"
    "4 * (unat a div 4) + (unat a mod 4 * 16 + unat b div 16) div 16 = unat a"
    "16 * ((unat a mod 4 * 16 + unat b div 16) mod 16) + (unat b mod 16 * 4) div 4 = unat b"
    "16 * ((unat a mod 4 * 16 + unat b div 16) mod 16) + (unat b mod 16 * 4 + unat c div 64) div 4 = unat b"
    "64 * ((unat b mod 16 * 4 + unat c div 64) mod 4) + unat c mod 64 = unat c"
proof -
  have l: "unat a < 256" "unat b < 256" "unat c < 256"
    using unsigned_less [of a] unsigned_less [of b] unsigned_less [of c] by simp_all
  show "unat a div 4 < 64" "unat a mod 4 * 16 < 64" "unat a mod 4 * 16 + unat b div 16 < 64"
    "unat b mod 16 * 4 < 64" "unat b mod 16 * 4 + unat c div 64 < 64" "unat c mod 64 < 64"
    using l by linarith+
  show "4 * (unat a div 4) + (unat a mod 4 * 16) div 16 = unat a"
    "4 * (unat a div 4) + (unat a mod 4 * 16 + unat b div 16) div 16 = unat a"
    "16 * ((unat a mod 4 * 16 + unat b div 16) mod 16) + (unat b mod 16 * 4) div 4 = unat b"
    "16 * ((unat a mod 4 * 16 + unat b div 16) mod 16) + (unat b mod 16 * 4 + unat c div 64) div 4 = unat b"
    "64 * ((unat b mod 16 * 4 + unat c div 64) mod 4) + unat c mod 64 = unat c"
    using l by (simp_all add: div_less mod_less)
qed

lemma of_nat_unat_byte: "word_of_nat (unat (b :: byte)) = b"
  by simp

lemma b64_groups_encode: "b64_groups (base64 bs) = Some bs"
proof (induction bs rule: base64.induct)
  case (2 a)
  show ?case
    by (simp only: base64.simps b64_groups.simps b64_val_char [OF byte_b64_parts(1)]
        b64_val_char [OF byte_b64_parts(2)] Let_def option.case prod.case byte_b64_parts(7) of_nat_unat_byte) simp
next
  case (3 a b)
  show ?case
    by (simp only: base64.simps b64_groups.simps b64_val_char [OF byte_b64_parts(1)]
        b64_val_char [OF byte_b64_parts(3)] b64_val_char [OF byte_b64_parts(4)]
        b64_char_not_special(1) [OF byte_b64_parts(4)] Let_def option.case prod.case byte_b64_parts(8,9)
        of_nat_unat_byte if_False) simp
next
  case (4 a b c r)
  show ?case
    by (simp only: base64.simps append.simps b64_groups.simps b64_val_char [OF byte_b64_parts(1)]
        b64_val_char [OF byte_b64_parts(3)] b64_val_char [OF byte_b64_parts(5)] b64_val_char [OF byte_b64_parts(6)]
        b64_char_not_special(1) [OF byte_b64_parts(5)] b64_char_not_special(1) [OF byte_b64_parts(6)] 4
        Let_def option.case prod.case byte_b64_parts(8,10,11) of_nat_unat_byte if_False)
qed simp

lemma drop_newlines_base64: "drop_newlines (base64 bs) = base64 bs"
  unfolding drop_newlines_def
  by (induction bs rule: base64.induct) (simp_all add: b64_char_not_special byte_b64_parts)

lemma base64_decode_encode: "base64_decode (base64 bs) = Some bs"
  by (simp add: base64_decode_def drop_newlines_base64 b64_groups_encode)

end
