(* ===== verification/Dns_Edns.thy ===== *)
theory Dns_Edns
  imports Dns_Text Go_Encoding
begin

text \<open>
  The options of an EDNS0 record (\<open>miekg/dns/edns.go\<close>): their codes, and the bytes of each kind. The fields
  \<open>Code\<close> of the structures are never read and not part of \<open>edns0\<close>.
\<close>

section \<open>Codes\<close>

definition EDNS0LLQ :: u16 where "EDNS0LLQ = 0x1"
definition EDNS0UL :: u16 where "EDNS0UL = 0x2"
definition EDNS0NSID :: u16 where "EDNS0NSID = 0x3"
definition EDNS0DAU :: u16 where "EDNS0DAU = 0x5"
definition EDNS0DHU :: u16 where "EDNS0DHU = 0x6"
definition EDNS0N3U :: u16 where "EDNS0N3U = 0x7"
definition EDNS0SUBNET :: u16 where "EDNS0SUBNET = 0x8"
definition EDNS0EXPIRE :: u16 where "EDNS0EXPIRE = 0x9"
definition EDNS0SUBNETDRAFT :: u16 where "EDNS0SUBNETDRAFT = 0x50FA"

lemmas edns_codes =
  EDNS0LLQ_def EDNS0UL_def EDNS0NSID_def EDNS0DAU_def EDNS0DHU_def EDNS0N3U_def EDNS0SUBNET_def
  EDNS0EXPIRE_def EDNS0SUBNETDRAFT_def

fun opt_code :: "edns0 \<Rightarrow> u16" where
  "opt_code (EDNS0_NSID _) = EDNS0NSID"
| "opt_code (EDNS0_SUBNET _ _ _ _ draft) = (if draft then EDNS0SUBNETDRAFT else EDNS0SUBNET)"
| "opt_code (EDNS0_UL _) = EDNS0UL"
| "opt_code (EDNS0_LLQ _ _ _ _ _) = EDNS0LLQ"
| "opt_code (EDNS0_DAU _) = EDNS0DAU"
| "opt_code (EDNS0_DHU _) = EDNS0DHU"
| "opt_code (EDNS0_N3U _) = EDNS0N3U"
| "opt_code (EDNS0_EXPIRE _) = EDNS0EXPIRE"

section \<open>Packing\<close>

text \<open>\<open>net.CIDRMask\<close> for a mask of \<open>l\<close> bytes, and \<open>IP.Mask\<close>; None is the nil address.\<close>

definition cidr_mask :: "nat \<Rightarrow> nat \<Rightarrow> bytes" where
  "cidr_mask ones l =
     map (\<lambda>i. if 8 * (i + 1) \<le> ones then 0xFF
              else if ones \<le> 8 * i then 0 else NOT (drop_bit (ones - 8 * i) 0xFF)) [0..<l]"

definition ip_mask :: "ip \<Rightarrow> bytes \<Rightarrow> ip" where
  "ip_mask addr mk =
     (let a = (case addr of None \<Rightarrow> [] | Some b \<Rightarrow> b);
          mk1 = (if length mk = 16 \<and> length a = 4 \<and> take 12 mk = replicate 12 0xFF
                   then drop 12 mk else mk);
          a1 = (if length mk1 = 4 \<and> length a = 16 \<and> take 12 a = v4_prefix then drop 12 a else a) in
      if length a1 \<noteq> length mk1 then None else Some (map2 (AND) a1 mk1))"

text \<open>
  The loop that copies the masked address: \<open>i\<close> stays below the length of the address, and the masked
  address may be shorter, which is a panic.
\<close>

definition masked_bytes :: "ip \<Rightarrow> ip \<Rightarrow> nat \<Rightarrow> bytes outcome" where
  "masked_bytes addr masked l =
     (let a = (case masked of None \<Rightarrow> [] | Some b \<Rightarrow> b);
          n = min l (case addr of None \<Rightarrow> 0 | Some b \<Rightarrow> length b) in
      if length a < n then Panic else Ret (take n a @ replicate (l - n) 0))"

definition need_length :: "byte \<Rightarrow> nat" where
  "need_length netmask = unat netmask div 8 + (if 0 < unat netmask mod 8 then 1 else 0)"

definition subnet_pack :: "u16 \<Rightarrow> byte \<Rightarrow> byte \<Rightarrow> ip \<Rightarrow> bytes outcome" where
  "subnet_pack family netmask scope addr =
     (let b = be_bytes 2 (unat family) @ [netmask, scope] in
      if family = 1 then
        (if unat netmask > 32 then Fail (OtherError ''dns: bad netmask'')
         else obind (masked_bytes addr
                (ip_mask (case addr of None \<Rightarrow> None | Some a \<Rightarrow> to4 a) (cidr_mask (unat netmask) 4)) 4)
              (\<lambda>ip. Ret (b @ take (need_length netmask) ip)))
      else if family = 2 then
        (if unat netmask > 128 then Fail (OtherError ''dns: bad netmask'')
         else obind (masked_bytes addr (ip_mask addr (cidr_mask (unat netmask) 16)) 16)
              (\<lambda>ip. Ret (b @ take (need_length netmask) ip)))
      else Fail (OtherError ''dns: bad address family''))"

definition nsid_pack :: "string \<Rightarrow> bytes outcome" where
  "nsid_pack nsid =
     (case hex_decode nsid of None \<Rightarrow> Fail (OtherError ''encoding/hex'') | Some h \<Rightarrow> Ret h)"

definition ul_pack :: "32 word \<Rightarrow> bytes outcome" where
  "ul_pack lease = Ret (be_bytes 4 (unat lease))"

definition llq_pack :: "u16 \<Rightarrow> u16 \<Rightarrow> u16 \<Rightarrow> 64 word \<Rightarrow> 32 word \<Rightarrow> bytes outcome" where
  "llq_pack version opcode err ident life =
     Ret (be_bytes 2 (unat version) @ be_bytes 2 (unat opcode) @ be_bytes 2 (unat err)
          @ be_bytes 8 (unat ident) @ be_bytes 4 (unat life))"

definition expire_pack :: "32 word \<Rightarrow> bytes outcome" where
  "expire_pack expire = Ret (be_bytes 4 (unat expire))"

text \<open>The method \<open>pack\<close> of the interface; the three lists of algorithms are their own bytes.\<close>

fun edns_pack :: "edns0 \<Rightarrow> bytes outcome" where
  "edns_pack (EDNS0_NSID nsid) = nsid_pack nsid"
| "edns_pack (EDNS0_SUBNET family netmask scope addr _) = subnet_pack family netmask scope addr"
| "edns_pack (EDNS0_UL lease) = ul_pack lease"
| "edns_pack (EDNS0_LLQ version opcode err ident life) = llq_pack version opcode err ident life"
| "edns_pack (EDNS0_DAU algs) = Ret algs"
| "edns_pack (EDNS0_DHU algs) = Ret algs"
| "edns_pack (EDNS0_N3U algs) = Ret algs"
| "edns_pack (EDNS0_EXPIRE expire) = expire_pack expire"

section \<open>Unpacking\<close>

text \<open>
  The address bytes of a subnet option: the loop of \<open>i\<close> from 0 over the bytes of the mask. The check
  before the access lets the first byte behind the data through.
\<close>

fun subnet_addr :: "bytes \<Rightarrow> nat \<Rightarrow> nat \<Rightarrow> bytes \<Rightarrow> bytes outcome" where
  "subnet_addr b 0 i addr = Ret addr"
| "subnet_addr b (Suc n) i addr =
     (if 4 + i > length b then Fail ErrBuf
      else if length b \<le> 4 + i \<or> length addr \<le> i then Panic
      else subnet_addr b n (i + 1) (addr[i := b ! (4 + i)]))"

definition subnet_unpack :: "bytes \<Rightarrow> bool \<Rightarrow> edns0 outcome" where
  "subnet_unpack b draft =
     (if length b < 4 then Fail ErrBuf
      else
        let family = word_of_nat (be_val (take 2 b)); netmask = b ! 2; scope = b ! 3 in
        if family = 1 then
          obind (subnet_addr b (unat netmask div 8) 0 (replicate 4 0))
            (\<lambda>a. Ret (EDNS0_SUBNET family netmask scope (Some (v4_prefix @ a)) draft))
        else if family = 2 then
          obind (subnet_addr b (unat netmask div 8) 0 (replicate 16 0))
            (\<lambda>a. Ret (EDNS0_SUBNET family netmask scope (Some a) draft))
        else Ret (EDNS0_SUBNET family netmask scope None draft))"

definition ul_unpack :: "bytes \<Rightarrow> edns0 outcome" where
  "ul_unpack b = (if length b < 4 then Fail ErrBuf else Ret (EDNS0_UL (word_of_nat (be_val (take 4 b)))))"

definition llq_unpack :: "bytes \<Rightarrow> edns0 outcome" where
  "llq_unpack b =
     (if length b < 18 then Fail ErrBuf
      else Ret (EDNS0_LLQ (word_of_nat (be_val (take 2 b))) (word_of_nat (be_val (go_slice b 2 4)))
             (word_of_nat (be_val (go_slice b 4 6))) (word_of_nat (be_val (go_slice b 6 14)))
             (word_of_nat (be_val (go_slice b 14 18)))))"

text \<open>The option of a code with its data, or None for a code that is skipped.\<close>

definition edns_unpack :: "u16 \<Rightarrow> bytes \<Rightarrow> edns0 option outcome" where
  "edns_unpack code b =
     (if code = EDNS0NSID then Ret (Some (EDNS0_NSID (hex_encode b)))
      else if code = EDNS0SUBNET \<or> code = EDNS0SUBNETDRAFT then
        obind (subnet_unpack b (code = EDNS0SUBNETDRAFT)) (\<lambda>e. Ret (Some e))
      else if code = EDNS0UL then obind (ul_unpack b) (\<lambda>e. Ret (Some e))
      else if code = EDNS0LLQ then obind (llq_unpack b) (\<lambda>e. Ret (Some e))
      else if code = EDNS0DAU then Ret (Some (EDNS0_DAU b))
      else if code = EDNS0DHU then Ret (Some (EDNS0_DHU b))
      else if code = EDNS0N3U then Ret (Some (EDNS0_N3U b))
      else Ret None)"

section \<open>Unpacking inverts packing\<close>

lemma be_val_word:
  "be_val (be_bytes 2 (unat (a :: 16 word))) = unat a" "be_val (be_bytes 4 (unat (b :: 32 word))) = unat b"
  "be_val (be_bytes 8 (unat (c :: 64 word))) = unat c"
proof -
  have "unat a < 65536"
    using unsigned_less [of a] by simp
  then show "be_val (be_bytes 2 (unat a)) = unat a"
    by (simp add: be_val_be_bytes)
  have "unat b < 4294967296"
    using unsigned_less [of b] by simp
  then show "be_val (be_bytes 4 (unat b)) = unat b"
    by (simp add: be_val_be_bytes)
  have "unat c < 18446744073709551616"
    using unsigned_less [of c] by simp
  then show "be_val (be_bytes 8 (unat c)) = unat c"
    by (simp add: be_val_be_bytes)
qed

text \<open>
  The options of fixed form come back as they were; a name server identifier comes back as the
  hexadecimal text of its bytes.
\<close>

lemma edns_roundtrip:
  "edns_pack (EDNS0_UL l) = Ret b1 \<Longrightarrow> edns_unpack EDNS0UL b1 = Ret (Some (EDNS0_UL l))"
  "edns_pack (EDNS0_LLQ v oc er i li) = Ret b2 \<Longrightarrow> edns_unpack EDNS0LLQ b2 = Ret (Some (EDNS0_LLQ v oc er i li))"
  "edns_pack (EDNS0_NSID (hex_encode h)) = Ret b3 \<Longrightarrow> edns_unpack EDNS0NSID b3 = Ret (Some (EDNS0_NSID (hex_encode h)))"
  by (auto simp: edns_unpack_def ul_pack_def llq_pack_def nsid_pack_def ul_unpack_def llq_unpack_def edns_codes be_val_word hex_decode_encode go_slice_def)

section \<open>Every option\<close>

lemma subnet_addr_reads:
  "4 + i + n \<le> length b \<Longrightarrow> i + n \<le> length addr \<Longrightarrow>
   subnet_addr b n i addr = Ret (take i addr @ go_slice b (4 + i) (4 + i + n) @ drop (i + n) addr)"
proof (induction n arbitrary: i addr)
  case (Suc n)
  have s: "go_slice b (4 + i) (4 + i + Suc n) = b ! (4 + i) # go_slice b (4 + (i + 1)) (4 + (i + 1) + n)"
    using Suc.prems(1) by (simp add: go_slice_def Cons_nth_drop_Suc [symmetric])
  have "subnet_addr b (Suc n) i addr = subnet_addr b n (i + 1) (addr[i := b ! (4 + i)])"
    using Suc.prems by simp
  also have "\<dots> = Ret (take (i + 1) (addr[i := b ! (4 + i)]) @ go_slice b (4 + (i + 1)) (4 + (i + 1) + n)
      @ drop (i + 1 + n) (addr[i := b ! (4 + i)]))"
    using Suc.prems by (intro Suc.IH) simp_all
  also have "take (i + 1) (addr[i := b ! (4 + i)]) = take i addr @ [b ! (4 + i)]"
    using Suc.prems(2) by (simp add: take_Suc_conv_app_nth)
  finally show ?case
    using Suc.prems(2) unfolding s by simp
qed (simp add: go_slice_def)

lemma length_cidr_mask [simp]: "length (cidr_mask ones l) = l"
  by (simp add: cidr_mask_def)

lemma masked_bytes_full: "length m = l \<Longrightarrow> l \<le> length a \<Longrightarrow> masked_bytes (Some a) (Some m) l = Ret m"
  by (simp add: masked_bytes_def min_absorb1)

text \<open>The bytes below the last partial one are not changed by the mask.\<close>

lemma take_masked:
  assumes "8 * k \<le> ones" and "length a = l" and "k \<le> l"
  shows "take k (map2 (AND) a (cidr_mask ones l)) = take k a"
proof (rule nth_equalityI)
  show "length (take k (map2 (AND) a (cidr_mask ones l))) = length (take k a)"
    using assms by (simp add: cidr_mask_def)
  fix i
  assume "i < length (take k (map2 (AND) a (cidr_mask ones l)))"
  then have i: "i < k" "i < l" "8 * (i + 1) \<le> ones"
    using assms by (auto simp: cidr_mask_def)
  have "(0xFF :: byte) = mask 8"
    by (simp add: mask_eq_exp_minus_1)
  then have "x AND 0xFF = x" for x :: byte
    by (simp add: bit_eq_iff bit_simps)
  with i show "take k (map2 (AND) a (cidr_mask ones l)) ! i = take k a ! i"
    using assms(2) by (simp add: cidr_mask_def)
qed

lemma need_length_bounds: "unat nm \<le> 8 * l \<Longrightarrow> unat nm div 8 \<le> need_length nm \<and> unat nm div 8 \<le> l"
  by (auto simp: need_length_def)

text \<open>An address of \<open>l\<close> bytes comes back as far as the mask covers whole bytes.\<close>

lemma subnet_reads_back:
  assumes a: "length a = l" and n: "unat nm \<le> 8 * l" and h: "length h = 4"
  shows "subnet_addr (h @ take (need_length nm) (map2 (AND) a (cidr_mask (unat nm) l))) (unat nm div 8) 0 (replicate l 0)
    = Ret (take (unat nm div 8) a @ replicate (l - unat nm div 8) 0)"
proof -
  let ?k = "unat nm div 8" and ?m = "map2 (AND) a (cidr_mask (unat nm) l)"
  have b: "?k \<le> need_length nm" "?k \<le> l"
    using need_length_bounds [OF n] by simp_all
  have "go_slice (h @ take (need_length nm) ?m) 4 (4 + ?k) = take ?k ?m"
    using h b by (simp add: go_slice_def min_absorb1)
  also have "\<dots> = take ?k a"
    using a b by (intro take_masked) simp_all
  finally show ?thesis
    using subnet_addr_reads [of 0 ?k "h @ take (need_length nm) ?m" "replicate l 0"] a b h by simp
qed

text \<open>The option as it comes back: hexadecimal text in lower case, a subnet cut to whole bytes, no expiry.\<close>

fun seen_option :: "edns0 \<Rightarrow> edns0 option" where
  "seen_option (EDNS0_NSID s) = map_option (\<lambda>h. EDNS0_NSID (hex_encode h)) (hex_decode s)"
| "seen_option (EDNS0_SUBNET family nm scope addr draft) =
     Some (EDNS0_SUBNET family nm scope
       (map_option (\<lambda>a. let d = (if family = 1 then 12 else 0) + unat nm div 8 in take d a @ replicate (16 - d) 0) addr)
       draft)"
| "seen_option (EDNS0_EXPIRE _) = None"
| "seen_option e = Some e"

text \<open>The addresses of a subnet option, in the form of 16 bytes.\<close>

fun good_option :: "edns0 \<Rightarrow> bool" where
  "good_option (EDNS0_SUBNET family nm scope addr draft) \<longleftrightarrow>
     (case addr of None \<Rightarrow> False
      | Some a \<Rightarrow> length a = 16 \<and> (family = 1 \<longrightarrow> take 12 a = v4_prefix))"
| "good_option e = True"

lemma subnet_unpack_head:
  assumes b: "b = be_bytes 2 (unat family) @ [nm, scope] @ x"
  shows "subnet_unpack b draft =
    (if family = 1 then
       obind (subnet_addr b (unat nm div 8) 0 (replicate 4 0))
         (\<lambda>a. Ret (EDNS0_SUBNET family nm scope (Some (v4_prefix @ a)) draft))
     else if family = 2 then
       obind (subnet_addr b (unat nm div 8) 0 (replicate 16 0))
         (\<lambda>a. Ret (EDNS0_SUBNET family nm scope (Some a) draft))
     else Ret (EDNS0_SUBNET family nm scope None draft))"
proof -
  have l: "length (be_bytes 2 (unat family)) = 2"
    by simp
  have h: "\<not> length b < 4" "word_of_nat (be_val (take 2 b)) = family" "b ! 2 = nm" "b ! 3 = scope"
    unfolding b using l by (simp_all add: be_val_word nth_append)
  show ?thesis
    unfolding subnet_unpack_def Let_def h if_not_P [OF h(1)] ..
qed

lemma edns_unpack_pack:
  assumes "good_option e" and "edns_pack e = Ret b"
  shows "edns_unpack (opt_code e) b = Ret (seen_option e)"
proof (cases e)
  case (EDNS0_SUBNET family nm scope addr draft)
  obtain a where a: "addr = Some a" "length a = 16" "family = 1 \<longrightarrow> take 12 a = v4_prefix"
    using assms(1) EDNS0_SUBNET by (auto split: option.splits)
  have u: "edns_unpack (opt_code e) b = obind (subnet_unpack b draft) (\<lambda>e. Ret (Some e))"
    by (simp add: EDNS0_SUBNET edns_unpack_def edns_codes)
  have p: "subnet_pack family nm scope (Some a) = Ret b"
    using assms(2) by (simp add: EDNS0_SUBNET a(1))
  consider "family = 1" "unat nm \<le> 32" | "family = 2" "unat nm \<le> 128"
    using p by (auto simp: subnet_pack_def Let_def split: if_splits)
  then show ?thesis
  proof cases
    case 1
    let ?a = "drop 12 a"
    have l: "length ?a = 4" "unat nm \<le> 8 * 4" "a = v4_prefix @ ?a"
      using a 1 append_take_drop_id [of 12 a] by simp_all
    have t: "to4 a = Some ?a"
      using l(1,3) to4_v4 by metis
    have "ip_mask (Some ?a) (cidr_mask (unat nm) 4) = Some (map2 (AND) ?a (cidr_mask (unat nm) 4))"
      using l(1) by (simp add: ip_mask_def cidr_mask_def Let_def)
    then have b: "b = be_bytes 2 (unat family) @ [nm, scope]
        @ take (need_length nm) (map2 (AND) ?a (cidr_mask (unat nm) 4))"
      using p 1(2) l(1) a(2) unfolding subnet_pack_def Let_def 1(1) option.case t
      by (simp add: masked_bytes_full)
    have "subnet_addr b (unat nm div 8) 0 (replicate 4 0) = Ret (take (unat nm div 8) ?a @ replicate (4 - unat nm div 8) 0)"
      using subnet_reads_back [OF l(1,2), of "be_bytes 2 (unat family) @ [nm, scope]"] by (simp add: b)
    moreover have "take (12 + unat nm div 8) a = v4_prefix @ take (unat nm div 8) ?a"
      by (subst l(3)) simp
    ultimately show ?thesis
      unfolding u subnet_unpack_head [OF b] using 1 by (simp add: EDNS0_SUBNET a(1))
  next
    case 2
    have l: "unat nm \<le> 8 * 16"
      using 2 by simp
    have "ip_mask (Some a) (cidr_mask (unat nm) 16) = Some (map2 (AND) a (cidr_mask (unat nm) 16))"
      using a(2) by (simp add: ip_mask_def cidr_mask_def Let_def)
    then have b: "b = be_bytes 2 (unat family) @ [nm, scope]
        @ take (need_length nm) (map2 (AND) a (cidr_mask (unat nm) 16))"
      using p 2(2) a(2) unfolding subnet_pack_def Let_def 2(1) option.case
      by (simp add: masked_bytes_full)
    have "subnet_addr b (unat nm div 8) 0 (replicate 16 0) = Ret (take (unat nm div 8) a @ replicate (16 - unat nm div 8) 0)"
      using subnet_reads_back [OF a(2) l, of "be_bytes 2 (unat family) @ [nm, scope]"] by (simp add: b)
    then show ?thesis
      unfolding u subnet_unpack_head [OF b] using 2 by (simp add: EDNS0_SUBNET a(1) Let_def)
  qed
next
  case (EDNS0_UL x)
  then show ?thesis using assms(2) edns_roundtrip(1) [of x b] by simp
next
  case (EDNS0_LLQ v oc er i li)
  then show ?thesis using assms(2) edns_roundtrip(2) [of v oc er i li b] by simp
qed (use assms in \<open>auto simp: edns_unpack_def nsid_pack_def expire_pack_def edns_codes split: option.splits\<close>)

end
