(* ===== verification/Dns_Pack.thy ===== *)
theory Dns_Pack
  imports Dns_Layout Dns_Edns
begin

text \<open>
  \<open>packStructValue\<close> of \<open>miekg/dns/msg.go\<close>: the fields of a structure, one after the other, to the wire; and
  \<open>PackRR\<close> with \<open>rawSetRdlength\<close> (\<open>rawmsg.go\<close>), which puts the length of the data into the header once it
  is known.
\<close>

section \<open>Records as structures\<close>

definition hdr_value :: "rr_header \<Rightarrow> gval" where
  "hdr_value h =
     VStruct [VStr (RRName h), VU16 (Rrtype h), VU16 (Class h), VU32 (Ttl h), VU16 (Rdlength h)]"

text \<open>
  The values of all fields of a structure that has a header: an embedded structure has it for the one
  around it.
\<close>

fun with_header :: "gfield list \<Rightarrow> rr_header \<Rightarrow> gval list \<Rightarrow> gval list" where
  "with_header [Field n t (KStruct tn fs)] h vs =
     (if tn = ''RR_Header'' then hdr_value h # vs else [VStruct (hdr_value h # vs)])"
| "with_header _ h vs = hdr_value h # vs"

text \<open>The name of the Go type of a record and the values of its fields.\<close>

fun rr_value :: "rr \<Rightarrow> string \<times> gval list" where
  "rr_value (PTR h p) = (''PTR'', [hdr_value h, VStr p])"
| "rr_value (SRV h prio weight port target) =
     (''SRV'', [hdr_value h, VU16 prio, VU16 weight, VU16 port, VStr target])"
| "rr_value (TXT h txts) = (''TXT'', [hdr_value h, VStrs txts])"
| "rr_value (RR_A h a) = (''A'', [hdr_value h, VIP a])"
| "rr_value (RR_AAAA h a) = (''AAAA'', [hdr_value h, VIP a])"
| "rr_value (OtherRR h (n, vs)) = (n, with_header (layout_of n) h vs)"

section \<open>Packing a field\<close>

text \<open>
  The state of packing: the offset, the buffer and the compression map. The buffer was made by
  \<open>PackBuffer\<close>, so its capacity is its length.
\<close>

type_synonym pstate = "nat \<times> bytes \<times> (string \<rightharpoonup> nat)"

text \<open>Bytes put at the offset after a check of the room, and bytes copied to a slice without one.\<close>

definition put :: "string \<Rightarrow> bytes \<Rightarrow> pstate \<Rightarrow> pstate outcome" where
  "put e bs = (\<lambda>(off, m, cm).
     if off + length bs > length m then Fail (DnsError e)
     else Ret (off + length bs, write_at m off bs, cm))"

definition copy_slice :: "bytes \<Rightarrow> pstate \<Rightarrow> pstate outcome" where
  "copy_slice bs = (\<lambda>(off, m, cm).
     if off + length bs > length m then Panic
     else Ret (off + length bs, write_at m off bs, cm))"

definition pack_name :: "bool \<Rightarrow> string \<Rightarrow> pstate \<Rightarrow> pstate outcome" where
  "pack_name compress s = (\<lambda>(off, m, cm).
     case packDomainName s (Some m) off cm compress of
       None \<Rightarrow> Panic
     | Some (Inl e) \<Rightarrow> Fail e
     | Some (Inr (off1, labels, m1, cm1)) \<Rightarrow> Ret (off1, case m1 of Some b \<Rightarrow> b | None \<Rightarrow> m, cm1))"

definition pack_txt_field :: "(bytes \<Rightarrow> nat \<Rightarrow> (nat \<times> bytes) outcome) \<Rightarrow> pstate \<Rightarrow> pstate outcome" where
  "pack_txt_field f = (\<lambda>(off, m, cm). obind (f m off) (\<lambda>(off1, m1). Ret (off1, m1, cm)))"

definition packBase64 :: "string \<Rightarrow> bytes outcome" where
  "packBase64 s =
     (case base64_decode s of None \<Rightarrow> Fail (OtherError ''encoding/base64'') | Some b \<Rightarrow> Ret b)"

definition packBase32 :: "string \<Rightarrow> bytes outcome" where
  "packBase32 s =
     (case base32_decode s of None \<Rightarrow> Fail (OtherError ''encoding/base32'') | Some b \<Rightarrow> Ret b)"

text \<open>A string, by its tag. The byte before a \<open>size-base32\<close> string is its length, always 20.\<close>

definition pack_string :: "bool \<Rightarrow> string \<Rightarrow> string \<Rightarrow> pstate \<Rightarrow> pstate outcome" where
  "pack_string compress tag s st =
     (if tag = ''base64'' then obind (packBase64 s) (\<lambda>b. copy_slice b st)
      else if tag = ''domain-name'' then pack_name False s st
      else if tag = ''cdomain-name'' then pack_name compress s st
      else if tag = ''size-base32'' then
        (let (off, m, cm) = st in
         if off = 0 \<or> length m < off then Panic
         else obind (packBase32 s) (\<lambda>b. copy_slice b (off, m[off - 1 := 20], cm)))
      else if tag = ''base32'' then obind (packBase32 s) (\<lambda>b. copy_slice b st)
      else if tag = ''size-hex'' \<or> tag = ''hex'' then
        (case hex_decode s of
           None \<Rightarrow> Fail (OtherError ''encoding/hex'')
         | Some h \<Rightarrow> put ''overflow packing hex'' h st)
      else if tag = ''size'' then copy_slice (bytes_of s) st
      else if tag = ''txt'' \<or> tag = [] then pack_txt_field (packTxtString s) st
      else Fail (DnsError (''bad tag packing string: '' @ tag)))"

text \<open>The options of an OPT record: a code, a length and the data; data without room is cut off.\<close>

fun pack_opts :: "edns0 list \<Rightarrow> pstate \<Rightarrow> pstate outcome" where
  "pack_opts [] st = Ret st"
| "pack_opts (e # es) (off, m, cm) =
     (case edns_pack e of
        Panic \<Rightarrow> Panic
      | Fail _ \<Rightarrow> Fail (DnsError ''overflow packing opt'')
      | Ret b \<Rightarrow>
          if off + 4 > length m then Panic
          else let m1 = write_at m off (be_bytes 2 (unat (opt_code e)) @ be_bytes 2 (length b)) in
            if off + 4 + length b > length m
            then pack_opts es (length m, write_at m1 (off + 4) (take (length m - (off + 4)) b), cm)
            else pack_opts es (off + 4 + length b, write_at m1 (off + 4) b, cm))"

definition pack_ip :: "string \<Rightarrow> ip \<Rightarrow> pstate \<Rightarrow> pstate outcome" where
  "pack_ip tag a = (\<lambda>(off, m, cm).
     let b = (case a of None \<Rightarrow> [] | Some b \<Rightarrow> b) in
     if tag = ''a'' then
       (if off + 4 > length m then Fail (DnsError ''overflow packing a'')
        else if length b = 16 then Ret (off + 4, write_at m off (drop 12 b), cm)
        else if length b = 4 then Ret (off + 4, write_at m off b, cm)
        else if length b = 0 then Ret (off, m, cm)
        else Fail (DnsError ''overflow packing a''))
     else if tag = ''aaaa'' then
       (if length b = 0 then Ret (off, m, cm)
        else if length b > 16 \<or> off + length b > length m then Fail (DnsError ''overflow packing aaaa'')
        else if length b < 16 then Panic
        else Ret (off + 16, write_at m off b, cm))
     else Fail (DnsError (''bad tag packing slice: '' @ tag)))"

text \<open>
  The bit map of services: the byte of a service is addressed from the start of the buffer, and set and
  not added to. The number of the last byte is what the offset moves by.
\<close>

definition wks_step :: "u16 \<Rightarrow> bytes \<Rightarrow> (bytes \<times> nat) outcome" where
  "wks_step serv m =
     (let b = unat serv div 8 in
      if b > length m then Fail (DnsError ''overflow packing wks'')
      else if b = length m then Panic
      else Ret (m[b := push_bit (7 - unat serv mod 8) 1], b))"

primrec pack_wks :: "u16 list \<Rightarrow> bytes \<Rightarrow> nat \<Rightarrow> (bytes \<times> nat) outcome" where
  "pack_wks [] m bitmapbyte = Ret (m, bitmapbyte)"
| "pack_wks (serv # r) m bitmapbyte = obind (wks_step serv m) (\<lambda>(m1, b). pack_wks r m1 b)"

text \<open>
  One type of a type bit map: the state is the offset of its window, the buffer, the number of the window
  and its length so far.
\<close>

definition nsec_step :: "u16 \<Rightarrow> nat \<times> bytes \<times> nat \<times> nat \<Rightarrow> (nat \<times> bytes \<times> nat \<times> nat) outcome" where
  "nsec_step t = (\<lambda>(off, m, lastwindow, len).
     let window = unat t div 256;
         off1 = (if lastwindow \<noteq> window then off + len + 3 else off);
         len1 = unat t mod 256 div 8 in
     if lastwindow \<noteq> window \<and> off1 > length m then Fail (DnsError ''overflow packing nsecx bitmap'')
     else if off1 + 2 + len1 > length m then Fail (DnsError ''overflow packing nsecx bitmap'')
     else if off1 + 2 + len1 = length m then Panic
     else
       let m1 = m[off1 := word_of_nat window, off1 + 1 := word_of_nat (len1 + 1)];
           m2 = m1[off1 + 2 + len1 := (m1 ! (off1 + 2 + len1)) OR push_bit (7 - unat t mod 8) 1] in
       Ret (off1, m2, window, len1))"

primrec pack_nsec :: "u16 list \<Rightarrow> nat \<times> bytes \<times> nat \<times> nat \<Rightarrow> (nat \<times> bytes) outcome" where
  "pack_nsec [] st =
     (let (off, m, lastwindow, len) = st in
      if off + 2 + len + 1 > length m then Fail (DnsError ''overflow packing nsecx bitmap'')
      else Ret (off + 2 + len + 1, m))"
| "pack_nsec (t # ts) st = obind (nsec_step t st) (pack_nsec ts)"

definition pack_u16s :: "string \<Rightarrow> u16 list \<Rightarrow> pstate \<Rightarrow> pstate outcome" where
  "pack_u16s tag ts = (\<lambda>(off, m, cm).
     if tag = ''wks'' then
       (if off = length m \<or> ts = [] then Ret (off, m, cm)
        else obind (pack_wks ts m 0) (\<lambda>(m1, b). Ret (off + b, m1, cm)))
     else if tag = ''nsec'' then
       (if ts = [] then Ret (off, m, cm)
        else if off + 2 > length m then Fail (DnsError ''overflow packing nsecx'')
        else obind (pack_nsec ts (off, m, 0, 0)) (\<lambda>(off1, m1). Ret (off1, m1, cm)))
     else Fail (DnsError (''bad tag packing slice: '' @ tag)))"

fun pack_names :: "string list \<Rightarrow> pstate \<Rightarrow> pstate outcome" where
  "pack_names [] st = Ret st"
| "pack_names (s # ss) st = obind (pack_name False s st) (\<lambda>st1. pack_names ss st1)"

definition pack_strings :: "string \<Rightarrow> string list \<Rightarrow> pstate \<Rightarrow> pstate outcome" where
  "pack_strings tag ss st =
     (if tag = ''domain-name'' then pack_names ss st
      else if tag = ''txt'' then pack_txt_field (packTxt ss) st
      else Fail (DnsError (''bad tag packing slice: '' @ tag)))"

fun pack_value :: "bool \<Rightarrow> string \<Rightarrow> gval \<Rightarrow> pstate \<Rightarrow> pstate outcome" where
  "pack_value c tag (VStr s) st = pack_string c tag s st"
| "pack_value c tag (VU8 x) st = put ''overflow packing uint8'' [x] st"
| "pack_value c tag (VU16 x) st = put ''overflow packing uint16'' (be_bytes 2 (unat x)) st"
| "pack_value c tag (VU32 x) st = put ''overflow packing uint32'' (be_bytes 4 (unat x)) st"
| "pack_value c tag (VU64 x) st =
     (if tag = ''uint48''
      then put ''overflow packing uint64 as uint48'' (be_bytes 6 (unat x)) st
      else put ''overflow packing uint64'' (be_bytes 8 (unat x)) st)"
| "pack_value c tag (VStrs ss) st = pack_strings tag ss st"
| "pack_value c tag (VIP a) st = pack_ip tag a st"
| "pack_value c tag (VU16s ts) st = pack_u16s tag ts st"
| "pack_value c tag (VOpts es) st =
     (if tag = ''opt'' then pack_opts es st else Fail (DnsError (''bad tag packing slice: '' @ tag)))"
| "pack_value c tag (VStruct vs) st = Fail (DnsError ''bad kind packing'')"

section \<open>Packing a structure\<close>

text \<open>
  The fields with their values. A value of a Go structure has a value for each of its fields, so the
  last equation is for the end of both lists.
\<close>

fun packStructValue :: "bool \<Rightarrow> gfield list \<Rightarrow> gval list \<Rightarrow> pstate \<Rightarrow> pstate outcome" where
  "packStructValue c (Field n tag k # fs) (v # vs) st =
     (if tag = ''-'' then packStructValue c fs vs st
      else obind
             (case k of
                KStruct tn inner \<Rightarrow> (case v of VStruct ws \<Rightarrow> packStructValue c inner ws st | _ \<Rightarrow> pack_value c tag v st)
              | _ \<Rightarrow> pack_value c tag v st)
             (\<lambda>st1. packStructValue c fs vs st1))"
| "packStructValue c [] vs st = Ret st"
| "packStructValue c fs [] st = Ret st"

section \<open>Packing a record\<close>

text \<open>
  The loop of \<open>rawSetRdlength\<close> over the name: the offset behind it. A length byte with another prefix
  than 0 or 3 is stepped over like an empty label.
\<close>

function skip_name :: "bytes \<Rightarrow> nat \<Rightarrow> nat option" where
  "skip_name msg off =
     (if off + 1 > length msg then None
      else let c = unat (msg ! off); kind = unat (msg ! off AND 0xC0) in
        if kind = 0 then
          (if c = 0 then Some (off + 1)
           else if off + 1 + c > length msg then None
           else skip_name msg (off + 1 + c))
        else if kind = 0xC0 then Some (off + 2)
        else skip_name msg (off + 1))"
  by auto

termination skip_name
  by (relation "measure (\<lambda>(msg, off). length msg - off)") auto

declare skip_name.simps [simp del]

text \<open>None is the result false.\<close>

definition rawSetRdlength :: "bytes \<Rightarrow> nat \<Rightarrow> nat \<Rightarrow> bytes option" where
  "rawSetRdlength msg off end1 =
     (case skip_name msg off of
        None \<Rightarrow> None
      | Some o1 \<Rightarrow>
          (let o2 = o1 + 8; rdatalen = int end1 - int (o2 + 2) in
           if o2 + 2 > length msg then None
           else if rdatalen > 0xFFFF then None
           else Some (write_at msg o2 (be_bytes 2 (unat (word_of_int rdatalen :: u16))))))"

definition PackRR :: "bool \<Rightarrow> rr \<Rightarrow> pstate \<Rightarrow> pstate outcome" where
  "PackRR compress r = (\<lambda>(off, m, cm).
     case rr_value r of (n, vs) \<Rightarrow>
       obind (packStructValue compress (layout_of n) vs (off, m, cm)) (\<lambda>(off1, m1, cm1).
         case rawSetRdlength m1 off off1 of
           None \<Rightarrow> Fail ErrRdata
         | Some m2 \<Rightarrow> Ret (off1, m2, cm1)))"

end
