(* ===== verification/Dns_Unpack.thy ===== *)
theory Dns_Unpack
  imports Dns_Pack
begin

text \<open>
  \<open>unpackStructValue\<close> of \<open>miekg/dns/msg.go\<close>: the fields of a structure from the wire, and \<open>UnpackRR\<close>, which
  reads the header of a record, makes the structure of its type and reads that.

  A message is a slice: its bytes, and the spare bytes behind it up to the capacity of the array, which
  slicing reaches and indexing does not. The result is None when a call does not return: the loop over
  the servers of a HIP record can go round for ever.
\<close>

section \<open>Calls that may not return\<close>

definition wbind :: "'a outcome option \<Rightarrow> ('a \<Rightarrow> 'b outcome option) \<Rightarrow> 'b outcome option" where
  "wbind r f =
     (case r of
        None \<Rightarrow> None
      | Some Panic \<Rightarrow> Some Panic
      | Some (Fail e) \<Rightarrow> Some (Fail e)
      | Some (Ret x) \<Rightarrow> f x)"

lemma wbind_simps [simp]:
  "wbind None f = None" "wbind (Some Panic) f = Some Panic" "wbind (Some (Fail e)) f = Some (Fail e)"
  "wbind (Some (Ret x)) f = f x"
  by (simp_all add: wbind_def)

section \<open>Slices and numbers\<close>

definition sub_slice :: "bytes \<Rightarrow> bytes \<Rightarrow> nat \<Rightarrow> nat \<Rightarrow> bytes outcome" where
  "sub_slice msg spare a b =
     (if a \<le> b \<and> b \<le> length (msg @ spare) then Ret (go_slice (msg @ spare) a b) else Panic)"

text \<open>A number of so many bytes at an offset.\<close>

definition num_at :: "bytes \<Rightarrow> nat \<Rightarrow> nat \<Rightarrow> nat" where
  "num_at msg off k = be_val (go_slice msg off (off + k))"

section \<open>Unpacking a field\<close>

text \<open>The fields of the structure read before, by name; a length field of one of them.\<close>

definition uint_field :: "(string \<times> gval) list \<Rightarrow> string \<Rightarrow> nat" where
  "uint_field env n =
     (case map_of env n of
        Some (VU8 x) \<Rightarrow> unat x
      | Some (VU16 x) \<Rightarrow> unat x
      | _ \<Rightarrow> 0)"

definition str_val :: "gval \<Rightarrow> string" where
  "str_val v = (case v of VStr s \<Rightarrow> s | _ \<Rightarrow> [])"

definition u16_val :: "gval \<Rightarrow> u16" where
  "u16_val v = (case v of VU16 x \<Rightarrow> x | _ \<Rightarrow> 0)"

definition u32_val :: "gval \<Rightarrow> 32 word" where
  "u32_val v = (case v of VU32 x \<Rightarrow> x | _ \<Rightarrow> 0)"

definition strs_val :: "gval \<Rightarrow> string list" where
  "strs_val v = (case v of VStrs ss \<Rightarrow> ss | _ \<Rightarrow> [])"

definition ip_val :: "gval \<Rightarrow> ip" where
  "ip_val v = (case v of VIP a \<Rightarrow> a | _ \<Rightarrow> None)"

lemmas gval_vals = str_val_def u16_val_def u32_val_def strs_val_def ip_val_def

text \<open>The header in the values of the fields of \<open>RR_Header\<close>.\<close>

definition no_header :: rr_header where
  "no_header = \<lparr>RRName = [], Rrtype = 0, Class = 0, Ttl = 0, Rdlength = 0\<rparr>"

definition hdr_of :: "gval \<Rightarrow> rr_header" where
  "hdr_of v =
     (case v of
        VStruct [n, t, c, ttl, l] \<Rightarrow>
          \<lparr>RRName = str_val n, Rrtype = u16_val t, Class = u16_val c, Ttl = u32_val ttl, Rdlength = u16_val l\<rparr>
      | _ \<Rightarrow> no_header)"

definition env_rrtype :: "(string \<times> gval) list \<Rightarrow> u16" where
  "env_rrtype env = (case map_of env ''Hdr'' of Some h \<Rightarrow> Rrtype (hdr_of h) | None \<Rightarrow> 0)"

text \<open>The servers of a HIP record: names up to the end of the data.\<close>

partial_function (option) unpack_names ::
    "bytes \<Rightarrow> nat \<Rightarrow> nat \<Rightarrow> string list \<Rightarrow> (gval \<times> nat) outcome option" where
  "unpack_names msg rdend off servers =
     (if off < rdend then
        (case UnpackDomainName msg off of
           Inl e \<Rightarrow> Some (Fail e)
         | Inr (s, off1) \<Rightarrow> unpack_names msg rdend off1 (servers @ [s]))
      else Some (Ret (VStrs servers, off)))"

declare unpack_names.simps [code]

definition edns_known :: "u16 \<Rightarrow> bool" where
  "edns_known code =
     (code \<in> {EDNS0NSID, EDNS0SUBNET, EDNS0SUBNETDRAFT, EDNS0UL, EDNS0LLQ, EDNS0DAU, EDNS0DHU, EDNS0N3U})"

text \<open>
  The options of an OPT record. The room for a code is checked, but not the room for its length; the
  data is a slice that may reach behind the message.
\<close>

function unpack_opts ::
    "bytes \<Rightarrow> bytes \<Rightarrow> nat \<Rightarrow> nat \<Rightarrow> edns0 list \<Rightarrow> (gval \<times> nat) outcome" where
  "unpack_opts msg spare rdend off edns =
     (if off + 2 > length msg then Fail (DnsError ''overflow unpacking opt'')
      else if off + 4 > length msg then Panic
      else
        let code = word_of_nat (num_at msg off 2); optlen = num_at msg (off + 2) 2;
            off1 = off + 4; off2 = off1 + optlen in
        if off2 > rdend then Fail (DnsError ''overflow unpacking opt'')
        else
          obind (if edns_known code then obind (sub_slice msg spare off1 off2) (edns_unpack code) else Ret None)
            (\<lambda>e. let edns1 = edns @ (case e of None \<Rightarrow> [] | Some x \<Rightarrow> [x]) in
                 if off2 < rdend then unpack_opts msg spare rdend off2 edns1
                 else Ret (VOpts edns1, off2)))"
  by auto

termination unpack_opts
  by (relation "measure (\<lambda>(msg, spare, rdend, off, edns). rdend - off)") auto

declare unpack_opts.simps [simp del]

text \<open>The numbers of the bits that are set in a byte, the first bit counting from \<open>base\<close>.\<close>

definition bits_set :: "nat \<Rightarrow> byte \<Rightarrow> u16 list" where
  "bits_set base b = map (\<lambda>i. word_of_nat (base + i)) (filter (\<lambda>i. bit b (7 - i)) [0..<8])"

function unpack_wks :: "bytes \<Rightarrow> nat \<Rightarrow> nat \<Rightarrow> nat \<Rightarrow> u16 list \<Rightarrow> (gval \<times> nat) outcome" where
  "unpack_wks msg rdend off j serv =
     (if off < rdend then
        (if off + 1 > length msg then Fail (DnsError ''overflow unpacking wks'')
         else unpack_wks msg rdend (off + 1) (j + 1) (serv @ bits_set (j * 8) (msg ! off)))
      else Ret (VU16s serv, off))"
  by auto

termination unpack_wks
  by (relation "measure (\<lambda>(msg, rdend, off, j, serv). rdend - off)") auto

declare unpack_wks.simps [simp del]

text \<open>The windows of a type bit map, while there are more than two bytes of data left.\<close>

function unpack_nsec :: "bytes \<Rightarrow> nat \<Rightarrow> nat \<Rightarrow> u16 list \<Rightarrow> (gval \<times> nat) outcome" where
  "unpack_nsec msg rdend off nsec =
     (if off + 2 < rdend then
        (if off + 2 > length msg then Panic
         else
           let window = unat (msg ! off); len = unat (msg ! (off + 1)) in
           if len = 0 \<or> len > 32 then Fail (DnsError ''overflow unpacking nsecx'')
           else if off + 2 + len > length msg then Fail (DnsError ''overflow unpacking nsecx'')
           else unpack_nsec msg rdend (off + 2 + len)
                  (nsec @ concat (map (\<lambda>j. bits_set (window * 256 + j * 8) (msg ! (off + 2 + j))) [0..<len])))
      else Ret (VU16s nsec, off))"
  by auto

termination unpack_nsec
  by (relation "measure (\<lambda>(msg, rdend, off, nsec). rdend - off)") auto

declare unpack_nsec.simps [simp del]

text \<open>A string that takes a slice of the message: its end is checked, its start is not.\<close>

definition unpack_slice ::
    "bytes \<Rightarrow> bytes \<Rightarrow> (bytes \<Rightarrow> string) \<Rightarrow> nat \<Rightarrow> nat \<Rightarrow> (gval \<times> nat) outcome" where
  "unpack_slice msg spare f off end1 =
     obind (sub_slice msg spare off end1) (\<lambda>b. Ret (VStr (f b), end1))"

definition string_size :: "string \<Rightarrow> string \<Rightarrow> (string \<times> gval) list \<Rightarrow> nat" where
  "string_size tn n env =
     (if tn = ''NSEC3'' \<and> n = ''Salt'' then uint_field env ''SaltLength''
      else if tn = ''NSEC3'' \<and> n = ''NextDomain'' then uint_field env ''HashLength''
      else if tn = ''TSIG'' \<and> n = ''MAC'' then uint_field env ''MACSize''
      else if tn = ''TSIG'' \<and> n = ''OtherData'' then uint_field env ''OtherLen''
      else 0)"

definition unpack_string ::
    "bytes \<Rightarrow> bytes \<Rightarrow> string \<Rightarrow> (string \<times> gval) list \<Rightarrow> nat \<Rightarrow> string \<Rightarrow> string \<Rightarrow> nat
      \<Rightarrow> (gval \<times> nat) outcome" where
  "unpack_string msg spare tn env rdend n tag off =
     (if off = length msg then Ret (VStr [], off)
      else if tag = ''hex'' then
        (let hexend = (if env_rrtype env = TypeHIP then off + uint_field env ''HitLength'' else rdend) in
         if hexend > rdend \<or> hexend > length msg then Fail (DnsError ''overflow unpacking hex'')
         else unpack_slice msg spare hex_encode off hexend)
      else if tag = ''base64'' then
        (let b64end = (if env_rrtype env = TypeHIP then off + uint_field env ''PublicKeyLength'' else rdend) in
         if b64end > rdend \<or> b64end > length msg then Fail (DnsError ''overflow unpacking base64'')
         else unpack_slice msg spare base64 off b64end)
      else if tag = ''cdomain-name'' \<or> tag = ''domain-name'' then
        (case UnpackDomainName msg off of Inl e \<Rightarrow> Fail e | Inr (s, off1) \<Rightarrow> Ret (VStr s, off1))
      else if tag = ''size-base32'' then
        (let size = (if tn = ''NSEC3'' \<and> n = ''NextDomain'' then uint_field env ''HashLength'' else 0) in
         if off + size > length msg then Fail (DnsError ''overflow unpacking base32'')
         else unpack_slice msg spare base32_encode off (off + size))
      else if tag = ''size-hex'' then
        (let size = string_size tn n env in
         if off + size > length msg then Fail (DnsError ''overflow unpacking hex'')
         else unpack_slice msg spare hex_encode off (off + size))
      else if tag = ''txt'' \<or> tag = [] then
        (case unpackTxtString msg off of Inl e \<Rightarrow> Ret (VStr [], off) | Inr (s, off1) \<Rightarrow> Ret (VStr s, off1))
      else Fail (DnsError (''bad tag unpacking string: '' @ tag)))"

text \<open>
  A number of \<open>k\<close> bytes: at the end of the message the field keeps its zero value, which dynamic updates
  rely on.
\<close>

definition unpack_uint ::
    "bytes \<Rightarrow> string \<Rightarrow> nat \<Rightarrow> (nat \<Rightarrow> gval) \<Rightarrow> nat \<Rightarrow> (gval \<times> nat) outcome" where
  "unpack_uint msg e k f off =
     (if off = length msg then Ret (f 0, off)
      else if off + k > length msg then Fail (DnsError e)
      else Ret (f (num_at msg off k), off + k))"

definition unpack_uint64 :: "bytes \<Rightarrow> string \<Rightarrow> nat \<Rightarrow> (gval \<times> nat) outcome" where
  "unpack_uint64 msg tag off =
     (let (k, e) = (if tag = ''uint48'' then (6, ''overflow unpacking uint64 as uint48'')
                    else (8, ''overflow unpacking uint64'')) in
      if off + k > length msg then Fail (DnsError e)
      else Ret (VU64 (word_of_nat (num_at msg off k)), off + k))"

definition unpack_ip :: "bytes \<Rightarrow> nat \<Rightarrow> string \<Rightarrow> nat \<Rightarrow> (gval \<times> nat) outcome" where
  "unpack_ip msg rdend tag off =
     (if tag = ''a'' then
        (if off = length msg then Ret (VIP None, off)
         else if off + 4 > rdend \<or> off + 4 > length msg then Fail (DnsError ''overflow unpacking a'')
         else Ret (VIP (Some (v4_prefix @ go_slice msg off (off + 4))), off + 4))
      else if tag = ''aaaa'' then
        (if off = rdend then Ret (VIP None, off)
         else if off + 16 > rdend \<or> off + 16 > length msg then Fail (DnsError ''overflow unpacking aaaa'')
         else Ret (VIP (Some (go_slice msg off (off + 16))), off + 16))
      else Fail (DnsError (''bad tag unpacking slice: '' @ tag)))"

definition unpack_u16s :: "bytes \<Rightarrow> nat \<Rightarrow> string \<Rightarrow> nat \<Rightarrow> (gval \<times> nat) outcome" where
  "unpack_u16s msg rdend tag off =
     (if tag = ''wks'' then unpack_wks msg rdend off 0 []
      else if tag = ''nsec'' then
        (if off = rdend then Ret (VU16s [], off)
         else if off + 2 > rdend \<or> off + 2 > length msg then Fail (DnsError ''overflow unpacking nsecx'')
         else unpack_nsec msg rdend off [])
      else Fail (DnsError (''bad tag unpacking slice: '' @ tag)))"

definition unpack_strings :: "bytes \<Rightarrow> nat \<Rightarrow> string \<Rightarrow> nat \<Rightarrow> (gval \<times> nat) outcome option" where
  "unpack_strings msg rdend tag off =
     (if tag = ''domain-name'' then unpack_names msg rdend off []
      else if tag = ''txt'' then
        Some (if off = length msg \<or> rdend = off then Ret (VStrs [], off)
              else case unpackTxt msg off rdend of
                Inl e \<Rightarrow> Fail e | Inr (ss, off1) \<Rightarrow> Ret (VStrs ss, off1))
      else Some (Fail (DnsError (''bad tag unpacking slice: '' @ tag))))"

fun unpack_value ::
    "bytes \<Rightarrow> bytes \<Rightarrow> string \<Rightarrow> (string \<times> gval) list \<Rightarrow> nat \<Rightarrow> string \<Rightarrow> string \<Rightarrow> gkind \<Rightarrow> nat
      \<Rightarrow> (gval \<times> nat) outcome option" where
  "unpack_value msg spare tn env rdend n tag KUint8 off =
     Some (unpack_uint msg ''overflow unpacking uint8'' 1 (\<lambda>x. VU8 (word_of_nat x)) off)"
| "unpack_value msg spare tn env rdend n tag KUint16 off =
     Some (unpack_uint msg ''overflow unpacking uint16'' 2 (\<lambda>x. VU16 (word_of_nat x)) off)"
| "unpack_value msg spare tn env rdend n tag KUint32 off =
     Some (unpack_uint msg ''overflow unpacking uint32'' 4 (\<lambda>x. VU32 (word_of_nat x)) off)"
| "unpack_value msg spare tn env rdend n tag KUint64 off = Some (unpack_uint64 msg tag off)"
| "unpack_value msg spare tn env rdend n tag KString off =
     Some (unpack_string msg spare tn env rdend n tag off)"
| "unpack_value msg spare tn env rdend n tag KStrings off = unpack_strings msg rdend tag off"
| "unpack_value msg spare tn env rdend n tag KIP off = Some (unpack_ip msg rdend tag off)"
| "unpack_value msg spare tn env rdend n tag KUint16s off = Some (unpack_u16s msg rdend tag off)"
| "unpack_value msg spare tn env rdend n tag KOpts off =
     Some (if tag \<noteq> ''opt'' then Fail (DnsError (''bad tag unpacking slice: '' @ tag))
           else if off = rdend then Ret (VOpts [], off)
           else unpack_opts msg spare rdend off [])"
| "unpack_value msg spare tn env rdend n tag (KStruct _ _) off = Some (Fail (DnsError ''bad kind unpacking''))"

section \<open>Unpacking a structure\<close>

text \<open>
  The arguments are the message, the name of the Go type, the fields left, the fields read, and the
  variables \<open>rdend\<close> and \<open>off\<close>. After the header, \<open>rdend\<close> is the end of the record.
\<close>

fun unpackStructValue ::
    "bytes \<Rightarrow> bytes \<Rightarrow> string \<Rightarrow> gfield list \<Rightarrow> (string \<times> gval) list \<Rightarrow> nat \<Rightarrow> nat
      \<Rightarrow> (gval list \<times> nat) outcome option" where
  "unpackStructValue msg spare tn [] env rdend off = Some (Ret (map snd env, off))"
| "unpackStructValue msg spare tn (Field n tag k # fs) env rdend off =
     (if off > length msg then Some (Fail (DnsError ''bad offset unpacking''))
      else wbind
        (case k of
           KStruct tn1 inner \<Rightarrow>
             wbind (unpackStructValue msg spare tn1 inner [] 0 off) (\<lambda>(ws, off1). Some (Ret (VStruct ws, off1)))
         | _ \<Rightarrow> unpack_value msg spare tn env rdend n tag k off)
        (\<lambda>(v, off1).
           unpackStructValue msg spare tn fs (env @ [(n, v)])
             (if n = ''Hdr'' then off1 + unat (Rdlength (hdr_of v)) else rdend) off1))"

definition UnpackStruct ::
    "bytes \<Rightarrow> bytes \<Rightarrow> string \<Rightarrow> gfield list \<Rightarrow> nat \<Rightarrow> (gval list \<times> nat) outcome option" where
  "UnpackStruct msg spare tn fs off = unpackStructValue msg spare tn fs [] 0 off"

section \<open>Unpacking a record\<close>

text \<open>The header of a record value, its own or that of the structure it embeds, and the other fields.\<close>

definition strip_header :: "gval list \<Rightarrow> rr_header \<times> gval list" where
  "strip_header vs =
     (case vs of
        [] \<Rightarrow> (no_header, [])
      | v # rest \<Rightarrow>
          (case v of
             VStruct (w # ws) \<Rightarrow> (case w of VStruct _ \<Rightarrow> (hdr_of w, ws) | _ \<Rightarrow> (hdr_of v, rest))
           | _ \<Rightarrow> (no_header, rest)))"

definition rr_of_value :: "string \<Rightarrow> gval list \<Rightarrow> rr" where
  "rr_of_value n vs =
     (let (h, ws) = strip_header vs in
      case ws of
        [v] \<Rightarrow>
          if n = ''PTR'' then PTR h (str_val v)
          else if n = ''TXT'' then TXT h (strs_val v)
          else if n = ''A'' then RR_A h (ip_val v)
          else if n = ''AAAA'' then RR_AAAA h (ip_val v)
          else OtherRR h (n, ws)
      | [prio, weight, port, target] \<Rightarrow>
          if n = ''SRV'' then SRV h (u16_val prio) (u16_val weight) (u16_val port) (str_val target)
          else OtherRR h (n, ws)
      | _ \<Rightarrow> OtherRR h (n, ws))"

text \<open>
  The header is read twice: once for the type, once with the record. An error of the record is
  returned as it is only when the record ends with the message, since the offset of an error is the
  length of the message.
\<close>

definition UnpackRR :: "bytes \<Rightarrow> bytes \<Rightarrow> nat \<Rightarrow> (rr \<times> nat) outcome option" where
  "UnpackRR msg spare off0 =
     wbind (UnpackStruct msg spare ''RR_Header'' layout_RR_Header off0) (\<lambda>(hv, off).
       let h = hdr_of (VStruct hv); end1 = off + unat (Rdlength h);
           (n, fs) = (case typeToRR (Rrtype h) of None \<Rightarrow> (''RFC3597'', layout_RFC3597) | Some x \<Rightarrow> x) in
       case UnpackStruct msg spare n fs off0 of
         None \<Rightarrow> None
       | Some Panic \<Rightarrow> Some Panic
       | Some (Fail e) \<Rightarrow> Some (Fail (if length msg \<noteq> end1 then DnsError ''bad rdlength'' else e))
       | Some (Ret (vs, off1)) \<Rightarrow>
           Some (if off1 \<noteq> end1 then Fail (DnsError ''bad rdlength'') else Ret (rr_of_value n vs, off1)))"

end
