(* ===== verification/Dns_Len.thy ===== *)
theory Dns_Len
  imports Dns_Unpack
begin

text \<open>
  The length of records and messages as \<open>miekg/dns\<close> computes it (the methods \<open>len\<close> of \<open>types.go\<close>, \<open>edns.go\<close>
  and \<open>tsig.go\<close>, \<open>Msg.Len\<close> of \<open>msg.go\<close>). \<open>PackBuffer\<close> makes its buffer one byte longer than that.
\<close>

section \<open>Fields by name\<close>

definition field_val :: "(string \<times> gval) list \<Rightarrow> string \<Rightarrow> gval" where
  "field_val e n = (case map_of e n of Some v \<Rightarrow> v | None \<Rightarrow> VStr [])"

definition u16s_val :: "gval \<Rightarrow> u16 list" where
  "u16s_val v = (case v of VU16s ts \<Rightarrow> ts | _ \<Rightarrow> [])"

definition str_len :: "(string \<times> gval) list \<Rightarrow> string \<Rightarrow> nat" where
  "str_len e n = length (str_val (field_val e n))"

text \<open>The names of the fields behind the header.\<close>

fun data_names :: "gfield list \<Rightarrow> string list" where
  "data_names [] = []"
| "data_names (Field n tag k # fs) =
     (case k of
        KStruct tn inner \<Rightarrow>
          if tn = ''RR_Header'' then map (\<lambda>f. case f of Field n _ _ \<Rightarrow> n) fs else data_names inner
      | _ \<Rightarrow> [])"

text \<open>The Go type of a record, its header, and its other fields by name.\<close>

definition rr_fields :: "rr \<Rightarrow> string \<times> rr_header \<times> (string \<times> gval) list" where
  "rr_fields r =
     (let (n, vs) = rr_value r; (h, ws) = strip_header vs in (n, h, zip (data_names (layout_of n)) ws))"

section \<open>Lengths of records\<close>

definition hdr_len :: "rr_header \<Rightarrow> nat" where
  "hdr_len h = length (RRName h) + 1 + 10"

definition question_len :: "question \<Rightarrow> nat" where
  "question_len q = length (QName q) + 1 + 4"

text \<open>A list of strings, each with its length byte.\<close>

definition names_len :: "(string \<times> gval) list \<Rightarrow> string \<Rightarrow> nat" where
  "names_len e n = sum_list (map (\<lambda>t. length t + 1) (strs_val (field_val e n)))"

text \<open>
  The windows of a type bit map. The loop starts with a window meant to be none: \<open>2 ^ 32 + 1\<close> is 35 in Go,
  where the circumflex is the exclusive or.
\<close>

fun windows_len :: "u16 list \<Rightarrow> nat \<Rightarrow> nat" where
  "windows_len [] lastwindow = 0"
| "windows_len (t # ts) lastwindow =
     (let w = unat t div 256 in (if w \<noteq> lastwindow then 1 + 32 else 0) + windows_len ts w)"

definition len_ANY :: "rr_header \<Rightarrow> (string \<times> gval) list \<Rightarrow> nat" where
  "len_ANY h e = hdr_len h"

definition len_CNAME :: "rr_header \<Rightarrow> (string \<times> gval) list \<Rightarrow> nat" where
  "len_CNAME h e = hdr_len h + str_len e ''Target'' + 1"

definition len_HINFO :: "rr_header \<Rightarrow> (string \<times> gval) list \<Rightarrow> nat" where
  "len_HINFO h e = hdr_len h + str_len e ''Cpu'' + str_len e ''Os''"

definition len_MB :: "rr_header \<Rightarrow> (string \<times> gval) list \<Rightarrow> nat" where
  "len_MB h e = hdr_len h + str_len e ''Mb'' + 1"

definition len_MG :: "rr_header \<Rightarrow> (string \<times> gval) list \<Rightarrow> nat" where
  "len_MG h e = hdr_len h + (str_len e ''Mg'' + 1)"

definition len_MINFO :: "rr_header \<Rightarrow> (string \<times> gval) list \<Rightarrow> nat" where
  "len_MINFO h e = hdr_len h + (str_len e ''Rmail'' + 1) + (str_len e ''Email'' + 1)"

definition len_MR :: "rr_header \<Rightarrow> (string \<times> gval) list \<Rightarrow> nat" where
  "len_MR h e = hdr_len h + (str_len e ''Mr'' + 1)"

definition len_MF :: "rr_header \<Rightarrow> (string \<times> gval) list \<Rightarrow> nat" where
  "len_MF h e = hdr_len h + str_len e ''Mf'' + 1"

definition len_MD :: "rr_header \<Rightarrow> (string \<times> gval) list \<Rightarrow> nat" where
  "len_MD h e = hdr_len h + str_len e ''Md'' + 1"

definition len_MX :: "rr_header \<Rightarrow> (string \<times> gval) list \<Rightarrow> nat" where
  "len_MX h e = hdr_len h + (str_len e ''Mx'' + 1) + 2"

definition len_AFSDB :: "rr_header \<Rightarrow> (string \<times> gval) list \<Rightarrow> nat" where
  "len_AFSDB h e = hdr_len h + (str_len e ''Hostname'' + 1) + 2"

definition len_X25 :: "rr_header \<Rightarrow> (string \<times> gval) list \<Rightarrow> nat" where
  "len_X25 h e = hdr_len h + str_len e ''PSDNAddress'' + 1"

definition len_RT :: "rr_header \<Rightarrow> (string \<times> gval) list \<Rightarrow> nat" where
  "len_RT h e = hdr_len h + (str_len e ''Host'' + 1) + 2"

definition len_NS :: "rr_header \<Rightarrow> (string \<times> gval) list \<Rightarrow> nat" where
  "len_NS h e = hdr_len h + (str_len e ''Ns'' + 1)"

definition len_PTR :: "rr_header \<Rightarrow> (string \<times> gval) list \<Rightarrow> nat" where
  "len_PTR h e = hdr_len h + (str_len e ''Ptr'' + 1)"

definition len_RP :: "rr_header \<Rightarrow> (string \<times> gval) list \<Rightarrow> nat" where
  "len_RP h e = hdr_len h + str_len e ''Mbox'' + 1 + str_len e ''Txt'' + 1"

definition len_SOA :: "rr_header \<Rightarrow> (string \<times> gval) list \<Rightarrow> nat" where
  "len_SOA h e = hdr_len h + (str_len e ''Ns'' + 1) + (str_len e ''Mbox'' + 1) + 20"

definition len_TXT :: "rr_header \<Rightarrow> (string \<times> gval) list \<Rightarrow> nat" where
  "len_TXT h e = hdr_len h + names_len e ''Txt''"

definition len_SPF :: "rr_header \<Rightarrow> (string \<times> gval) list \<Rightarrow> nat" where
  "len_SPF h e = hdr_len h + names_len e ''Txt''"

definition len_SRV :: "rr_header \<Rightarrow> (string \<times> gval) list \<Rightarrow> nat" where
  "len_SRV h e = hdr_len h + (str_len e ''Target'' + 1) + 6"

definition len_NAPTR :: "rr_header \<Rightarrow> (string \<times> gval) list \<Rightarrow> nat" where
  "len_NAPTR h e = hdr_len h + 4 + str_len e ''Flags'' + 1 + str_len e ''Service'' + 1 + str_len e ''Regexp'' + 1
       + str_len e ''Replacement'' + 1"

definition len_CERT :: "rr_header \<Rightarrow> (string \<times> gval) list \<Rightarrow> nat" where
  "len_CERT h e = hdr_len h + 5 + base64_decoded_len (str_len e ''Certificate'')"

definition len_DNAME :: "rr_header \<Rightarrow> (string \<times> gval) list \<Rightarrow> nat" where
  "len_DNAME h e = hdr_len h + (str_len e ''Target'' + 1)"

definition len_A :: "rr_header \<Rightarrow> (string \<times> gval) list \<Rightarrow> nat" where
  "len_A h e = hdr_len h + 4"

definition len_AAAA :: "rr_header \<Rightarrow> (string \<times> gval) list \<Rightarrow> nat" where
  "len_AAAA h e = hdr_len h + 16"

definition len_PX :: "rr_header \<Rightarrow> (string \<times> gval) list \<Rightarrow> nat" where
  "len_PX h e = hdr_len h + 2 + str_len e ''Map822'' + 1 + str_len e ''Mapx400'' + 1"

definition len_GPOS :: "rr_header \<Rightarrow> (string \<times> gval) list \<Rightarrow> nat" where
  "len_GPOS h e = hdr_len h + str_len e ''Longitude'' + str_len e ''Latitude'' + str_len e ''Altitude'' + 3"

definition len_LOC :: "rr_header \<Rightarrow> (string \<times> gval) list \<Rightarrow> nat" where
  "len_LOC h e = hdr_len h + 4 + 12"

definition len_RRSIG :: "rr_header \<Rightarrow> (string \<times> gval) list \<Rightarrow> nat" where
  "len_RRSIG h e = hdr_len h + str_len e ''SignerName'' + 1 + base64_decoded_len (str_len e ''Signature'') + 18"

definition len_NSEC :: "rr_header \<Rightarrow> (string \<times> gval) list \<Rightarrow> nat" where
  "len_NSEC h e = hdr_len h + str_len e ''NextDomain'' + 1 + windows_len (u16s_val (field_val e ''TypeBitMap'')) 35"

definition len_DS :: "rr_header \<Rightarrow> (string \<times> gval) list \<Rightarrow> nat" where
  "len_DS h e = hdr_len h + 4 + str_len e ''Digest'' div 2"

definition len_KX :: "rr_header \<Rightarrow> (string \<times> gval) list \<Rightarrow> nat" where
  "len_KX h e = hdr_len h + 2 + str_len e ''Exchanger'' + 1"

definition len_TA :: "rr_header \<Rightarrow> (string \<times> gval) list \<Rightarrow> nat" where
  "len_TA h e = hdr_len h + 4 + str_len e ''Digest'' div 2"

definition len_TALINK :: "rr_header \<Rightarrow> (string \<times> gval) list \<Rightarrow> nat" where
  "len_TALINK h e = hdr_len h + str_len e ''PreviousName'' + str_len e ''NextName'' + 2"

definition len_SSHFP :: "rr_header \<Rightarrow> (string \<times> gval) list \<Rightarrow> nat" where
  "len_SSHFP h e = hdr_len h + 2 + str_len e ''FingerPrint'' div 2"

definition len_IPSECKEY :: "rr_header \<Rightarrow> (string \<times> gval) list \<Rightarrow> nat" where
  "len_IPSECKEY h e = hdr_len h + 3 + str_len e ''Gateway'' + 1 + base64_decoded_len (str_len e ''PublicKey'')"

definition len_DNSKEY :: "rr_header \<Rightarrow> (string \<times> gval) list \<Rightarrow> nat" where
  "len_DNSKEY h e = hdr_len h + 4 + base64_decoded_len (str_len e ''PublicKey'')"

definition len_RKEY :: "rr_header \<Rightarrow> (string \<times> gval) list \<Rightarrow> nat" where
  "len_RKEY h e = hdr_len h + 4 + base64_decoded_len (str_len e ''PublicKey'')"

definition len_NSAP :: "rr_header \<Rightarrow> (string \<times> gval) list \<Rightarrow> nat" where
  "len_NSAP h e = hdr_len h + 1 + str_len e ''Nsap'' + 1"

definition len_NSAPPTR :: "rr_header \<Rightarrow> (string \<times> gval) list \<Rightarrow> nat" where
  "len_NSAPPTR h e = hdr_len h + str_len e ''Ptr''"

definition len_NSEC3 :: "rr_header \<Rightarrow> (string \<times> gval) list \<Rightarrow> nat" where
  "len_NSEC3 h e = hdr_len h + 6 + str_len e ''Salt'' div 2 + 1 + str_len e ''NextDomain'' + 1
       + windows_len (u16s_val (field_val e ''TypeBitMap'')) 35"

definition len_NSEC3PARAM :: "rr_header \<Rightarrow> (string \<times> gval) list \<Rightarrow> nat" where
  "len_NSEC3PARAM h e = hdr_len h + 2 + 4 + 1 + str_len e ''Salt'' div 2"

definition len_TKEY :: "rr_header \<Rightarrow> (string \<times> gval) list \<Rightarrow> nat" where
  "len_TKEY h e = hdr_len h + str_len e ''Algorithm'' + 1 + 4 + 4 + 6 + str_len e ''Key'' + 2 + str_len e ''OtherData''"

definition len_RFC3597 :: "rr_header \<Rightarrow> (string \<times> gval) list \<Rightarrow> nat" where
  "len_RFC3597 h e = hdr_len h + str_len e ''Rdata'' div 2 + 2"

definition len_URI :: "rr_header \<Rightarrow> (string \<times> gval) list \<Rightarrow> nat" where
  "len_URI h e = hdr_len h + 4 + names_len e ''Target''"

definition len_DHCID :: "rr_header \<Rightarrow> (string \<times> gval) list \<Rightarrow> nat" where
  "len_DHCID h e = hdr_len h + base64_decoded_len (str_len e ''Digest'')"

definition len_TLSA :: "rr_header \<Rightarrow> (string \<times> gval) list \<Rightarrow> nat" where
  "len_TLSA h e = hdr_len h + 3 + str_len e ''Certificate'' div 2"

definition len_HIP :: "rr_header \<Rightarrow> (string \<times> gval) list \<Rightarrow> nat" where
  "len_HIP h e = hdr_len h + 4 + str_len e ''Hit'' div 2 + base64_decoded_len (str_len e ''PublicKey'') + names_len e ''RendezvousServers''"

definition len_NINFO :: "rr_header \<Rightarrow> (string \<times> gval) list \<Rightarrow> nat" where
  "len_NINFO h e = hdr_len h + names_len e ''ZSData''"

definition len_WKS :: "rr_header \<Rightarrow> (string \<times> gval) list \<Rightarrow> nat" where
  "len_WKS h e = hdr_len h + 4 + 1"

definition len_NID :: "rr_header \<Rightarrow> (string \<times> gval) list \<Rightarrow> nat" where
  "len_NID h e = hdr_len h + 2 + 8"

definition len_L32 :: "rr_header \<Rightarrow> (string \<times> gval) list \<Rightarrow> nat" where
  "len_L32 h e = hdr_len h + 4"

definition len_L64 :: "rr_header \<Rightarrow> (string \<times> gval) list \<Rightarrow> nat" where
  "len_L64 h e = hdr_len h + 2 + 8"

definition len_LP :: "rr_header \<Rightarrow> (string \<times> gval) list \<Rightarrow> nat" where
  "len_LP h e = hdr_len h + 2 + str_len e ''Fqdn'' + 1"

definition len_EUI48 :: "rr_header \<Rightarrow> (string \<times> gval) list \<Rightarrow> nat" where
  "len_EUI48 h e = hdr_len h + 6"

definition len_EUI64 :: "rr_header \<Rightarrow> (string \<times> gval) list \<Rightarrow> nat" where
  "len_EUI64 h e = hdr_len h + 8"

definition len_UID :: "rr_header \<Rightarrow> (string \<times> gval) list \<Rightarrow> nat" where
  "len_UID h e = hdr_len h + 4"

definition len_GID :: "rr_header \<Rightarrow> (string \<times> gval) list \<Rightarrow> nat" where
  "len_GID h e = hdr_len h + 4"

definition len_UINFO :: "rr_header \<Rightarrow> (string \<times> gval) list \<Rightarrow> nat" where
  "len_UINFO h e = hdr_len h + str_len e ''Uinfo'' + 1"

definition len_EID :: "rr_header \<Rightarrow> (string \<times> gval) list \<Rightarrow> nat" where
  "len_EID h e = hdr_len h + str_len e ''Endpoint'' div 2"

definition len_NIMLOC :: "rr_header \<Rightarrow> (string \<times> gval) list \<Rightarrow> nat" where
  "len_NIMLOC h e = hdr_len h + str_len e ''Locator'' div 2"

definition len_OPENPGPKEY :: "rr_header \<Rightarrow> (string \<times> gval) list \<Rightarrow> nat" where
  "len_OPENPGPKEY h e = hdr_len h + base64_decoded_len (str_len e ''PublicKey'')"

definition len_TSIG :: "rr_header \<Rightarrow> (string \<times> gval) list \<Rightarrow> nat" where
  "len_TSIG h e = hdr_len h + str_len e ''Algorithm'' + 1 + 6 + 4 + str_len e ''MAC'' div 2 + 1 + 6 + str_len e ''OtherData'' div 2 + 1"

text \<open>An option that cannot be packed counts with no data.\<close>

fun len_OPT :: "rr_header \<Rightarrow> edns0 list \<Rightarrow> nat outcome" where
  "len_OPT h [] = Ret (hdr_len h)"
| "len_OPT h (x # xs) =
     (case edns_pack x of
        Panic \<Rightarrow> Panic
      | Fail _ \<Rightarrow> obind (len_OPT h xs) (\<lambda>l. Ret (2 + l))
      | Ret b \<Rightarrow> obind (len_OPT h xs) (\<lambda>l. Ret (2 + length b + l)))"

definition len_methods :: "string \<Rightarrow> (rr_header \<Rightarrow> (string \<times> gval) list \<Rightarrow> nat) option" where
  "len_methods = map_of
     [(''ANY'', len_ANY), (''CNAME'', len_CNAME), (''HINFO'', len_HINFO), (''MB'', len_MB), (''MG'',
      len_MG), (''MINFO'', len_MINFO), (''MR'', len_MR), (''MF'', len_MF), (''MD'', len_MD), (''MX'',
      len_MX), (''AFSDB'', len_AFSDB), (''X25'', len_X25), (''RT'', len_RT), (''NS'', len_NS), (''PTR'',
      len_PTR), (''RP'', len_RP), (''SOA'', len_SOA), (''TXT'', len_TXT), (''SPF'', len_SPF), (''SRV'',
      len_SRV), (''NAPTR'', len_NAPTR), (''CERT'', len_CERT), (''DNAME'', len_DNAME), (''A'', len_A),
      (''AAAA'', len_AAAA), (''PX'', len_PX), (''GPOS'', len_GPOS), (''LOC'', len_LOC), (''RRSIG'',
      len_RRSIG), (''NSEC'', len_NSEC), (''DS'', len_DS), (''KX'', len_KX), (''TA'', len_TA), (''TALINK'',
      len_TALINK), (''SSHFP'', len_SSHFP), (''IPSECKEY'', len_IPSECKEY), (''DNSKEY'', len_DNSKEY),
      (''RKEY'', len_RKEY), (''NSAP'', len_NSAP), (''NSAPPTR'', len_NSAPPTR), (''NSEC3'', len_NSEC3),
      (''NSEC3PARAM'', len_NSEC3PARAM), (''TKEY'', len_TKEY), (''RFC3597'', len_RFC3597), (''URI'',
      len_URI), (''DHCID'', len_DHCID), (''TLSA'', len_TLSA), (''HIP'', len_HIP), (''NINFO'', len_NINFO),
      (''WKS'', len_WKS), (''NID'', len_NID), (''L32'', len_L32), (''L64'', len_L64), (''LP'', len_LP),
      (''EUI48'', len_EUI48), (''EUI64'', len_EUI64), (''UID'', len_UID), (''GID'', len_GID), (''UINFO'',
      len_UINFO), (''EID'', len_EID), (''NIMLOC'', len_NIMLOC), (''OPENPGPKEY'', len_OPENPGPKEY),
      (''TSIG'', len_TSIG), (''CDS'', len_DS), (''DLV'', len_DS), (''SIG'', len_RRSIG), (''KEY'',
      len_DNSKEY), (''CDNSKEY'', len_DNSKEY)]"

definition rr_len :: "rr \<Rightarrow> nat outcome" where
  "rr_len r =
     (let (n, h, e) = rr_fields r in
      if n = ''OPT'' then len_OPT h (case field_val e ''Option'' of VOpts xs \<Rightarrow> xs | _ \<Rightarrow> [])
      else Ret (case len_methods n of Some f \<Rightarrow> f h e | None \<Rightarrow> hdr_len h))"

section \<open>The length of a message\<close>

text \<open>The fields of a record that \<open>compressionLenHelperType\<close> and \<open>compressionLenSearchType\<close> look at.\<close>

definition compressed_fields :: "string \<Rightarrow> string list" where
  "compressed_fields n =
     (if n = ''NS'' then [''Ns''] else if n = ''MX'' then [''Mx''] else if n = ''CNAME'' then [''Target'']
      else if n = ''PTR'' then [''Ptr''] else if n = ''SOA'' then [''Ns'', ''Mbox'']
      else if n = ''MB'' then [''Mb''] else if n = ''MG'' then [''Mg''] else if n = ''MR'' then [''Mr'']
      else if n = ''MF'' then [''Mf''] else if n = ''MD'' then [''Md''] else if n = ''RT'' then [''Host'']
      else if n = ''MINFO'' then [''Rmail'', ''Email''] else if n = ''AFSDB'' then [''Hostname''] else [])"

definition compressionLenHelperType :: "(string \<rightharpoonup> nat) \<Rightarrow> rr \<Rightarrow> (string \<rightharpoonup> nat)" where
  "compressionLenHelperType c r =
     (let (n, h, e) = rr_fields r in
      foldl (\<lambda>c f. compressionLenHelper c (str_val (field_val e f))) c (compressed_fields n))"

text \<open>What is found, added up, and whether anything was found.\<close>

definition compressionLenSearchType :: "(string \<rightharpoonup> nat) \<Rightarrow> rr \<Rightarrow> (nat \<times> bool) option" where
  "compressionLenSearchType c r =
     (let (n, h, e) = rr_fields r in
      foldl (\<lambda>acc f.
          case (acc, compressionLenSearch c (str_val (field_val e f))) of
            (Some (k, ok), Some (k1, ok1)) \<Rightarrow> Some (k + k1, ok \<or> ok1)
          | _ \<Rightarrow> None) (Some (0, False)) (compressed_fields n))"

text \<open>
  The loops of \<open>Len\<close>; the names of the questions only fill the compression map. None would be a search
  that does not return.
\<close>

fun len_questions :: "bool \<Rightarrow> question list \<Rightarrow> int \<times> (string \<rightharpoonup> nat) \<Rightarrow> int \<times> (string \<rightharpoonup> nat)" where
  "len_questions compress [] s = s"
| "len_questions compress (q # qs) (l, c) =
     len_questions compress qs
       (l + int (question_len q), if compress then compressionLenHelper c (QName q) else c)"

fun len_rrs ::
    "bool \<Rightarrow> rr list \<Rightarrow> int \<times> (string \<rightharpoonup> nat) \<Rightarrow> (int \<times> (string \<rightharpoonup> nat)) outcome option" where
  "len_rrs compress [] s = Some (Ret s)"
| "len_rrs compress (r # rs) (l, c) =
     wbind (Some (rr_len r)) (\<lambda>n.
       if \<not> compress then len_rrs compress rs (l + int n, c)
       else
         case compressionLenSearch c (RRName (rr_hdr r)) of
           None \<Rightarrow> None
         | Some (k, ok) \<Rightarrow>
             (let c1 = compressionLenHelper c (RRName (rr_hdr r)) in
              case compressionLenSearchType c1 r of
                None \<Rightarrow> None
              | Some (k1, ok1) \<Rightarrow>
                  len_rrs compress rs
                    (l + int n + (if ok then 1 - int k else 0) + (if ok1 then 1 - int k1 else 0),
                     compressionLenHelperType c1 r)))"

definition Len :: "dns_msg \<Rightarrow> int outcome option" where
  "Len m =
     (let s = len_questions (Compress m) (Question m) (12, Map.empty) in
      wbind (len_rrs (Compress m) (Answer m) s) (\<lambda>s1.
      wbind (len_rrs (Compress m) (Ns m) s1) (\<lambda>s2.
      wbind (len_rrs (Compress m) (Extra m) s2) (\<lambda>(l, c). Some (Ret l)))))"

end
