(* ===== verification/Dns_Message.thy ===== *)
theory Dns_Message
  imports Dns_Len
begin

text \<open>
  Whole messages of \<open>miekg/dns/msg.go\<close>: \<open>Pack\<close> and \<open>PackBuffer\<close>, which put the header, the questions and the
  records into a buffer of the length \<open>Len\<close> says, and \<open>Unpack\<close>.
\<close>

section \<open>Header bits\<close>

definition bit_QR :: u16 where "bit_QR = push_bit 15 1"
definition bit_AA :: u16 where "bit_AA = push_bit 10 1"
definition bit_TC :: u16 where "bit_TC = push_bit 9 1"
definition bit_RD :: u16 where "bit_RD = push_bit 8 1"
definition bit_RA :: u16 where "bit_RA = push_bit 7 1"
definition bit_Z :: u16 where "bit_Z = push_bit 6 1"
definition bit_AD :: u16 where "bit_AD = push_bit 5 1"
definition bit_CD :: u16 where "bit_CD = push_bit 4 1"

lemmas header_bit_defs =
  bit_QR_def bit_AA_def bit_TC_def bit_RD_def bit_RA_def bit_Z_def bit_AD_def bit_CD_def

section \<open>Packing\<close>

text \<open>\<open>IsEdns0\<close>: the first OPT record; a record that only says it is one fails the type assertion.\<close>

fun IsEdns0 :: "rr list \<Rightarrow> rr option outcome" where
  "IsEdns0 [] = Ret None"
| "IsEdns0 (r # rs) =
     (if Rrtype (rr_hdr r) = TypeOPT then
        (if fst (rr_value r) = ''OPT'' then Ret (Some r) else Panic)
      else IsEdns0 rs)"

definition SetExtendedRcode :: "rr_header \<Rightarrow> byte \<Rightarrow> rr_header" where
  "SetExtendedRcode h v = h\<lparr>Ttl := (Ttl h AND 0x00FFFFFF) OR push_bit 24 (ucast v)\<rparr>"

text \<open>The first OPT record with another header.\<close>

fun set_edns_header :: "(rr_header \<Rightarrow> rr_header) \<Rightarrow> rr list \<Rightarrow> rr list" where
  "set_edns_header f [] = []"
| "set_edns_header f (r # rs) =
     (if Rrtype (rr_hdr r) = TypeOPT
      then (case r of OtherRR h x \<Rightarrow> OtherRR (f h) x | _ \<Rightarrow> r) # rs
      else r # set_edns_header f rs)"

text \<open>The first part of \<open>PackBuffer\<close>: a code above 15 goes into the OPT record.\<close>

definition pack_rcode :: "dns_msg \<Rightarrow> dns_msg outcome" where
  "pack_rcode m =
     (if Rcode m < 0 \<or> Rcode m > 0xFFF then Fail ErrRcode
      else if Rcode m > 0xF then
        obind (IsEdns0 (Extra m)) (\<lambda>opt.
          case opt of
            None \<Rightarrow> Fail ErrExtendedRcode
          | Some _ \<Rightarrow>
              Ret (m\<lparr>Extra := set_edns_header
                               (\<lambda>h. SetExtendedRcode h (word_of_int (Rcode m div 16))) (Extra m),
                     Rcode := Rcode m mod 16\<rparr>))
      else Ret m)"

definition header_bits :: "dns_msg \<Rightarrow> u16" where
  "header_bits m =
     push_bit 11 (word_of_int (Opcode m)) OR word_of_int (Rcode m)
       OR (if Response m then bit_QR else 0) OR (if Authoritative m then bit_AA else 0)
       OR (if Truncated m then bit_TC else 0) OR (if RecursionDesired m then bit_RD else 0)
       OR (if RecursionAvailable m then bit_RA else 0) OR (if Zero m then bit_Z else 0)
       OR (if AuthenticatedData m then bit_AD else 0) OR (if CheckingDisabled m then bit_CD else 0)"

definition msg_header_values :: "dns_msg \<Rightarrow> gval list" where
  "msg_header_values m =
     [VU16 (Id m), VU16 (header_bits m), VU16 (word_of_nat (length (Question m))),
      VU16 (word_of_nat (length (Answer m))), VU16 (word_of_nat (length (Ns m))),
      VU16 (word_of_nat (length (Extra m)))]"

definition question_values :: "question \<Rightarrow> gval list" where
  "question_values q = [VStr (QName q), VU16 (Qtype q), VU16 (Qclass q)]"

definition pack_question :: "bool \<Rightarrow> question \<Rightarrow> pstate \<Rightarrow> pstate outcome" where
  "pack_question c q = packStructValue c layout_Question (question_values q)"

fun pack_all :: "('a \<Rightarrow> pstate \<Rightarrow> pstate outcome) \<Rightarrow> 'a list \<Rightarrow> pstate \<Rightarrow> pstate outcome" where
  "pack_all f [] st = Ret st"
| "pack_all f (x # xs) st = obind (f x st) (pack_all f xs)"

text \<open>The parts of a message, in order; the map of names is used only when \<open>Compress\<close> is set.\<close>

definition pack_message :: "dns_msg \<Rightarrow> bytes \<Rightarrow> pstate outcome" where
  "pack_message m buf =
     (let c = Compress m in
      obind (packStructValue c layout_Header (msg_header_values m) (0, buf, Map.empty)) (\<lambda>st.
      obind (pack_all (pack_question c) (Question m) st) (\<lambda>st1.
      obind (pack_all (PackRR c) (Answer m) st1) (\<lambda>st2.
      obind (pack_all (PackRR c) (Ns m) st2) (pack_all (PackRR c) (Extra m))))))"

text \<open>
  The length is computed without compression. A buffer that is given is used as it is when it is long
  enough; its capacity is taken to be its length.
\<close>

definition PackBuffer :: "dns_msg \<Rightarrow> bytes \<Rightarrow> bytes outcome option" where
  "PackBuffer m0 buf =
     wbind (Some (pack_rcode m0)) (\<lambda>m.
     wbind (Len (m\<lparr>Compress := False\<rparr>)) (\<lambda>l.
       let packLen = l + 1;
           msg = (if int (length buf) < packLen then replicate (nat packLen) 0 else buf) in
       wbind (Some (pack_message m msg)) (\<lambda>(off, msg1, cm). Some (Ret (take off msg1)))))"

definition Pack :: "dns_msg \<Rightarrow> bytes outcome option" where
  "Pack m = PackBuffer m []"

section \<open>Unpacking\<close>

text \<open>The loops over the arrays, which have the length that the header says.\<close>

fun unpack_n :: "(nat \<Rightarrow> ('a \<times> nat) outcome option) \<Rightarrow> nat \<Rightarrow> nat \<Rightarrow> ('a list \<times> nat) outcome option" where
  "unpack_n f 0 off = Some (Ret ([], off))"
| "unpack_n f (Suc n) off =
     wbind (f off) (\<lambda>(x, off1). wbind (unpack_n f n off1) (\<lambda>(xs, off2). Some (Ret (x # xs, off2))))"

definition unpack_question :: "bytes \<Rightarrow> bytes \<Rightarrow> nat \<Rightarrow> (question \<times> nat) outcome option" where
  "unpack_question msg spare off =
     wbind (UnpackStruct msg spare ''Question'' layout_Question off) (\<lambda>(vs, off1).
       Some (Ret (\<lparr>QName = str_val (vs ! 0), Qtype = u16_val (vs ! 1), Qclass = u16_val (vs ! 2)\<rparr>, off1)))"

definition header_msg :: "dns_msg \<Rightarrow> gval list \<Rightarrow> dns_msg" where
  "header_msg m vs =
     (let bits = u16_val (vs ! 1) in
      m\<lparr>Id := u16_val (vs ! 0),
        Response := (bits AND bit_QR \<noteq> 0), Opcode := int (unat (drop_bit 11 bits AND 0xF)),
        Authoritative := (bits AND bit_AA \<noteq> 0), Truncated := (bits AND bit_TC \<noteq> 0),
        RecursionDesired := (bits AND bit_RD \<noteq> 0), RecursionAvailable := (bits AND bit_RA \<noteq> 0),
        Zero := (bits AND bit_Z \<noteq> 0), AuthenticatedData := (bits AND bit_AD \<noteq> 0),
        CheckingDisabled := (bits AND bit_CD \<noteq> 0), Rcode := int (unat (bits AND 0xF))\<rparr>)"

text \<open>
  The message read from the bytes. An error is given without the parts that were read; no caller looks
  at them. A truncated message ends behind its questions, and bytes behind the last record are ignored.
\<close>

definition Unpack :: "dns_msg \<Rightarrow> bytes \<Rightarrow> bytes \<Rightarrow> dns_msg outcome option" where
  "Unpack m0 msg spare =
     wbind (UnpackStruct msg spare ''Header'' layout_Header 0) (\<lambda>(vs, off).
       let m = header_msg m0 vs; cnt = (\<lambda>i. unat (u16_val (vs ! i))) in
       wbind (unpack_n (unpack_question msg spare) (cnt 2) off) (\<lambda>(qs, off1).
         if Truncated m then Some (Ret (m\<lparr>Question := qs, Answer := [], Ns := [], Extra := []\<rparr>))
         else
           wbind (unpack_n (UnpackRR msg spare) (cnt 3) off1) (\<lambda>(as, off2).
           wbind (unpack_n (UnpackRR msg spare) (cnt 4) off2) (\<lambda>(ns, off3).
           wbind (unpack_n (UnpackRR msg spare) (cnt 5) off3) (\<lambda>(es, off4).
             Some (Ret (m\<lparr>Question := qs, Answer := as, Ns := ns, Extra := es\<rparr>)))))))"

end
