(* ===== verification/Dns_Defaults.thy ===== *)
theory Dns_Defaults
  imports Dns_Message
begin

text \<open>
  The rest of \<open>miekg/dns/defaults.go\<close> that makes or looks at messages (\<open>SetIxfr\<close>, \<open>SetTsig\<close>, \<open>SetEdns0\<close>,
  \<open>IsTsig\<close>, \<open>IsMsg\<close>), and the parts of the header of an OPT record (\<open>edns.go\<close>).
\<close>

unbundle bit_operations_syntax

section \<open>OPT records\<close>

text \<open>The accessors work on the header, which an OPT record uses for values of its own.\<close>

definition opt_Version :: "rr_header \<Rightarrow> byte" where
  "opt_Version h = ucast (drop_bit 16 (Ttl h AND 0x00FF0000))"

definition opt_SetVersion :: "rr_header \<Rightarrow> byte \<Rightarrow> rr_header" where
  "opt_SetVersion h v = h\<lparr>Ttl := (Ttl h AND 0xFF00FFFF) OR push_bit 16 (ucast v)\<rparr>"

definition opt_ExtendedRcode :: "rr_header \<Rightarrow> byte" where
  "opt_ExtendedRcode h = ucast (drop_bit 24 (Ttl h AND 0xFF000000))"

definition opt_UDPSize :: "rr_header \<Rightarrow> u16" where
  "opt_UDPSize h = Class h"

definition opt_SetUDPSize :: "rr_header \<Rightarrow> u16 \<Rightarrow> rr_header" where
  "opt_SetUDPSize h n = h\<lparr>Class := n\<rparr>"

definition DO_bit :: "32 word" where
  "DO_bit = push_bit 15 1"

definition opt_Do :: "rr_header \<Rightarrow> bool" where
  "opt_Do h \<longleftrightarrow> Ttl h AND DO_bit = DO_bit"

definition opt_SetDo :: "rr_header \<Rightarrow> rr_header" where
  "opt_SetDo h = h\<lparr>Ttl := Ttl h OR DO_bit\<rparr>"

text \<open>
  The three values in the TTL are kept apart: each setter is seen by its own reader and changes no other
  value.
\<close>

lemma byte_bits:
  "(\<And>i. i < 8 \<Longrightarrow> bit v i = bit w i) \<Longrightarrow> v = (w :: byte)"
  by (rule bit_word_eqI) simp

lemma byte_bit_out: "8 \<le> n \<Longrightarrow> bit (v :: byte) n \<longleftrightarrow> False"
  by (auto dest: bit_imp_le_length)

lemma less_8: "i < 8 \<longleftrightarrow> i \<in> {0, 1, 2, 3, 4, 5, 6, 7 :: nat}"
  by auto

lemma byte_of_ttl:
  "ucast (drop_bit 16 (((t AND 0xFF00FFFF) OR push_bit 16 (ucast v)) AND 0x00FF0000)) = (v :: byte)"
  "ucast (drop_bit 24 (((t AND 0xFF00FFFF) OR push_bit 16 (ucast v)) AND 0xFF000000)) = (ucast (drop_bit 24 (t AND 0xFF000000)) :: byte)"
  "ucast (drop_bit 24 (((t AND 0x00FFFFFF) OR push_bit 24 (ucast v)) AND 0xFF000000)) = (v :: byte)"
  "ucast (drop_bit 16 (((t AND 0x00FFFFFF) OR push_bit 24 (ucast v)) AND 0x00FF0000)) = (ucast (drop_bit 16 (t AND 0x00FF0000)) :: byte)"
  for t :: "32 word"
  by (rule byte_bits; auto simp: less_8 bit_simps byte_bit_out)+

lemma set_ttl: "Ttl (h\<lparr>Ttl := t\<rparr>) = t"
  by simp

lemma opt_values:
  "opt_Version (opt_SetVersion h v) = v" "opt_ExtendedRcode (opt_SetVersion h v) = opt_ExtendedRcode h"
  "opt_ExtendedRcode (SetExtendedRcode h v) = v" "opt_Version (SetExtendedRcode h v) = opt_Version h"
  unfolding opt_Version_def opt_SetVersion_def opt_ExtendedRcode_def SetExtendedRcode_def
  by (simp_all only: byte_of_ttl set_ttl)

section \<open>Messages\<close>

definition defaultTtl :: "32 word" where
  "defaultTtl = 3600"

definition ClassANY :: u16 where "ClassANY = 255"
definition ClassNONE :: u16 where "ClassNONE = 254"

text \<open>The identifier is what the variable function \<open>Id\<close> of the package returns.\<close>

definition SetIxfr :: "dns_msg \<Rightarrow> u16 \<Rightarrow> string \<Rightarrow> 32 word \<Rightarrow> dns_msg" where
  "SetIxfr m ident z serial =
     m\<lparr>Id := ident, Question := [\<lparr>QName = z, Qtype = TypeIXFR, Qclass = ClassINET\<rparr>],
       Ns := [OtherRR \<lparr>RRName = z, Rrtype = TypeSOA, Class = ClassINET, Ttl = defaultTtl, Rdlength = 0\<rparr>
                (''SOA'', [VStr [], VStr [], VU32 serial, VU32 0, VU32 0, VU32 0, VU32 0])]\<rparr>"

text \<open>The values of a TSIG record.\<close>

record tsig =
  TsigHdr :: rr_header
  Algorithm :: string
  TimeSigned :: "64 word"
  Fudge :: u16
  MACSize :: u16
  MAC :: string
  OrigId :: u16
  TsigError :: u16
  OtherLen :: u16
  OtherData :: string

definition tsig_rr :: "tsig \<Rightarrow> rr" where
  "tsig_rr t =
     OtherRR (TsigHdr t)
       (''TSIG'', [VStr (Algorithm t), VU64 (TimeSigned t), VU16 (Fudge t), VU16 (MACSize t), VStr (MAC t),
                 VU16 (OrigId t), VU16 (TsigError t), VU16 (OtherLen t), VStr (OtherData t)])"

text \<open>The type assertion of a record to a TSIG record; None is its panic.\<close>

definition as_tsig :: "rr \<Rightarrow> tsig option" where
  "as_tsig r =
     (case r of
        OtherRR h (n, [VStr alg, VU64 time, VU16 fudge, VU16 k, VStr mac, VU16 oid, VU16 err, VU16 ol, VStr od]) \<Rightarrow>
          if n = ''TSIG''
          then Some \<lparr>TsigHdr = h, Algorithm = alg, TimeSigned = time, Fudge = fudge, MACSize = k, MAC = mac,
                     OrigId = oid, TsigError = err, OtherLen = ol, OtherData = od\<rparr>
          else None
      | _ \<Rightarrow> None)"

lemma as_tsig_rr [simp]: "as_tsig (tsig_rr t) = Some t"
  by (simp add: as_tsig_def tsig_rr_def)

text \<open>The argument \<open>fudge\<close> is not used.\<close>

definition SetTsig :: "dns_msg \<Rightarrow> string \<Rightarrow> string \<Rightarrow> int \<Rightarrow> int \<Rightarrow> dns_msg" where
  "SetTsig m z algo fudge timesigned =
     m\<lparr>Extra := Extra m @
        [tsig_rr \<lparr>TsigHdr = \<lparr>RRName = z, Rrtype = TypeTSIG, Class = ClassANY, Ttl = 0, Rdlength = 0\<rparr>,
                  Algorithm = algo, TimeSigned = word_of_int timesigned, Fudge = 300, MACSize = 0, MAC = [],
                  OrigId = Id m, TsigError = 0, OtherLen = 0, OtherData = []\<rparr>]\<rparr>"

definition SetEdns0 :: "dns_msg \<Rightarrow> u16 \<Rightarrow> bool \<Rightarrow> dns_msg" where
  "SetEdns0 m udpsize d =
     (let h = opt_SetUDPSize \<lparr>RRName = ''.'', Rrtype = TypeOPT, Class = 0, Ttl = 0, Rdlength = 0\<rparr> udpsize in
      m\<lparr>Extra := Extra m @ [OtherRR (if d then opt_SetDo h else h) (''OPT'', [VOpts []])]\<rparr>)"

text \<open>The last record of the additional section, if it is a TSIG record.\<close>

definition IsTsig :: "dns_msg \<Rightarrow> tsig option outcome" where
  "IsTsig m =
     (if Extra m \<noteq> [] \<and> Rrtype (rr_hdr (last (Extra m))) = TypeTSIG
      then (case as_tsig (last (Extra m)) of None \<Rightarrow> Panic | Some t \<Rightarrow> Ret (Some t))
      else Ret None)"

definition IsMsg :: "bytes \<Rightarrow> dns_error option" where
  "IsMsg buf = (if length buf < 12 then Some (OtherError ''dns: bad message header'') else None)"

text \<open>What was added to a message is found in it.\<close>

lemma IsTsig_SetTsig:
  "IsTsig (SetTsig m z algo fudge timesigned) =
     Ret (Some \<lparr>TsigHdr = \<lparr>RRName = z, Rrtype = TypeTSIG, Class = ClassANY, Ttl = 0, Rdlength = 0\<rparr>,
                Algorithm = algo, TimeSigned = word_of_int timesigned, Fudge = 300, MACSize = 0, MAC = [],
                OrigId = Id m, TsigError = 0, OtherLen = 0, OtherData = []\<rparr>)"
  unfolding IsTsig_def SetTsig_def by (simp add: as_tsig_def tsig_rr_def)

lemma IsEdns0_SetEdns0:
  assumes "\<forall>r\<in>set (Extra m). Rrtype (rr_hdr r) \<noteq> TypeOPT"
  shows "\<exists>r. IsEdns0 (Extra (SetEdns0 m udpsize d)) = Ret (Some r) \<and> opt_UDPSize (rr_hdr r) = udpsize
    \<and> opt_Do (rr_hdr r) = d \<and> opt_Version (rr_hdr r) = 0"
proof -
  have "IsEdns0 (rs @ [r]) = Ret (Some r)"
    if "\<forall>r\<in>set rs. Rrtype (rr_hdr r) \<noteq> TypeOPT" "Rrtype (rr_hdr r) = TypeOPT" "fst (rr_value r) = ''OPT''"
    for rs r
    using that by (induction rs) simp_all
  with assms show ?thesis
    by (auto simp: SetEdns0_def Let_def opt_SetUDPSize_def opt_SetDo_def opt_UDPSize_def opt_Do_def opt_Version_def
        DO_bit_def)
qed

end
