(* ===== verification/Go_Hmac.thy ===== *)
theory Go_Hmac
  imports Go_Crypto Go_Encoding
begin

text \<open>
  \<open>crypto/md5\<close>, \<open>crypto/sha256\<close> and \<open>crypto/hmac\<close> as \<open>miekg/dns/tsig.go\<close> uses them (RFC 1321, FIPS 180-4,
  RFC 2104).
\<close>

unbundle bit_operations_syntax

section \<open>MD5\<close>

definition le32 :: "bytes \<Rightarrow> w32" where
  "le32 bs = be32 (rev bs)"

definition md5_pad :: "bytes \<Rightarrow> bytes" where
  "md5_pad m =
     m @ [128] @ replicate ((119 - length m mod 64) mod 64) 0 @ rev (be_bytes 8 (8 * length m))"

definition md5_table :: "w32 list" where
  "md5_table =
     [0xD76AA478, 0xE8C7B756, 0x242070DB, 0xC1BDCEEE, 0xF57C0FAF, 0x4787C62A, 0xA8304613,
      0xFD469501, 0x698098D8, 0x8B44F7AF, 0xFFFF5BB1, 0x895CD7BE, 0x6B901122, 0xFD987193,
      0xA679438E, 0x49B40821, 0xF61E2562, 0xC040B340, 0x265E5A51, 0xE9B6C7AA, 0xD62F105D,
      0x02441453, 0xD8A1E681, 0xE7D3FBC8, 0x21E1CDE6, 0xC33707D6, 0xF4D50D87, 0x455A14ED,
      0xA9E3E905, 0xFCEFA3F8, 0x676F02D9, 0x8D2A4C8A, 0xFFFA3942, 0x8771F681, 0x6D9D6122,
      0xFDE5380C, 0xA4BEEA44, 0x4BDECFA9, 0xF6BB4B60, 0xBEBFBC70, 0x289B7EC6, 0xEAA127FA,
      0xD4EF3085, 0x04881D05, 0xD9D4D039, 0xE6DB99E5, 0x1FA27CF8, 0xC4AC5665, 0xF4292244,
      0x432AFF97, 0xAB9423A7, 0xFC93A039, 0x655B59C3, 0x8F0CCC92, 0xFFEFF47D, 0x85845DD1,
      0x6FA87E4F, 0xFE2CE6E0, 0xA3014314, 0x4E0811A1, 0xF7537E82, 0xBD3AF235, 0x2AD7D2BB,
      0xEB86D391]"

text \<open>The function of a round, the word of the block it takes, and the rotation.\<close>

definition md5_step :: "nat \<Rightarrow> w32 \<Rightarrow> w32 \<Rightarrow> w32 \<Rightarrow> w32 \<times> nat \<times> nat" where
  "md5_step i b c d =
     (if i < 16 then ((b AND c) OR (NOT b AND d), i, [7, 12, 17, 22] ! (i mod 4))
      else if i < 32 then ((d AND b) OR (NOT d AND c), (5 * i + 1) mod 16, [5, 9, 14, 20] ! (i mod 4))
      else if i < 48 then (b XOR c XOR d, (3 * i + 5) mod 16, [4, 11, 16, 23] ! (i mod 4))
      else (c XOR (b OR NOT d), (7 * i) mod 16, [6, 10, 15, 21] ! (i mod 4)))"

type_synonym md5_state = "w32 \<times> w32 \<times> w32 \<times> w32"

fun md5_rounds :: "w32 list \<Rightarrow> nat \<Rightarrow> w32 list \<Rightarrow> md5_state \<Rightarrow> md5_state" where
  "md5_rounds ws i [] st = st"
| "md5_rounds ws i (k # ks) (a, b, c, d) =
     (let (f, g, s) = md5_step i b c d in
      md5_rounds ws (Suc i) ks (d, b + rotl s (a + f + k + ws ! g), b, c))"

definition md5_block :: "md5_state \<Rightarrow> bytes \<Rightarrow> md5_state" where
  "md5_block st blk =
     (let ws = map le32 (split_every 16 4 blk);
          (a, b, c, d) = st; (a', b', c', d') = md5_rounds ws 0 md5_table st in
      (a + a', b + b', c + c', d + d'))"

definition md5 :: "bytes \<Rightarrow> bytes" where
  "md5 m =
     (let p = md5_pad m;
          (a, b, c, d) = foldl md5_block (0x67452301, 0xEFCDAB89, 0x98BADCFE, 0x10325476)
                           (split_every (length p div 64) 64 p) in
      concat (map (\<lambda>w. rev (be_bytes 4 (unat w))) [a, b, c, d]))"

lemma length_md5: "length (md5 m) = 16"
  by (simp add: md5_def Let_def split: prod.splits)

section \<open>SHA-256\<close>

definition rotr :: "nat \<Rightarrow> w32 \<Rightarrow> w32" where
  "rotr n w = rotl (32 - n) w"

definition sha256_table :: "w32 list" where
  "sha256_table =
     [0x428A2F98, 0x71374491, 0xB5C0FBCF, 0xE9B5DBA5, 0x3956C25B, 0x59F111F1, 0x923F82A4,
      0xAB1C5ED5, 0xD807AA98, 0x12835B01, 0x243185BE, 0x550C7DC3, 0x72BE5D74, 0x80DEB1FE,
      0x9BDC06A7, 0xC19BF174, 0xE49B69C1, 0xEFBE4786, 0x0FC19DC6, 0x240CA1CC, 0x2DE92C6F,
      0x4A7484AA, 0x5CB0A9DC, 0x76F988DA, 0x983E5152, 0xA831C66D, 0xB00327C8, 0xBF597FC7,
      0xC6E00BF3, 0xD5A79147, 0x06CA6351, 0x14292967, 0x27B70A85, 0x2E1B2138, 0x4D2C6DFC,
      0x53380D13, 0x650A7354, 0x766A0ABB, 0x81C2C92E, 0x92722C85, 0xA2BFE8A1, 0xA81A664B,
      0xC24B8B70, 0xC76C51A3, 0xD192E819, 0xD6990624, 0xF40E3585, 0x106AA070, 0x19A4C116,
      0x1E376C08, 0x2748774C, 0x34B0BCB5, 0x391C0CB3, 0x4ED8AA4A, 0x5B9CCA4F, 0x682E6FF3,
      0x748F82EE, 0x78A5636F, 0x84C87814, 0x8CC70208, 0x90BEFFFA, 0xA4506CEB, 0xBEF9A3F7,
      0xC67178F2]"

text \<open>The message schedule, the latest word first.\<close>

fun sha256_extend :: "nat \<Rightarrow> w32 list \<Rightarrow> w32 list" where
  "sha256_extend 0 ws = ws"
| "sha256_extend (Suc n) ws =
     (let x = ws ! 14; y = ws ! 1;
          s0 = rotr 7 x XOR rotr 18 x XOR drop_bit 3 x; s1 = rotr 17 y XOR rotr 19 y XOR drop_bit 10 y in
      sha256_extend n ((ws ! 15 + s0 + ws ! 6 + s1) # ws))"

type_synonym sha256_state = "(w32 \<times> w32 \<times> w32 \<times> w32) \<times> (w32 \<times> w32 \<times> w32 \<times> w32)"

fun sha256_rounds :: "(w32 \<times> w32) list \<Rightarrow> sha256_state \<Rightarrow> sha256_state" where
  "sha256_rounds [] st = st"
| "sha256_rounds ((k, w) # kws) ((a, b, c, d), (e, f, g, h)) =
     (let s1 = rotr 6 e XOR rotr 11 e XOR rotr 25 e;
          t1 = h + s1 + ((e AND f) XOR (NOT e AND g)) + k + w;
          s0 = rotr 2 a XOR rotr 13 a XOR rotr 22 a;
          t2 = s0 + ((a AND b) XOR (a AND c) XOR (b AND c)) in
      sha256_rounds kws ((t1 + t2, a, b, c), (d + t1, e, f, g)))"

definition sha256_block :: "sha256_state \<Rightarrow> bytes \<Rightarrow> sha256_state" where
  "sha256_block st blk =
     (let ws = rev (sha256_extend 48 (rev (map be32 (split_every 16 4 blk))));
          ((a, b, c, d), (e, f, g, h)) = st;
          ((a', b', c', d'), (e', f', g', h')) = sha256_rounds (zip sha256_table ws) st in
      ((a + a', b + b', c + c', d + d'), (e + e', f + f', g + g', h + h')))"

definition sha256_init :: sha256_state where
  "sha256_init =
     ((0x6A09E667, 0xBB67AE85, 0x3C6EF372, 0xA54FF53A), (0x510E527F, 0x9B05688C, 0x1F83D9AB, 0x5BE0CD19))"

definition sha256 :: "bytes \<Rightarrow> bytes" where
  "sha256 m =
     (let p = sha1_pad m;
          ((a, b, c, d), (e, f, g, h)) = foldl sha256_block sha256_init (split_every (length p div 64) 64 p) in
      concat (map (\<lambda>w. be_bytes 4 (unat w)) [a, b, c, d, e, f, g, h]))"

lemma length_sha256: "length (sha256 m) = 32"
  by (simp add: sha256_def Let_def split: prod.splits)

section \<open>HMAC\<close>

text \<open>All three hash functions work on blocks of 64 bytes.\<close>

definition hmac_key :: "(bytes \<Rightarrow> bytes) \<Rightarrow> bytes \<Rightarrow> bytes" where
  "hmac_key H key = (let k = (if length key > 64 then H key else key) in k @ replicate (64 - length k) 0)"

definition hmac :: "(bytes \<Rightarrow> bytes) \<Rightarrow> bytes \<Rightarrow> bytes \<Rightarrow> bytes" where
  "hmac H key m =
     (let k = hmac_key H key in
      H (map (\<lambda>b. b XOR 0x5C) k @ H (map (\<lambda>b. b XOR 0x36) k @ m)))"

text \<open>A key no longer than a block is padded, and a longer one has the key its hash is.\<close>

lemma length_hmac_key:
  assumes "\<And>m. length (H m) \<le> 64"
  shows "length (hmac_key H key) = 64"
  using assms [of key] by (simp add: hmac_key_def Let_def)

lemma hmac_long_key:
  assumes "length (H key) \<le> 64" and "64 < length key"
  shows "hmac H key m = hmac H (H key) m"
  using assms by (simp add: hmac_def hmac_key_def Let_def)

end
