(* ===== verification/Dns_Tsig.thy ===== *)
theory Dns_Tsig
  imports Dns_Defaults Go_Hmac
begin

text \<open>
  \<open>miekg/dns/tsig.go\<close>: transaction signatures. A message is signed with a TSIG record at its end, whose MAC
  covers the message, the record itself without the MAC, and the MAC of the request that is answered.
\<close>

section \<open>Errors and algorithms\<close>

definition ErrAuth :: dns_error where "ErrAuth = DnsError ''bad authentication''"
definition ErrKeyAlg :: dns_error where "ErrKeyAlg = DnsError ''bad key algorithm''"
definition ErrNoSig :: dns_error where "ErrNoSig = DnsError ''no signature found''"
definition ErrSecret :: dns_error where "ErrSecret = DnsError ''no secrets defined''"
definition ErrSig :: dns_error where "ErrSig = DnsError ''bad signature''"
definition ErrTime :: dns_error where "ErrTime = DnsError ''bad time''"

definition RcodeNotAuth :: int where "RcodeNotAuth = 9"

definition HmacMD5 :: string where "HmacMD5 = ''hmac-md5.sig-alg.reg.int.''"
definition HmacSHA1 :: string where "HmacSHA1 = ''hmac-sha1.''"
definition HmacSHA256 :: string where "HmacSHA256 = ''hmac-sha256.''"

definition hash_of :: "string \<Rightarrow> (bytes \<Rightarrow> bytes) option" where
  "hash_of alg =
     (if alg = HmacMD5 then Some md5 else if alg = HmacSHA1 then Some sha1
      else if alg = HmacSHA256 then Some sha256 else None)"

section \<open>What the MAC covers\<close>

definition layout_tsigWireFmt :: "gfield list" where
  "layout_tsigWireFmt =
     [Field ''Name'' ''domain-name'' KString,
      Field ''Class'' [] KUint16,
      Field ''Ttl'' [] KUint32,
      Field ''Algorithm'' ''domain-name'' KString,
      Field ''TimeSigned'' ''uint48'' KUint64,
      Field ''Fudge'' [] KUint16,
      Field ''Error'' [] KUint16,
      Field ''OtherLen'' [] KUint16,
      Field ''OtherData'' ''size-hex'' KString]"

definition layout_macWireFmt :: "gfield list" where
  "layout_macWireFmt = [Field ''MACSize'' [] KUint16, Field ''MAC'' ''size-hex'' KString]"

definition layout_timerWireFmt :: "gfield list" where
  "layout_timerWireFmt = [Field ''TimeSigned'' ''uint48'' KUint64, Field ''Fudge'' [] KUint16]"

definition DefaultMsgSize :: nat where
  "DefaultMsgSize = 4096"

text \<open>\<open>PackStruct\<close> into a new buffer of so many bytes, cut off behind the structure.\<close>

definition struct_bytes :: "gfield list \<Rightarrow> gval list \<Rightarrow> nat \<Rightarrow> bytes outcome" where
  "struct_bytes fs vs k =
     obind (packStructValue False fs vs (0, replicate k 0, Map.empty)) (\<lambda>(off, m, cm). Ret (take off m))"

text \<open>
  The first lines of \<open>tsigBuffer\<close> fill in the time and the fudge of the record; \<open>now\<close> is the time in
  seconds.
\<close>

definition tsig_defaults :: "64 word \<Rightarrow> tsig \<Rightarrow> tsig" where
  "tsig_defaults now rr =
     (let rr1 = (if TimeSigned rr = 0 then rr\<lparr>TimeSigned := now\<rparr> else rr) in
      if Fudge rr1 = 0 then rr1\<lparr>Fudge := 300\<rparr> else rr1)"

text \<open>
  The rest of it. The code drops the errors of \<open>PackStruct\<close> and goes on with a buffer that is filled in
  part; here such an error ends the call. It takes a key name of some four thousand bytes, a request
  MAC that is not hexadecimal, or other data set by the caller that is not.
\<close>

definition tsigBuffer :: "bytes \<Rightarrow> tsig \<Rightarrow> string \<Rightarrow> bool \<Rightarrow> bytes outcome" where
  "tsigBuffer msgbuf rr requestMAC timersOnly =
     obind
       (if requestMAC = [] then Ret []
        else struct_bytes layout_macWireFmt
               [VU16 (word_of_nat (length requestMAC div 2)), VStr requestMAC] (length requestMAC))
       (\<lambda>buf. obind
          (if timersOnly
           then struct_bytes layout_timerWireFmt [VU64 (TimeSigned rr), VU16 (Fudge rr)] DefaultMsgSize
           else struct_bytes layout_tsigWireFmt
                  [VStr (to_lower (RRName (TsigHdr rr))), VU16 ClassANY, VU32 (Ttl (TsigHdr rr)),
                   VStr (to_lower (Algorithm rr)), VU64 (TimeSigned rr), VU16 (Fudge rr), VU16 (TsigError rr),
                   VU16 (OtherLen rr), VStr (OtherData rr)] DefaultMsgSize)
          (\<lambda>tsigvar. Ret (buf @ msgbuf @ tsigvar)))"

section \<open>Signing\<close>

definition rawSetExtraLen :: "bytes \<Rightarrow> u16 \<Rightarrow> bytes option" where
  "rawSetExtraLen msg i = (if length msg < 12 then None else Some (write_at msg 10 (be_bytes 2 (unat i))))"

text \<open>The record that is sent. The error and the other data of the stub are not taken over.\<close>

definition signed_tsig :: "tsig \<Rightarrow> u16 \<Rightarrow> bytes \<Rightarrow> tsig" where
  "signed_tsig rr ident mac =
     \<lparr>TsigHdr = \<lparr>RRName = RRName (TsigHdr rr), Rrtype = TypeTSIG, Class = ClassANY, Ttl = 0, Rdlength = 0\<rparr>,
      Algorithm = Algorithm rr, TimeSigned = TimeSigned rr, Fudge = Fudge rr,
      MACSize = word_of_nat (length (hex_encode mac) div 2), MAC = hex_encode mac, OrigId = ident,
      TsigError = 0, OtherLen = 0, OtherData = []\<rparr>"

text \<open>
  The message, which loses its TSIG record and whose code \<open>Pack\<close> splits; the bytes to send; and the MAC.
  The hash function is chosen after the buffer was filled, which makes no difference to a caller.
\<close>

definition TsigGenerate ::
    "64 word \<Rightarrow> dns_msg \<Rightarrow> string \<Rightarrow> string \<Rightarrow> bool \<Rightarrow> (dns_msg \<times> bytes \<times> string) outcome option" where
  "TsigGenerate now m secret requestMAC timersOnly =
     wbind (Some (IsTsig m)) (\<lambda>ts.
       case ts of
         None \<Rightarrow> Some Panic
       | Some stub \<Rightarrow>
           wbind (Some (packBase64 secret)) (\<lambda>rawsecret.
             let m1 = m\<lparr>Extra := butlast (Extra m)\<rparr>; rr = tsig_defaults now stub in
             wbind (Pack m1) (\<lambda>mbuf.
             wbind (Some (pack_rcode m1)) (\<lambda>m2.
               case hash_of (Algorithm rr) of
                 None \<Rightarrow> Some (Fail ErrKeyAlg)
               | Some H \<Rightarrow>
                   wbind (Some (tsigBuffer mbuf rr requestMAC timersOnly)) (\<lambda>buf.
                     let t = signed_tsig rr (Id m2) (hmac H rawsecret buf) in
                     wbind (Some (rr_len (tsig_rr t))) (\<lambda>l.
                     wbind (Some (PackRR False (tsig_rr t) (0, replicate l 0, Map.empty))) (\<lambda>(off, tbuf, cm).
                       let out = mbuf @ take off tbuf in
                       Some (Ret (m2, case rawSetExtraLen out (word_of_nat (length (Extra m2) + 1)) of
                                        Some b \<Rightarrow> b | None \<Rightarrow> out, MAC t)))))))))"

section \<open>Verifying\<close>

definition new_tsig :: tsig where
  "new_tsig =
     \<lparr>TsigHdr = no_header, Algorithm = [], TimeSigned = 0, Fudge = 0, MACSize = 0, MAC = [], OrigId = 0,
      TsigError = 0, OtherLen = 0, OtherData = []\<rparr>"

text \<open>
  The loop over the additional records: the offset of the TSIG record, and the record. Without one the
  offset is that of the last record and the record is empty, not nil as the check behind the loop expects.
\<close>

fun strip_extra :: "bytes \<Rightarrow> bytes \<Rightarrow> nat \<Rightarrow> nat \<Rightarrow> nat \<Rightarrow> (nat \<times> tsig option) outcome option" where
  "strip_extra msg spare 0 off tsigoff = Some (Ret (tsigoff, None))"
| "strip_extra msg spare (Suc n) off tsigoff =
     wbind (UnpackRR msg spare off) (\<lambda>(r, off1).
       if Rrtype (rr_hdr r) = TypeTSIG
       then Some (case as_tsig r of None \<Rightarrow> Panic | Some t \<Rightarrow> Ret (off, Some t))
       else strip_extra msg spare n off1 off)"

definition stripTsig :: "bytes \<Rightarrow> bytes \<Rightarrow> (bytes \<times> tsig) outcome option" where
  "stripTsig msg spare =
     wbind (UnpackStruct msg spare ''Header'' layout_Header 0) (\<lambda>(vs, off).
       let cnt = (\<lambda>i. unat (u16_val (vs ! i))) in
       if cnt 5 = 0 then Some (Fail ErrNoSig)
       else if int (unat (u16_val (vs ! 1) AND 0xF)) = RcodeNotAuth then Some (Fail ErrAuth)
       else
         wbind (unpack_n (unpack_question msg spare) (cnt 2) off) (\<lambda>(qs, off1).
         wbind (unpack_n (UnpackRR msg spare) (cnt 3) off1) (\<lambda>(as, off2).
         wbind (unpack_n (UnpackRR msg spare) (cnt 4) off2) (\<lambda>(ns, off3).
         wbind (strip_extra msg spare (cnt 5) off3 0) (\<lambda>(tsigoff, ts).
           Some (Ret (case ts of
               None \<Rightarrow> (take tsigoff msg, new_tsig)
             | Some t \<Rightarrow>
                 (take tsigoff (write_at msg 10 (be_bytes 2 (unat (word_of_nat (num_at msg 10 2) - 1 :: u16)))), t))))))))"

text \<open>Returns when the signature is right.\<close>

definition TsigVerify ::
    "64 word \<Rightarrow> bytes \<Rightarrow> bytes \<Rightarrow> string \<Rightarrow> string \<Rightarrow> bool \<Rightarrow> unit outcome option" where
  "TsigVerify now msg spare secret requestMAC timersOnly =
     wbind (Some (packBase64 secret)) (\<lambda>rawsecret.
     wbind (stripTsig msg spare) (\<lambda>(stripped, tsig).
       case hex_decode (MAC tsig) of
         None \<Rightarrow> Some (Fail (OtherError ''encoding/hex''))
       | Some msgMAC \<Rightarrow>
           (let rr = tsig_defaults now tsig; ti = now - TimeSigned rr in
            if ucast (Fudge rr) < ti then Some (Fail ErrTime)
            else case hash_of (Algorithm rr) of
                None \<Rightarrow> Some (Fail ErrKeyAlg)
              | Some H \<Rightarrow>
                  wbind (Some (tsigBuffer stripped rr requestMAC timersOnly)) (\<lambda>buf.
                    Some (if hmac H rawsecret buf = msgMAC then Ret () else Fail ErrSig)))))"

end
