(* ===== verification/Dns_Conn.thy ===== *)
theory Dns_Conn
  imports Dns_Tsig
begin

text \<open>
  \<open>Conn\<close> of \<open>miekg/dns/client.go\<close>: messages over a connection. Over TCP a message has two bytes with its
  length in front; the stream arrives in pieces of any size, and a read gives at most one of them.
\<close>

section \<open>Connections\<close>

definition MinMsgSize :: nat where "MinMsgSize = 512"
definition MaxMsgSize :: nat where "MaxMsgSize = 65536"

definition ErrShortRead :: dns_error where "ErrShortRead = DnsError ''short read''"
definition ErrShortBuffer :: dns_error where "ErrShortBuffer = OtherError ''short buffer''"
definition io_EOF :: dns_error where "io_EOF = OtherError ''EOF''"

text \<open>
  The state a connection keeps, without the times. \<open>incoming\<close> is what has arrived and was not read: for
  TCP the pieces of the stream, for UDP the packets. At their end a read fails.
\<close>

record dns_conn =
  is_tcp :: bool
  UDPSize :: u16
  TsigSecret :: "string \<rightharpoonup> string"
  tsigRequestMAC :: string
  incoming :: "bytes list"
  outgoing :: "bytes list"

section \<open>Reading\<close>

text \<open>One read of the socket: the bytes, the error, and what is left.\<close>

fun socket_read :: "bool \<Rightarrow> nat \<Rightarrow> bytes list \<Rightarrow> bytes \<times> dns_error option \<times> bytes list" where
  "socket_read tcp k [] = ([], Some io_EOF, [])"
| "socket_read tcp k (c # cs) =
     (take k c, None, if tcp \<and> k < length c then drop k c # cs else cs)"

text \<open>The loop that reads the rest of a message.\<close>

fun read_more :: "nat \<Rightarrow> bytes \<Rightarrow> bytes list \<Rightarrow> bytes \<times> dns_error option \<times> bytes list" where
  "read_more l p [] = (if l \<le> length p then (p, None, []) else (p, Some io_EOF, []))"
| "read_more l p (c # cs) =
     (if l \<le> length p then (p, None, c # cs)
      else if l - length p < length c then (p @ take (l - length p) c, None, drop (l - length p) c # cs)
      else read_more l (p @ c) cs)"

text \<open>
  \<open>Read\<close> into a buffer of \<open>k\<close> bytes: the count, the bytes read, the error, and the connection. The first
  read over TCP is for the length; when it gives one byte only, that byte is the result. The count is
  that of the bytes unless the buffer is too short for the message.
\<close>

definition conn_Read :: "dns_conn \<Rightarrow> nat \<Rightarrow> nat \<times> bytes \<times> dns_error option \<times> dns_conn" where
  "conn_Read co k =
     (if k < 2 then (0, [], Some ErrShortBuffer, co)
      else if is_tcp co then
        (let (p, err, cs) = socket_read True 2 (incoming co); co1 = co\<lparr>incoming := cs\<rparr> in
         if err \<noteq> None \<or> length p \<noteq> 2 then (length p, p, err, co1)
         else
           let l = be_val p in
           if l = 0 then (0, [], Some ErrShortRead, co1)
           else if l > k then (l, p, Some ErrShortBuffer, co1)
           else
             (case socket_read True l cs of
                (q, Some e, cs1) \<Rightarrow> (length q, q, Some e, co1\<lparr>incoming := cs1\<rparr>)
              | (q, None, cs1) \<Rightarrow>
                  (let (r, e, cs2) = read_more l q cs1 in (length r, r, e, co1\<lparr>incoming := cs2\<rparr>))))
      else
        (let (p, err, cs) = socket_read False k (incoming co) in (length p, p, err, co\<lparr>incoming := cs\<rparr>)))"

definition read_size :: "dns_conn \<Rightarrow> nat" where
  "read_size co =
     (if is_tcp co then MaxMsgSize else if unat (UDPSize co) \<ge> 512 then unat (UDPSize co) else MinMsgSize)"

text \<open>
  \<open>ReadMsg\<close>: the message and the error, either of which may be nil. \<open>spare\<close> is what the buffer holds behind
  the bytes that were read.
\<close>

definition conn_ReadMsg ::
    "64 word \<Rightarrow> dns_conn \<Rightarrow> bytes \<Rightarrow> ((dns_msg option \<times> dns_error option) \<times> dns_conn) outcome option" where
  "conn_ReadMsg now co spare =
     (let (n, p, err, co1) = conn_Read co (read_size co) in
      if err \<noteq> None \<and> n = 0 then Some (Ret ((None, err), co1))
      else
        case Unpack new_msg p spare of
          None \<Rightarrow> None
        | Some Panic \<Rightarrow> Some Panic
        | Some (Fail e) \<Rightarrow> Some (Ret ((None, Some e), co1))
        | Some (Ret m) \<Rightarrow>
            wbind (Some (IsTsig m)) (\<lambda>ts.
              case ts of
                None \<Rightarrow> Some (Ret ((Some m, err), co1))
              | Some t \<Rightarrow>
                  (case TsigSecret co (RRName (TsigHdr t)) of
                     None \<Rightarrow> Some (Ret ((Some m, Some ErrSecret), co1))
                   | Some secret \<Rightarrow>
                       (case TsigVerify now p spare secret (tsigRequestMAC co) False of
                          None \<Rightarrow> None
                        | Some Panic \<Rightarrow> Some Panic
                        | Some (Fail e) \<Rightarrow> Some (Ret ((Some m, Some e), co1))
                        | Some (Ret _) \<Rightarrow> Some (Ret ((Some m, None), co1))))))"

section \<open>Writing\<close>

text \<open>The length is written as 16 bits, so that of the longest message that passes is written as 0.\<close>

definition conn_Write :: "dns_conn \<Rightarrow> bytes \<Rightarrow> dns_error option \<times> dns_conn" where
  "conn_Write co p =
     (if is_tcp co then
        if length p < 2 then (Some ErrShortBuffer, co)
        else if length p > MaxMsgSize then (Some (DnsError ''message too large''), co)
        else (None, co\<lparr>outgoing := outgoing co @ [be_bytes 2 (unat (word_of_nat (length p) :: u16)) @ p]\<rparr>)
      else (None, co\<lparr>outgoing := outgoing co @ [p]\<rparr>))"

text \<open>
  \<open>WriteMsg\<close> of a message on a socket that takes all bytes. The MAC is kept for the answer, also when
  signing fails and it is empty; the message loses its TSIG record.
\<close>

definition conn_WriteMsg ::
    "64 word \<Rightarrow> dns_conn \<Rightarrow> dns_msg \<Rightarrow> (dns_error option \<times> dns_conn) outcome option" where
  "conn_WriteMsg now co m =
     wbind (Some (IsTsig m)) (\<lambda>ts.
       case ts of
         None \<Rightarrow>
           (case Pack m of
              None \<Rightarrow> None
            | Some Panic \<Rightarrow> Some Panic
            | Some (Fail e) \<Rightarrow> Some (Ret (Some e, co))
            | Some (Ret out) \<Rightarrow> Some (Ret (conn_Write co out)))
       | Some t \<Rightarrow>
           (case TsigSecret co (RRName (TsigHdr t)) of
              None \<Rightarrow> Some (Ret (Some ErrSecret, co))
            | Some secret \<Rightarrow>
                (case TsigGenerate now m secret (tsigRequestMAC co) False of
                   None \<Rightarrow> None
                 | Some Panic \<Rightarrow> Some Panic
                 | Some (Fail e) \<Rightarrow> Some (Ret (Some e, co\<lparr>tsigRequestMAC := []\<rparr>))
                 | Some (Ret (m1, out, mac)) \<Rightarrow> Some (Ret (conn_Write (co\<lparr>tsigRequestMAC := mac\<rparr>) out)))))"

text \<open>The size of the UDP buffer that \<open>Client.exchange\<close> chooses: the one of EDNS0, or that of the client.\<close>

definition exchange_size :: "u16 \<Rightarrow> dns_msg \<Rightarrow> u16 outcome" where
  "exchange_size client_size m =
     obind (IsEdns0 (Extra m)) (\<lambda>opt.
       Ret (case opt of
              Some r \<Rightarrow> if unat (opt_UDPSize (rr_hdr r)) \<ge> MinMsgSize then opt_UDPSize (rr_hdr r) else 0
            | None \<Rightarrow> if unat client_size \<ge> MinMsgSize then client_size else 0))"

section \<open>Framing\<close>

lemma read_more_all:
  "length p + length (concat cs) \<ge> l \<Longrightarrow> length p \<le> l \<Longrightarrow>
   \<exists>cs1. read_more l p cs = (take l (p @ concat cs), None, cs1) \<and> concat cs1 = drop l (p @ concat cs)"
proof (induction l p cs rule: read_more.induct)
  case (2 l p c cs)
  show ?case
  proof (cases "l \<le> length p \<or> l - length p < length c")
    case True
    then show ?thesis using 2(3) by auto
  next
    case False
    then show ?thesis using 2 by (auto simp: not_less)
  qed
qed auto

text \<open>
  A message behind its length is read whatever the pieces are, if the first piece has both bytes of the
  length; what follows is left.
\<close>

lemma conn_Read_frame:
  assumes tcp: "is_tcp co" and p: "0 < length p" "length p < 65536"
    and cs: "incoming co = c # cs" "2 \<le> length c" "concat (c # cs) = be_bytes 2 (length p) @ p @ rest"
    and k: "65536 \<le> k"
  shows "\<exists>cs1. conn_Read co k = (length p, p, None, co\<lparr>incoming := cs1\<rparr>) \<and> concat cs1 = rest"
proof -
  have c2: "take 2 c = be_bytes 2 (length p)" "drop 2 c @ concat cs = p @ rest"
    using cs(2) arg_cong [OF cs(3), of "take 2"] arg_cong [OF cs(3), of "drop 2"] by simp_all
  define ds where "ds = (if 2 < length c then drop 2 c # cs else cs)"
  have ds: "concat ds = p @ rest"
    using c2(2) by (auto simp: ds_def)
  have l: "be_val (take 2 c) = length p"
    using p(2) by (simp add: c2(1) be_val_be_bytes)
  obtain d ds1 where d: "ds = d # ds1"
    using ds p(1) by (cases ds) auto
  define es where "es = (if length p < length d then drop (length p) d # ds1 else ds1)"
  have first: "socket_read True (length p) ds = (take (length p) d, None, es)"
    by (simp add: d es_def)
  have es: "take (length p) d @ concat es = p @ rest" "length (take (length p) d) \<le> length p"
    using ds by (auto simp: d es_def append_assoc [symmetric] simp del: append_assoc)
  have "length p \<le> length (take (length p) d @ concat es)"
    unfolding es(1) by simp
  then have "length p \<le> length (take (length p) d) + length (concat es)"
    by (simp only: length_append)
  from read_more_all [OF this es(2)] obtain cs1 where
    "read_more (length p) (take (length p) d) es = (p, None, cs1)" "concat cs1 = rest"
    by (auto simp: es(1))
  then show ?thesis
    using tcp k p cs(1,2) first
    by (auto simp: conn_Read_def l ds_def [symmetric] Let_def)
qed

end
