(* ===== verification/Dns_Server.thy ===== *)
theory Dns_Server
  imports Dns_Mux Dns_Conn
begin

text \<open>
  \<open>Server\<close> of \<open>miekg/dns/server.go\<close>: what is done with a request, the loop over the requests of a connection,
  and starting and stopping. Handlers are parameters; the one of \<open>ServeMux\<close> looks in its table for the
  handler.
\<close>

section \<open>The writer of a response\<close>

text \<open>The fields of \<open>response\<close>, with the stream it reads further requests from and what it has sent.\<close>

record response =
  r_tcp :: bool
  r_open :: bool
  r_hijacked :: bool
  r_secrets :: "(string \<rightharpoonup> string) option"
  r_status :: "dns_error option"
  r_timers :: bool
  r_mac :: string
  r_in :: "bytes list"
  r_out :: "bytes list"

text \<open>After \<open>Close\<close> over TCP there is no connection: the writer panics.\<close>

definition response_Write :: "response \<Rightarrow> bytes \<Rightarrow> (dns_error option \<times> response) outcome" where
  "response_Write w m =
     (if \<not> r_tcp w then Ret (None, w\<lparr>r_out := r_out w @ [m]\<rparr>)
      else if \<not> r_open w then Panic
      else if length m < 2 then Ret (Some ErrShortBuffer, w)
      else if length m > MaxMsgSize then Ret (Some (DnsError ''message too large''), w)
      else Ret (None, w\<lparr>r_out := r_out w @ [be_bytes 2 (unat (word_of_nat (length m) :: u16)) @ m]\<rparr>))"

text \<open>The secret of an unknown key is the empty string.\<close>

definition secret_of :: "(string \<rightharpoonup> string) \<Rightarrow> string \<Rightarrow> string" where
  "secret_of secrets k = (case secrets k of None \<Rightarrow> [] | Some s \<Rightarrow> s)"

definition response_WriteMsg ::
    "64 word \<Rightarrow> response \<Rightarrow> dns_msg \<Rightarrow> (dns_error option \<times> response) outcome option" where
  "response_WriteMsg now w m =
     wbind (case r_secrets w of None \<Rightarrow> Some (Ret None) | Some _ \<Rightarrow> Some (IsTsig m)) (\<lambda>ts.
       case (ts, r_secrets w) of
         (Some t, Some secrets) \<Rightarrow>
           (case TsigGenerate now m (secret_of secrets (RRName (TsigHdr t))) (r_mac w) (r_timers w) of
              None \<Rightarrow> None
            | Some Panic \<Rightarrow> Some Panic
            | Some (Fail e) \<Rightarrow> Some (Ret (Some e, w\<lparr>r_mac := []\<rparr>))
            | Some (Ret (m1, data, mac)) \<Rightarrow> Some (response_Write (w\<lparr>r_mac := mac\<rparr>) data))
       | _ \<Rightarrow>
           (case Pack m of
              None \<Rightarrow> None
            | Some Panic \<Rightarrow> Some Panic
            | Some (Fail e) \<Rightarrow> Some (Ret (Some e, w))
            | Some (Ret data) \<Rightarrow> Some (response_Write w data)))"

definition response_TsigTimersOnly :: "response \<Rightarrow> bool \<Rightarrow> response" where
  "response_TsigTimersOnly w b = w\<lparr>r_timers := b\<rparr>"

definition response_Hijack :: "response \<Rightarrow> response" where
  "response_Hijack w = w\<lparr>r_hijacked := True\<rparr>"

text \<open>A UDP socket is the listener's, and stays open.\<close>

definition response_Close :: "response \<Rightarrow> response" where
  "response_Close w = (if r_tcp w then w\<lparr>r_open := False\<rparr> else w)"

section \<open>Handlers\<close>

type_synonym handler = "64 word \<Rightarrow> response \<Rightarrow> dns_msg \<Rightarrow> response outcome option"

definition RcodeServerFailure :: int where
  "RcodeServerFailure = 2"

text \<open>\<open>HandleFailed\<close> does not look whether the write fails.\<close>

definition HandleFailed :: handler where
  "HandleFailed now w r =
     wbind (response_WriteMsg now w (SetRcode new_msg r RcodeServerFailure)) (\<lambda>(err, w1). Some (Ret w1))"

definition mux_handler :: "handler mux \<Rightarrow> handler" where
  "mux_handler z now w request =
     (case mux_ServeDNS z request of None \<Rightarrow> HandleFailed | Some h \<Rightarrow> h) now w request"

section \<open>One request\<close>

text \<open>
  The signature of a request. The status of an unknown key is overwritten by that of a verification with
  the empty secret.
\<close>

definition check_tsig :: "64 word \<Rightarrow> response \<Rightarrow> bytes \<Rightarrow> bytes \<Rightarrow> dns_msg \<Rightarrow> response outcome option" where
  "check_tsig now w m spare req =
     (case r_secrets w of
        None \<Rightarrow> Some (Ret (w\<lparr>r_status := None\<rparr>))
      | Some secrets \<Rightarrow>
          wbind (Some (IsTsig req)) (\<lambda>ts.
            case ts of
              None \<Rightarrow> Some (Ret (w\<lparr>r_status := None\<rparr>))
            | Some t \<Rightarrow>
                (case TsigVerify now m spare (secret_of secrets (RRName (TsigHdr t))) [] False of
                   None \<Rightarrow> None
                 | Some Panic \<Rightarrow> Some Panic
                 | Some (Fail e) \<Rightarrow> Some (Ret (w\<lparr>r_status := Some e, r_timers := False, r_mac := MAC t\<rparr>))
                 | Some (Ret _) \<Rightarrow> Some (Ret (w\<lparr>r_status := None, r_timers := False, r_mac := MAC t\<rparr>)))))"

text \<open>The identifier in a message that cannot be read: the first field, if there is a header.\<close>

definition read_id :: "bytes \<Rightarrow> bytes \<Rightarrow> u16" where
  "read_id m spare =
     (case UnpackStruct m spare ''Header'' layout_Header 0 of Some (Ret (vs, off)) \<Rightarrow> u16_val (vs ! 0) | _ \<Rightarrow> 0)"

definition serve_message :: "64 word \<Rightarrow> handler \<Rightarrow> response \<Rightarrow> bytes \<Rightarrow> bytes \<Rightarrow> response outcome option" where
  "serve_message now h w m spare =
     (case Unpack new_msg m spare of
        None \<Rightarrow> None
      | Some Panic \<Rightarrow> Some Panic
      | Some (Fail e) \<Rightarrow>
          wbind (response_WriteMsg now w (SetRcodeFormatError new_msg (new_msg\<lparr>Id := read_id m spare\<rparr>)))
            (\<lambda>(err, w1). Some (Ret w1))
      | Some (Ret req) \<Rightarrow>
          if Response req then Some (Ret w)
          else wbind (check_tsig now w m spare req) (\<lambda>w1. h now w1 req))"

section \<open>The requests of a connection\<close>

text \<open>\<open>readTCP\<close>: the next message of the stream, or an error.\<close>

definition readTCP :: "bytes list \<Rightarrow> (dns_error + bytes) \<times> bytes list" where
  "readTCP cs =
     (case socket_read True 2 cs of
        (l, Some e, cs1) \<Rightarrow> (Inl e, cs1)
      | (l, None, cs1) \<Rightarrow>
          if length l \<noteq> 2 then (Inl ErrShortRead, cs1)
          else if be_val l = 0 then (Inl ErrShortRead, cs1)
          else
            (case socket_read True (be_val l) cs1 of
               (p, Some e, cs2) \<Rightarrow> (Inl e, cs2)
             | (p, None, cs2) \<Rightarrow>
                 if p = [] then (Inl ErrShortRead, cs2)
                 else
                   (case read_more (be_val l) p cs2 of
                      (q, Some e, cs3) \<Rightarrow> (Inl e, cs3)
                    | (q, None, cs3) \<Rightarrow> (Inr q, cs3))))"

text \<open>
  What comes behind the label Exit: the writer at the end of the call, or the next request and the
  writer to serve it with. A handler that closed the connection and did not take it over leaves nil, whose
  methods panic.
\<close>

definition next_request :: "response \<Rightarrow> (response + response \<times> bytes) outcome" where
  "next_request w =
     (if r_hijacked w then Ret (Inl w)
      else if \<not> r_tcp w then Ret (Inl (response_Close w))
      else if \<not> r_open w then Panic
      else
        case readTCP (r_in w) of
          (Inl e, cs) \<Rightarrow> Ret (Inl (response_Close (w\<lparr>r_in := cs\<rparr>)))
        | (Inr m, cs) \<Rightarrow> Ret (Inr (w\<lparr>r_in := cs\<rparr>, m)))"

text \<open>
  The loop of \<open>serve\<close> from the label Redo. \<open>n\<close> more requests are served; the connection is closed when one
  more comes. The clock gives the time at which each request is served.
\<close>

primrec serve_loop ::
    "nat \<Rightarrow> (nat \<Rightarrow> 64 word) \<Rightarrow> handler \<Rightarrow> response \<Rightarrow> bytes \<Rightarrow> bytes \<Rightarrow> response outcome option" where
  "serve_loop 0 clock h w m spare =
     wbind (serve_message (clock 0) h w m spare) (\<lambda>w1.
     wbind (Some (next_request w1)) (\<lambda>next.
       Some (Ret (case next of Inl w2 \<Rightarrow> w2 | Inr (w2, m1) \<Rightarrow> response_Close w2))))"
| "serve_loop (Suc n) clock h w m spare =
     wbind (serve_message (clock (Suc n)) h w m spare) (\<lambda>w1.
     wbind (Some (next_request w1)) (\<lambda>next.
       case next of
         Inl w2 \<Rightarrow> Some (Ret w2)
       | Inr (w2, m1) \<Rightarrow> serve_loop n clock h w2 m1 []))"

definition serve ::
    "(nat \<Rightarrow> 64 word) \<Rightarrow> handler \<Rightarrow> (string \<rightharpoonup> string) option \<Rightarrow> bool \<Rightarrow> bytes list \<Rightarrow> bytes \<Rightarrow> bytes
      \<Rightarrow> response outcome option" where
  "serve clock h secrets tcp cs m spare =
     serve_loop 128 clock h
       \<lparr>r_tcp = tcp, r_open = True, r_hijacked = False, r_secrets = secrets, r_status = None, r_timers = False,
        r_mac = [], r_in = cs, r_out = []\<rparr> m spare"

section \<open>Starting and stopping\<close>

text \<open>
  The lock and the flag of a server. None is a call that waits for the lock for ever: nothing else than
  these calls takes or gives it back, and one that finds the flag in the wrong state keeps it.
\<close>

record lifecycle =
  locked :: bool
  started :: bool

definition srv_start :: "lifecycle \<Rightarrow> (dns_error option \<times> lifecycle) option" where
  "srv_start s =
     (if locked s then None
      else if started s then Some (Some (DnsError ''server already started''), s\<lparr>locked := True\<rparr>)
      else Some (None, s\<lparr>started := True\<rparr>))"

definition srv_shutdown :: "lifecycle \<Rightarrow> (dns_error option \<times> lifecycle) option" where
  "srv_shutdown s =
     (if locked s then None
      else if \<not> started s then Some (Some (DnsError ''server not started''), s\<lparr>locked := True\<rparr>)
      else Some (None, s\<lparr>started := False\<rparr>))"

text \<open>After a call that was refused no server can be started or stopped.\<close>

lemma refused_call_blocks:
  "srv_start s = Some (Some e, s1) \<or> srv_shutdown s = Some (Some e, s1) \<Longrightarrow>
   srv_start s1 = None \<and> srv_shutdown s1 = None"
  by (auto simp: srv_start_def srv_shutdown_def split: if_splits)

section \<open>Requests that are read\<close>

lemma serve_message_unsigned:
  assumes "Unpack new_msg m spare = Some (Ret req)" and "\<not> Response req" and "IsTsig req = Ret None"
  shows "serve_message now h w m spare = h now (w\<lparr>r_status := None\<rparr>) req"
  using assms by (cases "r_secrets w") (simp_all add: serve_message_def check_tsig_def)

end
