(* ===== verification/Dns_Wire.thy ===== *)
theory Dns_Wire
  imports Dns_Message
begin

text \<open>
  Packing and unpacking without compression, piece by piece: what a field writes, wherever it stands, and
  that the field read where these bytes are is the field written. The two views compose: a structure
  writes the bytes of its fields one after the other, and bytes that follow each other are read one after
  the other.
\<close>

section \<open>Writing\<close>

text \<open>Packing that puts these bytes at the offset and touches nothing else.\<close>

definition packs_as :: "(pstate \<Rightarrow> pstate outcome) \<Rightarrow> bytes \<Rightarrow> bool" where
  "packs_as p bs \<longleftrightarrow>
     (\<forall>w r cm. length bs \<le> length r \<longrightarrow>
        p (length w, w @ r, cm) = Ret (length (w @ bs), (w @ bs) @ drop (length bs) r, cm))"

lemma packs_asD:
  "packs_as p bs \<Longrightarrow> length bs \<le> length r \<Longrightarrow>
   p (length w, w @ r, cm) = Ret (length (w @ bs), (w @ bs) @ drop (length bs) r, cm)"
  by (simp add: packs_as_def)

lemma packs_as_nothing: "packs_as Ret []"
  by (simp add: packs_as_def)

lemma packs_as_seq:
  assumes "packs_as p as" and "packs_as q bs"
  shows "packs_as (\<lambda>st. obind (p st) q) (as @ bs)"
  unfolding packs_as_def
proof (intro allI impI)
  fix w r cm
  assume "length (as @ bs) \<le> length (r :: bytes)"
  then have l: "length as \<le> length r" "length bs \<le> length (drop (length as) r)"
    by auto
  show "obind (p (length w, w @ r, cm)) q =
      Ret (length (w @ as @ bs), (w @ as @ bs) @ drop (length (as @ bs)) r, cm)"
    using packs_asD [OF assms(2) l(2), of "w @ as" cm]
    by (simp add: packs_asD [OF assms(1) l(1)] add.commute)
qed

lemma packs_put: "packs_as (put e bs) bs"
  by (simp add: packs_as_def put_def)

lemma packs_all:
  "list_all (\<lambda>x. packs_as (f x) (wire x)) xs \<Longrightarrow> packs_as (pack_all f xs) (concat (map wire xs))"
proof (induction xs)
  case Nil
  have "pack_all f [] = Ret" by (rule ext) simp
  then show ?case by (simp add: packs_as_nothing)
next
  case (Cons x xs)
  have "pack_all f (x # xs) = (\<lambda>st. obind (f x st) (pack_all f xs))"
    by (rule ext) simp
  with Cons show ?case by (simp add: packs_as_seq)
qed

section \<open>Reading\<close>

text \<open>The bytes that stand at an offset of a message.\<close>

definition holds_at :: "bytes \<Rightarrow> nat \<Rightarrow> bytes \<Rightarrow> bool" where
  "holds_at msg off bs \<longleftrightarrow> off + length bs \<le> length msg \<and> go_slice msg off (off + length bs) = bs"

lemma holds_at_split:
  assumes "holds_at msg off bs"
  obtains post where "msg = take off msg @ bs @ post" and "length (take off msg) = off"
proof -
  have "drop off msg = bs @ drop (off + length bs) msg"
    using assms append_take_drop_id [of "length bs" "drop off msg"]
    by (simp add: holds_at_def go_slice_def add.commute)
  then have "msg = take off msg @ bs @ drop (off + length bs) msg"
    by (metis append_take_drop_id)
  moreover have "length (take off msg) = off"
    using assms by (simp add: holds_at_def)
  ultimately show ?thesis by (rule that)
qed

lemma holds_at_middle: "holds_at (w @ bs @ x) (length w) bs"
  by (simp add: holds_at_def go_slice_def)

lemma holds_at_append:
  "holds_at msg off (as @ bs) \<longleftrightarrow> holds_at msg off as \<and> holds_at msg (off + length as) bs"
proof
  assume "holds_at msg off (as @ bs)"
  then obtain post where m: "msg = take off msg @ (as @ bs) @ post" "length (take off msg) = off"
    by (rule holds_at_split)
  show "holds_at msg off as \<and> holds_at msg (off + length as) bs"
    using holds_at_middle [of "take off msg" as "bs @ post"]
      holds_at_middle [of "take off msg @ as" bs post] m by simp
next
  assume a: "holds_at msg off as \<and> holds_at msg (off + length as) bs"
  then obtain post where m: "msg = take off msg @ as @ post" "length (take off msg) = off"
    by (blast elim: holds_at_split)
  from a obtain post1 where m1: "msg = take (off + length as) msg @ bs @ post1"
      "length (take (off + length as) msg) = off + length as"
    by (blast elim: holds_at_split)
  have "take (off + length as) msg = take off msg @ as"
    by (subst m(1)) (use m(2) in simp)
  then have "msg = take off msg @ (as @ bs) @ post1"
    using m1(1) by simp
  then show "holds_at msg off (as @ bs)"
    using holds_at_middle [of "take off msg" "as @ bs" post1] m(2) by simp
qed

lemma holds_at_bound: "holds_at msg off bs \<Longrightarrow> off + length bs \<le> length msg"
  by (simp add: holds_at_def)

lemma holds_at_slice: "holds_at msg off bs \<Longrightarrow> length bs = n \<Longrightarrow> go_slice msg off (off + n) = bs"
  by (auto simp: holds_at_def)

lemma num_at_holds:
  "holds_at msg off (be_bytes k n) \<Longrightarrow> num_at msg off k = n mod 256 ^ k"
  by (simp add: num_at_def holds_at_slice be_val_be_bytes)

lemma reads_uint:
  "holds_at msg off (be_bytes k n) \<Longrightarrow> 0 < k \<Longrightarrow>
   unpack_uint msg e k f off = Ret (f (n mod 256 ^ k), off + k)"
  using holds_at_bound [of msg off "be_bytes k n"] by (auto simp: unpack_uint_def num_at_holds)

section \<open>Names\<close>

text \<open>
  The texts of names that come off the wire: \<open>good_name\<close> is any list of labels of up to 63 bytes. The
  bytes of a name are those it is packed to in an empty buffer, which are its labels with their lengths.
\<close>

definition good_name :: "string \<Rightarrow> bool" where
  "good_name s \<longleftrightarrow> (\<exists>ls. list_all wire_label ls \<and> s = name_text ls)"

definition name_wire :: "string \<Rightarrow> bytes" where
  "name_wire s =
     (case packDomainName s (Some (replicate (length s + 1) 0)) 0 Map.empty False of
        Some (Inr (off, labels, Some m, cm)) \<Rightarrow> take off m
      | _ \<Rightarrow> [])"

lemma length_label_text: "length l \<le> length (label_text l)"
proof (induction l)
  case (Cons c l)
  have "1 \<le> length (escape_char c)"
    by (rule escape_char_cases [of c]) simp_all
  with Cons show ?case by simp
qed simp

lemma length_wire_name: "list_all wire_label ls \<Longrightarrow> length (wire_name ls) \<le> length (name_text ls) + 1"
proof -
  have "length (wire_labels ls) \<le> length (labels_text ls)" for ls
  proof (induction ls)
    case (Cons l ls)
    then show ?case using length_label_text [of l] by simp
  qed simp
  from this [of ls] show ?thesis
    by (simp add: wire_name_def name_text_def)
qed

lemma name_wire_text:
  assumes "list_all wire_label ls"
  shows "name_wire (name_text ls) = wire_name ls"
  using packDomainName_wire [OF assms, of 0 "replicate (length (name_text ls) + 1) 0" Map.empty]
    length_wire_name [OF assms] by (simp add: name_wire_def)

lemma good_nameE:
  assumes "good_name s"
  obtains ls where "list_all wire_label ls" "s = name_text ls" "name_wire s = wire_name ls"
  using assms name_wire_text by (auto simp: good_name_def)

lemma length_name_wire: "good_name s \<Longrightarrow> length (name_wire s) \<le> length s + 1"
  using length_wire_name by (auto elim!: good_nameE)

lemma name_wire_not_Nil: "good_name s \<Longrightarrow> name_wire s \<noteq> []"
  by (auto elim!: good_nameE simp: wire_name_def)

lemma packs_name:
  assumes "good_name s"
  shows "packs_as (pack_name False s) (name_wire s)"
  unfolding packs_as_def
proof (intro allI impI)
  fix w r cm
  assume l: "length (name_wire s) \<le> length (r :: bytes)"
  obtain ls where ls: "list_all wire_label ls" "s = name_text ls" "name_wire s = wire_name ls"
    using assms by (rule good_nameE)
  have "length w + length (wire_name ls) \<le> length (w @ r)"
    using l ls(3) by simp
  from packDomainName_wire [OF ls(1) this, of cm] show
    "pack_name False s (length w, w @ r, cm) =
       Ret (length (w @ name_wire s), (w @ name_wire s) @ drop (length (name_wire s)) r, cm)"
    unfolding ls(3) by (simp add: pack_name_def ls(2))
qed

lemma reads_name:
  assumes "holds_at msg off (name_wire s)" and "good_name s"
  shows "UnpackDomainName msg off = Inr (s, off + length (name_wire s))"
proof -
  obtain ls where ls: "list_all wire_label ls" "s = name_text ls" "name_wire s = wire_name ls"
    using assms(2) by (rule good_nameE)
  obtain post where "msg = take off msg @ wire_name ls @ post" "length (take off msg) = off"
    using assms(1) unfolding ls(3) by (rule holds_at_split)
  then show ?thesis
    using UnpackDomainName_wire [OF ls(1), of "take off msg" post] ls by simp
qed

lemma skip_name_labels:
  "list_all wire_label ls \<Longrightarrow> skip_name (w @ wire_name ls @ x) (length w) = Some (length w + length (wire_name ls))"
proof (induction ls arbitrary: w)
  case Nil
  then show ?case by (subst skip_name.simps) (simp add: wire_name_def nth_append)
next
  case (Cons l ls)
  have l: "length l < 64" "l \<noteq> []"
    using Cons.prems by (auto simp: wire_label_def)
  have ls: "list_all wire_label ls"
    using Cons.prems by simp
  let ?m = "w @ wire_name (l # ls) @ x"
  have at: "?m ! length w = word_of_nat (length l)"
    by (simp add: wire_name_def nth_append)
  have m: "?m = (w @ word_of_nat (length l) # bytes_of l) @ wire_name ls @ x"
    by (simp add: wire_name_def)
  have "skip_name ?m (length w) = skip_name ?m (length w + 1 + length l)"
    using l by (subst skip_name.simps) (simp add: at length_byte Let_def, simp add: wire_name_def)
  also have "\<dots> = Some (length (w @ word_of_nat (length l) # bytes_of l) + length (wire_name ls))"
    using Cons.IH [OF ls, of "w @ word_of_nat (length l) # bytes_of l"] unfolding m by simp
  finally show ?case by (simp add: wire_name_def)
qed

lemma skip_name_wire:
  "good_name s \<Longrightarrow> skip_name (w @ name_wire s @ x) (length w) = Some (length w + length (name_wire s))"
  by (auto elim!: good_nameE simp: skip_name_labels)

section \<open>Texts\<close>

text \<open>The strings of a text record that stand for up to 255 bytes, and what they are on the wire.\<close>

definition good_txt :: "string \<Rightarrow> bool" where
  "good_txt s \<longleftrightarrow> (\<exists>t. length t \<le> 255 \<and> s = txt_escape t)"

definition txt_wire :: "string \<Rightarrow> bytes" where
  "txt_wire s =
     (case packTxtString s (replicate (length s + 1) 0) 0 of Ret (off, m) \<Rightarrow> take off m | _ \<Rightarrow> [])"

lemma txt_wire_escape:
  assumes "length t \<le> 255"
  shows "txt_wire (txt_escape t) = wire_txt t"
  using packTxtString_wire [OF assms, of "[]" "replicate (length (txt_escape t) + 1) 0"]
    length_txt_escape(1) [of t] by (simp add: txt_wire_def)

lemma good_txts:
  assumes "list_all good_txt ss"
  obtains ts where "list_all (\<lambda>t. length t \<le> 255) ts" "ss = map txt_escape ts"
    "concat (map txt_wire ss) = concat (map wire_txt ts)"
proof -
  have "\<exists>ts. list_all (\<lambda>t. length t \<le> 255) ts \<and> ss = map txt_escape ts
      \<and> concat (map txt_wire ss) = concat (map wire_txt ts)"
    using assms
  proof (induction ss)
    case (Cons s ss)
    then obtain t ts where "length t \<le> 255" "s = txt_escape t" "list_all (\<lambda>t. length t \<le> 255) ts"
        "ss = map txt_escape ts" "concat (map txt_wire ss) = concat (map wire_txt ts)"
      by (auto simp: good_txt_def)
    then show ?case
      by (intro exI [of _ "t # ts"]) (simp add: txt_wire_escape)
  qed simp
  then show ?thesis using that by blast
qed

lemma length_txt_wire: "good_txt s \<Longrightarrow> length (txt_wire s) \<le> length s + 1"
  using length_txt_escape(1) by (auto simp: good_txt_def txt_wire_escape)

lemma packs_txt:
  assumes "list_all good_txt ss" "ss \<noteq> []"
  shows "packs_as (pack_txt_field (packTxt ss)) (concat (map txt_wire ss))"
proof -
  obtain ts where ts: "list_all (\<lambda>t. length t \<le> 255) ts" "ss = map txt_escape ts"
      "concat (map txt_wire ss) = concat (map wire_txt ts)"
    using assms(1) by (rule good_txts)
  show ?thesis
    using assms(2) packTxt_loop_wire [OF ts(1)]
    unfolding ts(3) by (auto simp: packs_as_def pack_txt_field_def packTxt_def ts(2))
qed

lemma reads_txt:
  assumes "holds_at msg off (concat (map txt_wire ss))" and "list_all good_txt ss"
  shows "unpackTxt msg off (off + length (concat (map txt_wire ss))) =
     Inr (ss, off + length (concat (map txt_wire ss)))"
proof -
  obtain ts where ts: "list_all (\<lambda>t. length t \<le> 255) ts" "ss = map txt_escape ts"
      "concat (map txt_wire ss) = concat (map wire_txt ts)"
    using assms(2) by (rule good_txts)
  obtain post where "msg = take off msg @ concat (map wire_txt ts) @ post" "length (take off msg) = off"
    using assms(1) unfolding ts(3) by (rule holds_at_split)
  then show ?thesis
    using unpackTxt_wire [OF ts(1), of "take off msg" post] ts by simp
qed

lemma txts_wire_not_Nil: "list_all good_txt ss \<Longrightarrow> ss \<noteq> [] \<Longrightarrow> concat (map txt_wire ss) \<noteq> []"
  by (cases ss) (auto simp: good_txt_def txt_wire_escape wire_txt_def)

end
