(* ===== verification/Dns_Field_Codec.thy ===== *)
theory Dns_Field_Codec
  imports Dns_Wire
begin

text \<open>
  The fields of structures on the wire: what a list of fields writes, field by field, and that it is read
  back. The second half treats any structure of numbers, names, strings and data at once, which covers
  most of the record types.
\<close>

text \<open>Offsets stay sums of numerals.\<close>

declare add_2_eq_Suc [simp del] add_2_eq_Suc' [simp del]

section \<open>Structures field by field\<close>

text \<open>A field that is not a structure, and one that is.\<close>

definition plain_kind :: "gkind \<Rightarrow> bool" where
  "plain_kind k = (case k of KStruct _ _ \<Rightarrow> False | _ \<Rightarrow> True)"

lemma plain_kinds [simp]:
  "plain_kind KUint8" "plain_kind KUint16" "plain_kind KUint32" "plain_kind KUint64" "plain_kind KString"
  "plain_kind KStrings" "plain_kind KIP" "plain_kind KUint16s" "plain_kind KOpts"
  by (simp_all add: plain_kind_def)

lemma packs_field:
  assumes "packs_as (pack_value c tag v) as" and "packs_as (packStructValue c fs vs) bs"
    and "tag \<noteq> ''-''" and "plain_kind k"
  shows "packs_as (packStructValue c (Field n tag k # fs) (v # vs)) (as @ bs)"
proof -
  have "packStructValue c (Field n tag k # fs) (v # vs) =
      (\<lambda>st. obind (pack_value c tag v st) (packStructValue c fs vs))"
    using assms(3,4) by (auto simp: plain_kind_def split: gkind.splits)
  then show ?thesis
    using packs_as_seq [OF assms(1,2)] by simp
qed

lemma packs_struct:
  assumes "packs_as (packStructValue c inner ws) as" and "packs_as (packStructValue c fs vs) bs"
    and "tag \<noteq> ''-''"
  shows "packs_as (packStructValue c (Field n tag (KStruct tn inner) # fs) (VStruct ws # vs)) (as @ bs)"
proof -
  have "packStructValue c (Field n tag (KStruct tn inner) # fs) (VStruct ws # vs) =
      (\<lambda>st. obind (packStructValue c inner ws st) (packStructValue c fs vs))"
    using assms(3) by auto
  then show ?thesis
    using packs_as_seq [OF assms(1,2)] by simp
qed

lemma packs_end: "packs_as (packStructValue c [] vs) []"
  by (simp add: packs_as_def)

lemma packs_last:
  "packs_as (pack_value c tag v) as \<Longrightarrow> tag \<noteq> ''-'' \<Longrightarrow> plain_kind k \<Longrightarrow>
   packs_as (packStructValue c [Field n tag k] (v # vs)) as"
  using packs_field [OF _ packs_end] by simp

text \<open>The same for reading.\<close>

lemma reads_field:
  assumes "unpack_value msg spare tn env rdend n tag k off = Some (Ret (v, off1))"
    and "off \<le> length msg" and "n \<noteq> ''Hdr''" and "plain_kind k"
  shows "unpackStructValue msg spare tn (Field n tag k # fs) env rdend off =
     unpackStructValue msg spare tn fs (env @ [(n, v)]) rdend off1"
  using assms by (auto simp: plain_kind_def split: gkind.splits)

lemma reads_header:
  assumes "unpackStructValue msg spare tn1 inner [] 0 off = Some (Ret (ws, off1))" and "off \<le> length msg"
  shows "unpackStructValue msg spare tn (Field ''Hdr'' tag (KStruct tn1 inner) # fs) env rdend off =
     unpackStructValue msg spare tn fs (env @ [(''Hdr'', VStruct ws)])
       (off1 + unat (Rdlength (hdr_of (VStruct ws)))) off1"
  using assms by simp

lemma reads_end: "unpackStructValue msg spare tn [] env rdend off = Some (Ret (map snd env, off))"
  by simp

declare unpackStructValue.simps [simp del] unpack_value.simps [simp del]

lemma packs_u16: "packs_as (pack_value c tag (VU16 x)) (be_bytes 2 (unat x))"
  and packs_u32: "packs_as (pack_value c tag (VU32 y)) (be_bytes 4 (unat y))"
  using packs_put by (simp_all add: packs_as_def)

lemma packs_name_value:
  "good_name s \<Longrightarrow> tag = ''cdomain-name'' \<or> tag = ''domain-name'' \<Longrightarrow>
   packs_as (pack_value False tag (VStr s)) (name_wire s)"
  using packs_name by (auto simp: packs_as_def pack_string_def)

text \<open>The bytes of two, of four: read as the word they were written from.\<close>

lemma word_bytes:
  "word_of_nat (unat (x :: u16) mod 256 ^ 2) = x" "word_of_nat (unat (y :: 32 word) mod 256 ^ 4) = y"
proof -
  have "unat x < 65536" "unat y < 4294967296"
    using unsigned_less [of x] unsigned_less [of y] by simp_all
  then show "word_of_nat (unat x mod 256 ^ 2) = x" "word_of_nat (unat y mod 256 ^ 4) = y"
    by simp_all
qed

lemma reads_u16:
  assumes "holds_at msg off (be_bytes 2 (unat x))"
  shows "unpack_value msg spare tn env rdend n tag KUint16 off = Some (Ret (VU16 x, off + 2))"
  by (simp only: unpack_value.simps reads_uint [OF assms] word_bytes zero_less_numeral)

lemma reads_u32:
  assumes "holds_at msg off (be_bytes 4 (unat x))"
  shows "unpack_value msg spare tn env rdend n tag KUint32 off = Some (Ret (VU32 x, off + 4))"
  by (simp only: unpack_value.simps reads_uint [OF assms] word_bytes zero_less_numeral)

lemma reads_name_value:
  assumes "holds_at msg off (name_wire s)" "good_name s" "tag = ''cdomain-name'' \<or> tag = ''domain-name''"
  shows "unpack_value msg spare tn env rdend n tag KString off =
     Some (Ret (VStr s, off + length (name_wire s)))"
proof -
  have "off + length (name_wire s) \<le> length msg" "0 < length (name_wire s)"
    using holds_at_bound [OF assms(1)] name_wire_not_Nil [OF assms(2)] by simp_all
  then have "off \<noteq> length msg"
    by linarith
  then have "unpack_string msg spare tn env rdend n tag off = Ret (VStr s, off + length (name_wire s))"
    using assms(3) unfolding unpack_string_def reads_name [OF assms(1,2)] by (elim disjE) simp_all
  then show ?thesis
    by (simp only: unpack_value.simps)
qed

section \<open>Lists of fields\<close>

text \<open>
  What a field writes, and the values a field can have if they are to be read back: numbers, names,
  character strings, and hexadecimal and base64 data. Data without a length of its own is the last field
  of its structure; other data has the length that an earlier field says.
\<close>

fun value_wire :: "string \<Rightarrow> gval \<Rightarrow> bytes" where
  "value_wire tag (VU8 x) = [x]"
| "value_wire tag (VU16 x) = be_bytes 2 (unat x)"
| "value_wire tag (VU32 x) = be_bytes 4 (unat x)"
| "value_wire tag (VU64 x) = be_bytes (if tag = ''uint48'' then 6 else 8) (unat x)"
| "value_wire tag (VStr s) =
     (if tag = ''cdomain-name'' \<or> tag = ''domain-name'' then name_wire s
      else if tag = ''hex'' \<or> tag = ''size-hex'' then (case hex_decode s of Some b \<Rightarrow> b | None \<Rightarrow> [])
      else if tag = ''base64'' then (case base64_decode s of Some b \<Rightarrow> b | None \<Rightarrow> [])
      else txt_wire s)"
| "value_wire tag _ = []"

definition good_string :: "string \<Rightarrow> (string \<times> gval) list \<Rightarrow> bool \<Rightarrow> string \<Rightarrow> string \<Rightarrow> string \<Rightarrow> bool" where
  "good_string tn env e n tag s \<longleftrightarrow>
     (tag = ''cdomain-name'' \<or> tag = ''domain-name'') \<and> good_name s
     \<or> (tag = ''txt'' \<or> tag = []) \<and> good_txt s
     \<or> tag = ''hex'' \<and> e \<and> (\<exists>b. s = hex_encode b)
     \<or> tag = ''base64'' \<and> e \<and> (\<exists>b. s = base64 b)
     \<or> tag = ''size-hex'' \<and> (\<exists>b. s = hex_encode b \<and> string_size tn n env = length b)"

fun good_value ::
    "string \<Rightarrow> (string \<times> gval) list \<Rightarrow> bool \<Rightarrow> string \<Rightarrow> string \<Rightarrow> gkind \<Rightarrow> gval \<Rightarrow> bool" where
  "good_value tn env e n tag k (VU8 x) \<longleftrightarrow> k = KUint8"
| "good_value tn env e n tag k (VU16 x) \<longleftrightarrow> k = KUint16"
| "good_value tn env e n tag k (VU32 x) \<longleftrightarrow> k = KUint32"
| "good_value tn env e n tag k (VU64 x) \<longleftrightarrow> k = KUint64 \<and> (tag = ''uint48'' \<longrightarrow> unat x < 256 ^ 6)"
| "good_value tn env e n tag k (VStr s) \<longleftrightarrow> k = KString \<and> good_string tn env e n tag s"
| "good_value tn env e n tag k _ \<longleftrightarrow> False"

fun good_fields :: "string \<Rightarrow> (string \<times> gval) list \<Rightarrow> gfield list \<Rightarrow> gval list \<Rightarrow> bool" where
  "good_fields tn env [] vs = (vs = [])"
| "good_fields tn env (Field n tag k # fs) vs =
     (case vs of
        [] \<Rightarrow> False
      | v # vs' \<Rightarrow>
          n \<noteq> ''Hdr'' \<and> tag \<noteq> ''-'' \<and> good_value tn env (fs = []) n tag k v \<and> good_fields tn (env @ [(n, v)]) fs vs')"

fun fields_wire :: "gfield list \<Rightarrow> gval list \<Rightarrow> bytes" where
  "fields_wire (Field n tag k # fs) (v # vs) = value_wire tag v @ fields_wire fs vs"
| "fields_wire _ _ = []"

lemma five_casesE:
  assumes "A \<and> A1 \<or> B \<and> B1 \<or> C \<and> e \<and> (\<exists>b. C1 b) \<or> D \<and> e \<and> (\<exists>b. D1 b) \<or> E \<and> (\<exists>b. E1 b \<and> E2 b)"
  obtains "A" "A1" | "B" "B1" | b where "C" "C1 b" "e" | b where "D" "D1 b" "e" | b where "E" "E1 b" "E2 b"
  using assms by blast

lemma good_stringE:
  assumes "good_string tn env e n tag s"
  obtains "tag = ''cdomain-name'' \<or> tag = ''domain-name''" "good_name s"
    | "tag = ''txt'' \<or> tag = []" "good_txt s"
    | b where "tag = ''hex''" "s = hex_encode b" e
    | b where "tag = ''base64''" "s = base64 b" e
    | b where "tag = ''size-hex''" "s = hex_encode b" "string_size tn n env = length b"
  by (rule five_casesE [OF assms [unfolded good_string_def]]; (rule that; assumption))

lemma good_value_plain: "good_value tn env e n tag k v \<Longrightarrow> plain_kind k"
  by (cases v) simp_all

lemma packs_txt_string: "good_txt s \<Longrightarrow> packs_as (pack_txt_field (packTxtString s)) (txt_wire s)"
  by (auto simp: packs_as_def pack_txt_field_def good_txt_def txt_wire_escape packTxtString_wire)

lemma packs_copy_slice: "packs_as (copy_slice bs) bs"
  by (simp add: packs_as_def copy_slice_def)

lemma packs_value:
  assumes "good_value tn env e n tag k v"
  shows "packs_as (pack_value False tag v) (value_wire tag v)"
proof (cases v)
  case (VStr s)
  with assms have "good_string tn env e n tag s"
    by simp
  then show ?thesis
  proof (cases rule: good_stringE)
    case 1
    then show ?thesis using packs_name_value [OF 1(2,1)] by (auto simp: VStr)
  next
    case 2
    from 2(1) show ?thesis
      using packs_txt_string [OF 2(2)] by (elim disjE) (simp_all add: VStr packs_as_def pack_string_def)
  next
    case (4 b)
    then show ?thesis
      using packs_copy_slice
      by (simp add: VStr packs_as_def pack_string_def packBase64_def base64_decode_encode)
  qed (use packs_put in \<open>simp add: VStr packs_as_def pack_string_def hex_decode_encode\<close>)+
qed (use assms packs_put in \<open>simp_all add: packs_as_def\<close>)

lemma packs_fields:
  "good_fields tn env fs vs \<Longrightarrow> packs_as (packStructValue False fs vs) (fields_wire fs vs)"
proof (induction tn env fs vs rule: good_fields.induct)
  case (2 tn env n tag k fs vs)
  then obtain v vs' where v: "vs = v # vs'" "tag \<noteq> ''-''" "good_value tn env (fs = []) n tag k v"
      "good_fields tn (env @ [(n, v)]) fs vs'"
    by (auto split: list.splits)
  from packs_field [OF packs_value [OF v(3)] 2(1) [OF v(1,4)] v(2) good_value_plain [OF v(3)]]
  show ?case unfolding v(1) fields_wire.simps .
qed (simp add: packs_end)

lemma reads_u8: "holds_at msg off [x] \<Longrightarrow>
    unpack_value msg spare tn env rdend n tag KUint8 off = Some (Ret (VU8 x, off + 1))"
proof -
  assume h: "holds_at msg off [x]"
  have "unat x < 256"
    using unsigned_less [of x] by simp
  then have x: "unat x mod 256 = unat x"
    by simp
  then have "[x] = be_bytes 1 (unat x)"
    by (simp add: be_bytes_def)
  with h x reads_uint [of msg off 1 "unat x" _ "\<lambda>x. VU8 (word_of_nat x)"] show ?thesis
    by (simp add: unpack_value.simps)
qed

lemma reads_u64:
  assumes "holds_at msg off (be_bytes (if tag = ''uint48'' then 6 else 8) (unat x))"
    and "tag = ''uint48'' \<longrightarrow> unat x < 256 ^ 6"
  shows "unpack_value msg spare tn env rdend n tag KUint64 off =
     Some (Ret (VU64 x, off + (if tag = ''uint48'' then 6 else 8)))"
proof -
  let ?k = "if tag = ''uint48'' then 6 else 8 :: nat"
  have "unat x < 18446744073709551616"
    using unsigned_less [of x] by simp
  then have "unat x mod 256 ^ ?k = unat x"
    using assms(2) by simp
  then show ?thesis
    using num_at_holds [OF assms(1)] holds_at_bound [OF assms(1)]
    by (cases "tag = ''uint48''") (simp_all add: unpack_value.simps unpack_uint64_def)
qed

lemma hex_encode_Nil: "hex_encode [] = []"
  by (simp add: hex_encode_def)

lemma reads_slice:
  "holds_at msg off b \<Longrightarrow> unpack_slice msg spare f off (off + length b) = Ret (VStr (f b), off + length b)"
  by (auto simp: unpack_slice_def sub_slice_def holds_at_def go_slice_def)

lemma reads_string:
  assumes g: "good_string tn env e n tag s" and at: "holds_at msg off (value_wire tag (VStr s))"
    and last: "e \<Longrightarrow> rdend = off + length (value_wire tag (VStr s))" and t: "env_rrtype env \<noteq> TypeHIP"
  shows "unpack_string msg spare tn env rdend n tag off = Ret (VStr s, off + length (value_wire tag (VStr s)))"
proof -
  show ?thesis
    using g
  proof (cases rule: good_stringE)
    case 1
    from 1(1) at have "holds_at msg off (name_wire s)"
      by auto
    from reads_name_value [OF this 1(2,1)] 1(1) show ?thesis
      by (auto simp: unpack_value.simps)
  next
    case 2
    obtain u where u: "length u \<le> 255" "s = txt_escape u"
      using 2(2) by (auto simp: good_txt_def)
    from 2(1) at u have at: "holds_at msg off (wire_txt u)"
      by (auto simp: txt_wire_escape)
    then obtain post where "msg = take off msg @ wire_txt u @ post" "length (take off msg) = off"
      by (rule holds_at_split)
    with unpackTxtString_wire [OF u(1), of "take off msg" post]
    have "unpackTxtString msg off = Inr (s, off + 1 + length u)"
      by (simp add: u(2))
    moreover have "off \<noteq> length msg"
      using holds_at_bound [OF at] by (simp add: wire_txt_def)
    moreover have "txt_wire s = wire_txt u" "length (wire_txt u) = 1 + length u"
      using u by (simp_all add: txt_wire_escape wire_txt_def)
    ultimately show ?thesis
      using 2(1) by (elim disjE) (simp_all add: unpack_string_def)
  next
    case (3 b)
    then have "holds_at msg off b" "rdend = off + length b"
      using at last by (simp_all add: hex_decode_encode)
    with holds_at_bound [OF this(1)] reads_slice [of msg off b spare hex_encode] t show ?thesis
      by (auto simp: unpack_string_def 3 hex_decode_encode hex_encode_Nil)
  next
    case (4 b)
    then have "holds_at msg off b" "rdend = off + length b"
      using at last by (simp_all add: base64_decode_encode)
    with holds_at_bound [OF this(1)] reads_slice [of msg off b spare base64] t show ?thesis
      by (auto simp: unpack_string_def 4 base64_decode_encode)
  next
    case (5 b)
    then have "holds_at msg off b"
      using at by (simp add: hex_decode_encode)
    with holds_at_bound [OF this(1)] reads_slice [of msg off b spare hex_encode] show ?thesis
      by (auto simp: unpack_string_def 5 hex_decode_encode hex_encode_Nil)
  qed
qed

lemma reads_value:
  assumes "good_value tn env e n tag k v" and "holds_at msg off (value_wire tag v)"
    and "e \<Longrightarrow> rdend = off + length (value_wire tag v)" and "env_rrtype env \<noteq> TypeHIP"
  shows "unpack_value msg spare tn env rdend n tag k off = Some (Ret (v, off + length (value_wire tag v)))"
proof (cases v)
  case (VStr s)
  then have "k = KString" "good_string tn env e n tag s"
    using assms(1) by simp_all
  then show ?thesis
    using reads_string [OF _ assms(2) [unfolded VStr] assms(3) [unfolded VStr] assms(4)]
    by (simp add: VStr unpack_value.simps del: value_wire.simps)
next
  case (VU8 x)
  then show ?thesis using assms(1,2) by (simp add: reads_u8)
next
  case (VU16 x)
  then show ?thesis using assms(1,2) by (simp add: reads_u16)
next
  case (VU32 x)
  then show ?thesis using assms(1,2) by (simp add: reads_u32)
next
  case (VU64 x)
  then show ?thesis using assms(1,2) by (simp add: reads_u64 del: power_numeral)
qed (use assms(1) in simp_all)

lemma env_rrtype_append: "n \<noteq> ''Hdr'' \<Longrightarrow> env_rrtype (env @ [(n, v)]) = env_rrtype env"
  by (simp add: env_rrtype_def map_of_append map_add_def split: option.splits)

lemma reads_fields:
  "good_fields tn env fs vs \<Longrightarrow> holds_at msg off (fields_wire fs vs) \<Longrightarrow>
   rdend = off + length (fields_wire fs vs) \<Longrightarrow> env_rrtype env \<noteq> TypeHIP \<Longrightarrow>
   unpackStructValue msg spare tn fs env rdend off = Some (Ret (map snd env @ vs, rdend))"
proof (induction tn env fs vs arbitrary: off rule: good_fields.induct)
  case (2 tn env n tag k fs vs)
  then obtain v vs' where v: "vs = v # vs'" "n \<noteq> ''Hdr''" "good_value tn env (fs = []) n tag k v"
      "good_fields tn (env @ [(n, v)]) fs vs'"
    by (auto split: list.splits)
  have at: "holds_at msg off (value_wire tag v)"
    "holds_at msg (off + length (value_wire tag v)) (fields_wire fs vs')"
    using 2(3) by (simp_all add: v(1) holds_at_append)
  have e: "rdend = off + length (value_wire tag v) + length (fields_wire fs vs')"
    using 2(4) by (simp add: v(1))
  then have last: "fs = [] \<Longrightarrow> rdend = off + length (value_wire tag v)"
    by simp
  have "off \<le> length msg"
    using holds_at_bound [OF at(1)] by simp
  from reads_field [OF reads_value [OF v(3) at(1) last 2(5)] this v(2) good_value_plain [OF v(3)]]
    2(1) [OF v(1,4) at(2) e] 2(5) v(2)
  show ?case by (simp add: v(1) env_rrtype_append)
qed (simp add: reads_end)

end
