(* ===== verification/Dns_Message_Codec.thy ===== *)
theory Dns_Message_Codec
  imports Dns_Field_Codec
begin

text \<open>
  Messages of the record types mDNS uses on the wire, without compression: what \<open>Pack\<close> writes, and that
  \<open>Unpack\<close> reads the same message, with the lengths of the data filled in.
\<close>

section \<open>A codec for the items of an array\<close>

text \<open>
  What the loops over questions and records rely on: an item is packed to its bytes wherever it stands,
  and read back from them, perhaps with some fields filled in.
\<close>

locale item_codec =
  fixes pk :: "'a \<Rightarrow> pstate \<Rightarrow> pstate outcome"
    and rd :: "bytes \<Rightarrow> bytes \<Rightarrow> nat \<Rightarrow> ('a \<times> nat) outcome option"
    and wire :: "'a \<Rightarrow> bytes"
    and ok :: "'a \<Rightarrow> bool"
    and seen :: "'a \<Rightarrow> 'a"
  assumes packs: "ok a \<Longrightarrow> packs_as (pk a) (wire a)"
    and reads: "ok a \<Longrightarrow> holds_at msg off (wire a) \<Longrightarrow>
      rd msg spare off = Some (Ret (seen a, off + length (wire a)))"
begin

lemma packs_list: "list_all ok xs \<Longrightarrow> packs_as (pack_all pk xs) (concat (map wire xs))"
  by (rule packs_all) (auto simp: list_all_iff packs)

lemma reads_list:
  "list_all ok xs \<Longrightarrow> holds_at msg off (concat (map wire xs)) \<Longrightarrow>
   unpack_n (rd msg spare) (length xs) off = Some (Ret (map seen xs, off + length (concat (map wire xs))))"
proof (induction xs arbitrary: off)
  case (Cons x xs)
  then have "rd msg spare off = Some (Ret (seen x, off + length (wire x)))"
    "unpack_n (rd msg spare) (length xs) (off + length (wire x)) =
       Some (Ret (map seen xs, off + length (wire x) + length (concat (map wire xs))))"
    by (auto simp: holds_at_append reads)
  then show ?case by simp
qed simp

end

section \<open>Questions\<close>

definition question_wire :: "question \<Rightarrow> bytes" where
  "question_wire q = name_wire (QName q) @ be_bytes 2 (unat (Qtype q)) @ be_bytes 2 (unat (Qclass q))"

lemma packs_question: "good_name (QName q) \<Longrightarrow> packs_as (pack_question False q) (question_wire q)"
  unfolding pack_question_def question_values_def layout_Question_def question_wire_def
  by (intro packs_field packs_last packs_name_value packs_u16) simp_all

lemma reads_question:
  assumes "good_name (QName q)" and "holds_at msg off (question_wire q)"
  shows "unpack_question msg spare off = Some (Ret (q, off + length (question_wire q)))"
proof -
  have h: "holds_at msg off (name_wire (QName q))"
    "holds_at msg (off + length (name_wire (QName q))) (be_bytes 2 (unat (Qtype q)))"
    "holds_at msg (off + length (name_wire (QName q)) + 2) (be_bytes 2 (unat (Qclass q)))"
    using assms(2) by (simp_all add: question_wire_def holds_at_append)
  have "UnpackStruct msg spare ''Question'' layout_Question off =
      Some (Ret ([VStr (QName q), VU16 (Qtype q), VU16 (Qclass q)], off + length (question_wire q)))"
    unfolding UnpackStruct_def layout_Question_def
    using h [THEN holds_at_bound]
    by (simp add: reads_field [OF reads_name_value [OF h(1) assms(1)]] reads_field [OF reads_u16 [OF h(2)]]
        reads_field [OF reads_u16 [OF h(3)]] reads_end question_wire_def)
  then show ?thesis
    by (simp add: unpack_question_def gval_vals)
qed

interpretation question_codec: item_codec "pack_question False" unpack_question question_wire
    "\<lambda>q. good_name (QName q)" "\<lambda>q. q"
  by unfold_locales (simp_all add: packs_question reads_question)

section \<open>Record headers\<close>

definition hdr_wire :: "rr_header \<Rightarrow> bytes" where
  "hdr_wire h =
     name_wire (RRName h) @ be_bytes 2 (unat (Rrtype h)) @ be_bytes 2 (unat (Class h))
       @ be_bytes 4 (unat (Ttl h)) @ be_bytes 2 (unat (Rdlength h))"

definition hdr_fields :: "rr_header \<Rightarrow> gval list" where
  "hdr_fields h = [VStr (RRName h), VU16 (Rrtype h), VU16 (Class h), VU32 (Ttl h), VU16 (Rdlength h)]"

lemma hdr_value_fields: "hdr_value h = VStruct (hdr_fields h)"
  by (simp add: hdr_value_def hdr_fields_def)

lemma hdr_of_fields [simp]: "hdr_of (VStruct (hdr_fields h)) = h"
  by (simp add: hdr_of_def hdr_fields_def gval_vals)

lemma packs_header:
  "good_name (RRName h) \<Longrightarrow> packs_as (packStructValue False layout_RR_Header (hdr_fields h)) (hdr_wire h)"
  unfolding layout_RR_Header_def hdr_fields_def hdr_wire_def
  by (intro packs_field packs_last packs_name_value packs_u16 packs_u32) simp_all

lemma reads_rr_header:
  assumes "good_name (RRName h)" and "holds_at msg off (hdr_wire h)"
  shows "unpackStructValue msg spare tn layout_RR_Header [] 0 off =
     Some (Ret (hdr_fields h, off + length (hdr_wire h)))"
proof -
  define o1 where "o1 = off + length (name_wire (RRName h))"
  have h: "holds_at msg off (name_wire (RRName h))" "holds_at msg o1 (be_bytes 2 (unat (Rrtype h)))"
    "holds_at msg (o1 + 2) (be_bytes 2 (unat (Class h)))" "holds_at msg (4 + o1) (be_bytes 4 (unat (Ttl h)))"
    "holds_at msg (8 + o1) (be_bytes 2 (unat (Rdlength h)))"
    using assms(2) by (simp_all add: hdr_wire_def holds_at_append o1_def ac_simps)
  have len: "off + length (hdr_wire h) = o1 + 10"
    by (simp add: hdr_wire_def o1_def)
  have "off \<le> o1"
    by (simp add: o1_def)
  then show ?thesis
    unfolding layout_RR_Header_def len hdr_fields_def
    using h [THEN holds_at_bound] reads_name_value [OF h(1) assms(1), folded o1_def]
    by (simp add: reads_field [where off = off] reads_field [OF reads_u16 [OF h(2)]]
        reads_field [OF reads_u16 [OF h(3)]] reads_field [OF reads_u32 [OF h(4)]]
        reads_field [OF reads_u16 [OF h(5)]] reads_end)
qed

lemma hdr_wire_not_Nil: "good_name (RRName h) \<Longrightarrow> hdr_wire h \<noteq> []"
  by (simp add: hdr_wire_def name_wire_not_Nil)

text \<open>The length of the data is put into the header that is there.\<close>

lemma rawSetRdlength_wire:
  assumes "good_name (RRName h)" and "length data \<le> 65535"
  shows "rawSetRdlength (w @ hdr_wire h @ data @ r) (length w) (length w + length (hdr_wire h) + length data) =
     Some (w @ hdr_wire (h\<lparr>Rdlength := word_of_nat (length data)\<rparr>) @ data @ r)"
proof -
  let ?n = "name_wire (RRName h)"
  let ?t = "be_bytes 2 (unat (Rrtype h)) @ be_bytes 2 (unat (Class h)) @ be_bytes 4 (unat (Ttl h))"
  let ?l = "be_bytes 2 (unat (Rdlength h))"
  have m: "w @ hdr_wire h @ data @ r = (w @ ?n @ ?t) @ ?l @ data @ r"
    by (simp add: hdr_wire_def)
  have o2: "length (w @ ?n @ ?t) = length w + length ?n + 8"
    by simp
  have s: "skip_name (w @ hdr_wire h @ data @ r) (length w) = Some (length w + length ?n)"
    using skip_name_wire [OF assms(1), of w "?t @ ?l @ data @ r"] by (simp add: hdr_wire_def)
  have d: "int (length w + length (hdr_wire h) + length data) - int (length w + length ?n + 8 + 2) =
      int (length data)"
    by (simp add: hdr_wire_def)
  have wr: "write_at ((w @ ?n @ ?t) @ ?l @ data @ r) (length w + length ?n + 8) bs =
      (w @ ?n @ ?t @ bs) @ data @ r" if "length bs = 2" for bs
    using that write_at_append [OF o2, of "?l @ data @ r" bs] by simp
  have room: "\<not> length w + length ?n + 8 + 2 > length (w @ hdr_wire h @ data @ r)"
    by (simp add: hdr_wire_def)
  have "unat (word_of_int (int (length data)) :: u16) = unat (word_of_nat (length data) :: u16)"
    by simp
  then show ?thesis
    unfolding rawSetRdlength_def s option.case Let_def d if_not_P [OF room]
    using assms(2) by (simp add: m wr del: append_assoc) (simp add: hdr_wire_def)
qed

section \<open>Records\<close>

text \<open>
  The types whose structures are a header and fields of the kinds above, and for which the method \<open>len\<close>
  counts as many bytes as the data has.
\<close>

definition field_types :: "string list" where
  "field_types =
     [''AFSDB'', ''CERT'', ''CNAME'', ''DHCID'', ''DNAME'', ''DNSKEY'', ''DS'', ''EUI48'', ''EUI64'',
      ''GID'', ''GPOS'', ''EID'', ''KX'', ''L64'', ''LOC'', ''LP'', ''MB'', ''MD'', ''MF'', ''MG'',
      ''MINFO'', ''MR'', ''MX'', ''NAPTR'', ''NID'', ''NIMLOC'', ''NS'', ''OPENPGPKEY'', ''RKEY'', ''RP'',
      ''PX'', ''RRSIG'', ''RT'', ''SOA'', ''SSHFP'', ''TA'', ''TALINK'', ''TLSA'', ''TSIG'', ''UID'',
      ''UINFO'', ''X25'', ''NSEC3PARAM'']"

lemma field_layouts:
  "layout_of ''AFSDB'' = layout_AFSDB" "layout_of ''CERT'' = layout_CERT" "layout_of ''CNAME'' = layout_CNAME"
  "layout_of ''DHCID'' = layout_DHCID" "layout_of ''DNAME'' = layout_DNAME"
  "layout_of ''DNSKEY'' = layout_DNSKEY" "layout_of ''DS'' = layout_DS" "layout_of ''EUI48'' = layout_EUI48"
  "layout_of ''EUI64'' = layout_EUI64" "layout_of ''GID'' = layout_GID" "layout_of ''GPOS'' = layout_GPOS"
  "layout_of ''EID'' = layout_EID" "layout_of ''KX'' = layout_KX" "layout_of ''L64'' = layout_L64"
  "layout_of ''LOC'' = layout_LOC" "layout_of ''LP'' = layout_LP" "layout_of ''MB'' = layout_MB"
  "layout_of ''MD'' = layout_MD" "layout_of ''MF'' = layout_MF" "layout_of ''MG'' = layout_MG"
  "layout_of ''MINFO'' = layout_MINFO" "layout_of ''MR'' = layout_MR" "layout_of ''MX'' = layout_MX"
  "layout_of ''NAPTR'' = layout_NAPTR" "layout_of ''NID'' = layout_NID" "layout_of ''NIMLOC'' = layout_NIMLOC"
  "layout_of ''NS'' = layout_NS" "layout_of ''OPENPGPKEY'' = layout_OPENPGPKEY"
  "layout_of ''RKEY'' = layout_RKEY" "layout_of ''RP'' = layout_RP" "layout_of ''PX'' = layout_PX"
  "layout_of ''RRSIG'' = layout_RRSIG" "layout_of ''RT'' = layout_RT" "layout_of ''SOA'' = layout_SOA"
  "layout_of ''SSHFP'' = layout_SSHFP" "layout_of ''TA'' = layout_TA" "layout_of ''TALINK'' = layout_TALINK"
  "layout_of ''TLSA'' = layout_TLSA" "layout_of ''TSIG'' = layout_TSIG" "layout_of ''UID'' = layout_UID"
  "layout_of ''UINFO'' = layout_UINFO" "layout_of ''X25'' = layout_X25"
  "layout_of ''NSEC3PARAM'' = layout_NSEC3PARAM"
  by (simp_all add: layout_of_def)

lemmas field_layout_defs =
    layout_AFSDB_def layout_CERT_def layout_CNAME_def layout_DHCID_def layout_DNAME_def layout_DNSKEY_def
    layout_DS_def layout_EUI48_def layout_EUI64_def layout_GID_def layout_GPOS_def layout_EID_def
    layout_KX_def layout_L64_def layout_LOC_def layout_LP_def layout_MB_def layout_MD_def layout_MF_def
    layout_MG_def layout_MINFO_def layout_MR_def layout_MX_def layout_NAPTR_def layout_NID_def
    layout_NIMLOC_def layout_NS_def layout_OPENPGPKEY_def layout_RKEY_def layout_RP_def layout_PX_def
    layout_RRSIG_def layout_RT_def layout_SOA_def layout_SSHFP_def layout_TA_def layout_TALINK_def
    layout_TLSA_def layout_TSIG_def layout_UID_def layout_UINFO_def layout_X25_def layout_NSEC3PARAM_def

definition has_plain_header :: "gfield list \<Rightarrow> bool" where
  "has_plain_header fs = (fs \<noteq> [] \<and> hd fs = Field ''Hdr'' [] (KStruct ''RR_Header'' layout_RR_Header))"

lemma field_types_headers: "list_all (\<lambda>n. has_plain_header (layout_of n)) field_types"
  by (simp add: field_types_def field_layouts has_plain_header_def field_layout_defs)

lemma field_type_layout: "n \<in> set field_types \<Longrightarrow>
    layout_of n = Field ''Hdr'' [] (KStruct ''RR_Header'' layout_RR_Header) # tl (layout_of n)"
  using field_types_headers by (cases "layout_of n") (auto simp: list_all_iff has_plain_header_def)

lemma with_header_field_type:
  assumes "n \<in> set field_types"
  shows "with_header (layout_of n) h vs = VStruct (hdr_fields h) # vs"
  by (subst field_type_layout [OF assms], cases "tl (layout_of n)") (simp_all add: hdr_value_fields)

text \<open>The header does not count for the sizes of fields.\<close>

lemma string_size_header: "string_size tn n ((''Hdr'', v) # env) = string_size tn n env"
  by (simp add: string_size_def uint_field_def)

lemma good_value_header: "good_value tn ((''Hdr'', h) # env) e n tag k v = good_value tn env e n tag k v"
  by (cases v) (simp_all add: good_string_def string_size_header)

lemma good_fields_header: "good_fields tn ((''Hdr'', h) # env) fs vs = good_fields tn env fs vs"
proof (induction tn env fs vs rule: good_fields.induct)
  case (2 tn env n tag k fs vs)
  then show ?case by (cases vs) (simp_all add: good_value_header)
qed simp

lemma typeToRR_HIP: "typeToRR TypeHIP = Some (''HIP'', layout_HIP)"
  by (simp add: typeToRR_def rr_table_def type_codes)

lemma field_type_not_HIP: "typeToRR t = Some (n, l) \<Longrightarrow> n \<in> set field_types \<Longrightarrow> t \<noteq> TypeHIP"
proof
  assume "typeToRR t = Some (n, l)" "n \<in> set field_types" "t = TypeHIP"
  then have "''HIP'' \<in> set field_types"
    by (simp add: typeToRR_HIP)
  then show False
    by (simp add: field_types_def)
qed

fun data_wire :: "rr \<Rightarrow> bytes" where
  "data_wire (PTR h p) = name_wire p"
| "data_wire (SRV h prio weight port target) =
     be_bytes 2 (unat prio) @ be_bytes 2 (unat weight) @ be_bytes 2 (unat port) @ name_wire target"
| "data_wire (TXT h ss) = concat (map txt_wire ss)"
| "data_wire (RR_A h a) = (case a of Some b \<Rightarrow> drop 12 b | None \<Rightarrow> [])"
| "data_wire (RR_AAAA h a) = (case a of Some b \<Rightarrow> b | None \<Rightarrow> [])"
| "data_wire (OtherRR h (n, vs)) = fields_wire (tl (layout_of n)) vs"

text \<open>
  Records of the types mDNS uses and of those above, as the code that makes them leaves them: names and
  texts that can be packed, addresses in the form of 16 bytes, and the type of the header that of the
  structure.
\<close>

fun good_data :: "rr \<Rightarrow> bool" where
  "good_data (PTR h p) \<longleftrightarrow> Rrtype h = TypePTR \<and> good_name p"
| "good_data (SRV h prio weight port target) \<longleftrightarrow> Rrtype h = TypeSRV \<and> good_name target"
| "good_data (TXT h ss) \<longleftrightarrow> Rrtype h = TypeTXT \<and> ss \<noteq> [] \<and> list_all good_txt ss"
| "good_data (RR_A h a) \<longleftrightarrow> Rrtype h = TypeA \<and> (\<exists>q. length q = 4 \<and> a = Some (v4_prefix @ q))"
| "good_data (RR_AAAA h a) \<longleftrightarrow> Rrtype h = TypeAAAA \<and> (\<exists>b. length b = 16 \<and> a = Some b)"
| "good_data (OtherRR h (n, vs)) \<longleftrightarrow>
     n \<in> set field_types \<and> typeToRR (Rrtype h) = Some (n, layout_of n) \<and> good_fields n [] (tl (layout_of n)) vs"

definition good_rr :: "rr \<Rightarrow> bool" where
  "good_rr r \<longleftrightarrow> good_name (RRName (rr_hdr r)) \<and> good_data r \<and> length (data_wire r) \<le> 65535"

fun set_hdr :: "rr_header \<Rightarrow> rr \<Rightarrow> rr" where
  "set_hdr h (PTR _ p) = PTR h p"
| "set_hdr h (SRV _ prio weight port target) = SRV h prio weight port target"
| "set_hdr h (TXT _ ss) = TXT h ss"
| "set_hdr h (RR_A _ a) = RR_A h a"
| "set_hdr h (RR_AAAA _ a) = RR_AAAA h a"
| "set_hdr h (OtherRR _ x) = OtherRR h x"

text \<open>The record with the length of its data in the header.\<close>

definition with_rdlength :: "rr \<Rightarrow> rr" where
  "with_rdlength r = set_hdr ((rr_hdr r)\<lparr>Rdlength := word_of_nat (length (data_wire r))\<rparr>) r"

definition rr_wire :: "rr \<Rightarrow> bytes" where
  "rr_wire r = hdr_wire (rr_hdr (with_rdlength r)) @ data_wire r"

lemma set_hdr_simps [simp]:
  "rr_hdr (set_hdr h r) = h" "data_wire (set_hdr h r) = data_wire r"
  by (cases r rule: data_wire.cases, simp_all)+

lemma rr_hdr_with_rdlength [simp]:
  "rr_hdr (with_rdlength r) = (rr_hdr r)\<lparr>Rdlength := word_of_nat (length (data_wire r))\<rparr>"
  by (simp add: with_rdlength_def)

text \<open>The structures of these types in the table, and their values.\<close>

lemma layouts:
  "layout_of ''PTR'' = layout_PTR" "layout_of ''SRV'' = layout_SRV" "layout_of ''TXT'' = layout_TXT"
  "layout_of ''A'' = layout_A" "layout_of ''AAAA'' = layout_AAAA"
  by (simp_all add: layout_of_def)

lemma types_to_rr:
  "typeToRR TypePTR = Some (''PTR'', layout_PTR)" "typeToRR TypeSRV = Some (''SRV'', layout_SRV)"
  "typeToRR TypeTXT = Some (''TXT'', layout_TXT)" "typeToRR TypeA = Some (''A'', layout_A)"
  "typeToRR TypeAAAA = Some (''AAAA'', layout_AAAA)"
  by (simp_all add: typeToRR_def rr_table_def type_codes)

lemma packs_ip:
  "length q = 4 \<Longrightarrow> packs_as (pack_value c ''a'' (VIP (Some (v4_prefix @ q)))) q"
  "length b = 16 \<Longrightarrow> packs_as (pack_value c ''aaaa'' (VIP (Some b))) b"
  by (auto simp: packs_as_def pack_ip_def length_v4_prefix)

lemma packs_txt_value:
  "list_all good_txt ss \<Longrightarrow> ss \<noteq> [] \<Longrightarrow> packs_as (pack_value c ''txt'' (VStrs ss)) (concat (map txt_wire ss))"
  using packs_txt [of ss] by (simp add: packs_as_def pack_strings_def)

lemma packs_record:
  assumes "good_name (RRName (rr_hdr r))" and "good_data r" and "rr_value r = (n, vs)"
  shows "packs_as (packStructValue False (layout_of n) vs) (hdr_wire (rr_hdr r) @ data_wire r)"
proof (cases r)
  case (PTR h p)
  then have "n = ''PTR''" "vs = [VStruct (hdr_fields h), VStr p]" "good_name p" "good_name (RRName h)"
    using assms by (auto simp: hdr_value_fields)
  then show ?thesis
    by (simp only: PTR layouts layout_PTR_def rr.sel data_wire.simps)
      (intro packs_struct packs_header packs_last packs_name_value; simp)
next
  case (SRV h a b c t)
  then have "n = ''SRV''" "vs = [VStruct (hdr_fields h), VU16 a, VU16 b, VU16 c, VStr t]" "good_name t"
    "good_name (RRName h)"
    using assms by (auto simp: hdr_value_fields)
  then show ?thesis
    by (simp only: SRV layouts layout_SRV_def rr.sel data_wire.simps)
      (intro packs_struct packs_header packs_field packs_last packs_name_value packs_u16; simp)
next
  case (TXT h ss)
  then have "n = ''TXT''" "vs = [VStruct (hdr_fields h), VStrs ss]" "list_all good_txt ss" "ss \<noteq> []"
    "good_name (RRName h)"
    using assms by (auto simp: hdr_value_fields)
  then show ?thesis
    by (simp only: TXT layouts layout_TXT_def rr.sel data_wire.simps)
      (intro packs_struct packs_header packs_last packs_txt_value; simp)
next
  case (RR_A h a)
  then obtain q where "n = ''A''" "vs = [VStruct (hdr_fields h), VIP (Some (v4_prefix @ q))]" "length q = 4"
    "a = Some (v4_prefix @ q)" "good_name (RRName h)"
    using assms by (auto simp: hdr_value_fields)
  moreover from this have "data_wire r = q"
    by (simp add: RR_A length_v4_prefix)
  ultimately show ?thesis
    by (simp only: RR_A layouts layout_A_def rr.sel)
      (intro packs_struct packs_header packs_last packs_ip; simp)
next
  case (RR_AAAA h a)
  then obtain b where "n = ''AAAA''" "vs = [VStruct (hdr_fields h), VIP (Some b)]" "length b = 16"
    "a = Some b" "good_name (RRName h)"
    using assms by (auto simp: hdr_value_fields)
  moreover from this have "data_wire r = b"
    by (simp add: RR_AAAA)
  ultimately show ?thesis
    by (simp only: RR_AAAA layouts layout_AAAA_def rr.sel)
      (intro packs_struct packs_header packs_last packs_ip; simp)
next
  case (OtherRR h x)
  then obtain ws where x: "x = (n, ws)" "vs = VStruct (hdr_fields h) # ws" "n \<in> set field_types"
      "good_fields n [] (tl (layout_of n)) ws" "good_name (RRName h)"
    using assms with_header_field_type by (cases x) auto
  show ?thesis
    by (subst field_type_layout [OF x(3)]) (use x packs_fields [OF x(4)] in
      \<open>simp add: OtherRR; intro packs_struct packs_header; simp\<close>)
qed

lemma packs_rr:
  assumes "good_rr r"
  shows "packs_as (PackRR False r) (rr_wire r)"
  unfolding packs_as_def
proof (intro allI impI)
  fix w rest cm
  assume room: "length (rr_wire r) \<le> length (rest :: bytes)"
  obtain n vs where v: "rr_value r = (n, vs)"
    by fastforce
  have g: "good_name (RRName (rr_hdr r))" "good_data r" "length (data_wire r) \<le> 65535"
    using assms by (auto simp: good_rr_def)
  let ?b = "hdr_wire (rr_hdr r) @ data_wire r"
  have l: "length ?b = length (rr_wire r)"
    by (simp add: rr_wire_def hdr_wire_def)
  have p: "packStructValue False (layout_of n) vs (length w, w @ rest, cm) =
      Ret (length (w @ ?b), (w @ ?b) @ drop (length ?b) rest, cm)"
    using packs_asD [OF packs_record [OF g(1,2) v], of rest w cm] room l by simp
  have s: "rawSetRdlength ((w @ ?b) @ drop (length ?b) rest) (length w) (length (w @ ?b)) =
      Some ((w @ rr_wire r) @ drop (length ?b) rest)"
    using rawSetRdlength_wire [OF g(1,3), of w "drop (length ?b) rest"]
    by (simp add: rr_wire_def add.assoc)
  show "PackRR False r (length w, w @ rest, cm) =
      Ret (length (w @ rr_wire r), (w @ rr_wire r) @ drop (length (rr_wire r)) rest, cm)"
    unfolding PackRR_def prod.case v p obind.simps s option.case using l by simp
qed

text \<open>Reading: the data behind the header, up to its end.\<close>

lemma reads_ip:
  "holds_at msg off q \<Longrightarrow> length q = 4 \<Longrightarrow>
   unpack_value msg spare tn env (off + 4) n ''a'' KIP off = Some (Ret (VIP (Some (v4_prefix @ q)), off + 4))"
  "holds_at msg off b \<Longrightarrow> length b = 16 \<Longrightarrow>
   unpack_value msg spare tn env (off + 16) n ''aaaa'' KIP off = Some (Ret (VIP (Some b), off + 16))"
  using holds_at_bound [of msg off q] holds_at_bound [of msg off b]
  by (auto simp: unpack_value.simps unpack_ip_def holds_at_slice)

lemma reads_txt_value:
  assumes "holds_at msg off (concat (map txt_wire ss))" and "list_all good_txt ss" and "ss \<noteq> []"
  shows "unpack_value msg spare tn env (off + length (concat (map txt_wire ss))) n ''txt'' KStrings off =
     Some (Ret (VStrs ss, off + length (concat (map txt_wire ss))))"
proof -
  define e where "e = off + length (concat (map txt_wire ss))"
  have "e \<le> length msg" "0 < length (concat (map txt_wire ss))"
    using holds_at_bound [OF assms(1)] txts_wire_not_Nil [OF assms(2,3)] by (unfold e_def) blast+
  then have "off \<noteq> length msg" "e \<noteq> off"
    unfolding e_def by linarith+
  with reads_txt [OF assms(1,2)] show ?thesis
    unfolding e_def [symmetric] by (simp add: unpack_value.simps unpack_strings_def)
qed

lemma reads_record:
  assumes name: "good_name (RRName (rr_hdr r))" and data: "good_data r" and v: "rr_value r = (n, vs)"
    and at: "holds_at msg off (hdr_wire (rr_hdr r) @ data_wire r)"
    and len: "unat (Rdlength (rr_hdr r)) = length (data_wire r)"
  shows "UnpackStruct msg spare n (layout_of n) off =
     Some (Ret (vs, off + length (hdr_wire (rr_hdr r)) + length (data_wire r)))"
proof -
  define o1 where "o1 = off + length (hdr_wire (rr_hdr r))"
  have h: "holds_at msg off (hdr_wire (rr_hdr r))" and d: "holds_at msg o1 (data_wire r)"
    using at by (simp_all add: holds_at_append o1_def)
  have b: "off \<le> length msg" "o1 \<le> length msg"
    using holds_at_bound [OF h] holds_at_bound [OF d] by (simp_all add: o1_def)
  have hdr: "UnpackStruct msg spare tn (Field ''Hdr'' [] (KStruct tn1 layout_RR_Header) # fs) off =
      unpackStructValue msg spare tn fs [(''Hdr'', VStruct (hdr_fields (rr_hdr r)))] (o1 + length (data_wire r)) o1"
    for tn tn1 fs
    unfolding UnpackStruct_def
    using reads_header [OF reads_rr_header [OF name h] b(1), of spare tn "[]" tn1 fs "[]" 0]
    by (simp add: o1_def len)
  show ?thesis
    unfolding o1_def [symmetric]
  proof (cases r)
    case (PTR h p)
    then have "n = ''PTR''" "vs = [VStruct (hdr_fields h), VStr p]" "good_name p"
      using v data by (auto simp: hdr_value_fields)
    with d b(2) show "UnpackStruct msg spare n (layout_of n) off = Some (Ret (vs, o1 + length (data_wire r)))"
      by (simp add: PTR layouts layout_PTR_def hdr reads_field [OF reads_name_value] reads_end)
  next
    case (SRV h a b1 c t)
    then have "n = ''SRV''" "vs = [VStruct (hdr_fields h), VU16 a, VU16 b1, VU16 c, VStr t]" "good_name t"
      using v data by (auto simp: hdr_value_fields)
    moreover from d have "holds_at msg o1 (be_bytes 2 (unat a))" "holds_at msg (o1 + 2) (be_bytes 2 (unat b1))"
      "holds_at msg (4 + o1) (be_bytes 2 (unat c))" "holds_at msg (6 + o1) (name_wire t)"
      by (simp_all add: SRV holds_at_append ac_simps)
    ultimately show "UnpackStruct msg spare n (layout_of n) off = Some (Ret (vs, o1 + length (data_wire r)))"
      using b(2) holds_at_bound [OF d]
      by (simp add: SRV layouts layout_SRV_def hdr reads_field [OF reads_u16] reads_field [OF reads_name_value]
          reads_end)
  next
    case (TXT h ss)
    then have "n = ''TXT''" "vs = [VStruct (hdr_fields h), VStrs ss]" "list_all good_txt ss" "ss \<noteq> []"
      using v data by (auto simp: hdr_value_fields)
    with d b(2) show "UnpackStruct msg spare n (layout_of n) off = Some (Ret (vs, o1 + length (data_wire r)))"
      using reads_field [OF reads_txt_value [of msg o1 ss]]
      by (simp add: TXT layouts layout_TXT_def hdr reads_end)
  next
    case (RR_A h a)
    then obtain q where "n = ''A''" "vs = [VStruct (hdr_fields h), VIP (Some (v4_prefix @ q))]" "length q = 4"
      "a = Some (v4_prefix @ q)"
      using v data by (auto simp: hdr_value_fields)
    moreover from this have "data_wire r = q"
      by (simp add: RR_A length_v4_prefix)
    ultimately show "UnpackStruct msg spare n (layout_of n) off = Some (Ret (vs, o1 + length (data_wire r)))"
      using d b(2) reads_field [OF reads_ip(1) [of msg o1 q]]
      by (simp add: RR_A layouts layout_A_def hdr reads_end)
  next
    case (RR_AAAA h a)
    then obtain q where "n = ''AAAA''" "vs = [VStruct (hdr_fields h), VIP (Some q)]" "length q = 16" "a = Some q"
      using v data by (auto simp: hdr_value_fields)
    moreover from this have "data_wire r = q"
      by (simp add: RR_AAAA)
    ultimately show "UnpackStruct msg spare n (layout_of n) off = Some (Ret (vs, o1 + length (data_wire r)))"
      using d b(2) reads_field [OF reads_ip(2) [of msg o1 q]]
      by (simp add: RR_AAAA layouts layout_AAAA_def hdr reads_end)
  next
    case (OtherRR h x)
    then obtain ws where x: "x = (n, ws)" "vs = VStruct (hdr_fields h) # ws" "n \<in> set field_types"
        "good_fields n [] (tl (layout_of n)) ws" "Rrtype h \<noteq> TypeHIP"
      using v data with_header_field_type field_type_not_HIP by (cases x) auto
    let ?fs = "tl (layout_of n)"
    have w: "data_wire r = fields_wire ?fs ws"
      by (simp add: OtherRR x(1))
    have g: "good_fields n [(''Hdr'', VStruct (hdr_fields h))] ?fs ws"
      using x(4) by (simp add: good_fields_header)
    have "env_rrtype [(''Hdr'', VStruct (hdr_fields h))] \<noteq> TypeHIP"
      using x(5) by (simp add: env_rrtype_def)
    from reads_fields [OF g d [unfolded w] refl this]
    show "UnpackStruct msg spare n (layout_of n) off = Some (Ret (vs, o1 + length (data_wire r)))"
      by (subst field_type_layout [OF x(3)]) (simp only: hdr w x(2), simp add: OtherRR)
  qed
qed

end
