(* ===== verification/Dns_Room.thy ===== *)
theory Dns_Room
  imports Dns_Message_Codec
begin

text \<open>
  \<open>Len\<close> against the bytes: the method \<open>len\<close> of every record that can be read back counts at least the bytes
  the record is packed to, so the buffer \<open>PackBuffer\<close> makes is long enough. The methods of HINFO and NSAP-PTR
  records leave out length bytes; those types are not among them.
\<close>

section \<open>Records of their own constructors\<close>

lemma len_methods_simps:
  "len_methods ''PTR'' = Some len_PTR" "len_methods ''SRV'' = Some len_SRV" "len_methods ''TXT'' = Some len_TXT"
  "len_methods ''A'' = Some len_A" "len_methods ''AAAA'' = Some len_AAAA"
  by (simp_all add: len_methods_def)

lemma rr_len_simps:
  "rr_len (PTR h p) = Ret (hdr_len h + (length p + 1))"
  "rr_len (SRV h prio weight port target) = Ret (hdr_len h + (length target + 1) + 6)"
  "rr_len (TXT h ss) = Ret (hdr_len h + sum_list (map (\<lambda>t. length t + 1) ss))"
  "rr_len (RR_A h a) = Ret (hdr_len h + 4)" "rr_len (RR_AAAA h a) = Ret (hdr_len h + 16)"
  by (simp_all add: rr_len_def rr_fields_def strip_header_def hdr_value_fields hdr_fields_def hdr_of_def gval_vals hdr_len_def
      layouts layout_PTR_def layout_SRV_def layout_TXT_def layout_A_def layout_AAAA_def len_methods_simps
      len_PTR_def len_SRV_def len_TXT_def len_A_def len_AAAA_def str_len_def names_len_def field_val_def)

lemma length_txts_wire:
  "list_all good_txt ss \<Longrightarrow> length (concat (map txt_wire ss)) \<le> sum_list (map (\<lambda>t. length t + 1) ss)"
proof (induction ss)
  case (Cons s ss)
  then show ?case using length_txt_wire [of s] by simp
qed simp

section \<open>Records of fields\<close>

text \<open>The same for the types of fields: the kinds of the values are enough.\<close>

definition of_kind :: "gkind \<Rightarrow> gval \<Rightarrow> bool" where
  "of_kind k v =
     (case v of
        VU8 x \<Rightarrow> k = KUint8 | VU16 x \<Rightarrow> k = KUint16 | VU32 x \<Rightarrow> k = KUint32 | VU64 x \<Rightarrow> k = KUint64
      | VStr s \<Rightarrow> k = KString | _ \<Rightarrow> False)"

lemma of_kind_simps:
  "of_kind KUint8 v \<longleftrightarrow> (\<exists>x. v = VU8 x)" "of_kind KUint16 v \<longleftrightarrow> (\<exists>x. v = VU16 x)"
  "of_kind KUint32 v \<longleftrightarrow> (\<exists>x. v = VU32 x)" "of_kind KUint64 v \<longleftrightarrow> (\<exists>x. v = VU64 x)"
  "of_kind KString v \<longleftrightarrow> (\<exists>x. v = VStr x)"
  by (simp_all add: of_kind_def split: gval.splits)

fun of_kinds :: "gfield list \<Rightarrow> gval list \<Rightarrow> bool" where
  "of_kinds [] vs = (vs = [])"
| "of_kinds (Field n tag k # fs) vs = (\<exists>v vs'. vs = v # vs' \<and> of_kind k v \<and> of_kinds fs vs')"

fun value_len :: "string \<Rightarrow> gval \<Rightarrow> nat" where
  "value_len tag (VU8 x) = 1"
| "value_len tag (VU16 x) = 2"
| "value_len tag (VU32 x) = 4"
| "value_len tag (VU64 x) = (if tag = ''uint48'' then 6 else 8)"
| "value_len tag (VStr s) =
     (if tag = ''hex'' \<or> tag = ''size-hex'' then length s div 2
      else if tag = ''base64'' then base64_decoded_len (length s) else length s + 1)"
| "value_len tag _ = 0"

fun fields_len :: "gfield list \<Rightarrow> gval list \<Rightarrow> nat" where
  "fields_len (Field n tag k # fs) (v # vs) = value_len tag v + fields_len fs vs"
| "fields_len _ _ = 0"

lemma length_hex_encode: "length (hex_encode b) = 2 * length b"
  by (induction b) (simp_all add: hex_encode_def)

lemma value_room: "good_value tn env e n tag k v \<Longrightarrow> of_kind k v \<and> length (value_wire tag v) \<le> value_len tag v"
proof (cases v)
  case (VStr s)
  assume "good_value tn env e n tag k v"
  then have "good_string tn env e n tag s" "k = KString"
    by (simp_all add: VStr)
  from this(1) have "length (value_wire tag v) \<le> value_len tag v"
  proof (cases rule: good_stringE)
    case 1
    then show ?thesis using length_name_wire [of s] by (elim disjE) (simp_all add: VStr)
  next
    case 2
    then show ?thesis using length_txt_wire [of s] by (elim disjE) (simp_all add: VStr)
  qed (simp_all add: VStr hex_decode_encode base64_decode_encode length_hex_encode length_base64 base64_decoded_len_def)
  then show ?thesis by (simp add: VStr of_kind_def \<open>k = KString\<close>)
qed (simp_all add: of_kind_def)

lemma fields_room:
  "good_fields tn env fs vs \<Longrightarrow> of_kinds fs vs \<and> length (fields_wire fs vs) \<le> fields_len fs vs"
proof (induction tn env fs vs rule: good_fields.induct)
  case (2 tn env n tag k fs vs)
  then show ?case
    by (cases vs) (auto dest!: value_room intro: add_mono)
qed simp

lemma field_lens:
  "len_methods ''AFSDB'' = Some len_AFSDB" "len_methods ''CERT'' = Some len_CERT"
    "len_methods ''CNAME'' = Some len_CNAME" "len_methods ''DHCID'' = Some len_DHCID"
    "len_methods ''DNAME'' = Some len_DNAME" "len_methods ''DNSKEY'' = Some len_DNSKEY"
    "len_methods ''DS'' = Some len_DS" "len_methods ''EUI48'' = Some len_EUI48"
    "len_methods ''EUI64'' = Some len_EUI64" "len_methods ''GID'' = Some len_GID"
    "len_methods ''GPOS'' = Some len_GPOS" "len_methods ''EID'' = Some len_EID"
    "len_methods ''KX'' = Some len_KX" "len_methods ''L64'' = Some len_L64" "len_methods ''LOC'' = Some len_LOC"
    "len_methods ''LP'' = Some len_LP" "len_methods ''MB'' = Some len_MB" "len_methods ''MD'' = Some len_MD"
    "len_methods ''MF'' = Some len_MF" "len_methods ''MG'' = Some len_MG"
    "len_methods ''MINFO'' = Some len_MINFO" "len_methods ''MR'' = Some len_MR"
    "len_methods ''MX'' = Some len_MX" "len_methods ''NAPTR'' = Some len_NAPTR"
    "len_methods ''NID'' = Some len_NID" "len_methods ''NIMLOC'' = Some len_NIMLOC"
    "len_methods ''NS'' = Some len_NS" "len_methods ''OPENPGPKEY'' = Some len_OPENPGPKEY"
    "len_methods ''RKEY'' = Some len_RKEY" "len_methods ''RP'' = Some len_RP" "len_methods ''PX'' = Some len_PX"
    "len_methods ''RRSIG'' = Some len_RRSIG" "len_methods ''RT'' = Some len_RT"
    "len_methods ''SOA'' = Some len_SOA" "len_methods ''SSHFP'' = Some len_SSHFP"
    "len_methods ''TA'' = Some len_TA" "len_methods ''TALINK'' = Some len_TALINK"
    "len_methods ''TLSA'' = Some len_TLSA" "len_methods ''TSIG'' = Some len_TSIG"
    "len_methods ''UID'' = Some len_UID" "len_methods ''UINFO'' = Some len_UINFO"
    "len_methods ''X25'' = Some len_X25" "len_methods ''NSEC3PARAM'' = Some len_NSEC3PARAM"
  by (simp_all add: len_methods_def)

lemmas field_len_defs =
    len_AFSDB_def len_CERT_def len_CNAME_def len_DHCID_def len_DNAME_def len_DNSKEY_def len_DS_def
    len_EUI48_def len_EUI64_def len_GID_def len_GPOS_def len_EID_def len_KX_def len_L64_def len_LOC_def
    len_LP_def len_MB_def len_MD_def len_MF_def len_MG_def len_MINFO_def len_MR_def len_MX_def len_NAPTR_def
    len_NID_def len_NIMLOC_def len_NS_def len_OPENPGPKEY_def len_RKEY_def len_RP_def len_PX_def
    len_RRSIG_def len_RT_def len_SOA_def len_SSHFP_def len_TA_def len_TALINK_def len_TLSA_def len_TSIG_def
    len_UID_def len_UINFO_def len_X25_def len_NSEC3PARAM_def

lemma field_types_room:
  "list_all (\<lambda>n. \<forall>h vs. of_kinds (tl (layout_of n)) vs \<longrightarrow>
      (\<exists>l. rr_len (OtherRR h (n, vs)) = Ret l \<and> hdr_len h + fields_len (tl (layout_of n)) vs \<le> l)) field_types"
  unfolding field_types_def list.pred_inject
  by (intro conjI TrueI allI impI; clarsimp simp: field_layouts field_layout_defs field_lens field_len_defs of_kind_simps
      rr_len_def rr_fields_def strip_header_def hdr_value_fields hdr_fields_def hdr_of_def gval_vals str_len_def field_val_def hdr_len_def)

section \<open>Questions and records\<close>

lemma data_room:
  "good_data r \<Longrightarrow> \<exists>n. rr_len r = Ret (hdr_len (rr_hdr r) + n) \<and> length (data_wire r) \<le> n"
  using length_txts_wire
proof (cases r rule: data_wire.cases)
  case (6 h n vs)
  assume "good_data r"
  then have n: "n \<in> set field_types" "good_fields n [] (tl (layout_of n)) vs"
    by (simp_all add: 6)
  obtain l where "rr_len r = Ret l" "hdr_len h + fields_len (tl (layout_of n)) vs \<le> l"
    using bspec [OF field_types_room [unfolded list_all_iff] n(1)] fields_room [OF n(2)] by (simp add: 6) blast
  with fields_room [OF n(2)] show ?thesis
    by (intro exI [of _ "l - hdr_len h"]) (simp add: 6, linarith)
qed (auto simp: rr_len_simps length_v4_prefix dest: length_name_wire simp del: length_concat)

lemma rr_len_room:
  assumes "good_rr r"
  shows "\<exists>n. rr_len r = Ret n \<and> length (rr_wire r) \<le> n"
proof -
  have "length (hdr_wire ((rr_hdr r)\<lparr>Rdlength := l\<rparr>)) \<le> hdr_len (rr_hdr r)" for l
    using assms length_name_wire [of "RRName (rr_hdr r)"] by (simp add: good_rr_def hdr_wire_def hdr_len_def)
  moreover obtain n where "rr_len r = Ret (hdr_len (rr_hdr r) + n)" "length (data_wire r) \<le> n"
    using assms data_room by (auto simp: good_rr_def)
  ultimately show ?thesis
    by (auto simp: rr_wire_def intro: add_mono)
qed

lemma questions_room:
  "list_all (\<lambda>q. good_name (QName q)) qs \<Longrightarrow>
   length (concat (map question_wire qs)) \<le> sum_list (map question_len qs)"
proof (induction qs)
  case (Cons q qs)
  then have "length (question_wire q) \<le> question_len q"
    using length_name_wire [of "QName q"] by (simp add: question_wire_def question_len_def)
  with Cons show ?case by simp
qed simp

lemma len_questions_plain:
  "len_questions False qs (l, c) = (l + int (sum_list (map question_len qs)), c)"
  by (induction qs arbitrary: l) simp_all

lemma len_rrs_room:
  "list_all good_rr rs \<Longrightarrow>
   \<exists>n. len_rrs False rs (l, c) = Some (Ret (l + int n, c)) \<and> length (concat (map rr_wire rs)) \<le> n"
proof (induction rs arbitrary: l)
  case (Cons r rs)
  obtain k where k: "rr_len r = Ret k" "length (rr_wire r) \<le> k"
    using Cons.prems rr_len_room [of r] by auto
  obtain n where "len_rrs False rs (l + int k, c) = Some (Ret (l + int k + int n, c))"
      "length (concat (map rr_wire rs)) \<le> n"
    using Cons by fastforce
  with k show ?case
    by (intro exI [of _ "k + n"]) simp
qed simp

end
