(* ===== verification/Dns_Roundtrip.thy ===== *)
theory Dns_Roundtrip
  imports Dns_Room
begin

text \<open>
  Whole messages: the records of a message as items of a codec, the bits of the header, the room that
  \<open>Len\<close> reserves, and that \<open>Unpack\<close> inverts \<open>Pack\<close>.
\<close>

section \<open>Records as items\<close>

lemma rr_of_rr_value:
  "good_data r \<Longrightarrow> rr_value r = (n, vs) \<Longrightarrow> rr_of_value n vs = r"
proof (induction r rule: data_wire.induct)
  case (6 h m ws)
  then have m: "n = m" "vs = VStruct (hdr_fields h) # ws" "n \<in> set field_types"
    by (auto simp: with_header_field_type)
  then have "n \<notin> {''PTR'', ''SRV'', ''TXT'', ''A'', ''AAAA''}"
    by (auto simp: field_types_def)
  then show ?case
    unfolding m(2) by (auto simp: rr_of_value_def strip_header_def m(1) hdr_fields_def hdr_of_def gval_vals
        split: list.splits)
qed (auto simp: rr_of_value_def strip_header_def hdr_value_def hdr_of_def gval_vals)

lemma good_data_with_rdlength: "good_data (with_rdlength r) = good_data r"
  by (cases r rule: data_wire.cases) (simp_all add: with_rdlength_def)

lemma data_wire_with_rdlength [simp]: "data_wire (with_rdlength r) = data_wire r"
  by (simp add: with_rdlength_def)

lemma type_of_good_data:
  "good_data r \<Longrightarrow> rr_value r = (n, vs) \<Longrightarrow> typeToRR (Rrtype (rr_hdr r)) = Some (n, layout_of n)"
  by (cases r rule: data_wire.cases) (auto simp: types_to_rr layouts)

lemma reads_rr:
  assumes "good_rr r" and "holds_at msg off (rr_wire r)"
  shows "UnpackRR msg spare off = Some (Ret (with_rdlength r, off + length (rr_wire r)))"
proof -
  let ?r = "with_rdlength r"
  obtain n vs where v: "rr_value ?r = (n, vs)"
    by fastforce
  have g: "good_name (RRName (rr_hdr ?r))" "good_data ?r" "length (data_wire r) \<le> 65535"
    using assms(1) by (auto simp: good_rr_def good_data_with_rdlength)
  have len: "unat (Rdlength (rr_hdr ?r)) = length (data_wire ?r)"
    using g(3) by (simp add: unsigned_of_nat take_bit_eq_mod)
  have at: "holds_at msg off (hdr_wire (rr_hdr ?r) @ data_wire ?r)"
    using assms(2) by (simp add: rr_wire_def)
  then have h: "holds_at msg off (hdr_wire (rr_hdr ?r))"
    by (simp only: holds_at_append)
  have "UnpackStruct msg spare ''RR_Header'' layout_RR_Header off =
      Some (Ret (hdr_fields (rr_hdr ?r), off + length (hdr_wire (rr_hdr ?r))))"
    unfolding UnpackStruct_def by (rule reads_rr_header [OF g(1) h])
  moreover have "UnpackStruct msg spare n (layout_of n) off =
      Some (Ret (vs, off + length (hdr_wire (rr_hdr ?r)) + length (data_wire ?r)))"
    by (rule reads_record [OF g(1,2) v at len])
  ultimately show ?thesis
    by (simp only: UnpackRR_def wbind_simps prod.case hdr_of_fields Let_def type_of_good_data [OF g(2) v]
        option.case outcome.case len if_False rr_of_rr_value [OF g(2) v] not_True_eq_False)
      (simp add: rr_wire_def)
qed

interpretation rr_codec: item_codec "PackRR False" UnpackRR rr_wire good_rr with_rdlength
  by unfold_locales (simp_all add: packs_rr reads_rr)

section \<open>The header\<close>

lemma word_bit: "x AND push_bit n 1 \<noteq> 0 \<longleftrightarrow> bit x n" for x :: u16
  by (simp add: bit_iff_and_push_bit_not_eq_0)

lemma small_bit: "0 \<le> k \<Longrightarrow> k < 16 \<Longrightarrow> bit (k :: int) i \<Longrightarrow> i < 4"
proof -
  assume "0 \<le> k" "k < 16" and b: "bit k i"
  then have "k = take_bit 4 k"
    by (simp add: take_bit_int_eq_self)
  with b show "i < 4"
    by (metis bit_take_bit_iff)
qed

lemma header_bits_flags:
  assumes "0 \<le> Opcode m" "Opcode m < 16" "0 \<le> Rcode m" "Rcode m < 16"
  shows "header_bits m AND bit_QR \<noteq> 0 \<longleftrightarrow> Response m" "header_bits m AND bit_AA \<noteq> 0 \<longleftrightarrow> Authoritative m"
    "header_bits m AND bit_TC \<noteq> 0 \<longleftrightarrow> Truncated m" "header_bits m AND bit_RD \<noteq> 0 \<longleftrightarrow> RecursionDesired m"
    "header_bits m AND bit_RA \<noteq> 0 \<longleftrightarrow> RecursionAvailable m" "header_bits m AND bit_Z \<noteq> 0 \<longleftrightarrow> Zero m"
    "header_bits m AND bit_AD \<noteq> 0 \<longleftrightarrow> AuthenticatedData m" "header_bits m AND bit_CD \<noteq> 0 \<longleftrightarrow> CheckingDisabled m"
  unfolding header_bits_def header_bit_defs word_bit
  by (auto simp: bit_simps dest: small_bit [OF assms(1,2)] small_bit [OF assms(3,4)])

text \<open>The flags, between the two codes.\<close>

definition header_flags :: "dns_msg \<Rightarrow> u16" where
  "header_flags m =
     (if Response m then bit_QR else 0) OR (if Authoritative m then bit_AA else 0)
       OR (if Truncated m then bit_TC else 0) OR (if RecursionDesired m then bit_RD else 0)
       OR (if RecursionAvailable m then bit_RA else 0) OR (if Zero m then bit_Z else 0)
       OR (if AuthenticatedData m then bit_AD else 0) OR (if CheckingDisabled m then bit_CD else 0)"

lemma flag_bit: "bit (if b then push_bit n (1 :: u16) else 0) i \<Longrightarrow> i = n"
  by (auto simp: bit_simps split: if_splits)

lemma header_flags_bits: "bit (header_flags m) i \<Longrightarrow> 4 \<le> i \<and> (i \<le> 10 \<or> i = 15)"
  unfolding header_flags_def header_bit_defs bit_or_iff by (auto dest!: flag_bit simp del: push_bit_numeral)

lemma header_bits_codes:
  assumes "0 \<le> Opcode m" "Opcode m < 16" "0 \<le> Rcode m" "Rcode m < 16"
  shows "drop_bit 11 (header_bits m) AND 0xF = word_of_int (Opcode m)"
    "header_bits m AND 0xF = word_of_int (Rcode m)"
proof -
  have mask: "(0xF :: u16) = mask 4"
    by (simp add: mask_eq_exp_minus_1)
  have b: "header_bits m = push_bit 11 (word_of_int (Opcode m)) OR word_of_int (Rcode m) OR header_flags m"
    by (simp add: header_bits_def header_flags_def or.assoc)
  have o: "bit (word_of_int (Opcode m) :: u16) i \<longleftrightarrow> i < 4 \<and> bit (Opcode m) i" for i
    using small_bit [OF assms(1,2), of i] by (auto simp: bit_word_of_int_iff)
  have r: "bit (word_of_int (Rcode m) :: u16) i \<longleftrightarrow> i < 4 \<and> bit (Rcode m) i" for i
    using small_bit [OF assms(3,4), of i] by (auto simp: bit_word_of_int_iff)
  have f: "bit (header_flags m) i \<longrightarrow> 4 \<le> i \<and> (i \<le> 10 \<or> i = 15)" for i
    using header_flags_bits by blast
  have x: "bit (header_bits m) i \<longleftrightarrow>
      (11 \<le> i \<and> i < 15 \<and> bit (Opcode m) (i - 11)) \<or> (i < 4 \<and> bit (Rcode m) i) \<or> bit (header_flags m) i" for i
    unfolding b bit_or_iff r using o [of "i - 11"] by (auto simp: bit_push_bit_iff)
  have "bit (drop_bit 11 (header_bits m) AND mask 4) i \<longleftrightarrow> bit (word_of_int (Opcode m) :: u16) i" for i
  proof -
    have "bit (drop_bit 11 (header_bits m) AND mask 4) i \<longleftrightarrow> i < 4 \<and> bit (header_bits m) (11 + i)"
      by (auto simp: bit_and_iff bit_drop_bit_eq bit_mask_iff)
    then show ?thesis
      unfolding x o using f [of "11 + i"] by auto
  qed
  then show "drop_bit 11 (header_bits m) AND 0xF = word_of_int (Opcode m)"
    unfolding mask by (intro bit_eqI) blast
  have "bit (header_bits m AND mask 4) i \<longleftrightarrow> bit (word_of_int (Rcode m) :: u16) i" for i
    unfolding bit_and_iff x r bit_mask_iff using f [of i] by auto
  then show "header_bits m AND 0xF = word_of_int (Rcode m)"
    unfolding mask by (intro bit_eqI) blast
qed

section \<open>Messages\<close>

definition message_wire :: "dns_msg \<Rightarrow> bytes" where
  "message_wire m =
     be_bytes 2 (unat (Id m)) @ be_bytes 2 (unat (header_bits m))
       @ be_bytes 2 (unat (word_of_nat (length (Question m)) :: u16))
       @ be_bytes 2 (unat (word_of_nat (length (Answer m)) :: u16))
       @ be_bytes 2 (unat (word_of_nat (length (Ns m)) :: u16))
       @ be_bytes 2 (unat (word_of_nat (length (Extra m)) :: u16))
       @ concat (map question_wire (Question m)) @ concat (map rr_wire (Answer m))
       @ concat (map rr_wire (Ns m)) @ concat (map rr_wire (Extra m))"

text \<open>Messages without compression, of questions and records that can be packed.\<close>

definition good_msg :: "dns_msg \<Rightarrow> bool" where
  "good_msg m \<longleftrightarrow>
     \<not> Compress m \<and> \<not> Truncated m \<and> 0 \<le> Opcode m \<and> Opcode m < 16 \<and> 0 \<le> Rcode m \<and> Rcode m < 16
     \<and> list_all (\<lambda>q. good_name (QName q)) (Question m)
     \<and> list_all good_rr (Answer m) \<and> list_all good_rr (Ns m) \<and> list_all good_rr (Extra m)
     \<and> length (Question m) < 65536 \<and> length (Answer m) < 65536 \<and> length (Ns m) < 65536
     \<and> length (Extra m) < 65536"

lemma packs_message_header:
  "packs_as (packStructValue False layout_Header [VU16 a, VU16 b, VU16 c, VU16 d, VU16 e, VU16 f])
     (be_bytes 2 (unat a) @ be_bytes 2 (unat b) @ be_bytes 2 (unat c) @ be_bytes 2 (unat d)
       @ be_bytes 2 (unat e) @ be_bytes 2 (unat f))"
  unfolding layout_Header_def by (intro packs_field packs_last packs_u16) simp_all

lemma pack_message_wire:
  assumes "good_msg m" and "length (message_wire m) \<le> length buf"
  shows "pack_message m buf =
     Ret (length (message_wire m), message_wire m @ drop (length (message_wire m)) buf, Map.empty)"
proof -
  have g: "\<not> Compress m" "list_all (\<lambda>q. good_name (QName q)) (Question m)" "list_all good_rr (Answer m)"
    "list_all good_rr (Ns m)" "list_all good_rr (Extra m)"
    using assms(1) by (simp_all add: good_msg_def)
  note p = packs_as_seq [OF packs_message_header packs_as_seq [OF question_codec.packs_list [OF g(2)]
      packs_as_seq [OF rr_codec.packs_list [OF g(3)]
      packs_as_seq [OF rr_codec.packs_list [OF g(4)] rr_codec.packs_list [OF g(5)]]]]]
  have "pack_message m buf = obind (packStructValue False layout_Header (msg_header_values m) (0, buf, Map.empty))
     (\<lambda>st. obind (pack_all (pack_question False) (Question m) st)
       (\<lambda>st. obind (pack_all (PackRR False) (Answer m) st)
         (\<lambda>st. obind (pack_all (PackRR False) (Ns m) st) (pack_all (PackRR False) (Extra m)))))"
    using g(1) by (simp add: pack_message_def)
  also have "\<dots> = Ret (length (message_wire m), message_wire m @ drop (length (message_wire m)) buf, Map.empty)"
    using packs_asD [OF p, where r = buf and w = "[]" and cm = Map.empty] assms(2)
    by (simp add: msg_header_values_def message_wire_def del: length_concat)
  finally show ?thesis .
qed

text \<open>\<open>Len\<close> reserves enough for it.\<close>

lemma Len_room:
  assumes "good_msg m"
  shows "\<exists>l. Len m = Some (Ret l) \<and> int (length (message_wire m)) \<le> l"
proof -
  have g: "\<not> Compress m" "list_all (\<lambda>q. good_name (QName q)) (Question m)" "list_all good_rr (Answer m)"
    "list_all good_rr (Ns m)" "list_all good_rr (Extra m)"
    using assms by (simp_all add: good_msg_def)
  note q = questions_room [OF g(2)]
  let ?l = "12 + int (sum_list (map question_len (Question m)))"
  obtain a where a: "len_rrs False (Answer m) (?l, Map.empty) = Some (Ret (?l + int a, Map.empty))"
      "length (concat (map rr_wire (Answer m))) \<le> a"
    using len_rrs_room [OF g(3), of ?l Map.empty] by blast
  obtain b where b: "len_rrs False (Ns m) (?l + int a, Map.empty) = Some (Ret (?l + int a + int b, Map.empty))"
      "length (concat (map rr_wire (Ns m))) \<le> b"
    using len_rrs_room [OF g(4), of "?l + int a" Map.empty] by blast
  obtain c where c: "len_rrs False (Extra m) (?l + int a + int b, Map.empty) =
        Some (Ret (?l + int a + int b + int c, Map.empty))"
      "length (concat (map rr_wire (Extra m))) \<le> c"
    using len_rrs_room [OF g(5), of "?l + int a + int b" Map.empty] by blast
  have "Len m = Some (Ret (?l + int a + int b + int c))"
    using g(1) by (simp only: Len_def Let_def len_questions_plain a(1) b(1) c(1) wbind_simps prod.case)
  moreover have "int (length (message_wire m)) \<le> ?l + int a + int b + int c"
    using q a(2) b(2) c(2) by (simp add: message_wire_def del: length_concat)
  ultimately show ?thesis by blast
qed

lemma Pack_wire:
  assumes "good_msg m"
  shows "Pack m = Some (Ret (message_wire m))"
proof -
  have g: "m\<lparr>Compress := False\<rparr> = m" "\<not> Rcode m < 0" "\<not> 0xFFF < Rcode m" "\<not> 0xF < Rcode m"
    using assms by (simp_all add: good_msg_def)
  obtain l where l: "Len m = Some (Ret l)" "int (length (message_wire m)) \<le> l"
    using Len_room [OF assms] by blast
  then have p: "pack_message m (replicate (nat (l + 1)) 0) =
     Ret (length (message_wire m), message_wire m @ drop (length (message_wire m)) (replicate (nat (l + 1)) 0), Map.empty)"
    by (intro pack_message_wire [OF assms]) simp
  have "0 < l + 1"
    using l(2) by simp
  then show ?thesis
    unfolding Pack_def PackBuffer_def pack_rcode_def if_not_P [OF g(4)]
    using g l(1) by (simp add: Let_def p)
qed

text \<open>The message as the receiver sees it: the data lengths are in the headers of its records.\<close>

definition received :: "dns_msg \<Rightarrow> dns_msg" where
  "received m =
     m\<lparr>Answer := map with_rdlength (Answer m), Ns := map with_rdlength (Ns m),
       Extra := map with_rdlength (Extra m)\<rparr>"

lemma reads_message_header:
  assumes "holds_at msg 0 (be_bytes 2 (unat a) @ be_bytes 2 (unat b) @ be_bytes 2 (unat c) @ be_bytes 2 (unat d)
       @ be_bytes 2 (unat e) @ be_bytes 2 (unat f))"
  shows "UnpackStruct msg spare ''Header'' layout_Header 0 = Some (Ret ([VU16 a, VU16 b, VU16 c, VU16 d, VU16 e, VU16 f], 12))"
proof -
  have h: "holds_at msg 0 (be_bytes 2 (unat a))" "holds_at msg 2 (be_bytes 2 (unat b))"
    "holds_at msg 4 (be_bytes 2 (unat c))" "holds_at msg 6 (be_bytes 2 (unat d))"
    "holds_at msg 8 (be_bytes 2 (unat e))" "holds_at msg 10 (be_bytes 2 (unat f))"
    using assms by (simp_all add: holds_at_append)
  show ?thesis
    unfolding UnpackStruct_def layout_Header_def
    using holds_at_bound [OF h(6)]
    by (simp add: reads_field [OF reads_u16 [OF h(1)]] reads_field [OF reads_u16 [OF h(2)]]
        reads_field [OF reads_u16 [OF h(3)]] reads_field [OF reads_u16 [OF h(4)]]
        reads_field [OF reads_u16 [OF h(5)]] reads_field [OF reads_u16 [OF h(6)]] reads_end)
qed

lemma header_msg_values:
  assumes "good_msg m"
  shows "header_msg m0 (msg_header_values m) =
     m0\<lparr>Id := Id m, Response := Response m, Opcode := Opcode m, Authoritative := Authoritative m,
        Truncated := False, RecursionDesired := RecursionDesired m, RecursionAvailable := RecursionAvailable m,
        Zero := Zero m, AuthenticatedData := AuthenticatedData m, CheckingDisabled := CheckingDisabled m,
        Rcode := Rcode m\<rparr>"
proof -
  have g: "0 \<le> Opcode m" "Opcode m < 16" "0 \<le> Rcode m" "Rcode m < 16" "\<not> Truncated m"
    using assms by (simp_all add: good_msg_def)
  have v: "u16_val (msg_header_values m ! 0) = Id m" "u16_val (msg_header_values m ! 1) = header_bits m"
    by (simp_all add: msg_header_values_def gval_vals)
  have n: "int (unat (word_of_int k :: u16)) = k" if "0 \<le> k" "k < 16" for k
    using that by (simp add: uint_nat [symmetric] take_bit_int_eq_self unsigned_of_int)
  show ?thesis
    unfolding header_msg_def Let_def v header_bits_flags [OF g(1-4)] header_bits_codes [OF g(1-4)]
      n [OF g(1,2)] n [OF g(3,4)]
    using g(5) by simp
qed

definition end_of_questions :: "dns_msg \<Rightarrow> nat" where
  "end_of_questions m = 12 + length (concat (map question_wire (Question m)))"

definition end_of_answers :: "dns_msg \<Rightarrow> nat" where
  "end_of_answers m = end_of_questions m + length (concat (map rr_wire (Answer m)))"

definition end_of_authority :: "dns_msg \<Rightarrow> nat" where
  "end_of_authority m = end_of_answers m + length (concat (map rr_wire (Ns m)))"

text \<open>The parts of a message that stand at the start of the bytes, one after the other.\<close>

lemma reads_sections:
  assumes m: "good_msg m" and at: "holds_at msg 0 (message_wire m)"
  shows "UnpackStruct msg spare ''Header'' layout_Header 0 = Some (Ret (msg_header_values m, 12))"
    "unpack_n (unpack_question msg spare) (length (Question m)) 12 = Some (Ret (Question m, end_of_questions m))"
    "unpack_n (UnpackRR msg spare) (length (Answer m)) (end_of_questions m) =
       Some (Ret (map with_rdlength (Answer m), end_of_answers m))"
    "unpack_n (UnpackRR msg spare) (length (Ns m)) (end_of_answers m) =
       Some (Ret (map with_rdlength (Ns m), end_of_authority m))"
    "holds_at msg (end_of_authority m) (concat (map rr_wire (Extra m)))"
proof -
  have g: "list_all (\<lambda>q. good_name (QName q)) (Question m)" "list_all good_rr (Answer m)" "list_all good_rr (Ns m)"
    using m by (simp_all add: good_msg_def)
  have w: "message_wire m = (be_bytes 2 (unat (Id m)) @ be_bytes 2 (unat (header_bits m))
       @ be_bytes 2 (unat (word_of_nat (length (Question m)) :: u16))
       @ be_bytes 2 (unat (word_of_nat (length (Answer m)) :: u16))
       @ be_bytes 2 (unat (word_of_nat (length (Ns m)) :: u16))
       @ be_bytes 2 (unat (word_of_nat (length (Extra m)) :: u16)))
       @ concat (map question_wire (Question m)) @ concat (map rr_wire (Answer m))
       @ concat (map rr_wire (Ns m)) @ concat (map rr_wire (Extra m))"
    by (simp add: message_wire_def)
  have h: "holds_at msg 0 (be_bytes 2 (unat (Id m)) @ be_bytes 2 (unat (header_bits m))
       @ be_bytes 2 (unat (word_of_nat (length (Question m)) :: u16))
       @ be_bytes 2 (unat (word_of_nat (length (Answer m)) :: u16))
       @ be_bytes 2 (unat (word_of_nat (length (Ns m)) :: u16))
       @ be_bytes 2 (unat (word_of_nat (length (Extra m)) :: u16)))"
    using at unfolding w holds_at_append [of msg 0] by (rule conjunct1)
  have s: "holds_at msg 12 (concat (map question_wire (Question m)))"
    "holds_at msg (end_of_questions m) (concat (map rr_wire (Answer m)))"
    "holds_at msg (end_of_answers m) (concat (map rr_wire (Ns m)))"
    "holds_at msg (end_of_authority m) (concat (map rr_wire (Extra m)))"
    using at by (simp_all add: w holds_at_append end_of_questions_def end_of_answers_def end_of_authority_def
        ac_simps del: length_concat)
  show "UnpackStruct msg spare ''Header'' layout_Header 0 = Some (Ret (msg_header_values m, 12))"
    using reads_message_header [OF h, of spare] by (simp add: msg_header_values_def)
  show "unpack_n (unpack_question msg spare) (length (Question m)) 12 = Some (Ret (Question m, end_of_questions m))"
    using question_codec.reads_list [OF g(1) s(1)] by (simp add: end_of_questions_def del: length_concat)
  show "unpack_n (UnpackRR msg spare) (length (Answer m)) (end_of_questions m) =
       Some (Ret (map with_rdlength (Answer m), end_of_answers m))"
    using rr_codec.reads_list [OF g(2) s(2)] by (simp add: end_of_answers_def del: length_concat)
  show "unpack_n (UnpackRR msg spare) (length (Ns m)) (end_of_answers m) =
       Some (Ret (map with_rdlength (Ns m), end_of_authority m))"
    using rr_codec.reads_list [OF g(3) s(3)] by (simp add: end_of_authority_def del: length_concat)
  show "holds_at msg (end_of_authority m) (concat (map rr_wire (Extra m)))"
    by (rule s(4))
qed

lemma header_counts:
  assumes "good_msg m"
  shows "unat (u16_val (msg_header_values m ! 2)) = length (Question m)"
    "unat (u16_val (msg_header_values m ! 3)) = length (Answer m)"
    "unat (u16_val (msg_header_values m ! 4)) = length (Ns m)"
    "unat (u16_val (msg_header_values m ! 5)) = length (Extra m)"
  using assms
  by (simp_all add: good_msg_def msg_header_values_def gval_vals unsigned_of_nat take_bit_eq_mod)

theorem Unpack_wire:
  assumes m: "good_msg m" and at: "holds_at msg 0 (message_wire m)"
  shows "Unpack m0 msg spare = Some (Ret ((received m)\<lparr>Compress := Compress m0\<rparr>))"
proof -
  have g: "list_all good_rr (Extra m)" "\<not> Truncated m"
    using m by (simp_all add: good_msg_def)
  note sec = reads_sections [OF m at]
  note extra = rr_codec.reads_list [OF g(1) sec(5), of spare]
  show ?thesis
    unfolding Unpack_def sec(1) wbind_simps prod.case Let_def header_msg_values [OF m] header_counts [OF m]
      sec(2-4) extra
    using g(2) by (simp add: received_def)
qed

end
