(* ===== verification/Dns_Tsig_Codec.thy ===== *)
theory Dns_Tsig_Codec
  imports Dns_Tsig Dns_Roundtrip
begin

text \<open>
  A signed message on the wire: what \<open>TsigGenerate\<close> sends is the message with one more record, and
  \<open>TsigVerify\<close> strips that record and computes the MAC over the same bytes.
\<close>

section \<open>Names in lower case\<close>

lemma lower_escape: "map lower_char (escape_char c) = escape_char (lower_char c)"
proof (cases "65 \<le> (of_char c :: nat) \<and> (of_char c :: nat) \<le> 90")
  case True
  have "escape_char d = [d]"
    if "65 \<le> (of_char d :: nat) \<and> (of_char d :: nat) \<le> 90 \<or> 97 \<le> (of_char d :: nat) \<and> (of_char d :: nat) \<le> 122" for d
    using that by (auto simp: escape_char_def)
  then have "escape_char c = [c]" "escape_char (lower_char c) = [lower_char c]"
    using True by (simp_all add: lower_char_def Let_def)
  then show ?thesis by simp
next
  case False
  have digit: "is_digit d \<Longrightarrow> lower_char d = d" for d
    by (auto simp: is_digit_def lower_char_def Let_def)
  have c: "lower_char c = c"
    using False by (auto simp: lower_char_def Let_def)
  have fixed: "lower_char (CHR 0x5C) = CHR 0x5C" "lower_char (CHR ''t'') = CHR ''t''" "lower_char (CHR ''r'') = CHR ''r''"
    "lower_char (CHR 0x09) = CHR 0x09" "lower_char (CHR 0x0D) = CHR 0x0D"
    by (simp_all add: lower_char_def)
  show ?thesis
    by (cases c rule: escape_char_cases) (auto simp: c fixed digit split: if_splits)
qed

lemma lower_name_text: "to_lower (name_text ls) = name_text (map (map lower_char) ls)"
proof -
  have "map lower_char (label_text l) = label_text (map lower_char l)" for l
    by (induction l) (simp_all add: lower_escape)
  then have "map lower_char (labels_text ls) = labels_text (map (map lower_char) ls)" for ls
    by (induction ls) (simp_all add: lower_char_def)
  then show ?thesis
    by (simp add: to_lower_def name_text_def lower_char_def)
qed

lemma good_name_lower: "good_name s \<Longrightarrow> good_name (to_lower s)"
proof -
  assume "good_name s"
  then obtain ls where "list_all wire_label ls" "s = name_text ls"
    by (auto simp: good_name_def)
  moreover from this have "list_all wire_label (map (map lower_char) ls)"
    by (auto simp: list_all_iff wire_label_def)
  ultimately show ?thesis
    unfolding good_name_def by (metis lower_name_text)
qed

section \<open>The bytes under the MAC\<close>

lemma struct_bytes_wire:
  assumes "packs_as (packStructValue False fs vs) bs" and "length bs \<le> k"
  shows "struct_bytes fs vs k = Ret bs"
  using packs_asD [OF assms(1), of "replicate k 0" "[]" Map.empty] assms(2) by (simp add: struct_bytes_def)

definition mac_wire :: "bytes \<Rightarrow> bytes" where
  "mac_wire rm = (if rm = [] then [] else be_bytes 2 (length rm) @ rm)"

definition tsig_vars :: "tsig \<Rightarrow> bool \<Rightarrow> bytes" where
  "tsig_vars rr timersOnly =
     (if timersOnly then be_bytes 6 (unat (TimeSigned rr)) @ be_bytes 2 (unat (Fudge rr))
      else name_wire (to_lower (RRName (TsigHdr rr))) @ be_bytes 2 255 @ be_bytes 4 (unat (Ttl (TsigHdr rr)))
        @ name_wire (to_lower (Algorithm rr)) @ be_bytes 6 (unat (TimeSigned rr)) @ be_bytes 2 (unat (Fudge rr))
        @ be_bytes 2 (unat (TsigError rr)) @ be_bytes 2 (unat (OtherLen rr)))"

text \<open>Records as \<open>SetTsig\<close> leaves them, with a known algorithm and a time.\<close>

definition plain_tsig :: "tsig \<Rightarrow> bool" where
  "plain_tsig t \<longleftrightarrow>
     good_name (RRName (TsigHdr t)) \<and> length (RRName (TsigHdr t)) \<le> 4000 \<and> Ttl (TsigHdr t) = 0
     \<and> hash_of (Algorithm t) \<noteq> None \<and> TimeSigned t \<noteq> 0 \<and> unat (TimeSigned t) < 256 ^ 6 \<and> Fudge t \<noteq> 0
     \<and> TsigError t = 0 \<and> OtherLen t = 0 \<and> OtherData t = []"

lemma tsig_defaults_plain: "plain_tsig t \<Longrightarrow> tsig_defaults now t = t"
  by (simp add: plain_tsig_def tsig_defaults_def)

lemma hash_of_cases:
  assumes "hash_of alg = Some H"
  obtains "alg = HmacMD5" "H = md5" | "alg = HmacSHA1" "H = sha1" | "alg = HmacSHA256" "H = sha256"
  using assms by (auto simp: hash_of_def split: if_splits)

lemma length_hmac: "hash_of alg = Some H \<Longrightarrow> length (hmac H k m) \<le> 32"
  by (elim hash_of_cases) (simp_all add: hmac_def Let_def length_md5 length_sha1 length_sha256)

lemma good_algorithm: "hash_of alg = Some H \<Longrightarrow> good_name alg \<and> length alg \<le> 25"
proof -
  have "good_name HmacMD5" "good_name HmacSHA1" "good_name HmacSHA256"
    unfolding good_name_def
    by (rule exI [of _ "[''hmac-md5'', ''sig-alg'', ''reg'', ''int'']"],
        simp add: wire_label_def HmacMD5_def name_text_def escape_char_def)
      (rule exI [of _ "[''hmac-sha1'']"], simp add: wire_label_def HmacSHA1_def name_text_def escape_char_def,
       rule exI [of _ "[''hmac-sha256'']"], simp add: wire_label_def HmacSHA256_def name_text_def escape_char_def)
  moreover assume "hash_of alg = Some H"
  ultimately show ?thesis
    by (elim hash_of_cases) (simp_all add: HmacMD5_def HmacSHA1_def HmacSHA256_def)
qed

text \<open>The structures under the MAC have nothing but fields that can be packed.\<close>

lemma packs_tsig_vars:
  assumes "plain_tsig t"
  shows "packs_as (packStructValue False layout_tsigWireFmt
      [VStr (to_lower (RRName (TsigHdr t))), VU16 ClassANY, VU32 (Ttl (TsigHdr t)), VStr (to_lower (Algorithm t)),
       VU64 (TimeSigned t), VU16 (Fudge t), VU16 (TsigError t), VU16 (OtherLen t), VStr (OtherData t)])
      (tsig_vars t False)"
proof -
  obtain H where "hash_of (Algorithm t) = Some H"
    using assms by (auto simp: plain_tsig_def)
  then have g: "good_name (to_lower (RRName (TsigHdr t)))" "good_name (to_lower (Algorithm t))"
    using assms good_algorithm by (auto simp: plain_tsig_def good_name_lower)
  have "good_fields ''TSIG'' [] layout_tsigWireFmt
      [VStr (to_lower (RRName (TsigHdr t))), VU16 ClassANY, VU32 (Ttl (TsigHdr t)), VStr (to_lower (Algorithm t)),
       VU64 (TimeSigned t), VU16 (Fudge t), VU16 (TsigError t), VU16 (OtherLen t), VStr (OtherData t)]"
    using assms g
    by (simp add: layout_tsigWireFmt_def good_string_def plain_tsig_def string_size_def uint_field_def
        exI [of _ "[]"] hex_encode_Nil del: power_numeral)
  from packs_fields [OF this] show ?thesis
    using assms by (simp add: layout_tsigWireFmt_def tsig_vars_def ClassANY_def plain_tsig_def)
qed

lemma packs_tsig_timers:
  "packs_as (packStructValue False layout_timerWireFmt [VU64 (TimeSigned t), VU16 (Fudge t)]) (tsig_vars t True)"
proof -
  have "packs_as (pack_value False ''uint48'' (VU64 (TimeSigned t))) (be_bytes 6 (unat (TimeSigned t)))"
    using packs_put by (simp add: packs_as_def)
  from packs_field [OF this packs_last [OF packs_u16]] show ?thesis
    by (simp add: layout_timerWireFmt_def tsig_vars_def)
qed

lemma tsigBuffer_wire:
  assumes t: "plain_tsig t" and rm: "rm = [] \<or> 2 \<le> length rm \<and> length rm < 65536"
  shows "tsigBuffer msgbuf t (hex_encode rm) timersOnly = Ret (mac_wire rm @ msgbuf @ tsig_vars t timersOnly)"
proof -
  have "packs_as (packStructValue False layout_macWireFmt
      [VU16 (word_of_nat (length (hex_encode rm) div 2)), VStr (hex_encode rm)]) (be_bytes 2 (length rm) @ rm)"
    if "length rm < 65536"
  proof -
    have "unat (word_of_nat (length rm) :: u16) = length rm"
      using that by (simp add: unsigned_of_nat take_bit_eq_mod)
    then have "good_fields ''TSIG'' [] layout_macWireFmt
        [VU16 (word_of_nat (length (hex_encode rm) div 2)), VStr (hex_encode rm)]"
      by (auto simp: layout_macWireFmt_def good_string_def string_size_def uint_field_def length_hex_encode)
    from packs_fields [OF this] show ?thesis
      using \<open>unat _ = length rm\<close> by (simp add: layout_macWireFmt_def length_hex_encode hex_decode_encode)
  qed
  then have m: "(if hex_encode rm = [] then Ret []
      else struct_bytes layout_macWireFmt [VU16 (word_of_nat (length (hex_encode rm) div 2)), VStr (hex_encode rm)]
             (length (hex_encode rm))) = Ret (mac_wire rm)"
    using rm length_hex_encode [of rm] struct_bytes_wire by (auto simp: mac_wire_def hex_encode_Nil)
  have "length (name_wire (to_lower (RRName (TsigHdr t)))) \<le> 4001"
    using t length_name_wire [OF good_name_lower, of "RRName (TsigHdr t)"] by (simp add: plain_tsig_def to_lower_def)
  moreover obtain H where "hash_of (Algorithm t) = Some H"
    using t by (auto simp: plain_tsig_def)
  then have "length (name_wire (to_lower (Algorithm t))) \<le> 26"
    using length_name_wire [OF good_name_lower, of "Algorithm t"] good_algorithm by (fastforce simp: to_lower_def)
  ultimately have "length (tsig_vars t timersOnly) \<le> DefaultMsgSize"
    by (simp add: tsig_vars_def DefaultMsgSize_def)
  then show ?thesis
    using struct_bytes_wire [OF packs_tsig_vars [OF t]] struct_bytes_wire [OF packs_tsig_timers]
    by (cases timersOnly) (simp_all add: tsigBuffer_def m)
qed

section \<open>The record\<close>

lemma good_tsig_rr:
  assumes t: "plain_tsig t" and mac: "length mac \<le> 32"
  shows "good_rr (tsig_rr (signed_tsig t ident mac))"
proof -
  let ?s = "signed_tsig t ident mac"
  obtain H where "hash_of (Algorithm t) = Some H"
    using t by (auto simp: plain_tsig_def)
  then have a: "good_name (Algorithm t)" "length (Algorithm t) \<le> 25"
    using good_algorithm by blast+
  have l: "unat (word_of_nat (length mac) :: u16) = length mac"
    using mac by (simp add: unsigned_of_nat take_bit_eq_mod)
  have f: "typeToRR TypeTSIG = Some (''TSIG'', layout_TSIG)" "''TSIG'' \<in> set field_types"
    by (simp_all add: typeToRR_def rr_table_def type_codes) (simp add: field_types_def)
  have "good_fields ''TSIG'' [] (tl layout_TSIG)
      [VStr (Algorithm t), VU64 (TimeSigned t), VU16 (Fudge t), VU16 (MACSize ?s), VStr (MAC ?s), VU16 ident,
       VU16 0, VU16 0, VStr []]"
    using t a l
    by (simp add: layout_TSIG_def good_string_def plain_tsig_def string_size_def uint_field_def signed_tsig_def
        length_hex_encode exI [of _ "[]"] hex_encode_Nil del: power_numeral) blast
  then have "good_data (tsig_rr ?s)"
    by (simp add: tsig_rr_def signed_tsig_def f field_layouts)
  moreover have "length (data_wire (tsig_rr ?s)) \<le> 65535"
    using length_name_wire [OF a(1)] a(2) mac
    by (simp add: tsig_rr_def signed_tsig_def field_layouts layout_TSIG_def hex_decode_encode)
  ultimately show ?thesis
    using t by (simp add: good_rr_def plain_tsig_def) (simp add: tsig_rr_def signed_tsig_def)
qed

section \<open>The signed message\<close>

text \<open>The bytes of a message around the number of its additional records.\<close>

definition wire_head :: "dns_msg \<Rightarrow> bytes" where
  "wire_head m =
     be_bytes 2 (unat (Id m)) @ be_bytes 2 (unat (header_bits m))
       @ be_bytes 2 (unat (word_of_nat (length (Question m)) :: u16))
       @ be_bytes 2 (unat (word_of_nat (length (Answer m)) :: u16))
       @ be_bytes 2 (unat (word_of_nat (length (Ns m)) :: u16))"

definition wire_body :: "dns_msg \<Rightarrow> bytes" where
  "wire_body m =
     concat (map question_wire (Question m)) @ concat (map rr_wire (Answer m)) @ concat (map rr_wire (Ns m))"

lemma length_wire_head: "length (wire_head m) = 10"
  by (simp add: wire_head_def)

lemma message_wire_parts:
  "message_wire (m\<lparr>Extra := es\<rparr>) =
     wire_head m @ be_bytes 2 (unat (word_of_nat (length es) :: u16)) @ wire_body m @ concat (map rr_wire es)"
  by (simp add: message_wire_def wire_head_def wire_body_def header_bits_def)

lemma message_wire_parts_same:
  "message_wire m =
     wire_head m @ be_bytes 2 (unat (word_of_nat (length (Extra m)) :: u16)) @ wire_body m @ concat (map rr_wire (Extra m))"
  using message_wire_parts [of "Extra m" m] by simp

lemma write_count:
  "write_at (wire_head m @ be_bytes 2 a @ x) 10 (be_bytes 2 b) = wire_head m @ be_bytes 2 b @ x"
  using write_at_append [OF length_wire_head, of m "be_bytes 2 a @ x" "be_bytes 2 b"] by simp

lemma rawSetExtraLen_wire:
  "rawSetExtraLen (message_wire m @ rr_wire r) (word_of_nat (length (Extra m) + 1)) =
     Some (message_wire (m\<lparr>Extra := Extra m @ [r]\<rparr>))"
  unfolding message_wire_parts message_wire_parts_same [of m] append_assoc rawSetExtraLen_def write_count
  by (simp add: length_wire_head)

lemma PackRR_alone:
  assumes "good_rr r" and "rr_len r = Ret l"
  shows "\<exists>m cm. PackRR False r (0, replicate l 0, Map.empty) = Ret (length (rr_wire r), m, cm)
    \<and> take (length (rr_wire r)) m = rr_wire r"
proof -
  have "length (rr_wire r) \<le> length (replicate l (0 :: byte))"
    using rr_len_room [OF assms(1)] assms(2) by auto
  from packs_asD [OF packs_rr [OF assms(1)] this, of "[]" Map.empty] show ?thesis
    by (simp add: exI)
qed

lemma TsigGenerate_wire:
  assumes m: "good_msg m" and t: "plain_tsig stub" "Rrtype (TsigHdr stub) = TypeTSIG"
    and H: "hash_of (Algorithm stub) = Some H" and key: "base64_decode secret = Some key"
    and rm: "rm = [] \<or> 2 \<le> length rm \<and> length rm < 65536"
    and mac: "mac = hmac H key (mac_wire rm @ message_wire m @ tsig_vars stub timersOnly)"
  shows "TsigGenerate now (m\<lparr>Extra := Extra m @ [tsig_rr stub]\<rparr>) secret (hex_encode rm) timersOnly =
    Some (Ret (m, message_wire (m\<lparr>Extra := Extra m @ [tsig_rr (signed_tsig stub (Id m) mac)]\<rparr>), hex_encode mac))"
proof -
  let ?r = "tsig_rr (signed_tsig stub (Id m) mac)"
  have ist: "IsTsig (m\<lparr>Extra := Extra m @ [tsig_rr stub]\<rparr>) = Ret (Some stub)"
    using t(2) as_tsig_rr [of stub] by (simp add: IsTsig_def) (simp add: tsig_rr_def)
  have g: "good_rr ?r"
    using good_tsig_rr [OF t(1)] length_hmac [OF H] by (simp add: mac)
  have code: "pack_rcode m = Ret m"
    using m by (simp add: pack_rcode_def good_msg_def)
  obtain l where l: "rr_len ?r = Ret l"
    using rr_len_room [OF g] by blast
  obtain b cm where b: "PackRR False ?r (0, replicate l 0, Map.empty) = Ret (length (rr_wire ?r), b, cm)"
      "take (length (rr_wire ?r)) b = rr_wire ?r"
    using PackRR_alone [OF g l] by blast
  have mac': "MAC (signed_tsig stub (Id m) mac) = hex_encode mac"
    by (simp add: signed_tsig_def)
  have m': "m\<lparr>Extra := Extra m @ [tsig_rr stub], Extra := butlast (Extra (m\<lparr>Extra := Extra m @ [tsig_rr stub]\<rparr>))\<rparr> = m"
    by simp
  show ?thesis
    unfolding TsigGenerate_def ist wbind_simps option.case packBase64_def key Let_def m' Pack_wire [OF m] code
      tsig_defaults_plain [OF t(1)] H tsigBuffer_wire [OF t(1) rm] mac [symmetric] l b prod.case
      rawSetExtraLen_wire mac' ..
qed

section \<open>Stripping the record\<close>

lemma strip_extra_wire:
  "list_all good_rr rs \<Longrightarrow> \<forall>r\<in>set rs. Rrtype (rr_hdr r) \<noteq> TypeTSIG \<Longrightarrow> good_rr (tsig_rr t) \<Longrightarrow>
   Rrtype (TsigHdr t) = TypeTSIG \<Longrightarrow> holds_at msg off (concat (map rr_wire (rs @ [tsig_rr t]))) \<Longrightarrow>
   \<exists>h. strip_extra msg spare (Suc (length rs)) off tsigoff =
     Some (Ret (off + length (concat (map rr_wire rs)), Some (t\<lparr>TsigHdr := (TsigHdr t)\<lparr>Rdlength := h\<rparr>\<rparr>)))"
proof (induction rs arbitrary: off tsigoff)
  case Nil
  then have "UnpackRR msg spare off = Some (Ret (with_rdlength (tsig_rr t), off + length (rr_wire (tsig_rr t))))"
    by (intro reads_rr) (simp_all add: holds_at_append)
  moreover have "as_tsig (with_rdlength (tsig_rr t)) =
      Some (t\<lparr>TsigHdr := (TsigHdr t)\<lparr>Rdlength := word_of_nat (length (data_wire (tsig_rr t)))\<rparr>\<rparr>)"
    by (simp add: with_rdlength_def as_tsig_def tsig_rr_def)
  moreover have "Rrtype (rr_hdr (tsig_rr t)) = TypeTSIG"
    using Nil.prems(4) by (simp add: tsig_rr_def)
  ultimately show ?case by auto
next
  case (Cons r rs)
  then have "UnpackRR msg spare off = Some (Ret (with_rdlength r, off + length (rr_wire r)))"
    by (intro reads_rr) (simp_all add: holds_at_append)
  moreover obtain h where "strip_extra msg spare (Suc (length rs)) (off + length (rr_wire r)) off =
      Some (Ret (off + length (rr_wire r) + length (concat (map rr_wire rs)),
        Some (t\<lparr>TsigHdr := (TsigHdr t)\<lparr>Rdlength := h\<rparr>\<rparr>)))"
    using Cons.IH [of "off + length (rr_wire r)" off] Cons.prems by (auto simp: holds_at_append)
  ultimately show ?case
    using Cons.prems(2) by (auto simp del: length_concat)
qed

lemma stripTsig_wire:
  assumes m: "good_msg m" and n: "length (Extra m) < 65535"
    and x: "\<forall>r\<in>set (Extra m). Rrtype (rr_hdr r) \<noteq> TypeTSIG"
    and t: "good_rr (tsig_rr t)" "Rrtype (TsigHdr t) = TypeTSIG" and code: "Rcode m \<noteq> RcodeNotAuth"
  shows "\<exists>h. stripTsig (message_wire (m\<lparr>Extra := Extra m @ [tsig_rr t]\<rparr>)) spare =
     Some (Ret (message_wire m, t\<lparr>TsigHdr := (TsigHdr t)\<lparr>Rdlength := h\<rparr>\<rparr>))"
proof -
  define m1 where "m1 = m\<lparr>Extra := Extra m @ [tsig_rr t]\<rparr>"
  let ?msg = "message_wire m1"
  have f: "Question m1 = Question m" "Answer m1 = Answer m" "Ns m1 = Ns m" "Extra m1 = Extra m @ [tsig_rr t]"
    "Rcode m1 = Rcode m"
    by (simp_all add: m1_def)
  have m1: "good_msg m1"
    using m n t(1) by (simp add: good_msg_def m1_def)
  have at: "holds_at ?msg 0 ?msg"
    using holds_at_middle [of "[]" ?msg "[]"] by simp
  note sec = reads_sections [OF m1 at]
  have "list_all good_rr (Extra m)"
    using m by (simp add: good_msg_def)
  from strip_extra_wire [OF this x t, of ?msg "end_of_authority m1" spare 0] sec(5)
  obtain h where h: "strip_extra ?msg spare (Suc (length (Extra m))) (end_of_authority m1) 0 =
      Some (Ret (end_of_authority m1 + length (concat (map rr_wire (Extra m))),
        Some (t\<lparr>TsigHdr := (TsigHdr t)\<lparr>Rdlength := h\<rparr>\<rparr>)))"
    by (auto simp: f)
  have l: "end_of_authority m1 + length (concat (map rr_wire (Extra m))) = length (message_wire m)"
    by (simp add: end_of_authority_def end_of_answers_def end_of_questions_def f message_wire_def del: length_concat)
  have bits: "u16_val (msg_header_values m1 ! 1) AND 0xF = word_of_int (Rcode m1)"
    using header_bits_codes(2) [of m1] m1 by (simp add: msg_header_values_def gval_vals good_msg_def)
  have c: "int (unat (word_of_int (Rcode m1) :: u16)) \<noteq> RcodeNotAuth"
    using m code by (simp add: f good_msg_def uint_nat [symmetric] take_bit_int_eq_self unsigned_of_int)
  have w: "?msg = wire_head m @ be_bytes 2 (unat (word_of_nat (Suc (length (Extra m))) :: u16))
      @ wire_body m @ concat (map rr_wire (Extra m)) @ rr_wire (tsig_rr t)"
    by (simp add: m1_def message_wire_parts)
  have "num_at ?msg 10 2 = unat (word_of_nat (Suc (length (Extra m))) :: u16) mod 256 ^ 2"
  proof (rule num_at_holds)
    show "holds_at ?msg 10 (be_bytes 2 (unat (word_of_nat (Suc (length (Extra m))) :: u16)))"
      using holds_at_middle [of "wire_head m"] by (simp add: w length_wire_head)
  qed
  moreover have "unat (word_of_nat (Suc (length (Extra m))) :: u16) = Suc (length (Extra m))"
    using n by (simp add: unsigned_of_nat take_bit_eq_mod del: of_nat_Suc)
  ultimately have "num_at ?msg 10 2 = Suc (length (Extra m))"
    using n by simp
  then have "(word_of_nat (num_at ?msg 10 2) - 1 :: u16) = word_of_nat (length (Extra m))"
    by simp
  then have "write_at ?msg 10 (be_bytes 2 (unat (word_of_nat (num_at ?msg 10 2) - 1 :: u16))) =
      message_wire m @ rr_wire (tsig_rr t)"
    by (simp only: w write_count message_wire_parts_same [of m] append_assoc)
  then have s: "take (length (message_wire m)) (write_at ?msg 10 (be_bytes 2 (unat (word_of_nat (num_at ?msg 10 2) - 1 :: u16)))) =
      message_wire m"
    by simp
  have cnt: "unat (u16_val (msg_header_values m1 ! 5)) = Suc (length (Extra m))"
    using header_counts(4) [OF m1] by (simp add: f)
  show ?thesis
    unfolding m1_def [symmetric] stripTsig_def sec(1) wbind_simps prod.case Let_def bits
      if_not_P [OF c] header_counts(1-3) [OF m1] cnt sec(2-4) h l s option.case
    by auto
qed

section \<open>Verification\<close>

text \<open>Only the record's own fields count, not the length in its header.\<close>

lemma signed_tsig_vars:
  assumes "plain_tsig t"
  shows "plain_tsig ((signed_tsig t i mac)\<lparr>TsigHdr := (TsigHdr (signed_tsig t i mac))\<lparr>Rdlength := h\<rparr>\<rparr>)"
    "tsig_vars ((signed_tsig t i mac)\<lparr>TsigHdr := (TsigHdr (signed_tsig t i mac))\<lparr>Rdlength := h\<rparr>\<rparr>) b = tsig_vars t b"
  using assms by (simp_all add: plain_tsig_def signed_tsig_def tsig_vars_def)

text \<open>
  What a verifier with any key, request MAC and mode makes of a signed message: the time is looked at
  first, then the MAC.
\<close>

lemma TsigVerify_wire:
  assumes m: "good_msg m" "length (Extra m) < 65535" "\<forall>r\<in>set (Extra m). Rrtype (rr_hdr r) \<noteq> TypeTSIG"
      "Rcode m \<noteq> RcodeNotAuth"
    and t: "plain_tsig stub" and H: "hash_of (Algorithm stub) = Some H" and mac: "length mac \<le> 32"
    and key: "base64_decode secret = Some key" and rm: "rm = [] \<or> 2 \<le> length rm \<and> length rm < 65536"
  shows "TsigVerify now (message_wire (m\<lparr>Extra := Extra m @ [tsig_rr (signed_tsig stub i mac)]\<rparr>)) spare secret
       (hex_encode rm) timersOnly =
     Some (if ucast (Fudge stub) < now - TimeSigned stub then Fail ErrTime
           else if hmac H key (mac_wire rm @ message_wire m @ tsig_vars stub timersOnly) = mac then Ret ()
           else Fail ErrSig)"
proof -
  let ?t = "signed_tsig stub i mac"
  have "Rrtype (TsigHdr ?t) = TypeTSIG"
    by (simp add: signed_tsig_def)
  from stripTsig_wire [OF m(1-3) good_tsig_rr [OF t mac] this m(4), of spare]
  obtain h where h: "stripTsig (message_wire (m\<lparr>Extra := Extra m @ [tsig_rr ?t]\<rparr>)) spare =
      Some (Ret (message_wire m, ?t\<lparr>TsigHdr := (TsigHdr ?t)\<lparr>Rdlength := h\<rparr>\<rparr>))"
    by blast
  let ?u = "?t\<lparr>TsigHdr := (TsigHdr ?t)\<lparr>Rdlength := h\<rparr>\<rparr>"
  note u = signed_tsig_vars [OF t]
  have f: "MAC ?u = hex_encode mac" "Algorithm ?u = Algorithm stub" "TimeSigned ?u = TimeSigned stub"
    "Fudge ?u = Fudge stub"
    by (simp_all add: signed_tsig_def)
  show ?thesis
    unfolding TsigVerify_def packBase64_def key option.case wbind_simps h prod.case f hex_decode_encode Let_def
      tsig_defaults_plain [OF u(1)] H tsigBuffer_wire [OF u(1) rm] u(2)
    by simp
qed

end
