(* ===== verification/Dns_Xfr.thy ===== *)
theory Dns_Xfr
  imports Dns_Conn
begin

text \<open>
  \<open>miekg/dns/xfr.go\<close>: zone transfers. The receiving loops are functions of the results of the reads: what
  they put on the channel, and how they end. The receiver of the channel takes everything.
\<close>

section \<open>Messages of a transfer\<close>

definition ErrId :: dns_error where "ErrId = DnsError ''id mismatch''"
definition ErrSoa :: dns_error where "ErrSoa = DnsError ''no SOA''"

record envelope =
  RR :: "rr list"
  Error :: "dns_error option"

text \<open>
  \<open>Xfr_Closed\<close>: the loop returned, and closed the connection and the channel. \<open>Xfr_Crashed\<close>: the goroutine
  panicked, which ends the process. \<open>Xfr_Reading\<close>: it waits for the next read.
\<close>

datatype xfr_end = Xfr_Closed | Xfr_Crashed | Xfr_Reading

definition isSOAFirst :: "dns_msg \<Rightarrow> bool" where
  "isSOAFirst m \<longleftrightarrow> Answer m \<noteq> [] \<and> Rrtype (rr_hdr (hd (Answer m))) = TypeSOA"

definition isSOALast :: "dns_msg \<Rightarrow> bool" where
  "isSOALast m \<longleftrightarrow> Answer m \<noteq> [] \<and> Rrtype (rr_hdr (last (Answer m))) = TypeSOA"

text \<open>The assertion that a record is a SOA record, and its serial number.\<close>

definition soa_serial :: "rr \<Rightarrow> 32 word option" where
  "soa_serial r =
     (case r of
        OtherRR h (n, VStr ns # VStr mbox # VU32 serial # rest) \<Rightarrow> if n = ''SOA'' then Some serial else None
      | _ \<Rightarrow> None)"

section \<open>Reading and writing\<close>

text \<open>
  \<open>ReadMsg\<close> of a transfer: the secrets are those of the transfer, not of its connection, and without any a
  signature is not looked at. \<open>t\<close> is the flag that only the times are signed.
\<close>

type_synonym read_result = "dns_msg option \<times> dns_error option"

definition xfr_ReadMsg ::
    "64 word \<Rightarrow> (string \<rightharpoonup> string) option \<Rightarrow> bool \<Rightarrow> dns_conn \<Rightarrow> bytes \<Rightarrow> (read_result \<times> dns_conn) outcome option" where
  "xfr_ReadMsg now secrets t co spare =
     (let (n, p, err, co1) = conn_Read co MaxMsgSize in
      if err \<noteq> None \<and> n = 0 then Some (Ret ((None, err), co1))
      else
        case Unpack new_msg p spare of
          None \<Rightarrow> None
        | Some Panic \<Rightarrow> Some Panic
        | Some (Fail e) \<Rightarrow> Some (Ret ((None, Some e), co1))
        | Some (Ret m) \<Rightarrow>
            wbind (Some (IsTsig m)) (\<lambda>ts.
              case (ts, secrets) of
                (Some ts, Some sec) \<Rightarrow>
                  (case sec (RRName (TsigHdr ts)) of
                     None \<Rightarrow> Some (Ret ((Some m, Some ErrSecret), co1))
                   | Some secret \<Rightarrow>
                       (case TsigVerify now p spare secret (tsigRequestMAC co) t of
                          None \<Rightarrow> None
                        | Some Panic \<Rightarrow> Some Panic
                        | Some (Fail e) \<Rightarrow> Some (Ret ((Some m, Some e), co1))
                        | Some (Ret _) \<Rightarrow> Some (Ret ((Some m, None), co1))))
              | _ \<Rightarrow> Some (Ret ((Some m, err), co1))))"

definition xfr_WriteMsg ::
    "64 word \<Rightarrow> (string \<rightharpoonup> string) option \<Rightarrow> bool \<Rightarrow> dns_conn \<Rightarrow> dns_msg \<Rightarrow> (dns_error option \<times> dns_conn) outcome option" where
  "xfr_WriteMsg now secrets t co m =
     wbind (Some (IsTsig m)) (\<lambda>ts.
       case (ts, secrets) of
         (Some ts, Some sec) \<Rightarrow>
           (case sec (RRName (TsigHdr ts)) of
              None \<Rightarrow> Some (Ret (Some ErrSecret, co))
            | Some secret \<Rightarrow>
                (case TsigGenerate now m secret (tsigRequestMAC co) t of
                   None \<Rightarrow> None
                 | Some Panic \<Rightarrow> Some Panic
                 | Some (Fail e) \<Rightarrow> Some (Ret (Some e, co\<lparr>tsigRequestMAC := []\<rparr>))
                 | Some (Ret (m1, out, mac)) \<Rightarrow> Some (Ret (conn_Write (co\<lparr>tsigRequestMAC := mac\<rparr>) out))))
       | _ \<Rightarrow>
           (case Pack m of
              None \<Rightarrow> None
            | Some Panic \<Rightarrow> Some Panic
            | Some (Fail e) \<Rightarrow> Some (Ret (Some e, co))
            | Some (Ret out) \<Rightarrow> Some (Ret (conn_Write co out))))"

section \<open>Incoming transfers\<close>

definition deliver :: "envelope \<Rightarrow> envelope list \<times> xfr_end \<Rightarrow> envelope list \<times> xfr_end" where
  "deliver e r = (e # fst r, snd r)"

text \<open>
  One round of the loop of \<open>inAxfr\<close> and the rest of it; \<open>first\<close> says that no message was taken yet. A read
  without message and error does not occur.
\<close>

fun inAxfr :: "u16 \<Rightarrow> bool \<Rightarrow> read_result list \<Rightarrow> envelope list \<times> xfr_end" where
  "inAxfr ident first [] = ([], Xfr_Reading)"
| "inAxfr ident first ((m, Some e) # reads) = ([\<lparr>RR = [], Error = Some e\<rparr>], Xfr_Closed)"
| "inAxfr ident first ((None, None) # reads) = ([], Xfr_Crashed)"
| "inAxfr ident first ((Some m, None) # reads) =
     (if ident \<noteq> Id m then ([\<lparr>RR = Answer m, Error = Some ErrId\<rparr>], Xfr_Closed)
      else if first \<and> \<not> isSOAFirst m then ([\<lparr>RR = Answer m, Error = Some ErrSoa\<rparr>], Xfr_Closed)
      else if first \<and> length (Answer m) = 1
      then deliver \<lparr>RR = Answer m, Error = None\<rparr> (inAxfr ident False reads)
      else if isSOALast m then ([\<lparr>RR = Answer m, Error = None\<rparr>], Xfr_Closed)
      else deliver \<lparr>RR = Answer m, Error = None\<rparr> (inAxfr ident False reads))"

text \<open>
  The part of \<open>inIxfr\<close> that looks at the last record; \<open>serial\<close> is that of the first message. A message
  without answers has no last record.
\<close>

definition ixfr_message :: "32 word \<Rightarrow> dns_msg \<Rightarrow> (envelope list \<times> xfr_end) \<Rightarrow> envelope list \<times> xfr_end" where
  "ixfr_message serial m rest =
     (if Answer m = [] then ([], Xfr_Crashed)
      else if soa_serial (last (Answer m)) = Some serial then ([\<lparr>RR = Answer m, Error = None\<rparr>], Xfr_Closed)
      else deliver \<lparr>RR = Answer m, Error = None\<rparr> rest)"

text \<open>
  \<open>inIxfr\<close>: \<open>serial\<close> is None before the first message. With an error the answer of the message is taken,
  though there may be no message.
\<close>

fun inIxfr :: "u16 \<Rightarrow> 32 word option \<Rightarrow> read_result list \<Rightarrow> envelope list \<times> xfr_end" where
  "inIxfr ident serial [] = ([], Xfr_Reading)"
| "inIxfr ident serial ((None, _) # reads) = ([], Xfr_Crashed)"
| "inIxfr ident serial ((Some m, Some e) # reads) = ([\<lparr>RR = Answer m, Error = Some e\<rparr>], Xfr_Closed)"
| "inIxfr ident serial ((Some m, None) # reads) =
     (if ident \<noteq> Id m then ([\<lparr>RR = Answer m, Error = Some ErrId\<rparr>], Xfr_Closed)
      else
        case serial of
          Some k \<Rightarrow> ixfr_message k m (inIxfr ident (Some k) reads)
        | None \<Rightarrow>
            if length (Answer m) = 1 \<and> isSOAFirst m then ([\<lparr>RR = Answer m, Error = None\<rparr>], Xfr_Closed)
            else if \<not> isSOAFirst m then ([\<lparr>RR = Answer m, Error = Some ErrSoa\<rparr>], Xfr_Closed)
            else
              (case soa_serial (hd (Answer m)) of
                 None \<Rightarrow> ([], Xfr_Crashed)
               | Some k \<Rightarrow> ixfr_message k m (inIxfr ident (Some k) reads)))"

text \<open>\<open>In\<close>, after the question was sent: a question of another type starts no loop.\<close>

definition transfer_In :: "dns_msg \<Rightarrow> read_result list \<Rightarrow> envelope list \<times> xfr_end" where
  "transfer_In q reads =
     (case Question q of
        [] \<Rightarrow> ([], Xfr_Crashed)
      | x # _ \<Rightarrow>
          if Qtype x = TypeAXFR then inAxfr (Id q) True reads
          else if Qtype x = TypeIXFR then inIxfr (Id q) None reads
          else ([], Xfr_Reading))"

section \<open>Outgoing transfers\<close>

text \<open>
  The loop of \<open>Out\<close>: the messages written for the envelopes of the channel, while writing succeeds. The
  records of an envelope are added to those already sent: the answer is emptied after the last one only.
\<close>

fun out_loop :: "dns_msg \<Rightarrow> envelope list \<Rightarrow> dns_msg list" where
  "out_loop r [] = []"
| "out_loop r (x # xs) = (let r1 = r\<lparr>Answer := Answer r @ RR x\<rparr> in r1 # out_loop r1 xs)"

definition transfer_Out :: "dns_msg \<Rightarrow> envelope list \<Rightarrow> dns_msg list" where
  "transfer_Out q xs = out_loop ((SetReply new_msg q)\<lparr>Authoritative := True\<rparr>) xs"

section \<open>What arrives\<close>

text \<open>
  A zone in messages: the first begins with the SOA record, none before the last ends with one unless it
  is the first and has nothing else, and the last ends with one.
\<close>

fun zone_tail :: "dns_msg list \<Rightarrow> bool" where
  "zone_tail [] = False"
| "zone_tail [m] = isSOALast m"
| "zone_tail (m # ms) = (\<not> isSOALast m \<and> zone_tail ms)"

definition zone_messages :: "dns_msg list \<Rightarrow> bool" where
  "zone_messages ms \<longleftrightarrow>
     (case ms of
        [] \<Rightarrow> False
      | m # rest \<Rightarrow> isSOAFirst m \<and> (if length (Answer m) = 1 then zone_tail rest else zone_tail ms))"

lemma inAxfr_tail:
  "zone_tail ms \<Longrightarrow> \<forall>m\<in>set ms. Id m = ident \<Longrightarrow>
   inAxfr ident False (map (\<lambda>m. (Some m, None)) ms @ reads) = (map (\<lambda>m. \<lparr>RR = Answer m, Error = None\<rparr>) ms, Xfr_Closed)"
proof (induction ms)
  case (Cons m ms)
  show ?case
  proof (cases "ms = []")
    case True
    then show ?thesis using Cons.prems by simp
  next
    case False
    then have "\<not> isSOALast m" "zone_tail ms"
      using Cons.prems(1) by (cases ms; simp)+
    with Cons show ?thesis by (simp add: deliver_def)
  qed
qed simp

lemma inAxfr_zone:
  assumes "zone_messages ms" and "\<forall>m\<in>set ms. Id m = ident"
  shows "inAxfr ident True (map (\<lambda>m. (Some m, None)) ms @ reads) =
     (map (\<lambda>m. \<lparr>RR = Answer m, Error = None\<rparr>) ms, Xfr_Closed)"
proof (cases ms)
  case (Cons m rest)
  show ?thesis
  proof (cases "length (Answer m) = 1")
    case True
    then have "zone_tail rest"
      using assms(1) by (simp add: zone_messages_def Cons)
    from inAxfr_tail [OF this, of ident reads] show ?thesis
      using assms True by (simp add: Cons zone_messages_def deliver_def)
  next
    case False
    then have t: "zone_tail (m # rest)"
      using assms(1) by (simp add: zone_messages_def Cons)
    then have "inAxfr ident False (map (\<lambda>m. (Some m, None)) (m # rest) @ reads) =
        (map (\<lambda>m. \<lparr>RR = Answer m, Error = None\<rparr>) (m # rest), Xfr_Closed)"
      using assms(2) by (intro inAxfr_tail) (simp_all add: Cons)
    then show ?thesis
      using assms False by (simp add: Cons zone_messages_def)
  qed
qed (use assms in \<open>simp add: zone_messages_def\<close>)

end
