(* ===== verification/Dns_Update.thy ===== *)
theory Dns_Update
  imports Dns_Roundtrip Dns_Defaults
begin

text \<open>
  \<open>miekg/dns/update.go\<close>: dynamic updates. The functions take records by pointer and change them in place, so
  the records are in a store here, and the two sections of an update are lists of addresses in it.
\<close>

section \<open>The store\<close>

record update =
  heap :: "rr list"
  zone :: "question list"
  prereqs :: "nat list"
  changes :: "nat list"

definition update_hdr :: "(rr_header \<Rightarrow> rr_header) \<Rightarrow> rr \<Rightarrow> rr" where
  "update_hdr f r = set_hdr (f (rr_hdr r)) r"

text \<open>The loops over pointers that set fields of the header.\<close>

fun set_headers :: "(rr_header \<Rightarrow> rr_header) \<Rightarrow> nat list \<Rightarrow> rr list \<Rightarrow> rr list" where
  "set_headers f [] rs = rs"
| "set_headers f (p # ps) rs = set_headers f ps (rs[p := update_hdr f (rs ! p)])"

text \<open>The loops that make records of type ANY for the names of others.\<close>

definition any_record :: "u16 \<Rightarrow> rr \<Rightarrow> rr" where
  "any_record c r =
     OtherRR \<lparr>RRName = RRName (rr_hdr r), Rrtype = TypeANY, Class = c, Ttl = 0, Rdlength = 0\<rparr> (''ANY'', [])"

definition new_records :: "u16 \<Rightarrow> nat list \<Rightarrow> rr list \<Rightarrow> rr list \<times> nat list" where
  "new_records c ps rs = (rs @ map (\<lambda>p. any_record c (rs ! p)) ps, [length rs ..< length rs + length ps])"

text \<open>The message that is packed.\<close>

definition prereq_section :: "update \<Rightarrow> rr list" where
  "prereq_section u = map (\<lambda>p. heap u ! p) (prereqs u)"

definition change_section :: "update \<Rightarrow> rr list" where
  "change_section u = map (\<lambda>p. heap u ! p) (changes u)"

definition update_message :: "dns_msg \<Rightarrow> update \<Rightarrow> dns_msg" where
  "update_message m u = m\<lparr>Question := zone u, Answer := prereq_section u, Ns := change_section u\<rparr>"

section \<open>Prerequisites\<close>

definition NameUsed :: "update \<Rightarrow> nat list \<Rightarrow> update" where
  "NameUsed u ps = (let (rs, qs) = new_records ClassANY ps (heap u) in u\<lparr>heap := rs, prereqs := qs\<rparr>)"

definition NameNotUsed :: "update \<Rightarrow> nat list \<Rightarrow> update" where
  "NameNotUsed u ps = (let (rs, qs) = new_records ClassNONE ps (heap u) in u\<lparr>heap := rs, prereqs := qs\<rparr>)"

text \<open>None is the panic without a zone.\<close>

definition Used :: "update \<Rightarrow> nat list \<Rightarrow> update option" where
  "Used u ps =
     (case zone u of
        [] \<Rightarrow> None
      | q # _ \<Rightarrow> Some (u\<lparr>heap := set_headers (\<lambda>h. h\<lparr>Class := Qclass q\<rparr>) ps (heap u), prereqs := ps\<rparr>))"

definition RRsetUsed :: "update \<Rightarrow> nat list \<Rightarrow> update" where
  "RRsetUsed u ps =
     u\<lparr>heap := set_headers (\<lambda>h. h\<lparr>Class := ClassANY, Ttl := 0, Rdlength := 0\<rparr>) ps (heap u), prereqs := ps\<rparr>"

definition RRsetNotUsed :: "update \<Rightarrow> nat list \<Rightarrow> update" where
  "RRsetNotUsed u ps =
     u\<lparr>heap := set_headers (\<lambda>h. h\<lparr>Class := ClassNONE, Rdlength := 0, Ttl := 0\<rparr>) ps (heap u), prereqs := ps\<rparr>"

section \<open>Changes\<close>

definition Insert :: "update \<Rightarrow> nat list \<Rightarrow> update option" where
  "Insert u ps =
     (case zone u of
        [] \<Rightarrow> None
      | q # _ \<Rightarrow> Some (u\<lparr>heap := set_headers (\<lambda>h. h\<lparr>Class := Qclass q\<rparr>) ps (heap u), changes := ps\<rparr>))"

definition RemoveRRset :: "update \<Rightarrow> nat list \<Rightarrow> update" where
  "RemoveRRset u ps =
     u\<lparr>heap := set_headers (\<lambda>h. h\<lparr>Class := ClassANY, Rdlength := 0, Ttl := 0\<rparr>) ps (heap u), changes := ps\<rparr>"

definition RemoveName :: "update \<Rightarrow> nat list \<Rightarrow> update" where
  "RemoveName u ps = (let (rs, qs) = new_records ClassANY ps (heap u) in u\<lparr>heap := rs, changes := qs\<rparr>)"

definition Remove :: "update \<Rightarrow> nat list \<Rightarrow> update" where
  "Remove u ps = u\<lparr>heap := set_headers (\<lambda>h. h\<lparr>Class := ClassNONE, Ttl := 0\<rparr>) ps (heap u), changes := ps\<rparr>"

section \<open>What the functions leave\<close>

lemma update_hdr_simps [simp]:
  "rr_hdr (update_hdr f r) = f (rr_hdr r)" "data_wire (update_hdr f r) = data_wire r"
  by (simp_all add: update_hdr_def)

lemma set_hdr_set_hdr [simp]: "set_hdr h (set_hdr k r) = set_hdr h r"
  by (cases r) simp_all

lemma update_hdr_twice: "update_hdr f (update_hdr g r) = update_hdr (f \<circ> g) r"
  by (simp add: update_hdr_def)

lemma length_set_headers [simp]: "length (set_headers f ps rs) = length rs"
  by (induction ps arbitrary: rs) simp_all

text \<open>A header that is set twice to the same values stays; so an address may come more than once.\<close>

lemma set_headers_nth:
  assumes "f \<circ> f = f" and "p < length rs"
  shows "set_headers f ps rs ! p = (if p \<in> set ps then update_hdr f (rs ! p) else rs ! p)"
  using assms(2)
proof (induction ps arbitrary: rs)
  case (Cons q ps)
  then show ?case
    by (cases "p = q") (auto simp: update_hdr_twice assms(1))
qed simp

lemma set_headers_valid:
  "f \<circ> f = f \<Longrightarrow> set ps \<subseteq> {..<length rs} \<Longrightarrow> map (\<lambda>p. set_headers f ps rs ! p) ps = map (\<lambda>p. update_hdr f (rs ! p)) ps"
  by (auto simp: set_headers_nth)

lemma good_data_set_hdr: "Rrtype h = Rrtype (rr_hdr r) \<Longrightarrow> good_data (set_hdr h r) = good_data r"
  by (cases r rule: data_wire.cases) simp_all

lemma good_rr_update_hdr:
  "RRName (f (rr_hdr r)) = RRName (rr_hdr r) \<Longrightarrow> Rrtype (f (rr_hdr r)) = Rrtype (rr_hdr r) \<Longrightarrow>
   good_rr (update_hdr f r) = good_rr r"
  by (simp add: good_rr_def good_data_set_hdr update_hdr_def)

text \<open>The other sections of an update, over records of type ANY.\<close>

lemma NameUsed_sections:
  assumes "set ps \<subseteq> {..<length (heap u)}" and "set (changes u) \<subseteq> {..<length (heap u)}"
  shows "prereq_section (NameUsed u ps) = map (\<lambda>p. any_record ClassANY (heap u ! p)) ps"
    "change_section (NameUsed u ps) = change_section u"
  using assms
  by (auto simp: NameUsed_def new_records_def prereq_section_def change_section_def nth_append intro!: nth_equalityI)

section \<open>A prerequisite and a change\<close>

text \<open>
  The state after a prerequisite on some records and the insertion of others: a record in both lists has
  the class of the zone in both.
\<close>

lemma RRsetUsed_Insert:
  assumes v: "set ps \<union> set qs \<subseteq> {..<length (heap u)}" and q: "zone u = q # zs"
  shows "\<exists>u'. Insert (RRsetUsed u ps) qs = Some u' \<and> zone u' = zone u
    \<and> prereq_section u' = map (\<lambda>p. update_hdr (\<lambda>h. h\<lparr>Class := if p \<in> set qs then Qclass q else ClassANY, Ttl := 0, Rdlength := 0\<rparr>) (heap u ! p)) ps
    \<and> change_section u' = map (\<lambda>p. update_hdr (\<lambda>h. if p \<in> set ps then h\<lparr>Class := Qclass q, Ttl := 0, Rdlength := 0\<rparr> else h\<lparr>Class := Qclass q\<rparr>) (heap u ! p)) qs"
proof -
  let ?f = "\<lambda>h. h\<lparr>Class := ClassANY, Ttl := 0, Rdlength := 0\<rparr> :: rr_header" and ?g = "\<lambda>h. h\<lparr>Class := Qclass q\<rparr> :: rr_header"
  have i: "?f \<circ> ?f = ?f" "?g \<circ> ?g = ?g"
    by (auto simp: fun_eq_iff)
  have c: "?g \<circ> ?f = (\<lambda>h. h\<lparr>Class := Qclass q, Ttl := 0, Rdlength := 0\<rparr>)"
    by (simp add: fun_eq_iff)
  define H where "H = set_headers ?g qs (set_headers ?f ps (heap u))"
  define u' where "u' = (RRsetUsed u ps)\<lparr>heap := H, changes := qs\<rparr>"
  have s: "Insert (RRsetUsed u ps) qs = Some u'" "zone u' = zone u" "heap u' = H" "prereqs u' = ps" "changes u' = qs"
    using q by (simp_all add: Insert_def RRsetUsed_def u'_def H_def)
  have "H ! p = (if p \<in> set qs then update_hdr ?g (set_headers ?f ps (heap u) ! p) else set_headers ?f ps (heap u) ! p)"
    if "p < length (heap u)" for p
    using that by (simp add: H_def set_headers_nth [OF i(2)])
  then have n: "H ! p = (if p \<in> set qs then if p \<in> set ps then update_hdr (?g \<circ> ?f) (heap u ! p) else update_hdr ?g (heap u ! p)
      else if p \<in> set ps then update_hdr ?f (heap u ! p) else heap u ! p)" if "p < length (heap u)" for p
    using that by (simp add: set_headers_nth [OF i(1)] update_hdr_twice)
  have "p < length (heap u)" if "p \<in> set ps \<union> set qs" for p
    using v that by auto
  then show ?thesis
    unfolding prereq_section_def change_section_def
    by (intro exI [of _ u']) (auto simp: s n c)
qed

end
