(* ===== verification/Dns_Nsec3.thy ===== *)
theory Dns_Nsec3
  imports Dns_Pack Dns_Labels
begin

text \<open>
  \<open>miekg/dns/nsecx.go\<close>: the hash of a name by RFC 5155, and whether an NSEC3 record matches or covers a
  name.
\<close>

definition SHA1_code :: byte where "SHA1_code = 1"

definition layout_saltWireFmt :: "gfield list" where
  "layout_saltWireFmt = [Field ''Salt'' ''size-hex'' KString]"

text \<open>The further rounds of the hash.\<close>

fun hash_rounds :: "nat \<Rightarrow> bytes \<Rightarrow> bytes \<Rightarrow> bytes" where
  "hash_rounds 0 wire h = h"
| "hash_rounds (Suc k) wire h = hash_rounds k wire (sha1 (h @ wire))"

text \<open>A salt or a name that cannot be packed, or another hash algorithm, gives the empty string.\<close>

definition HashName :: "string \<Rightarrow> byte \<Rightarrow> u16 \<Rightarrow> string \<Rightarrow> string outcome" where
  "HashName label ha iter salt =
     (case packStructValue False layout_saltWireFmt [VStr salt] (0, replicate 4096 0, Map.empty) of
        Panic \<Rightarrow> Panic
      | Fail _ \<Rightarrow> Ret []
      | Ret (n, wire, _) \<Rightarrow>
          (case pack_name False (to_lower label) (0, replicate 255 0, Map.empty) of
             Panic \<Rightarrow> Panic
           | Fail _ \<Rightarrow> Ret []
           | Ret (off, name, _) \<Rightarrow>
               if ha = SHA1_code
               then Ret (base32_encode (hash_rounds (unat iter) (take n wire) (sha1 (take off name @ take n wire))))
               else Ret []))"

record nsec3 =
  NHdr :: rr_header
  NHash :: byte
  NFlags :: byte
  NIterations :: u16
  NSaltLength :: byte
  NSalt :: string
  NHashLength :: byte
  NextDomain :: string
  NTypeBitMap :: "u16 list"

text \<open>Strings are compared byte by byte.\<close>

fun str_less :: "string \<Rightarrow> string \<Rightarrow> bool" where
  "str_less s [] = False"
| "str_less [] (b # bs) = True"
| "str_less (a # as) (b # bs) =
     ((of_char a :: nat) < of_char b \<or> a = b \<and> str_less as bs)"

definition upper_char :: "char \<Rightarrow> char" where
  "upper_char c =
     (let n = (of_char c :: nat) in if 97 \<le> n \<and> n \<le> 122 then char_of (n - 32) else c)"

text \<open>The hash in the owner name; None for a name of less than two labels.\<close>

definition owner_hash :: "nsec3 \<Rightarrow> string option" where
  "owner_hash rr =
     (let s = RRName (NHdr rr); labels = Split s in
      if length labels < 2 then None
      else Some (map upper_char (go_slice s (labels ! 0) (labels ! 1 - 1))))"

definition nsec3_Cover :: "nsec3 \<Rightarrow> string \<Rightarrow> bool outcome" where
  "nsec3_Cover rr name =
     obind (HashName name (NHash rr) (NIterations rr) (NSalt rr)) (\<lambda>hname.
       case owner_hash rr of
         None \<Rightarrow> Ret False
       | Some h \<Rightarrow>
           if h = NextDomain rr then Ret False
           else if \<not> str_less h hname then Ret False
           else if \<not> str_less hname (NextDomain rr) then Ret False
           else Ret True)"

definition nsec3_Match :: "nsec3 \<Rightarrow> string \<Rightarrow> bool outcome" where
  "nsec3_Match rr name =
     obind (HashName name (NHash rr) (NIterations rr) (NSalt rr)) (\<lambda>hname.
       Ret (owner_hash rr = Some hname))"

section \<open>What is covered\<close>

lemma str_less_irrefl [simp]: "\<not> str_less s s"
  by (induction s) simp_all

lemma str_less_trans: "str_less a b \<Longrightarrow> str_less b c \<Longrightarrow> str_less a c"
proof (induction a b arbitrary: c rule: str_less.induct)
  case (2 b bs)
  then show ?case by (cases c) auto
next
  case (3 a as b bs)
  then show ?case by (cases c) (auto intro: less_trans)
qed simp

lemma nsec3_Cover_iff:
  "nsec3_Cover rr name = Ret True \<longleftrightarrow>
     (\<exists>h hname. owner_hash rr = Some h \<and> HashName name (NHash rr) (NIterations rr) (NSalt rr) = Ret hname
        \<and> str_less h hname \<and> str_less hname (NextDomain rr))"
  by (cases "HashName name (NHash rr) (NIterations rr) (NSalt rr)"; cases "owner_hash rr")
    (auto simp: nsec3_Cover_def dest: str_less_trans)

text \<open>
  The last record of a zone, whose next name is the first again, covers nothing: neither what comes
  behind its owner nor what comes before the first name.
\<close>

lemma last_record_covers_nothing:
  assumes "owner_hash rr = Some h" and "\<not> str_less h (NextDomain rr)"
  shows "nsec3_Cover rr name \<noteq> Ret True"
  using assms str_less_trans by (auto simp: nsec3_Cover_iff)

text \<open>No record both matches and covers a name.\<close>

lemma matched_not_covered: "nsec3_Match rr name = Ret True \<Longrightarrow> nsec3_Cover rr name \<noteq> Ret True"
  by (auto simp: nsec3_Cover_iff nsec3_Match_def obind_Ret_iff)

end
