(* ===== verification/Dns_Service_Results.thy ===== *)
theory Dns_Service_Results
  imports Dns_Server Dns_Tsig_Codec Dns_Xfr Dns_Update Dns_Nsec3
begin

text \<open>
  Properties of the client and server sides of package \<open>dns\<close>: signed messages over a connection, the choice
  of a handler, dynamic updates and zone transfers.
\<close>

section \<open>Signed messages\<close>

text \<open>The stub that \<open>SetTsig\<close> adds.\<close>

definition tsig_stub :: "string \<Rightarrow> string \<Rightarrow> int \<Rightarrow> u16 \<Rightarrow> tsig" where
  "tsig_stub z algo timesigned ident =
     \<lparr>TsigHdr = \<lparr>RRName = z, Rrtype = TypeTSIG, Class = ClassANY, Ttl = 0, Rdlength = 0\<rparr>, Algorithm = algo,
      TimeSigned = word_of_int timesigned, Fudge = 300, MACSize = 0, MAC = [], OrigId = ident, TsigError = 0,
      OtherLen = 0, OtherData = []\<rparr>"

lemma SetTsig_stub: "SetTsig m z algo fudge t = m\<lparr>Extra := Extra m @ [tsig_rr (tsig_stub z algo t (Id m))]\<rparr>"
  by (simp add: SetTsig_def tsig_stub_def)

lemma IsTsig_stub: "IsTsig (SetTsig m z algo fudge t) = Ret (Some (tsig_stub z algo t (Id m)))"
  by (simp add: IsTsig_SetTsig tsig_stub_def)

lemma stub_owner: "RRName (TsigHdr (tsig_stub z algo t i)) = z"
  by (simp add: tsig_stub_def)

definition signable :: "dns_msg \<Rightarrow> bool" where
  "signable m \<longleftrightarrow>
     good_msg m \<and> length (Extra m) < 65535 \<and> (\<forall>r\<in>set (Extra m). Rrtype (rr_hdr r) \<noteq> TypeTSIG)
     \<and> Rcode m \<noteq> RcodeNotAuth"

definition key_name :: "string \<Rightarrow> bool" where
  "key_name z \<longleftrightarrow> good_name z \<and> length z \<le> 4000"

lemma plain_stub:
  assumes "key_name z" and "hash_of algo \<noteq> None" and "0 < t" "t < 2 ^ 48"
  shows "plain_tsig (tsig_stub z algo t ident)"
proof -
  have "uint (word_of_int t :: 64 word) = t"
    using assms(3,4) by (simp add: unsigned_of_int take_bit_int_eq_self)
  then have "unat (word_of_int t :: 64 word) = nat t"
    by (simp add: unat_eq_nat_uint)
  moreover from this assms(3) have "(word_of_int t :: 64 word) \<noteq> 0"
    by (metis unsigned_0 zero_less_nat_eq less_irrefl)
  ultimately show ?thesis
    using assms by (simp add: plain_tsig_def tsig_stub_def key_name_def nat_less_iff)
qed

text \<open>A message that is signed, and what the holder of a key makes of it.\<close>

lemma signed_message:
  assumes m: "signable m" and z: "key_name z" and H: "hash_of algo = Some H" and t: "0 < t" "t < 2 ^ 48"
    and key: "base64_decode secret = Some key" and rm: "rm = [] \<or> 2 \<le> length rm \<and> length rm < 65536"
  shows "\<exists>mac r. length mac \<le> 32 \<and> r = tsig_rr (signed_tsig (tsig_stub z algo t (Id m)) (Id m) mac)
    \<and> good_msg (m\<lparr>Extra := Extra m @ [r]\<rparr>) \<and> length (rr_wire r) \<le> 4100
    \<and> TsigGenerate now (SetTsig m z algo fudge t) secret (hex_encode rm) timersOnly =
        Some (Ret (m, message_wire (m\<lparr>Extra := Extra m @ [r]\<rparr>), hex_encode mac))
    \<and> (\<forall>now' spare. TsigVerify now' (message_wire (m\<lparr>Extra := Extra m @ [r]\<rparr>)) spare secret (hex_encode rm) timersOnly =
        Some (if 300 < now' - word_of_int t then Fail ErrTime else Ret ()))"
proof -
  let ?s = "tsig_stub z algo t (Id m)"
  define mac where "mac = hmac H key (mac_wire rm @ message_wire m @ tsig_vars ?s timersOnly)"
  let ?r = "tsig_rr (signed_tsig ?s (Id m) mac)"
  have s: "plain_tsig ?s" "Rrtype (TsigHdr ?s) = TypeTSIG" "hash_of (Algorithm ?s) = Some H"
    using plain_stub [OF z _ t, of algo "Id m"] H by (simp_all add: tsig_stub_def)
  have l: "length mac \<le> 32"
    using length_hmac [OF H] by (simp add: mac_def)
  note g = good_tsig_rr [OF s(1) l, of "Id m"]
  have m': "good_msg (m\<lparr>Extra := Extra m @ [?r]\<rparr>)"
    using m g by (simp add: signable_def good_msg_def)
  have a: "good_name algo" "length algo \<le> 25"
    using good_algorithm [OF H] by simp_all
  have r: "length (rr_wire ?r) \<le> 4100"
    using z length_name_wire [of z] length_name_wire [OF a(1)] a(2) l
    by (simp add: rr_wire_def hdr_wire_def key_name_def)
      (simp add: tsig_rr_def signed_tsig_def tsig_stub_def field_layouts layout_TSIG_def hex_decode_encode)
  have "TsigGenerate now (SetTsig m z algo fudge t) secret (hex_encode rm) timersOnly =
      Some (Ret (m, message_wire (m\<lparr>Extra := Extra m @ [?r]\<rparr>), hex_encode mac))"
    unfolding SetTsig_stub using m TsigGenerate_wire [OF _ s key rm mac_def] by (simp add: signable_def)
  moreover have "TsigVerify now' (message_wire (m\<lparr>Extra := Extra m @ [?r]\<rparr>)) spare secret (hex_encode rm) timersOnly =
      Some (if 300 < now' - word_of_int t then Fail ErrTime else Ret ())" for now' spare
  proof -
    have f: "ucast (Fudge ?s) = (300 :: 64 word)" "TimeSigned ?s = word_of_int t"
      by (simp_all add: tsig_stub_def)
    show ?thesis
      using TsigVerify_wire [OF _ _ _ _ s(1,3) l key rm, of m now' "Id m" spare timersOnly, folded mac_def] m
      unfolding f by (simp add: signable_def)
  qed
  ultimately show ?thesis
    using l m' r by blast
qed

lemma signed_received:
  assumes m: "signable m" and r: "r = tsig_rr (signed_tsig (tsig_stub z algo t i) j mac)"
    and g: "good_msg (m\<lparr>Extra := Extra m @ [r]\<rparr>)" and at: "holds_at p 0 (message_wire (m\<lparr>Extra := Extra m @ [r]\<rparr>))"
  defines "req \<equiv> (received m)\<lparr>Extra := map with_rdlength (Extra m) @ [with_rdlength r]\<rparr>"
  shows "Unpack new_msg p spare = Some (Ret req)"
    "\<exists>ts. IsTsig req = Ret (Some ts) \<and> RRName (TsigHdr ts) = z \<and> MAC ts = hex_encode mac"
proof -
  have c: "\<not> Compress m"
    using m by (simp add: signable_def good_msg_def)
  show "Unpack new_msg p spare = Some (Ret req)"
    using Unpack_wire [OF g at, of new_msg spare] c by (simp add: req_def received_def new_msg_def)
  show "\<exists>ts. IsTsig req = Ret (Some ts) \<and> RRName (TsigHdr ts) = z \<and> MAC ts = hex_encode mac"
    by (simp add: IsTsig_def req_def as_tsig_def with_rdlength_def r)
      (simp add: tsig_rr_def signed_tsig_def tsig_stub_def)
qed

text \<open>
  C13: A message signed by the sender is accepted by a receiver with the same key and the same MAC of the
  request, over TCP and in whatever pieces the bytes arrive, if only the two bytes of the length come
  together. It is the message that was signed, with the TSIG record behind its other records, and what
  follows in the stream is left. The signature counts as expired when the receiver's clock is more than
  300 seconds ahead of the time of signing, whatever fudge was asked for, or behind it at all, as the
  difference is a number without a sign.
\<close>

theorem signed_exchange:
  assumes m: "signable m" "length (message_wire m) \<le> 61000" and z: "key_name z" and H: "hash_of algo = Some H"
    and t: "0 < t" "t < 2 ^ 48" and key: "base64_decode secret = Some key"
    and rm: "rm = [] \<or> 2 \<le> length rm \<and> length rm < 65536"
    and a: "is_tcp a" "TsigSecret a z = Some secret" "tsigRequestMAC a = hex_encode rm"
    and b: "is_tcp b" "TsigSecret b z = Some secret" "tsigRequestMAC b = hex_encode rm"
  shows "\<exists>out a'. conn_WriteMsg now a (SetTsig m z algo fudge t) = Some (Ret (None, a'))
    \<and> outgoing a' = outgoing a @ [out] \<and> 2 \<le> length out
    \<and> (\<forall>c cs rest now' spare. 2 \<le> length c \<and> concat (c # cs) = out @ rest \<longrightarrow>
        (\<exists>r b'. conn_ReadMsg now' (b\<lparr>incoming := c # cs\<rparr>) spare =
            Some (Ret ((Some ((received m)\<lparr>Extra := map with_rdlength (Extra m) @ [r]\<rparr>),
                        if 300 < now' - word_of_int t then Some ErrTime else None), b'))
          \<and> concat (incoming b') = rest))"
proof -
  obtain mac r where r: "r = tsig_rr (signed_tsig (tsig_stub z algo t (Id m)) (Id m) mac)"
    and g: "good_msg (m\<lparr>Extra := Extra m @ [r]\<rparr>)" "length (rr_wire r) \<le> 4100"
    and gen: "TsigGenerate now (SetTsig m z algo fudge t) secret (hex_encode rm) False =
        Some (Ret (m, message_wire (m\<lparr>Extra := Extra m @ [r]\<rparr>), hex_encode mac))"
    and ver: "\<And>now' spare. TsigVerify now' (message_wire (m\<lparr>Extra := Extra m @ [r]\<rparr>)) spare secret (hex_encode rm) False =
        Some (if 300 < now' - word_of_int t then Fail ErrTime else Ret ())"
    using signed_message [OF m(1) z H t key rm, of now fudge False] by blast
  define p where "p = message_wire (m\<lparr>Extra := Extra m @ [r]\<rparr>)"
  have "length p = length (message_wire m) + length (rr_wire r)"
    by (simp add: p_def message_wire_def)
  then have l: "0 < length p" "2 \<le> length p" "length p < 65536"
    using m(2) g(2) by (simp_all add: p_def message_wire_def)
  define out where "out = be_bytes 2 (length p) @ p"
  have len: "unat (word_of_nat (length p) :: u16) = length p"
    using l(3) by (simp add: unsigned_of_nat take_bit_eq_mod)
  have w: "conn_WriteMsg now a (SetTsig m z algo fudge t) =
      Some (Ret (None, a\<lparr>tsigRequestMAC := hex_encode mac, outgoing := outgoing a @ [out]\<rparr>))"
    using a l gen
    by (simp add: conn_WriteMsg_def IsTsig_stub stub_owner conn_Write_def MaxMsgSize_def out_def len p_def [symmetric])
  have at: "holds_at p 0 p"
    using holds_at_middle [of "[]" p "[]"] by simp
  note rec = signed_received [OF m(1) r g(1) at [unfolded p_def], folded p_def]
  have rd: "\<exists>b'. conn_ReadMsg now' (b\<lparr>incoming := c # cs\<rparr>) spare =
        Some (Ret ((Some ((received m)\<lparr>Extra := map with_rdlength (Extra m) @ [with_rdlength r]\<rparr>),
                    if 300 < now' - word_of_int t then Some ErrTime else None), b'))
      \<and> concat (incoming b') = rest"
    if c: "2 \<le> length c" "concat (c # cs) = out @ rest" for c cs rest now' spare
  proof -
    let ?b = "b\<lparr>incoming := c # cs\<rparr>"
    have bs: "is_tcp ?b" "incoming ?b = c # cs"
      using b(1) by simp_all
    obtain cs1 where cs1: "conn_Read ?b (read_size ?b) = (length p, p, None, ?b\<lparr>incoming := cs1\<rparr>)" "concat cs1 = rest"
      using conn_Read_frame [OF bs(1) l(1,3) bs(2) c(1), of rest "read_size ?b"] b(1) c(2)
      by (auto simp: out_def read_size_def MaxMsgSize_def)
    obtain ts where ts: "IsTsig ((received m)\<lparr>Extra := map with_rdlength (Extra m) @ [with_rdlength r]\<rparr>) = Ret (Some ts)"
        "RRName (TsigHdr ts) = z"
      using rec(2) by blast
    show ?thesis
      using cs1 ts ver [folded p_def, of now' spare] b(2,3) by (simp add: conn_ReadMsg_def rec(1))
  qed
  have "2 \<le> length out" "outgoing (a\<lparr>tsigRequestMAC := hex_encode mac, outgoing := outgoing a @ [out]\<rparr>) = outgoing a @ [out]"
    by (simp_all add: out_def)
  with w rd show ?thesis by blast
qed

lemma sample_names: "good_name ''a.''" "good_name ''k.''"
  unfolding good_name_def
  by (rule exI [of _ "[''a'']"], simp add: wire_label_def name_text_def escape_char_def)
    (rule exI [of _ "[''k'']"], simp add: wire_label_def name_text_def escape_char_def)

lemma key_name_k: "key_name ''k.''"
  using sample_names by (simp add: key_name_def)

lemma signable_question: "signable (SetQuestion new_msg 7 ''a.'' TypePTR)"
  using sample_names
  by (simp add: signable_def good_msg_def SetQuestion_def new_msg_def RcodeNotAuth_def)

theorem signed_exchange_witness:
  "\<exists>out a'. conn_WriteMsg 5 \<lparr>is_tcp = True, UDPSize = 0, TsigSecret = [''k.'' \<mapsto> ''AQI=''], tsigRequestMAC = [],
        incoming = [], outgoing = []\<rparr> (SetTsig (SetQuestion new_msg 7 ''a.'' TypePTR) ''k.'' HmacSHA256 60 1000) =
      Some (Ret (None, a')) \<and> outgoing a' = [out]
    \<and> (\<exists>r b'. conn_ReadMsg 999 \<lparr>is_tcp = True, UDPSize = 0, TsigSecret = [''k.'' \<mapsto> ''AQI=''], tsigRequestMAC = [],
          incoming = [out], outgoing = []\<rparr> [] =
        Some (Ret ((Some ((SetQuestion new_msg 7 ''a.'' TypePTR)\<lparr>Extra := [r]\<rparr>), Some ErrTime), b')))"
proof -
  let ?m = "SetQuestion new_msg 7 ''a.'' TypePTR"
  let ?a = "\<lparr>is_tcp = True, UDPSize = 0, TsigSecret = [''k.'' \<mapsto> ''AQI=''], tsigRequestMAC = [], incoming = [], outgoing = []\<rparr>"
  have m: "signable ?m" "length (message_wire ?m) \<le> 61000" "received ?m = ?m" "Extra ?m = []"
    using signable_question length_name_wire [OF sample_names(1)]
    by (simp_all add: SetQuestion_def new_msg_def message_wire_def question_wire_def received_def)
  have key: "base64_decode ''AQI='' = Some [1, 2]"
    by code_simp
  have H: "hash_of HmacSHA256 = Some sha256"
    by (simp add: hash_of_def HmacMD5_def HmacSHA1_def HmacSHA256_def)
  have a: "is_tcp ?a" "TsigSecret ?a ''k.'' = Some ''AQI=''" "tsigRequestMAC ?a = hex_encode []" "outgoing ?a = []"
    by (simp_all add: hex_encode_Nil)
  have t: "(0 :: int) < 1000" "(1000 :: int) < 2 ^ 48" "[] = [] \<or> 2 \<le> length ([] :: bytes) \<and> length ([] :: bytes) < 65536"
    by simp_all
  from signed_exchange [OF m(1,2) key_name_k H t(1,2) key t(3) a(1-3) a(1-3), of 5 60]
  obtain out a' where w: "conn_WriteMsg 5 ?a (SetTsig ?m ''k.'' HmacSHA256 60 1000) = Some (Ret (None, a'))"
      "outgoing a' = outgoing ?a @ [out]" "2 \<le> length out"
    and r: "\<forall>c cs rest now' spare. 2 \<le> length c \<and> concat (c # cs) = out @ rest \<longrightarrow>
      (\<exists>r b'. conn_ReadMsg now' (?a\<lparr>incoming := c # cs\<rparr>) spare =
        Some (Ret ((Some ((received ?m)\<lparr>Extra := map with_rdlength (Extra ?m) @ [r]\<rparr>),
                    if 300 < now' - word_of_int 1000 then Some ErrTime else None), b'))
      \<and> concat (incoming b') = rest)"
    by (elim exE conjE)
  from r [rule_format, of out "[]" "[]" 999 "[]"] w show ?thesis
    by (auto simp: m(3,4) a(4))
qed

text \<open>
  C14: A request that is signed with a key the server does not know, under the empty secret, reaches the
  handler as verified: the status for the unknown key is overwritten by that of a verification with the
  empty secret that the map returns for it. Anybody can sign so.
\<close>

theorem unknown_key_verified:
  assumes m: "signable m" "\<not> Response m" and z: "key_name z" and H: "hash_of algo = Some H"
    and t: "0 < t" "t < 2 ^ 48" and w: "r_secrets w = Some secrets" "secrets z = None"
  shows "\<exists>p m1 mac r. TsigGenerate now (SetTsig m z algo fudge t) [] [] False = Some (Ret (m1, p, mac))
    \<and> (\<forall>h now' spare. \<not> 300 < now' - word_of_int t \<longrightarrow>
        serve_message now' h w p spare =
          h now' (w\<lparr>r_status := None, r_timers := False, r_mac := mac\<rparr>)
            ((received m)\<lparr>Extra := map with_rdlength (Extra m) @ [r]\<rparr>))"
proof -
  have key: "base64_decode [] = Some []"
    by (simp add: base64_decode_def drop_newlines_def)
  have nil: "([] :: bytes) = [] \<or> 2 \<le> length ([] :: bytes) \<and> length ([] :: bytes) < 65536"
    by simp
  obtain mac r where r: "r = tsig_rr (signed_tsig (tsig_stub z algo t (Id m)) (Id m) mac)"
    and g: "good_msg (m\<lparr>Extra := Extra m @ [r]\<rparr>)"
    and gen: "TsigGenerate now (SetTsig m z algo fudge t) [] [] False =
        Some (Ret (m, message_wire (m\<lparr>Extra := Extra m @ [r]\<rparr>), hex_encode mac))"
    and ver: "\<And>now' spare. TsigVerify now' (message_wire (m\<lparr>Extra := Extra m @ [r]\<rparr>)) spare [] [] False =
        Some (if 300 < now' - word_of_int t then Fail ErrTime else Ret ())"
    using signed_message [OF m(1) z H t key nil, of now fudge False] by (auto simp: hex_encode_Nil)
  let ?p = "message_wire (m\<lparr>Extra := Extra m @ [r]\<rparr>)"
  have at: "holds_at ?p 0 ?p"
    using holds_at_middle [of "[]" ?p "[]"] by simp
  note rec = signed_received [OF m(1) r g at]
  obtain ts where ts: "IsTsig ((received m)\<lparr>Extra := map with_rdlength (Extra m) @ [with_rdlength r]\<rparr>) = Ret (Some ts)"
      "RRName (TsigHdr ts) = z" "MAC ts = hex_encode mac"
    using rec(2) by blast
  have "serve_message now' h w ?p spare =
      h now' (w\<lparr>r_status := None, r_timers := False, r_mac := hex_encode mac\<rparr>)
        ((received m)\<lparr>Extra := map with_rdlength (Extra m) @ [with_rdlength r]\<rparr>)"
    if "\<not> 300 < now' - word_of_int t" for now' h spare
    using that m(2) w ts ver [of now' spare]
    by (simp add: serve_message_def rec(1) check_tsig_def secret_of_def) (simp add: received_def)
  with gen show ?thesis by blast
qed

theorem unknown_key_verified_witness:
  "\<exists>p m1 mac r. TsigGenerate 5 (SetTsig (SetQuestion new_msg 7 ''a.'' TypePTR) ''k.'' HmacSHA1 60 1000) [] [] False =
      Some (Ret (m1, p, mac))
    \<and> serve_message 1200 HandleFailed
        \<lparr>r_tcp = False, r_open = True, r_hijacked = False, r_secrets = Some [''x.'' \<mapsto> ''AQI=''], r_status = None,
         r_timers = False, r_mac = [], r_in = [], r_out = []\<rparr> p [] =
      HandleFailed 1200
        \<lparr>r_tcp = False, r_open = True, r_hijacked = False, r_secrets = Some [''x.'' \<mapsto> ''AQI=''], r_status = None,
         r_timers = False, r_mac = mac, r_in = [], r_out = []\<rparr>
        ((SetQuestion new_msg 7 ''a.'' TypePTR)\<lparr>Extra := [r]\<rparr>)"
proof -
  let ?m = "SetQuestion new_msg 7 ''a.'' TypePTR"
  let ?w = "\<lparr>r_tcp = False, r_open = True, r_hijacked = False, r_secrets = Some [''x.'' \<mapsto> ''AQI=''],
      r_status = None, r_timers = False, r_mac = [], r_in = [], r_out = []\<rparr>"
  have m: "received ?m = ?m" "Extra ?m = []" "\<not> Response ?m"
    by (simp_all add: SetQuestion_def new_msg_def received_def)
  have H: "hash_of HmacSHA1 = Some sha1"
    by (simp add: hash_of_def HmacMD5_def HmacSHA1_def)
  have t: "(0 :: int) < 1000" "(1000 :: int) < 2 ^ 48"
    by simp_all
  have w: "r_secrets ?w = Some [''x.'' \<mapsto> ''AQI='']" "[''x.'' \<mapsto> ''AQI=''] ''k.'' = None"
    by simp_all
  from unknown_key_verified [OF signable_question m(3) key_name_k H t w, of 5 60]
  obtain p m1 mac r where g: "TsigGenerate 5 (SetTsig ?m ''k.'' HmacSHA1 60 1000) [] [] False = Some (Ret (m1, p, mac))"
    and s: "\<forall>h now' spare. \<not> 300 < now' - word_of_int 1000 \<longrightarrow>
        serve_message now' h ?w p spare =
          h now' (?w\<lparr>r_status := None, r_timers := False, r_mac := mac\<rparr>)
            ((received ?m)\<lparr>Extra := map with_rdlength (Extra ?m) @ [r]\<rparr>)"
    by (elim exE conjE)
  from s [rule_format, of 1200 HandleFailed "[]"] g show ?thesis
    by (auto simp: m)
qed

section \<open>Requests and handlers\<close>

lemma HandleFailed_wire:
  assumes m: "list_all (\<lambda>q. good_name (QName q)) (Question req)" and w: "\<not> r_tcp w"
  shows "HandleFailed now w req =
    Some (Ret (w\<lparr>r_out := r_out w @ [message_wire (SetRcode new_msg req RcodeServerFailure)]\<rparr>))"
proof -
  have "length (Question (SetRcode new_msg req RcodeServerFailure)) \<le> 1"
    by (simp add: SetRcode_def SetReply_question new_msg_def)
  moreover have "list_all (\<lambda>q. good_name (QName q)) (Question (SetRcode new_msg req RcodeServerFailure))"
    using m by (cases "Question req") (simp_all add: SetRcode_def SetReply_question new_msg_def)
  ultimately have "good_msg (SetRcode new_msg req RcodeServerFailure)"
    by (auto simp: good_msg_def SetRcode_def SetReply_def new_msg_def Let_def OpcodeQuery_def RcodeServerFailure_def
        split: list.splits)
  note p = Pack_wire [OF this]
  have "IsTsig (SetRcode new_msg req RcodeServerFailure) = Ret None"
    by (simp add: IsTsig_def SetRcode_def SetReply_def new_msg_def Let_def split: list.splits)
  then show ?thesis
    using w by (cases "r_secrets w") (simp_all add: HandleFailed_def response_WriteMsg_def p response_Write_def)
qed

text \<open>
  C15: A request reaches the handler of the closest zone its name is in that has one, without regard to
  upper and lower case, and else that of the root; a request for DS records that of the root if it has
  one, and else that of the farthest zone, not that of the parent. Without a handler the server sends a
  reply with the code for a server failure.
\<close>

theorem served_by_closest_zone:
  fixes z :: "handler mux"
  assumes m: "good_msg m" "\<not> Response m" "\<forall>r\<in>set (Extra m). Rrtype (rr_hdr r) \<noteq> TypeTSIG"
    and q: "Question m = [q]" "QName q = dotted ls" "ls \<noteq> []" "\<forall>l\<in>set ls. plain_label l"
    and at: "holds_at p 0 (message_wire m)" and w: "\<not> r_tcp w"
  defines "hs \<equiv> zone_handlers z ls"
  shows "serve_message now (mux_handler z) w p spare =
    (case (if Qtype q = TypeDS
           then (case z ''.'' of Some h \<Rightarrow> Some h | None \<Rightarrow> if hs = [] then None else Some (last hs))
           else if hs \<noteq> [] then Some (hd hs) else z ''.'') of
       Some h \<Rightarrow> h now (w\<lparr>r_status := None\<rparr>) (received m)
     | None \<Rightarrow> Some (Ret (w\<lparr>r_status := None,
                  r_out := r_out w @ [message_wire (SetRcode new_msg m RcodeServerFailure)]\<rparr>)))"
proof -
  have "\<not> Compress m"
    using m(1) by (simp add: good_msg_def)
  then have u: "Unpack new_msg p spare = Some (Ret (received m))"
    using Unpack_wire [OF m(1) at, of new_msg spare] by (simp add: received_def new_msg_def)
  have "Rrtype (rr_hdr (last (map with_rdlength (Extra m)))) \<noteq> TypeTSIG" if "Extra m \<noteq> []"
    using m(3) that by (simp add: last_map)
  then have ts: "IsTsig (received m) = Ret None"
    by (auto simp: IsTsig_def received_def)
  have ch: "mux_ServeDNS z (received m) = chosen_handler z (Qtype q = TypeDS) hs None"
    using mux_match_dotted [OF q(4,3)] q(1,2) by (simp add: mux_ServeDNS_def received_def hs_def)
  have f: "SetRcode new_msg (received m) c = SetRcode new_msg m c" for c
    by (simp add: SetRcode_def SetReply_def received_def)
  have "HandleFailed now (w\<lparr>r_status := None\<rparr>) (received m) =
      Some (Ret (w\<lparr>r_status := None, r_out := r_out w @ [message_wire (SetRcode new_msg m RcodeServerFailure)]\<rparr>))"
    using HandleFailed_wire [of "received m" "w\<lparr>r_status := None\<rparr>" now, unfolded f] m(1) w
    by (simp add: received_def good_msg_def)
  moreover have "\<not> Response (received m)"
    using m(2) by (simp add: received_def)
  ultimately show ?thesis
    using serve_message_unsigned [OF u _ ts, of now "mux_handler z" w]
    by (auto simp: mux_handler_def ch chosen_handler_def split: option.splits)
qed

theorem served_by_closest_zone_witness:
  "\<exists>w'. serve_message 3 (mux_handler [''a.'' \<mapsto> (\<lambda>now w r. Some (Ret w))])
      \<lparr>r_tcp = False, r_open = True, r_hijacked = False, r_secrets = None, r_status = None, r_timers = False,
       r_mac = [], r_in = [], r_out = []\<rparr> (message_wire (SetQuestion new_msg 7 ''b.'' TypePTR)) [1] = Some (Ret w')
    \<and> length (r_out w') = 1"
proof -
  let ?m = "SetQuestion new_msg 7 ''b.'' TypePTR"
  let ?w = "\<lparr>r_tcp = False, r_open = True, r_hijacked = False, r_secrets = None, r_status = None, r_timers = False,
      r_mac = [], r_in = [], r_out = []\<rparr>"
  have n: "good_name ''b.''"
    unfolding good_name_def
    by (rule exI [of _ "[''b'']"]) (simp add: wire_label_def name_text_def escape_char_def)
  have m: "good_msg ?m" "\<not> Response ?m" "\<forall>r\<in>set (Extra ?m). Rrtype (rr_hdr r) \<noteq> TypeTSIG"
      "Question ?m = [\<lparr>QName = ''b.'', Qtype = TypePTR, Qclass = ClassINET\<rparr>]"
    using n by (simp_all add: good_msg_def SetQuestion_def new_msg_def)
  have q: "QName \<lparr>QName = ''b.'', Qtype = TypePTR, Qclass = ClassINET\<rparr> = dotted [''b'']" "[''b''] \<noteq> []"
      "\<forall>l\<in>set [''b'']. plain_label l"
    by (simp_all add: plain_label_def)
  have at: "holds_at (message_wire ?m) 0 (message_wire ?m)"
    using holds_at_middle [of "[]" "message_wire ?m" "[]"] by simp
  have z: "zone_handlers [''a.'' \<mapsto> (\<lambda>now w r. Some (Ret w))] [''b''] = []"
    by (simp add: lower_char_def)
  have "\<not> r_tcp ?w"
    by simp
  from served_by_closest_zone [OF m q at this, of 3 "[''a.'' \<mapsto> (\<lambda>now w r. Some (Ret w))]" "[1]"] z show ?thesis
    by (auto simp: TypeDS_def TypePTR_def)
qed

section \<open>Dynamic updates\<close>

lemma good_msg_update:
  assumes "good_msg (m\<lparr>Question := qs, Answer := as, Ns := ns\<rparr>)"
    and "list_all good_rr as'" "length as' = length as" and "list_all good_rr ns'" "length ns' = length ns"
  shows "good_msg (m\<lparr>Question := qs, Answer := as', Ns := ns'\<rparr>)"
  using assms by (simp add: good_msg_def)

text \<open>
  C39: The functions of an update change the records they are given, and keep their data. When records are
  a prerequisite, as an RRset that exists, and others are inserted, a record in both lists asks for the very
  data instead of the RRset, and is added with a lifetime of 0. On the wire the records of the prerequisite
  have their data, for which the length was set to 0 and which the comment says there is not.
\<close>

theorem shared_update_records:
  assumes q: "zone u = q # zs" and v: "set ps \<union> set qs \<subseteq> {..<length (heap u)}"
    and m: "good_msg (m\<lparr>Question := zone u, Answer := map (\<lambda>p. heap u ! p) ps, Ns := map (\<lambda>p. heap u ! p) qs\<rparr>)"
  shows "\<exists>u' w. Insert (RRsetUsed u ps) qs = Some u' \<and> Pack (update_message m u') = Some (Ret w)
    \<and> (\<forall>x spare. \<exists>r. Unpack new_msg (w @ x) spare = Some (Ret r)
        \<and> map rr_hdr (Answer r) =
            map (\<lambda>p. (rr_hdr (heap u ! p))\<lparr>Class := if p \<in> set qs then Qclass q else ClassANY, Ttl := 0,
                                             Rdlength := word_of_nat (length (data_wire (heap u ! p)))\<rparr>) ps
        \<and> map rr_hdr (Ns r) =
            map (\<lambda>p. (rr_hdr (heap u ! p))\<lparr>Class := Qclass q, Ttl := if p \<in> set ps then 0 else Ttl (rr_hdr (heap u ! p)),
                                             Rdlength := word_of_nat (length (data_wire (heap u ! p)))\<rparr>) qs
        \<and> map data_wire (Answer r) = map (\<lambda>p. data_wire (heap u ! p)) ps)"
proof -
  from RRsetUsed_Insert [OF v q] obtain u' where u: "Insert (RRsetUsed u ps) qs = Some u'" "zone u' = zone u"
    and s: "prereq_section u' = map (\<lambda>p. update_hdr (\<lambda>h. h\<lparr>Class := if p \<in> set qs then Qclass q else ClassANY,
              Ttl := 0, Rdlength := 0\<rparr>) (heap u ! p)) ps"
      "change_section u' = map (\<lambda>p. update_hdr (\<lambda>h. if p \<in> set ps then h\<lparr>Class := Qclass q, Ttl := 0, Rdlength := 0\<rparr>
              else h\<lparr>Class := Qclass q\<rparr>) (heap u ! p)) qs"
    by blast
  have "\<forall>p\<in>set ps \<union> set qs. good_rr (heap u ! p)"
    using m by (auto simp: good_msg_def list_all_iff)
  then have "list_all good_rr (prereq_section u')" "list_all good_rr (change_section u')"
    unfolding s list_all_iff by (auto simp: good_rr_update_hdr)
  then have g: "good_msg (update_message m u')"
    unfolding update_message_def u(2) by (intro good_msg_update [OF m]) (simp_all add: s)
  have at: "holds_at (message_wire (update_message m u') @ x) 0 (message_wire (update_message m u'))" for x
    using holds_at_middle [of "[]" "message_wire (update_message m u')" x] by simp
  let ?r = "(received (update_message m u'))\<lparr>Compress := Compress new_msg\<rparr>"
  have r: "Answer ?r = map with_rdlength (prereq_section u')" "Ns ?r = map with_rdlength (change_section u')"
    by (simp_all add: received_def update_message_def)
  have "rr_hdr (with_rdlength (update_hdr f x)) = (f (rr_hdr x))\<lparr>Rdlength := word_of_nat (length (data_wire x))\<rparr>" for f x
    by (simp add: with_rdlength_def)
  then have h: "map rr_hdr (Answer ?r) =
        map (\<lambda>p. (rr_hdr (heap u ! p))\<lparr>Class := if p \<in> set qs then Qclass q else ClassANY, Ttl := 0,
                                         Rdlength := word_of_nat (length (data_wire (heap u ! p)))\<rparr>) ps"
      "map rr_hdr (Ns ?r) =
        map (\<lambda>p. (rr_hdr (heap u ! p))\<lparr>Class := Qclass q, Ttl := if p \<in> set ps then 0 else Ttl (rr_hdr (heap u ! p)),
                                         Rdlength := word_of_nat (length (data_wire (heap u ! p)))\<rparr>) qs"
      "map data_wire (Answer ?r) = map (\<lambda>p. data_wire (heap u ! p)) ps"
    unfolding r by (auto simp: s)
  show ?thesis
    using u(1) Pack_wire [OF g] Unpack_wire [OF g at, of new_msg] h by blast
qed

definition sample_ptr :: rr where
  "sample_ptr = PTR \<lparr>RRName = ''a.'', Rrtype = TypePTR, Class = 1, Ttl = 9, Rdlength = 0\<rparr> ''a.''"

lemma length_name_a: "length (name_wire ''a.'') = 3"
  by code_simp

lemma good_sample_ptr: "good_rr sample_ptr"
  using sample_names(1) length_name_a by (simp add: sample_ptr_def good_rr_def)

theorem shared_update_records_witness:
  "\<exists>u' w r. Insert (RRsetUsed \<lparr>heap = [sample_ptr], zone = [\<lparr>QName = ''a.'', Qtype = TypeSOA, Qclass = ClassINET\<rparr>],
        prereqs = [], changes = []\<rparr> [0]) [0] = Some u'
    \<and> Pack (update_message new_msg u') = Some (Ret w) \<and> Unpack new_msg w [] = Some (Ret r)
    \<and> map rr_hdr (Answer r) = [\<lparr>RRName = ''a.'', Rrtype = TypePTR, Class = ClassINET, Ttl = 0, Rdlength = 3\<rparr>]"
proof -
  let ?q = "\<lparr>QName = ''a.'', Qtype = TypeSOA, Qclass = ClassINET\<rparr>"
  let ?u = "\<lparr>heap = [sample_ptr], zone = [?q], prereqs = [], changes = []\<rparr>"
  have q: "zone ?u = ?q # []" "set [0] \<union> set [0] \<subseteq> {..<length (heap ?u)}"
    by simp_all
  have m: "good_msg (new_msg\<lparr>Question := zone ?u, Answer := map (\<lambda>p. heap ?u ! p) [0], Ns := map (\<lambda>p. heap ?u ! p) [0]\<rparr>)"
    using sample_names(1) good_sample_ptr by (simp add: good_msg_def new_msg_def)
  from shared_update_records [OF q m] show ?thesis
    by (force simp: sample_ptr_def length_name_a dest: spec [of _ "[]"])
qed

section \<open>Zone transfers\<close>


lemma received_soa [simp]: "isSOAFirst (received m) = isSOAFirst m" "isSOALast (received m) = isSOALast m"
  by (auto simp: isSOAFirst_def isSOALast_def received_def with_rdlength_def hd_map last_map)







definition sample_soa :: rr where
  "sample_soa = OtherRR \<lparr>RRName = ''a.'', Rrtype = TypeSOA, Class = 1, Ttl = 9, Rdlength = 0\<rparr>
     (''SOA'', [VStr ''a.'', VStr ''a.'', VU32 7, VU32 1, VU32 1, VU32 1, VU32 1])"



lemma inIxfr_lost:
  "\<forall>m\<in>set ms. Id m = ident \<and> Answer m \<noteq> [] \<and> soa_serial (last (Answer m)) \<noteq> Some k \<Longrightarrow>
   inIxfr ident (Some k) (map (\<lambda>m. (Some m, None)) ms @ (None, e) # reads) =
     (map (\<lambda>m. \<lparr>RR = Answer m, Error = None\<rparr>) ms, Xfr_Crashed)"
  by (induction ms) (simp_all add: ixfr_message_def deliver_def)

lemma inAxfr_lost:
  "\<forall>m\<in>set ms. Id m = ident \<and> \<not> isSOALast m \<Longrightarrow>
   inAxfr ident False (map (\<lambda>m. (Some m, None)) ms @ (None, Some e) # reads) =
     (map (\<lambda>m. \<lparr>RR = Answer m, Error = None\<rparr>) ms @ [\<lparr>RR = [], Error = Some e\<rparr>], Xfr_Closed)"
  by (induction ms) (simp_all add: deliver_def)

text \<open>
  C40: When the connection is lost in a transfer, an incremental transfer takes the answer of a message it did
  not get, and its goroutine ends the process. A full transfer delivers the error and is closed.
\<close>

theorem lost_connection_in_transfer:
  assumes q: "Question q = [x]" and m: "\<forall>m\<in>set ms. Id m = Id q \<and> Answer m \<noteq> []"
    and f: "ms \<noteq> [] \<longrightarrow> soa_serial (hd (Answer (hd ms))) = Some k \<and> isSOAFirst (hd ms)"
    and c: "is_tcp co" "incoming co = []"
  shows "\<exists>e. xfr_ReadMsg now secrets t co spare = Some (Ret ((None, Some e), co))
    \<and> (Qtype x = TypeIXFR \<and> (\<forall>m\<in>set ms. soa_serial (last (Answer m)) \<noteq> Some k) \<longrightarrow>
        transfer_In q (map (\<lambda>m. (Some m, None)) ms @ (None, Some e) # reads) =
          (map (\<lambda>m. \<lparr>RR = Answer m, Error = None\<rparr>) ms, Xfr_Crashed))
    \<and> (Qtype x = TypeAXFR \<and> (\<forall>m\<in>set ms. \<not> isSOALast m) \<longrightarrow>
        transfer_In q (map (\<lambda>m. (Some m, None)) ms @ (None, Some e) # reads) =
          (map (\<lambda>m. \<lparr>RR = Answer m, Error = None\<rparr>) ms @ [\<lparr>RR = [], Error = Some e\<rparr>], Xfr_Closed))"
proof -
  have read: "xfr_ReadMsg now secrets t co spare = Some (Ret ((None, Some io_EOF), co))"
    using c by (cases co) (simp add: xfr_ReadMsg_def conn_Read_def MaxMsgSize_def)
  have ixfr: "transfer_In q (map (\<lambda>m. (Some m, None)) ms @ (None, Some io_EOF) # reads) =
      (map (\<lambda>m. \<lparr>RR = Answer m, Error = None\<rparr>) ms, Xfr_Crashed)"
    if t: "Qtype x = TypeIXFR" "\<forall>m\<in>set ms. soa_serial (last (Answer m)) \<noteq> Some k"
  proof (cases ms)
    case (Cons m rest)
    then have "soa_serial (hd (Answer m)) = Some k" "isSOAFirst m" "Id m = Id q" "Answer m \<noteq> []"
        "soa_serial (last (Answer m)) \<noteq> Some k"
      using m f t(2) by simp_all
    moreover from this(1,5) have "length (Answer m) \<noteq> 1"
      by (cases "Answer m") auto
    moreover have "inIxfr (Id q) (Some k) (map (\<lambda>m. (Some m, None)) rest @ (None, Some io_EOF) # reads) =
        (map (\<lambda>m. \<lparr>RR = Answer m, Error = None\<rparr>) rest, Xfr_Crashed)"
      using m t(2) by (intro inIxfr_lost) (simp add: Cons)
    ultimately show ?thesis
      using t(1) q by (simp add: Cons transfer_In_def TypeIXFR_def TypeAXFR_def ixfr_message_def deliver_def)
  qed (use q t in \<open>simp add: transfer_In_def TypeIXFR_def TypeAXFR_def\<close>)
  have axfr: "transfer_In q (map (\<lambda>m. (Some m, None)) ms @ (None, Some io_EOF) # reads) =
      (map (\<lambda>m. \<lparr>RR = Answer m, Error = None\<rparr>) ms @ [\<lparr>RR = [], Error = Some io_EOF\<rparr>], Xfr_Closed)"
    if t: "Qtype x = TypeAXFR" "\<forall>m\<in>set ms. \<not> isSOALast m"
  proof (cases ms)
    case (Cons m rest)
    then have "isSOAFirst m" "Id m = Id q" "\<not> isSOALast m" "Answer m \<noteq> []"
      using m f t(2) by simp_all
    moreover from this(1,3,4) have "length (Answer m) \<noteq> 1"
      by (cases "Answer m") (auto simp: isSOAFirst_def isSOALast_def)
    moreover have "inAxfr (Id q) False (map (\<lambda>m. (Some m, None)) rest @ (None, Some io_EOF) # reads) =
        (map (\<lambda>m. \<lparr>RR = Answer m, Error = None\<rparr>) rest @ [\<lparr>RR = [], Error = Some io_EOF\<rparr>], Xfr_Closed)"
      using m t(2) by (intro inAxfr_lost) (simp add: Cons)
    ultimately show ?thesis
      using t(1) q by (simp add: Cons transfer_In_def deliver_def)
  qed (use q t in \<open>simp add: transfer_In_def\<close>)
  show ?thesis
    using read ixfr axfr by blast
qed

theorem lost_connection_in_transfer_witness:
  "\<exists>e. transfer_In (SetIxfr new_msg 7 ''a.'' 7)
      [(Some (new_msg\<lparr>Id := 7, Answer := [sample_soa, sample_ptr]\<rparr>), None), (None, Some e)] =
    ([\<lparr>RR = [sample_soa, sample_ptr], Error = None\<rparr>], Xfr_Crashed)"
proof -
  let ?q = "SetIxfr new_msg 7 ''a.'' 7"
  let ?x = "\<lparr>QName = ''a.'', Qtype = TypeIXFR, Qclass = ClassINET\<rparr>"
  let ?ms = "[new_msg\<lparr>Id := 7, Answer := [sample_soa, sample_ptr]\<rparr>]"
  let ?co = "\<lparr>is_tcp = True, UDPSize = 0, TsigSecret = Map.empty, tsigRequestMAC = [], incoming = [], outgoing = []\<rparr>"
  have q: "Question ?q = [?x]" "Id ?q = 7"
    by (simp_all add: SetIxfr_def)
  have m: "\<forall>m\<in>set ?ms. Id m = Id ?q \<and> Answer m \<noteq> []"
      "?ms \<noteq> [] \<longrightarrow> soa_serial (hd (Answer (hd ?ms))) = Some 7 \<and> isSOAFirst (hd ?ms)"
      "\<forall>m\<in>set ?ms. soa_serial (last (Answer m)) \<noteq> Some 7"
    by (simp_all add: q sample_soa_def sample_ptr_def soa_serial_def isSOAFirst_def)
  have c: "is_tcp ?co" "incoming ?co = []"
    by simp_all
  from lost_connection_in_transfer [OF q(1) m(1,2) c, of 0 None False "[]" "[]"] m(3) show ?thesis
    by auto
qed

end
