(* ===== verification/Nws_State.thy ===== *)
theory Nws_State
  imports Go_Json
begin

text \<open>
  The state of a named web socket (\<open>socket.go\<close>, \<open>peer.go\<close>, \<open>proxy.go\<close>, \<open>control.go\<close>): connection
  objects, the socket record, the broadcast channel, the calls a handler makes on the outside
  world as a list of effects, and the interface of the three connection lists as a locale.
\<close>

section \<open>Connections\<close>

text \<open>
  A \<open>*websocket.Conn\<close> pointer. Each connection object is made for one connection, so the pointer
  also identifies the connection object that holds it.
\<close>

type_synonym ws_ref = nat

text \<open>\<open>PeerConnection\<close>; \<open>ControlConnection\<close> embeds it and adds nothing.\<close>

record peer_conn =
  pc_id :: int
  pc_ws :: ws_ref

type_synonym control_conn = peer_conn

text \<open>
  \<open>ProxyConnection\<close> embeds it and adds \<open>writeable\<close>. Its map \<open>peers\<close> changes while the connection
  object is shared, so it lives in the socket record, keyed by the connection.
\<close>

record proxy_conn = peer_conn +
  writeable :: bool

record message =
  source :: int
  target :: int
  payload :: string
  fromProxy :: bool

section \<open>Effects\<close>

text \<open>The calls a handler makes, in order. Logging is left out.\<close>

datatype effect =
    WsText ws_ref string      \<comment> \<open>\<open>ws.WriteMessage(websocket.TextMessage, ...)\<close>\<close>
  | WsPing ws_ref             \<comment> \<open>\<open>ws.WriteMessage(websocket.PingMessage, ...)\<close>\<close>
  | WsClose ws_ref            \<comment> \<open>\<open>ws.Close()\<close>\<close>
  | NotifyPush string         \<comment> \<open>\<open>notify.Push\<close> of a desktop notification\<close>
  | HttpGet string            \<comment> \<open>\<open>http.Get\<close> of the local notification service\<close>
  | HttpError nat             \<comment> \<open>\<open>http.Error\<close> with a status code\<close>
  | HttpBody string           \<comment> \<open>a 200 response with this content\<close>
  | HttpHeader string string  \<comment> \<open>a response header is set\<close>
  | HttpTemplate string int   \<comment> \<open>a template is executed with a number\<close>
  | HttpRedirect string       \<comment> \<open>the multiplexer's redirect to a clean path\<close>
  | WsDial string             \<comment> \<open>\<open>websocket.DefaultDialer.Dial\<close> of a URL\<close>
  | GoPumps ws_ref            \<comment> \<open>the two pump goroutines of a connection are started\<close>
  | GoDispatcher              \<comment> \<open>\<open>go sock.messageDispatcher()\<close>\<close>
  | GoAdvertise string        \<comment> \<open>\<open>go sock.advertise(...)\<close> for a service name\<close>

text \<open>The text frames among the effects, with the connection each goes to.\<close>

fun texts :: "effect list \<Rightarrow> (ws_ref \<times> string) list" where
  "texts [] = []"
| "texts (WsText w s # es) = (w, s) # texts es"
| "texts (_ # es) = texts es"

lemma texts_append [simp]: "texts (xs @ ys) = texts xs @ texts ys"
  by (induction xs rule: texts.induct) auto

text \<open>The frames that go to one connection.\<close>

definition texts_to :: "ws_ref \<Rightarrow> effect list \<Rightarrow> string list" where
  "texts_to w es = map snd (filter (\<lambda>(v, _). v = w) (texts es))"

lemma texts_to_simps [simp]:
  "texts_to w [] = []"
  "texts_to w (xs @ ys) = texts_to w xs @ texts_to w ys"
  "texts_to w (WsText v s # es) = (if v = w then s # texts_to w es else texts_to w es)"
  "texts_to w (WsPing v # es) = texts_to w es"
  "texts_to w (WsClose v # es) = texts_to w es"
  "texts_to w (GoPumps v # es) = texts_to w es"
  "texts_to w (NotifyPush m # es) = texts_to w es"
  "texts_to w (HttpGet m # es) = texts_to w es"
  by (simp_all add: texts_to_def)

text \<open>What stops the process: a panic in a goroutine nobody recovers, or \<open>log.Fatal\<close>.\<close>

datatype crash = IndexOutOfRange | NilDereference | LogFatal

text \<open>
  One iteration of a read pump. \<open>Loop\<close>: back to the next read. \<open>Enqueue\<close>: the pump sends a message
  on the broadcast channel and loops when the channel takes it. \<open>Exit\<close>: the loop was left and the
  deferred \<open>removeConnection\<close> has run. \<open>Die\<close>: the process stops.
\<close>

datatype 's pump =
    Loop 's "effect list"
  | Enqueue 's "effect list" message
  | Exit 's "effect list"
  | Die crash "effect list"

text \<open>What \<open>ws.ReadMessage()\<close> returns to a pump: an error, or an opcode and a message.\<close>

datatype read_result = ReadErr | Frame nat string

definition text_message :: nat where
  "text_message = 1"

section \<open>The socket record\<close>

text \<open>A \<open>*DiscoveryClient\<close> pointer.\<close>

type_synonym dc_ref = nat

record nws =
  serviceName :: string
  controllers :: "control_conn list"
  peers :: "peer_conn list"
  proxies :: "proxy_conn list"
  broadcastBuffer :: "message list"
  discoveryClient :: "dc_ref option"
  owned :: "ws_ref \<Rightarrow> int list"

text \<open>
  \<open>owned w\<close> holds the keys of the map \<open>peers\<close> of the proxy connection on \<open>w\<close> (its values are always
  true), in the order a \<open>range\<close> over it visits them; Go leaves that order open, so no statement
  depends on it.
\<close>

definition buffer_capacity :: nat where
  "buffer_capacity = 512"

definition owns :: "nws \<Rightarrow> proxy_conn \<Rightarrow> int \<Rightarrow> bool" where
  "owns s x k = (k \<in> set (owned s (pc_ws x)))"

section \<open>The interface of a connection list\<close>

text \<open>
  Peers, proxies and controllers are kept in the same way: a list per kind, \<open>addConnection\<close>
  appends, \<open>removeConnection\<close> deletes the first entry with the connection's id. The locale states
  that contract; the three kinds interpret it in their theories.
\<close>

locale conn_list =
  fixes conns :: "'s \<Rightarrow> 'c list"
    and ident :: "'c \<Rightarrow> int"
    and add :: "'s \<Rightarrow> 'c \<Rightarrow> 's"
    and del :: "'s \<Rightarrow> 'c \<Rightarrow> 's"
  assumes conns_add: "conns (add s c) = conns s @ [c]"
    and conns_del: "conns (del s c) = remove_first (\<lambda>x. ident x = ident c) (conns s)"
begin

lemma ids_add: "ident ` set (conns (add s c)) = insert (ident c) (ident ` set (conns s))"
  by (auto simp: conns_add)

lemma distinct_add:
  "distinct (map ident (conns s)) \<Longrightarrow> ident c \<notin> ident ` set (conns s) \<Longrightarrow>
   distinct (map ident (conns (add s c)))"
  by (auto simp: conns_add)

lemma distinct_del:
  "distinct (map ident (conns s)) \<Longrightarrow> distinct (map ident (conns (del s c)))"
  by (simp add: conns_del distinct_map_remove_first)

lemma ids_del:
  "distinct (map ident (conns s)) \<Longrightarrow>
   ident ` set (conns (del s c)) = ident ` set (conns s) - {ident c}"
  by (simp add: conns_del mset_image_remove_first_ids)

lemma del_subset: "set (conns (del s c)) \<subseteq> set (conns s)"
  by (simp add: conns_del set_remove_first_subset)

lemma del_keeps_others: "x \<in> set (conns s) \<Longrightarrow> ident x \<noteq> ident c \<Longrightarrow> x \<in> set (conns (del s c))"
  by (simp add: conns_del remove_first_keeps)

text \<open>Adding a connection with a new id and removing it gives the old list back, in order.\<close>

lemma del_add: "ident c \<notin> ident ` set (conns s) \<Longrightarrow> conns (del (add s c) c) = conns s"
  by (auto simp: conns_add conns_del remove_first_append image_iff)

text \<open>
  With an id already in the list, the removal takes the older connection of that id and leaves the
  newer one behind.
\<close>

lemma del_add_shared_id:
  assumes "x \<in> set (conns s)" and "ident x = ident c"
  shows "conns (del (add s c) c) = conns (del s c) @ [c]"
  using assms by (auto simp: conns_add conns_del remove_first_append)

lemma del_absent: "ident c \<notin> ident ` set (conns s) \<Longrightarrow> conns (del s c) = conns s"
  by (auto simp: conns_del image_iff intro!: remove_first_none)

lemma length_del: "length (conns (del s c)) \<le> length (conns s)"
  by (simp add: conns_del length_remove_first)

end

end
