(* ===== verification/Nws_Socket.thy ===== *)
theory Nws_Socket
  imports Nws_State
begin

text \<open>
  \<open>socket.go\<close>: creation of a named web socket, the broadcast channel, the dispatcher goroutine and
  the two broadcasts, with the \<open>send\<close> methods of peer and proxy connections they call.
\<close>

section \<open>Operations\<close>

definition NewNamedWebSocket :: "string \<Rightarrow> bool \<Rightarrow> nws \<times> effect list" where
  "NewNamedWebSocket name isNetwork =
     (\<lparr>serviceName = name, controllers = [], peers = [], proxies = [], broadcastBuffer = [],
       discoveryClient = None, owned = (\<lambda>_. [])\<rparr>,
      [GoDispatcher] @ (if isNetwork then [GoAdvertise name] else []))"

definition peer_send :: "peer_conn \<Rightarrow> string \<Rightarrow> effect list" where
  "peer_send p s = [WsText (pc_ws p) s]"

definition proxy_send :: "proxy_conn \<Rightarrow> string \<Rightarrow> int \<Rightarrow> int \<Rightarrow> string \<Rightarrow> effect list" where
  "proxy_send x action src tgt body =
     [WsText (pc_ws x) (marshal \<lparr>Action = action, Source = src, Target = tgt, Payload = body\<rparr>)]"

definition control_send :: "control_conn \<Rightarrow> string \<Rightarrow> int \<Rightarrow> int \<Rightarrow> string \<Rightarrow> effect list" where
  "control_send c action src tgt body =
     [WsText (pc_ws c) (marshal \<lparr>Action = action, Source = src, Target = tgt, Payload = body\<rparr>)]"

definition localBroadcast :: "nws \<Rightarrow> message \<Rightarrow> effect list" where
  "localBroadcast s b =
     concat (map (\<lambda>p. if pc_id p = source b then [] else peer_send p (payload b)) (peers s))"

definition remoteBroadcast :: "nws \<Rightarrow> message \<Rightarrow> effect list" where
  "remoteBroadcast s b =
     (if fromProxy b then []
      else concat (map (\<lambda>x. if \<not> writeable x \<or> pc_id x = source b then []
                            else proxy_send x ''message'' (source b) 0 (payload b)) (proxies s)))"

text \<open>
  The channel: a send is possible while fewer than 512 messages are buffered, a receive while
  there is one. None is a goroutine that blocks.
\<close>

definition chan_send :: "nws \<Rightarrow> message \<Rightarrow> nws option" where
  "chan_send s m =
     (if length (broadcastBuffer s) < buffer_capacity
      then Some (s\<lparr>broadcastBuffer := broadcastBuffer s @ [m]\<rparr>) else None)"

text \<open>One turn of the dispatcher's loop.\<close>

definition messageDispatcher :: "nws \<Rightarrow> (nws \<times> effect list) option" where
  "messageDispatcher s =
     (case broadcastBuffer s of
        [] \<Rightarrow> None
      | m # ms \<Rightarrow>
          Some (s\<lparr>broadcastBuffer := ms\<rparr>, localBroadcast s m @ remoteBroadcast s m))"

text \<open>The dispatcher run until the channel is empty.\<close>

fun dispatch_all :: "nws \<Rightarrow> message list \<Rightarrow> effect list" where
  "dispatch_all s [] = []"
| "dispatch_all s (m # ms) = localBroadcast s m @ remoteBroadcast s m @ dispatch_all s ms"

section \<open>What a broadcast delivers\<close>

text \<open>Every message handler's effects are text frames: read off as connection and content.\<close>

lemma localBroadcast_eq [conn_simps]:
  "localBroadcast s b =
     map (\<lambda>p. WsText (pc_ws p) (payload b)) (filter (\<lambda>p. pc_id p \<noteq> source b) (peers s))"
  unfolding localBroadcast_def peer_send_def concat_map_skip by (rule refl)

lemma remoteBroadcast_eq [conn_simps]:
  "remoteBroadcast s b =
     (if fromProxy b then []
      else map (\<lambda>x. WsText (pc_ws x)
                 (marshal \<lparr>Action = ''message'', Source = source b, Target = 0, Payload = payload b\<rparr>))
             (filter (\<lambda>x. writeable x \<and> pc_id x \<noteq> source b) (proxies s)))"
  unfolding remoteBroadcast_def proxy_send_def concat_map_skip by simp

lemma texts_map_WsText [simp]:
  "texts (map (\<lambda>x. WsText (f x) (g x)) xs) = map (\<lambda>x. (f x, g x)) xs"
  by (induction xs) auto

lemma texts_localBroadcast:
  "texts (localBroadcast s b) =
     map (\<lambda>p. (pc_ws p, payload b)) (filter (\<lambda>p. pc_id p \<noteq> source b) (peers s))"
  by (simp add: localBroadcast_eq)

lemma texts_remoteBroadcast:
  "texts (remoteBroadcast s b) =
     (if fromProxy b then []
      else map (\<lambda>x. (pc_ws x,
                 marshal \<lparr>Action = ''message'', Source = source b, Target = 0, Payload = payload b\<rparr>))
             (filter (\<lambda>x. writeable x \<and> pc_id x \<noteq> source b) (proxies s)))"
  by (simp add: remoteBroadcast_eq)

text \<open>Connections to a peer and to proxies are distinct objects.\<close>

definition ws_distinct :: "nws \<Rightarrow> bool" where
  "ws_distinct s =
     distinct (map pc_ws (peers s) @ map pc_ws (proxies s) @ map pc_ws (controllers s))"

lemma filter_ws_single:
  assumes "distinct (map pc_ws xs)" and "p \<in> set xs"
  shows "filter (\<lambda>q. pc_ws q = pc_ws p) xs = [p]"
  using assms
proof (induction xs)
  case Nil
  then show ?case by simp
next
  case (Cons q qs)
  then show ?case
    by (cases "q = p") (auto simp: filter_empty_conv image_iff)
qed

lemma texts_to_map:
  "texts_to w (map (\<lambda>x. WsText (f x) (g x)) xs) = map g (filter (\<lambda>x. f x = w) xs)"
  by (simp add: texts_to_def filter_map comp_def)

lemma texts_to_peer:
  assumes "ws_distinct s" and "p \<in> set (peers s)"
  shows "texts_to (pc_ws p) (localBroadcast s b) = (if pc_id p = source b then [] else [payload b])"
    and "texts_to (pc_ws p) (remoteBroadcast s b) = []"
proof -
  have d: "distinct (map pc_ws (peers s))"
    using assms(1) by (simp add: ws_distinct_def)
  have "filter (\<lambda>x. pc_ws x = pc_ws p) (filter (\<lambda>q. pc_id q \<noteq> source b) (peers s)) =
      filter (\<lambda>q. pc_id q \<noteq> source b) (filter (\<lambda>x. pc_ws x = pc_ws p) (peers s))"
    by (simp add: conj_commute)
  then show "texts_to (pc_ws p) (localBroadcast s b) = (if pc_id p = source b then [] else [payload b])"
    by (simp add: localBroadcast_eq texts_to_map filter_ws_single [OF d assms(2)])
  have "\<forall>x\<in>set (proxies s). pc_ws x \<noteq> pc_ws p"
    using assms by (force simp: ws_distinct_def image_iff)
  then show "texts_to (pc_ws p) (remoteBroadcast s b) = []"
    by (auto simp: remoteBroadcast_eq texts_to_map filter_empty_conv)
qed

text \<open>
  The dispatcher delivers in the order of the channel: what a peer receives over a run is the
  sequence of the queued payloads, less the messages it sent itself.
\<close>

lemma dispatch_all_fifo:
  assumes "ws_distinct s" and "p \<in> set (peers s)"
  shows "texts_to (pc_ws p) (dispatch_all s ms) =
    map payload (filter (\<lambda>m. source m \<noteq> pc_id p) ms)"
  by (induction ms) (auto simp: texts_to_peer [OF assms])

section \<open>The channel is a bounded first-in first-out queue\<close>

text \<open>
  A bounded queue: \<open>put\<close> fails when it is full, \<open>get\<close> when it is empty, and the content is a list
  of at most \<open>cap\<close> messages.
\<close>

locale bounded_queue =
  fixes content :: "'s \<Rightarrow> 'm list"
    and put :: "'s \<Rightarrow> 'm \<Rightarrow> 's option"
    and get :: "'s \<Rightarrow> ('m \<times> 's) option"
    and cap :: nat
  assumes put_None: "put s m = None \<longleftrightarrow> cap \<le> length (content s)"
    and put_Some: "put s m = Some t \<Longrightarrow> content t = content s @ [m]"
    and get_None: "get s = None \<longleftrightarrow> content s = []"
    and get_Some: "get s = Some (m, t) \<Longrightarrow> content s = m # content t"
begin

fun puts :: "'s \<Rightarrow> 'm list \<Rightarrow> 's option" where
  "puts s [] = Some s"
| "puts s (m # ms) = (case put s m of None \<Rightarrow> None | Some t \<Rightarrow> puts t ms)"

fun gets :: "nat \<Rightarrow> 's \<Rightarrow> ('m list \<times> 's) option" where
  "gets 0 s = Some ([], s)"
| "gets (Suc n) s =
     (case get s of
        None \<Rightarrow> None
      | Some (m, t) \<Rightarrow> (case gets n t of None \<Rightarrow> None | Some (ms, u) \<Rightarrow> Some (m # ms, u)))"

lemma puts_content: "puts s ms = Some t \<Longrightarrow> content t = content s @ ms"
  by (induction ms arbitrary: s) (auto dest: put_Some split: option.splits)

lemma puts_bound:
  "length (content s) \<le> cap \<Longrightarrow> puts s ms = Some t \<Longrightarrow> length (content t) \<le> cap"
proof (induction ms arbitrary: s)
  case Nil
  then show ?case by simp
next
  case (Cons m ms)
  then obtain u where u: "put s m = Some u" "puts u ms = Some t"
    by (auto split: option.splits)
  then have "length (content s) < cap"
    using put_None [of s m] by auto
  with u Cons.IH [OF _ u(2)] put_Some [OF u(1)] show ?case by simp
qed

lemma gets_content: "gets n s = Some (ms, t) \<Longrightarrow> content s = ms @ content t \<and> length ms = n"
  by (induction n arbitrary: s ms) (auto dest!: get_Some split: option.splits)

lemma gets_total: "n \<le> length (content s) \<Longrightarrow> \<exists>ms t. gets n s = Some (ms, t)"
proof (induction n arbitrary: s)
  case 0
  then show ?case by simp
next
  case (Suc n)
  then have "get s \<noteq> None"
    using get_None [of s] by auto
  then obtain m t where m: "get s = Some (m, t)" by auto
  then have "n \<le> length (content t)"
    using Suc.prems get_Some [OF m] by simp
  with Suc.IH obtain ms u where "gets n t = Some (ms, u)" by blast
  with m show ?case by auto
qed

text \<open>What is put into an empty queue comes out in the same order, and the queue is empty again.\<close>

lemma put_get_fifo:
  assumes "content s = []" and "puts s ms = Some t"
  shows "\<exists>u. gets (length ms) t = Some (ms, u) \<and> content u = []"
proof -
  have c: "content t = ms"
    using puts_content [OF assms(2)] assms(1) by simp
  then obtain ns u where u: "gets (length ms) t = Some (ns, u)"
    using gets_total [of "length ms" t] by auto
  have g: "content t = ns @ content u" "length ns = length ms"
    using gets_content [OF u] by blast+
  then have "length ms = length ns + length (content u)"
    using c by (metis length_append)
  with g(2) have e: "content u = []" by simp
  with g(1) c have "ns = ms" by simp
  with u e show ?thesis by blast
qed

end

definition chan_recv :: "nws \<Rightarrow> (message \<times> nws) option" where
  "chan_recv s =
     (case broadcastBuffer s of [] \<Rightarrow> None | m # ms \<Rightarrow> Some (m, s\<lparr>broadcastBuffer := ms\<rparr>))"

interpretation chan: bounded_queue broadcastBuffer chan_send chan_recv buffer_capacity
proof unfold_locales
  fix s m t
  show "chan_send s m = None \<longleftrightarrow> buffer_capacity \<le> length (broadcastBuffer s)"
    by (simp add: chan_send_def not_less)
  show "chan_send s m = Some t \<Longrightarrow> broadcastBuffer t = broadcastBuffer s @ [m]"
    by (auto simp: chan_send_def split: if_splits)
  show "chan_recv s = None \<longleftrightarrow> broadcastBuffer s = []"
    by (simp add: chan_recv_def split: list.splits)
  show "chan_recv s = Some (m, t) \<Longrightarrow> broadcastBuffer s = m # broadcastBuffer t"
    by (cases "broadcastBuffer s") (auto simp: chan_recv_def)
qed

lemma messageDispatcher_recv:
  "messageDispatcher s =
     map_option (\<lambda>(m, t). (t, localBroadcast s m @ remoteBroadcast s m)) (chan_recv s)"
  by (simp add: messageDispatcher_def chan_recv_def split: list.splits)

end
