(* ===== verification/Nws_Control.thy ===== *)
theory Nws_Control
  imports Nws_Socket
begin

text \<open>
  \<open>control.go\<close>: control connections, which tell a client which peers exist and relay direct
  messages between clients, on this host or through a proxy connection to another one.
\<close>

section \<open>Operations\<close>

definition control_addConnection :: "nws \<Rightarrow> control_conn \<Rightarrow> nws \<times> effect list" where
  "control_addConnection s c =
     (let s1 = s\<lparr>controllers := controllers s @ [c]\<rparr> in
      (s1,
       [GoPumps (pc_ws c)]
       @ concat (map (\<lambda>p. if pc_id c \<noteq> pc_id p
                          then control_send c ''connect'' (pc_id c) (pc_id p) [] else []) (peers s1))
       @ concat (map (\<lambda>x. concat (map (\<lambda>k. control_send c ''connect'' (pc_id c) k [])
                                     (owned s1 (pc_ws x)))) (proxies s1))))"

definition control_removeConnection :: "nws \<Rightarrow> control_conn \<Rightarrow> nws \<times> effect list" where
  "control_removeConnection s c =
     (s\<lparr>controllers := remove_first (\<lambda>d. pc_id d = pc_id c) (controllers s)\<rparr>, [WsClose (pc_ws c)])"

text \<open>
  The relay of a direct message: the first local controller with the target's id, else the first
  proxy connection that owns the target, else nothing.
\<close>

definition control_relay :: "nws \<Rightarrow> control_conn \<Rightarrow> wire \<Rightarrow> effect list" where
  "control_relay s c m =
     (case List.find (\<lambda>d. pc_id d = Target m) (controllers s) of
        Some d \<Rightarrow> control_send d ''message'' (pc_id c) (Target m) (Payload m)
      | None \<Rightarrow>
          (case List.find (\<lambda>x. owns s x (Target m)) (proxies s) of
             Some x \<Rightarrow> proxy_send x ''directmessage'' (pc_id c) (Target m) (Payload m)
           | None \<Rightarrow> []))"

text \<open>
  One turn of \<open>readConnectionPump\<close>. A message that is not valid JSON for the wire type stops the
  whole process: the source calls \<open>log.Fatalf\<close>.
\<close>

definition control_readConnectionPump ::
    "nws \<Rightarrow> control_conn \<Rightarrow> read_result \<Rightarrow> nws pump" where
  "control_readConnectionPump s c r =
     (case r of
        ReadErr \<Rightarrow> (let (s1, e) = control_removeConnection s c in Exit s1 e)
      | Frame op buf \<Rightarrow>
          if op \<noteq> text_message then (let (s1, e) = control_removeConnection s c in Exit s1 e)
          else (case unmarshal buf of
                  None \<Rightarrow> Die LogFatal []
                | Some m \<Rightarrow>
                    if Action m = ''message'' then Loop s (control_relay s c m)
                    else Loop s []))"

text \<open>One turn of \<open>writeConnectionPump\<close>, whose loop has no exit: a ping each period.\<close>

definition writeConnectionPump :: "peer_conn \<Rightarrow> effect list" where
  "writeConnectionPump c = [WsPing (pc_ws c)]"

section \<open>The list of control connections\<close>

interpretation ctl: conn_list controllers pc_id
    "\<lambda>s c. fst (control_addConnection s c)" "\<lambda>s c. fst (control_removeConnection s c)"
  by unfold_locales (simp_all add: control_addConnection_def control_removeConnection_def Let_def)

lemma control_add_fields [simp]:
  "peers (fst (control_addConnection s c)) = peers s"
  "proxies (fst (control_addConnection s c)) = proxies s"
  "owned (fst (control_addConnection s c)) = owned s"
  "broadcastBuffer (fst (control_addConnection s c)) = broadcastBuffer s"
  "controllers (fst (control_addConnection s c)) = controllers s @ [c]"
  "serviceName (fst (control_addConnection s c)) = serviceName s"
  by (simp_all add: control_addConnection_def Let_def)

lemma control_remove_fields [simp]:
  "peers (fst (control_removeConnection s c)) = peers s"
  "proxies (fst (control_removeConnection s c)) = proxies s"
  "owned (fst (control_removeConnection s c)) = owned s"
  "broadcastBuffer (fst (control_removeConnection s c)) = broadcastBuffer s"
  "controllers (fst (control_removeConnection s c)) =
     remove_first (\<lambda>d. pc_id d = pc_id c) (controllers s)"
  "serviceName (fst (control_removeConnection s c)) = serviceName s"
  "snd (control_removeConnection s c) = [WsClose (pc_ws c)]"
  by (simp_all add: control_removeConnection_def)

lemma control_add_effects [conn_simps]:
  "snd (control_addConnection s c) =
     GoPumps (pc_ws c) #
     map (\<lambda>k. WsText (pc_ws c)
            (marshal \<lparr>Action = ''connect'', Source = pc_id c, Target = k, Payload = []\<rparr>))
       (filter (\<lambda>k. k \<noteq> pc_id c) (map pc_id (peers s))
        @ concat (map (\<lambda>x. owned s (pc_ws x)) (proxies s)))"
proof -
  have x: "concat (map (\<lambda>x. concat (map (\<lambda>k. [f k]) (g x))) xs) = map f (concat (map g xs))"
    for f :: "int \<Rightarrow> effect" and g :: "proxy_conn \<Rightarrow> int list" and xs
    by (induction xs) (auto simp: concat_map_singleton)
  show ?thesis
    unfolding control_addConnection_def control_send_def Let_def snd_conv concat_map_select x
    by (simp add: filter_map comp_def eq_commute)
qed

section \<open>The relay\<close>

text \<open>A relay sends at most one frame, and the process's state does not change.\<close>

lemma control_relay_at_most_one: "length (control_relay s c m) \<le> 1"
  by (simp add: control_relay_def control_send_def proxy_send_def split: option.splits)

lemma control_relay_local:
  assumes "d \<in> set (controllers s)" and "pc_id d = Target m" and "distinct (map pc_id (controllers s))"
  shows "control_relay s c m = control_send d ''message'' (pc_id c) (Target m) (Payload m)"
proof -
  have "List.find (\<lambda>e. pc_id e = Target m) (controllers s) = Some d"
    by (rule find_unique [OF assms(3) assms(1) assms(2)])
  then show ?thesis by (simp add: control_relay_def)
qed

end
