(* ===== verification/Nws_Notify.thy ===== *)
theory Nws_Notify
  imports Nws_State
begin

text \<open>
  The desktop notifications of \<open>peer.go\<close> and \<open>proxy.go\<close>: the two global lists of messages already
  notified and the platform the notification depends on. A message is notified when it contains
  \<open>http://\<close> and neither pump has notified it before.
\<close>

text \<open>\<open>runtime.GOOS\<close>, \<open>runtime.GOARCH\<close> and what \<open>filepath.Abs("Mediascape.png")\<close> returns.\<close>

record platform =
  goos :: string
  goarch :: string
  abs_icon :: "string option"

text \<open>The global variables \<open>peerNotifiedList\<close> and \<open>proxyNotifiedList\<close>.\<close>

record notified =
  peerNotifiedList :: "string list"
  proxyNotifiedList :: "string list"

definition no_notified :: notified where
  "no_notified = \<lparr>peerNotifiedList = [], proxyNotifiedList = []\<rparr>"

definition wants_notify :: "string \<Rightarrow> bool" where
  "wants_notify s = str_contains s ''http://''"

definition push_both :: "notified \<Rightarrow> string \<Rightarrow> notified" where
  "push_both g s =
     g\<lparr>peerNotifiedList := peerNotifiedList g @ [s], proxyNotifiedList := proxyNotifiedList g @ [s]\<rparr>"

text \<open>
  The call that shows the notification: a desktop push on Linux, a request to the notification
  service on Linux for ARM, nothing elsewhere. The two pumps use different service addresses.
\<close>

definition show_notification :: "platform \<Rightarrow> string \<Rightarrow> string \<Rightarrow> effect list" where
  "show_notification pf url s =
     (if goos pf = ''linux'' \<and> goarch pf \<noteq> ''arm'' then [NotifyPush s]
      else if goos pf = ''linux'' \<and> goarch pf = ''arm'' then [HttpGet (url @ s)]
      else [])"

definition peer_notify_url :: string where
  "peer_notify_url = ''http://localhost:8182/discoveryagent/notification?url=''"

definition proxy_notify_url :: string where
  "proxy_notify_url = ''http://localhost:8182/discoveragent/notification?url=''"

text \<open>
  What the pumps keep true of the two lists: they hold the same messages, each once, and only
  messages with a link.
\<close>

definition notified_inv :: "notified \<Rightarrow> bool" where
  "notified_inv g =
     (peerNotifiedList g = proxyNotifiedList g \<and> distinct (peerNotifiedList g)
      \<and> list_all wants_notify (peerNotifiedList g))"

lemma notified_inv_init [inv_intros]: "notified_inv no_notified"
  by (simp add: notified_inv_def no_notified_def)

lemma notified_inv_push [inv_intros]:
  "notified_inv g \<Longrightarrow> s \<notin> set (peerNotifiedList g) \<Longrightarrow> wants_notify s \<Longrightarrow> notified_inv (push_both g s)"
  by (auto simp: notified_inv_def push_both_def)

lemma push_both_lists [simp]:
  "peerNotifiedList (push_both g s) = peerNotifiedList g @ [s]"
  "proxyNotifiedList (push_both g s) = proxyNotifiedList g @ [s]"
  by (simp_all add: push_both_def)

text \<open>The notifications among the effects: at most one, of the message itself.\<close>

definition notifications :: "effect list \<Rightarrow> effect list" where
  "notifications es = filter (\<lambda>e. case e of NotifyPush _ \<Rightarrow> True | HttpGet _ \<Rightarrow> True | _ \<Rightarrow> False) es"

lemma texts_show_notification [simp]: "texts (show_notification pf url s) = []"
  by (simp add: show_notification_def)

lemma texts_to_show_notification [simp]: "texts_to w (show_notification pf url s) = []"
  by (simp add: texts_to_def)

end
