(* ===== verification/Nws_Peer.thy ===== *)
theory Nws_Peer
  imports Nws_Control Nws_Notify
begin

text \<open>
  \<open>peer.go\<close>: the client connections of a named web socket, the announcement of their coming and
  going to control and proxy connections, and the read pump that puts their messages on the
  broadcast channel.
\<close>

section \<open>Operations\<close>

definition announce_to_controllers :: "string \<Rightarrow> nws \<Rightarrow> int \<Rightarrow> effect list" where
  "announce_to_controllers action s k =
     concat (map (\<lambda>c. if pc_id c \<noteq> k then control_send c action (pc_id c) k [] else [])
       (controllers s))"

definition announce_to_proxies :: "string \<Rightarrow> nws \<Rightarrow> int \<Rightarrow> effect list" where
  "announce_to_proxies action s k =
     concat (map (\<lambda>x. if writeable x then proxy_send x action (pc_id x) k [] else []) (proxies s))"

definition peer_addConnection :: "nws \<Rightarrow> peer_conn \<Rightarrow> nws \<times> effect list" where
  "peer_addConnection s p =
     (let s1 = s\<lparr>peers := peers s @ [p]\<rparr> in
      (s1,
       announce_to_controllers ''connect'' s1 (pc_id p)
       @ announce_to_proxies ''connect'' s1 (pc_id p)
       @ [GoPumps (pc_ws p)]))"

definition peer_removeConnection :: "nws \<Rightarrow> peer_conn \<Rightarrow> nws \<times> effect list" where
  "peer_removeConnection s p =
     (let s1 = s\<lparr>peers := remove_first (\<lambda>q. pc_id q = pc_id p) (peers s)\<rparr>;
          (s2, e2) =
            (case List.find (\<lambda>c. pc_id c = pc_id p) (controllers s1) of
               None \<Rightarrow> (s1, [])
             | Some c \<Rightarrow> control_removeConnection s1 c) in
      (s2,
       e2
       @ announce_to_controllers ''disconnect'' s2 (pc_id p)
       @ announce_to_proxies ''disconnect'' s2 (pc_id p)
       @ [WsClose (pc_ws p)]))"

text \<open>
  One turn of \<open>readConnectionPump\<close>, over the socket and the global lists. A message with a link
  that was not notified before is recorded; then the source reads \<open>sock.controllers[0]\<close> without a
  check, which panics when there is no control connection.
\<close>

definition peer_readConnectionPump ::
    "platform \<Rightarrow> nws \<times> notified \<Rightarrow> peer_conn \<Rightarrow> read_result \<Rightarrow> (nws \<times> notified) pump" where
  "peer_readConnectionPump pf st p r =
     (let (s, g) = st in
      case r of
        ReadErr \<Rightarrow> (let (s1, e) = peer_removeConnection s p in Exit (s1, g) e)
      | Frame op buf \<Rightarrow>
          if op \<noteq> text_message then (let (s1, e) = peer_removeConnection s p in Exit (s1, g) e)
          else
            let m = \<lparr>source = pc_id p, target = 0, payload = buf, fromProxy = False\<rparr> in
            if wants_notify buf \<and> buf \<notin> set (peerNotifiedList g) then
              (let g1 = push_both g buf in
               case controllers s of
                 [] \<Rightarrow> Die IndexOutOfRange []
               | c0 # _ \<Rightarrow>
                   if pc_id p \<noteq> pc_id c0 then
                     (case abs_icon pf of
                        None \<Rightarrow> Die LogFatal []
                      | Some _ \<Rightarrow> Enqueue (s, g1) (show_notification pf peer_notify_url buf) m)
                   else Enqueue (s, g1) [] m)
            else Enqueue (s, g) [] m)"

section \<open>The list of peer connections\<close>

lemma find_controller_state:
  "(case List.find q (controllers s) of None \<Rightarrow> (s, []) | Some c \<Rightarrow> control_removeConnection s c) =
   (case List.find q (controllers s) of
      None \<Rightarrow> (s, [])
    | Some c \<Rightarrow> (fst (control_removeConnection s c), [WsClose (pc_ws c)]))"
  by (simp add: control_removeConnection_def split: option.splits)

lemma peer_add_fields [simp]:
  "peers (fst (peer_addConnection s p)) = peers s @ [p]"
  "controllers (fst (peer_addConnection s p)) = controllers s"
  "proxies (fst (peer_addConnection s p)) = proxies s"
  "owned (fst (peer_addConnection s p)) = owned s"
  "broadcastBuffer (fst (peer_addConnection s p)) = broadcastBuffer s"
  "serviceName (fst (peer_addConnection s p)) = serviceName s"
  by (simp_all add: peer_addConnection_def Let_def)

lemma remove_first_controller:
  "remove_first (\<lambda>c. pc_id c = k) cs =
     (case List.find (\<lambda>c. pc_id c = k) cs of
        None \<Rightarrow> cs | Some d \<Rightarrow> remove_first (\<lambda>c. pc_id c = pc_id d) cs)"
  by (auto simp: find_None_iff intro: remove_first_none dest: find_Some_first split: option.splits)

lemma peer_remove_fields [simp]:
  "peers (fst (peer_removeConnection s p)) = remove_first (\<lambda>q. pc_id q = pc_id p) (peers s)"
  "controllers (fst (peer_removeConnection s p)) = remove_first (\<lambda>c. pc_id c = pc_id p) (controllers s)"
  "proxies (fst (peer_removeConnection s p)) = proxies s"
  "owned (fst (peer_removeConnection s p)) = owned s"
  "broadcastBuffer (fst (peer_removeConnection s p)) = broadcastBuffer s"
  "serviceName (fst (peer_removeConnection s p)) = serviceName s"
  by (auto simp: peer_removeConnection_def Let_def remove_first_controller [of "pc_id p" "controllers s"]
      split: option.splits prod.splits dest: find_Some_first)
    (auto simp: control_removeConnection_def dest: find_Some_first)

interpretation per: conn_list peers pc_id
    "\<lambda>s p. fst (peer_addConnection s p)" "\<lambda>s p. fst (peer_removeConnection s p)"
  by unfold_locales simp_all


section \<open>Announcements\<close>

lemma announce_to_controllers_eq [conn_simps]:
  "announce_to_controllers a s k =
     map (\<lambda>c. WsText (pc_ws c) (marshal \<lparr>Action = a, Source = pc_id c, Target = k, Payload = []\<rparr>))
       (filter (\<lambda>c. pc_id c \<noteq> k) (controllers s))"
  unfolding announce_to_controllers_def control_send_def concat_map_select by (rule refl)

lemma announce_to_proxies_eq [conn_simps]:
  "announce_to_proxies a s k =
     map (\<lambda>x. WsText (pc_ws x) (marshal \<lparr>Action = a, Source = pc_id x, Target = k, Payload = []\<rparr>))
       (filter writeable (proxies s))"
  unfolding announce_to_proxies_def proxy_send_def concat_map_select by (rule refl)

lemma announce_cong [simp]:
  "announce_to_controllers a (s\<lparr>peers := ps\<rparr>) k = announce_to_controllers a s k"
  "announce_to_proxies a (s\<lparr>peers := ps\<rparr>) k = announce_to_proxies a s k"
  "announce_to_proxies a (s\<lparr>controllers := cs\<rparr>) k = announce_to_proxies a s k"
  by (simp_all add: announce_to_controllers_def announce_to_proxies_def)

lemma peer_add_effects [conn_simps]:
  "snd (peer_addConnection s p) =
     announce_to_controllers ''connect'' s (pc_id p) @ announce_to_proxies ''connect'' s (pc_id p)
     @ [GoPumps (pc_ws p)]"
  by (simp add: peer_addConnection_def Let_def)

text \<open>
  A leaving peer takes its control connection with it; the other controllers and the writeable
  proxies are told.
\<close>

lemma peer_remove_effects [conn_simps]:
  "snd (peer_removeConnection s p) =
     (case List.find (\<lambda>c. pc_id c = pc_id p) (controllers s) of
        None \<Rightarrow> [] | Some c \<Rightarrow> [WsClose (pc_ws c)])
     @ announce_to_controllers ''disconnect''
         (s\<lparr>controllers := remove_first (\<lambda>c. pc_id c = pc_id p) (controllers s)\<rparr>) (pc_id p)
     @ announce_to_proxies ''disconnect'' s (pc_id p) @ [WsClose (pc_ws p)]"
proof (cases "List.find (\<lambda>c. pc_id c = pc_id p) (controllers s)")
  case None
  then show ?thesis
    by (simp add: peer_removeConnection_def Let_def remove_first_controller announce_to_controllers_def)
next
  case (Some c)
  then have "pc_id c = pc_id p"
    by (auto dest: find_Some_first)
  with Some show ?thesis
    by (simp add: peer_removeConnection_def Let_def control_removeConnection_def
        announce_to_controllers_def announce_to_proxies_def)
qed

text \<open>What the announcements say to one controller and to one proxy.\<close>

lemma announce_to_controller:
  assumes "distinct (map pc_ws (controllers s))" and "c \<in> set (controllers s)"
  shows "texts_to (pc_ws c) (announce_to_controllers a s k) =
    (if pc_id c = k then []
     else [marshal \<lparr>Action = a, Source = pc_id c, Target = k, Payload = []\<rparr>])"
proof -
  have "filter (\<lambda>x. pc_ws x = pc_ws c) (filter (\<lambda>c. pc_id c \<noteq> k) (controllers s)) =
      filter (\<lambda>c. pc_id c \<noteq> k) (filter (\<lambda>x. pc_ws x = pc_ws c) (controllers s))"
    by (simp add: conj_commute)
  then show ?thesis
    by (simp add: announce_to_controllers_eq texts_to_map filter_ws_single [OF assms])
qed

lemma announce_to_proxy:
  assumes "distinct (map pc_ws (proxies s))" and "x \<in> set (proxies s)"
  shows "texts_to (pc_ws x) (announce_to_proxies a s k) =
    (if writeable x then [marshal \<lparr>Action = a, Source = pc_id x, Target = k, Payload = []\<rparr>] else [])"
proof -
  have single: "filter (\<lambda>y. pc_ws y = pc_ws x) xs = [x]"
    if "distinct (map pc_ws xs)" "x \<in> set xs" for xs :: "proxy_conn list"
    using that by (induction xs) (auto simp: image_iff filter_empty_conv)
  have "filter (\<lambda>y. pc_ws y = pc_ws x) (filter writeable (proxies s)) =
      filter writeable (filter (\<lambda>y. pc_ws y = pc_ws x) (proxies s))"
    by (simp add: conj_commute)
  then show ?thesis
    by (simp add: announce_to_proxies_eq texts_to_map single [OF assms])
qed

lemma announce_elsewhere:
  "w \<notin> pc_ws ` set (controllers s) \<Longrightarrow> texts_to w (announce_to_controllers a s k) = []"
  "w \<notin> pc_ws ` set (proxies s) \<Longrightarrow> texts_to w (announce_to_proxies a s k) = []"
  by (auto simp: announce_to_controllers_eq announce_to_proxies_eq texts_to_map filter_empty_conv)

section \<open>The read pump\<close>

lemma peer_pump_exit:
  "r = ReadErr \<or> (\<exists>op buf. r = Frame op buf \<and> op \<noteq> text_message) \<Longrightarrow>
   peer_readConnectionPump pf (s, g) p r =
     Exit (fst (peer_removeConnection s p), g) (snd (peer_removeConnection s p))"
  by (auto simp: peer_readConnectionPump_def Let_def split: prod.splits)

lemma peer_pump_cases:
  obtains (exit) "peer_readConnectionPump pf (s, g) p r =
      Exit (fst (peer_removeConnection s p), g) (snd (peer_removeConnection s p))"
  | (old) buf where "r = Frame text_message buf" "\<not> wants_notify buf \<or> buf \<in> set (peerNotifiedList g)"
      "peer_readConnectionPump pf (s, g) p r =
        Enqueue (s, g) [] \<lparr>source = pc_id p, target = 0, payload = buf, fromProxy = False\<rparr>"
  | (fresh) buf e where "r = Frame text_message buf" "wants_notify buf" "buf \<notin> set (peerNotifiedList g)"
      "e = [] \<or> e = show_notification pf peer_notify_url buf"
      "peer_readConnectionPump pf (s, g) p r =
        Enqueue (s, push_both g buf) e \<lparr>source = pc_id p, target = 0, payload = buf, fromProxy = False\<rparr>"
  | (die) c where "peer_readConnectionPump pf (s, g) p r = Die c []"
proof (cases "r = ReadErr \<or> (\<exists>op buf. r = Frame op buf \<and> op \<noteq> text_message)")
  case True
  then show ?thesis
    using exit peer_pump_exit by blast
next
  case False
  then obtain buf where r: "r = Frame text_message buf"
    by (cases r) auto
  show ?thesis
  proof (cases "wants_notify buf \<and> buf \<notin> set (peerNotifiedList g)")
    case True
    show ?thesis
    proof (cases "controllers s = [] \<or> (pc_id p \<noteq> pc_id (hd (controllers s)) \<and> abs_icon pf = None)")
      case stop: True
      with True r have "\<exists>c. peer_readConnectionPump pf (s, g) p r = Die c []"
        by (auto simp: peer_readConnectionPump_def Let_def split: list.splits option.splits)
      then show ?thesis
        using die by blast
    next
      case go: False
      define e where
        "e = (if pc_id p \<noteq> pc_id (hd (controllers s)) then show_notification pf peer_notify_url buf else [])"
      with True r go have "peer_readConnectionPump pf (s, g) p r =
          Enqueue (s, push_both g buf) e \<lparr>source = pc_id p, target = 0, payload = buf, fromProxy = False\<rparr>"
        by (auto simp: peer_readConnectionPump_def Let_def split: list.splits option.splits)
      moreover have "e = [] \<or> e = show_notification pf peer_notify_url buf"
        by (simp add: e_def)
      ultimately show ?thesis
        using fresh [of buf e] r True by blast
    qed
  next
    case not: False
    with r show ?thesis
      using old [of buf] by (auto simp: peer_readConnectionPump_def Let_def)
  qed
qed

lemma peer_pump_panics_iff:
  "peer_readConnectionPump pf (s, g) p r = Die IndexOutOfRange es \<longleftrightarrow>
     es = [] \<and> controllers s = [] \<and>
     (\<exists>buf. r = Frame text_message buf \<and> wants_notify buf \<and> buf \<notin> set (peerNotifiedList g))"
  by (auto simp: peer_readConnectionPump_def Let_def
      split: read_result.splits list.splits option.splits prod.splits if_splits)

end
