(* ===== verification/Nws_Proxy.thy ===== *)
theory Nws_Proxy
  imports Nws_Peer
begin

text \<open>
  \<open>proxy.go\<close>: the connections between two proxies. A writeable connection tells the other host which
  peers this host has; a read pump learns from such messages which peers the other host owns,
  puts broadcast messages on the channel and relays direct messages to a control connection.
\<close>

section \<open>Operations\<close>

definition proxy_addConnection :: "nws \<Rightarrow> proxy_conn \<Rightarrow> nws \<times> effect list" where
  "proxy_addConnection s x =
     (let s1 = s\<lparr>proxies := proxies s @ [x], owned := (owned s)(pc_ws x := [])\<rparr> in
      (s1,
       (if writeable x
        then concat (map (\<lambda>p. proxy_send x ''connect'' (pc_id x) (pc_id p) []) (peers s1)) else [])
       @ [GoPumps (pc_ws x)]))"

definition proxy_removeConnection :: "nws \<Rightarrow> proxy_conn \<Rightarrow> nws \<times> effect list" where
  "proxy_removeConnection s x =
     (let s1 = s\<lparr>proxies := remove_first (\<lambda>y. pc_id y = pc_id x) (proxies s)\<rparr> in
      (s1,
       (if writeable x
        then concat (map (\<lambda>p. proxy_send x ''disconnect'' (pc_id x) (pc_id p) []) (peers s1)) else [])
       @ [WsClose (pc_ws x)]))"

text \<open>The map \<open>proxy.peers\<close>: store a key, delete a key.\<close>

definition own_peer :: "nws \<Rightarrow> proxy_conn \<Rightarrow> int \<Rightarrow> nws" where
  "own_peer s x k =
     s\<lparr>owned := (owned s)(pc_ws x :=
        (let ks = owned s (pc_ws x) in if k \<in> set ks then ks else ks @ [k]))\<rparr>"

definition disown_peer :: "nws \<Rightarrow> proxy_conn \<Rightarrow> int \<Rightarrow> nws" where
  "disown_peer s x k =
     s\<lparr>owned := (owned s)(pc_ws x := filter (\<lambda>j. j \<noteq> k) (owned s (pc_ws x)))\<rparr>"

text \<open>All controllers, whatever their id, are told about a peer of the other host.\<close>

definition tell_controllers :: "string \<Rightarrow> nws \<Rightarrow> int \<Rightarrow> effect list" where
  "tell_controllers action s k =
     concat (map (\<lambda>c. control_send c action (pc_id c) k []) (controllers s))"

definition proxy_message ::
    "platform \<Rightarrow> nws \<times> notified \<Rightarrow> wire \<Rightarrow> (nws \<times> notified) pump" where
  "proxy_message pf st m =
     (let (s, g) = st;
          b = \<lparr>source = Source m, target = 0, payload = Payload m, fromProxy = True\<rparr> in
      if wants_notify (Payload m) \<and> Payload m \<notin> set (proxyNotifiedList g) then
        (case abs_icon pf of
           None \<Rightarrow> Die LogFatal []
         | Some _ \<Rightarrow>
             Enqueue (s, push_both g (Payload m)) (show_notification pf proxy_notify_url (Payload m)) b)
      else Enqueue (s, g) [] b)"

definition proxy_direct :: "nws \<Rightarrow> wire \<Rightarrow> effect list" where
  "proxy_direct s m =
     (case List.find (\<lambda>c. pc_id c = Target m) (controllers s) of
        Some c \<Rightarrow> control_send c ''message'' (Source m) (Target m) (Payload m)
      | None \<Rightarrow> [])"

text \<open>One turn of \<open>readConnectionPump\<close>; a message that does not decode is skipped.\<close>

definition proxy_readConnectionPump ::
    "platform \<Rightarrow> nws \<times> notified \<Rightarrow> proxy_conn \<Rightarrow> read_result \<Rightarrow> (nws \<times> notified) pump" where
  "proxy_readConnectionPump pf st x r =
     (let (s, g) = st in
      case r of
        ReadErr \<Rightarrow> (let (s1, e) = proxy_removeConnection s x in Exit (s1, g) e)
      | Frame op buf \<Rightarrow>
          if op \<noteq> text_message then (let (s1, e) = proxy_removeConnection s x in Exit (s1, g) e)
          else (case unmarshal buf of
                  None \<Rightarrow> Loop (s, g) []
                | Some m \<Rightarrow>
                    if Action m = ''connect'' then
                      Loop (own_peer s x (Target m), g) (tell_controllers ''connect'' s (Target m))
                    else if Action m = ''disconnect'' then
                      Loop (disown_peer s x (Target m), g) (tell_controllers ''disconnect'' s (Target m))
                    else if Action m = ''message'' then proxy_message pf (s, g) m
                    else if Action m = ''directmessage'' then Loop (s, g) (proxy_direct s m)
                    else Loop (s, g) []))"

section \<open>The list of proxy connections\<close>

lemma proxy_add_fields [simp]:
  "proxies (fst (proxy_addConnection s x)) = proxies s @ [x]"
  "peers (fst (proxy_addConnection s x)) = peers s"
  "controllers (fst (proxy_addConnection s x)) = controllers s"
  "owned (fst (proxy_addConnection s x)) = (owned s)(pc_ws x := [])"
  "broadcastBuffer (fst (proxy_addConnection s x)) = broadcastBuffer s"
  "serviceName (fst (proxy_addConnection s x)) = serviceName s"
  by (simp_all add: proxy_addConnection_def Let_def)

lemma proxy_remove_fields [simp]:
  "proxies (fst (proxy_removeConnection s x)) = remove_first (\<lambda>y. pc_id y = pc_id x) (proxies s)"
  "peers (fst (proxy_removeConnection s x)) = peers s"
  "controllers (fst (proxy_removeConnection s x)) = controllers s"
  "owned (fst (proxy_removeConnection s x)) = owned s"
  "broadcastBuffer (fst (proxy_removeConnection s x)) = broadcastBuffer s"
  "serviceName (fst (proxy_removeConnection s x)) = serviceName s"
  by (simp_all add: proxy_removeConnection_def Let_def)

interpretation prx: conn_list proxies pc_id
    "\<lambda>s x. fst (proxy_addConnection s x)" "\<lambda>s x. fst (proxy_removeConnection s x)"
  by unfold_locales simp_all

lemma proxy_add_effects [conn_simps]:
  "snd (proxy_addConnection s x) =
     (if writeable x
      then map (\<lambda>k. WsText (pc_ws x)
             (marshal \<lparr>Action = ''connect'', Source = pc_id x, Target = k, Payload = []\<rparr>))
             (map pc_id (peers s))
      else []) @ [GoPumps (pc_ws x)]"
  by (simp add: proxy_addConnection_def Let_def proxy_send_def comp_def concat_map_singleton)

lemma own_fields [simp]:
  "peers (own_peer s x k) = peers s" "peers (disown_peer s x k) = peers s"
  "proxies (own_peer s x k) = proxies s" "proxies (disown_peer s x k) = proxies s"
  "controllers (own_peer s x k) = controllers s" "controllers (disown_peer s x k) = controllers s"
  "broadcastBuffer (own_peer s x k) = broadcastBuffer s"
  "broadcastBuffer (disown_peer s x k) = broadcastBuffer s"
  "serviceName (own_peer s x k) = serviceName s" "serviceName (disown_peer s x k) = serviceName s"
  by (simp_all add: own_peer_def disown_peer_def)

lemma own_sets [simp]:
  "set (owned (own_peer s x k) w) = (if w = pc_ws x then insert k (set (owned s w)) else set (owned s w))"
  "set (owned (disown_peer s x k) w) = (if w = pc_ws x then set (owned s w) - {k} else set (owned s w))"
  by (auto simp: own_peer_def disown_peer_def Let_def)

lemma own_distinct:
  "distinct (owned s w) \<Longrightarrow> distinct (owned (own_peer s x k) w)"
  "distinct (owned s w) \<Longrightarrow> distinct (owned (disown_peer s x k) w)"
  by (auto simp: own_peer_def disown_peer_def Let_def)

end
