(* ===== verification/Go_Regexp.thy ===== *)
theory Go_Regexp
  imports Go_Strings
begin

text \<open>
  The part of Go's package \<open>regexp\<close> the source uses: expressions built from literals, counted
  character classes, sequence and alternative, the language they denote, and an executable
  matcher that returns every way a prefix can be consumed. \<open>MatchString\<close> looks for a match
  anywhere; the anchors \<open>^\<close> and \<open>$\<close> are the two flags of \<open>match_string\<close>.
\<close>

datatype rx =
    RLit string
  | RCls "char \<Rightarrow> bool" nat "nat option"
  | RSeq rx rx
  | RAlt rx rx

primrec rx_lang :: "rx \<Rightarrow> string set" where
  "rx_lang (RLit l) = {l}"
| "rx_lang (RCls p m n) =
     {w. list_all p w \<and> m \<le> length w \<and> (case n of None \<Rightarrow> True | Some k \<Rightarrow> length w \<le> k)}"
| "rx_lang (RSeq a b) = {u @ v | u v. u \<in> rx_lang a \<and> v \<in> rx_lang b}"
| "rx_lang (RAlt a b) = rx_lang a \<union> rx_lang b"

definition cls_upper :: "(char \<Rightarrow> bool) \<Rightarrow> nat option \<Rightarrow> string \<Rightarrow> nat" where
  "cls_upper p n s =
     (let k = length (takeWhile p s) in case n of None \<Rightarrow> k | Some b \<Rightarrow> min b k)"

primrec rx_rests :: "rx \<Rightarrow> string \<Rightarrow> string list" where
  "rx_rests (RLit l) s = (if has_prefix s l then [drop (length l) s] else [])"
| "rx_rests (RCls p m n) s = map (\<lambda>k. drop k s) [m..<Suc (cls_upper p n s)]"
| "rx_rests (RSeq a b) s = concat (map (rx_rests b) (rx_rests a s))"
| "rx_rests (RAlt a b) s = rx_rests a s @ rx_rests b s"

text \<open>A match starting at the front of \<open>s\<close>; \<open>to_end\<close> is the anchor \<open>$\<close>.\<close>

definition rx_match_here :: "rx \<Rightarrow> bool \<Rightarrow> string \<Rightarrow> bool" where
  "rx_match_here r to_end s = list_ex (\<lambda>t. \<not> to_end \<or> t = []) (rx_rests r s)"

definition match_string :: "bool \<Rightarrow> rx \<Rightarrow> bool \<Rightarrow> string \<Rightarrow> bool" where
  "match_string from_start r to_end s =
     (if from_start then rx_match_here r to_end s
      else list_ex (rx_match_here r to_end) (suffixes s))"

lemma cls_upper_iff:
  "k \<le> cls_upper p n s \<longleftrightarrow>
     k \<le> length s \<and> list_all p (take k s) \<and> (case n of None \<Rightarrow> True | Some b \<Rightarrow> k \<le> b)"
proof -
  have "k \<le> length (takeWhile p s) \<longleftrightarrow> k \<le> length s \<and> list_all p (take k s)" for k
  proof (induction s arbitrary: k)
    case Nil
    then show ?case by simp
  next
    case (Cons x xs)
    then show ?case by (cases k) auto
  qed
  then show ?thesis
    by (auto simp: cls_upper_def Let_def split: option.splits)
qed

lemma rx_rests_iff: "t \<in> set (rx_rests r s) \<longleftrightarrow> (\<exists>u\<in>rx_lang r. s = u @ t)"
proof (induction r arbitrary: s t)
  case (RLit l)
  then show ?case by (auto simp: has_prefix_iff prefix_def)
next
  case (RCls p m n)
  have "t \<in> set (rx_rests (RCls p m n) s) \<longleftrightarrow> (\<exists>k. m \<le> k \<and> k \<le> cls_upper p n s \<and> t = drop k s)"
    by (auto simp: image_iff less_Suc_eq_le simp del: upt_Suc)
  also have "\<dots> \<longleftrightarrow> (\<exists>u\<in>rx_lang (RCls p m n). s = u @ t)"
  proof
    assume "\<exists>k. m \<le> k \<and> k \<le> cls_upper p n s \<and> t = drop k s"
    then obtain k where "m \<le> k" "k \<le> cls_upper p n s" "t = drop k s" by blast
    then show "\<exists>u\<in>rx_lang (RCls p m n). s = u @ t"
      by (intro bexI [of _ "take k s"]) (auto simp: cls_upper_iff split: option.splits)
  next
    assume "\<exists>u\<in>rx_lang (RCls p m n). s = u @ t"
    then show "\<exists>k. m \<le> k \<and> k \<le> cls_upper p n s \<and> t = drop k s"
      by (auto simp: cls_upper_iff split: option.splits)
  qed
  finally show ?case .
next
  case (RSeq a b)
  then show ?case by (auto 0 4)
next
  case (RAlt a b)
  then show ?case by auto
qed

lemma rx_match_here_iff:
  "rx_match_here r to_end s \<longleftrightarrow> (\<exists>u\<in>rx_lang r. \<exists>t. s = u @ t \<and> (to_end \<longrightarrow> t = []))"
  by (auto simp: rx_match_here_def list_ex_iff rx_rests_iff Bex_def)

lemma match_string_iff:
  "match_string from_start r to_end s \<longleftrightarrow>
     (\<exists>a. \<exists>u\<in>rx_lang r. \<exists>b. s = a @ u @ b \<and> (from_start \<longrightarrow> a = []) \<and> (to_end \<longrightarrow> b = []))"
proof (cases from_start)
  case True
  then show ?thesis
    by (simp add: match_string_def rx_match_here_iff) (metis append_Nil)
next
  case False
  then have "match_string from_start r to_end s \<longleftrightarrow>
      (\<exists>v. suffix v s \<and> (\<exists>u\<in>rx_lang r. \<exists>b. v = u @ b \<and> (to_end \<longrightarrow> b = [])))"
    by (simp add: match_string_def list_ex_iff rx_match_here_iff Bex_def [of "set _"])
  with False show ?thesis
    unfolding suffix_def by blast
qed

lemma match_string_full: "match_string True r True s \<longleftrightarrow> s \<in> rx_lang r"
  by (auto simp: match_string_iff)

text \<open>The shape of the source's path expressions: three parts with literals between them.\<close>

lemma rx_lang_lit_seq: "u \<in> rx_lang (RSeq (RLit l) a) \<longleftrightarrow> (\<exists>x. u = l @ x \<and> x \<in> rx_lang a)"
  by auto

lemma rx_lang_seq: "u \<in> rx_lang (RSeq a b) \<longleftrightarrow> (\<exists>x y. u = x @ y \<and> x \<in> rx_lang a \<and> y \<in> rx_lang b)"
  by auto

lemma rx_lang_path:
  "u \<in> rx_lang (RSeq a (RSeq (RLit l) (RSeq b (RSeq (RLit m) c)))) \<longleftrightarrow>
     (\<exists>x y z. u = x @ l @ y @ m @ z \<and> x \<in> rx_lang a \<and> y \<in> rx_lang b \<and> z \<in> rx_lang c)"
  unfolding rx_lang_lit_seq rx_lang_seq [of _ a] rx_lang_seq [of _ b] by blast

lemma rx_lang_lits: "u \<in> rx_lang (RAlt (RLit l) (RLit m)) \<longleftrightarrow> u \<in> {l, m}"
  by auto

end
