(* ===== verification/Go_Http.thy ===== *)
theory Go_Http
  imports Go_Strings "HOL-Library.AList"
begin

text \<open>
  The parts of Go's \<open>net/http\<close> the proxy uses: a request with its header, \<open>Header.Get\<close>, and the
  routing of \<open>ServeMux\<close> with its cleaning of the path. Header keys are in canonical form.
\<close>

type_synonym header = "(string \<times> string list) list"

record http_request =
  Method :: string
  Path :: string
  HostName :: string
  Header :: header

definition header_values :: "header \<Rightarrow> string \<Rightarrow> string list" where
  "header_values h k = (case map_of h k of None \<Rightarrow> [] | Some vs \<Rightarrow> vs)"

definition header_get :: "header \<Rightarrow> string \<Rightarrow> string" where
  "header_get h k = (case header_values h k of [] \<Rightarrow> [] | v # _ \<Rightarrow> v)"

text \<open>\<open>path.Clean\<close> of a rooted path: the elements kept, the last one first.\<close>

fun clean_elems :: "string list \<Rightarrow> string list \<Rightarrow> string list" where
  "clean_elems acc [] = acc"
| "clean_elems acc (e # es) =
     (if e = [] \<or> e = ''.'' then clean_elems acc es
      else if e = ''..'' then clean_elems (drop 1 acc) es
      else clean_elems (e # acc) es)"

definition clean_path :: "string \<Rightarrow> string" where
  "clean_path p =
     (if p = [] then ''/''
      else
        let q = (if hd p = CHR ''/'' then p else CHR ''/'' # p);
            np = CHR ''/'' # str_join ''/'' (rev (clean_elems [] (split_on CHR ''/'' q))) in
        if last q = CHR ''/'' \<and> np \<noteq> ''/'' then np @ ''/'' else np)"

text \<open>
  \<open>ServeMux\<close> with subtree patterns: a path that is not clean is redirected, then the longest
  pattern that is a prefix wins; a pattern's path without its final slash is redirected.
\<close>

datatype 'h route = Redirect string | Handler 'h | NoHandler

definition longest_pattern :: "(string \<times> 'h) list \<Rightarrow> string \<Rightarrow> (string \<times> 'h) option" where
  "longest_pattern pats p =
     foldl (\<lambda>best (pat, h). if has_prefix p pat
          \<and> (case best of None \<Rightarrow> True | Some (b, _) \<Rightarrow> length b < length pat)
        then Some (pat, h) else best) None pats"

definition mux_route :: "(string \<times> 'h) list \<Rightarrow> http_request \<Rightarrow> 'h route" where
  "mux_route pats r =
     (if Method r \<noteq> ''CONNECT'' \<and> clean_path (Path r) \<noteq> Path r then Redirect (clean_path (Path r))
      else if Method r \<noteq> ''CONNECT'' \<and> (Path r @ ''/'') \<in> fst ` set pats \<and> Path r \<notin> fst ` set pats
        then Redirect (Path r @ ''/'')
      else (case longest_pattern pats (Path r) of None \<Rightarrow> NoHandler | Some (_, h) \<Rightarrow> Handler h))"

section \<open>URLs\<close>

text \<open>The fields of \<open>url.URL\<close> the source uses.\<close>

record url =
  Scheme :: string
  Opaque :: string
  Host :: string
  UrlPath :: string

definition unreserved_path :: "char \<Rightarrow> bool" where
  "unreserved_path c =
     (let n = (of_char c :: nat) in
      (97 \<le> n \<and> n \<le> 122) \<or> (65 \<le> n \<and> n \<le> 90) \<or> is_digit c
      \<or> c \<in> set ''-_.~$&+,/:;=@'')"

definition hex_digit :: "nat \<Rightarrow> char" where
  "hex_digit d = (if d < 10 then char_of (48 + d) else char_of (55 + d))"

text \<open>The percent encoding of a path.\<close>

definition escape_path :: "string \<Rightarrow> string" where
  "escape_path s =
     concat (map (\<lambda>c. if unreserved_path c then [c]
                      else [CHR ''%'', hex_digit (of_char c div 16), hex_digit (of_char c mod 16)]) s)"

text \<open>\<open>URL.RequestURI\<close>: the opaque part when there is one, else the encoded path.\<close>

definition request_uri :: "url \<Rightarrow> string" where
  "request_uri u =
     (if Opaque u = [] then (if UrlPath u = [] then ''/'' else escape_path (UrlPath u))
      else if has_prefix (Opaque u) ''//'' then Scheme u @ '':'' @ Opaque u else Opaque u)"

text \<open>\<open>URL.String\<close> for a URL with a scheme and a host.\<close>

definition url_string :: "url \<Rightarrow> string" where
  "url_string u =
     Scheme u @ ''://'' @ Host u
     @ (if UrlPath u \<noteq> [] \<and> hd (UrlPath u) \<noteq> CHR ''/'' then ''/'' else [])
     @ escape_path (UrlPath u)"

text \<open>
  The host \<open>url.Parse\<close> finds, or None for its error: a fragment and a query are cut off, a scheme is
  taken off the front, and what follows two slashes is the authority.
\<close>

fun get_scheme :: "bool \<Rightarrow> string \<Rightarrow> string \<Rightarrow> (string \<times> string) option" where
  "get_scheme first acc [] = Some ([], rev acc)"
| "get_scheme first acc (c # cs) =
     (let n = (of_char c :: nat) in
      if (97 \<le> n \<and> n \<le> 122) \<or> (65 \<le> n \<and> n \<le> 90) then get_scheme False (c # acc) cs
      else if is_digit c \<or> c \<in> set ''+-.'' then
        (if first then Some ([], c # cs) else get_scheme False (c # acc) cs)
      else if c = CHR '':'' then (if first then None else Some (rev acc, cs))
      else Some ([], rev acc @ c # cs))"

definition is_hex :: "char \<Rightarrow> bool" where
  "is_hex c =
     (let n = (of_char c :: nat) in
      is_digit c \<or> (65 \<le> n \<and> n \<le> 70) \<or> (97 \<le> n \<and> n \<le> 102))"

fun bad_escape :: "string \<Rightarrow> bool" where
  "bad_escape [] = False"
| "bad_escape (c # cs) =
     (if c = CHR ''%'' then
        (case cs of
           a # b # _ \<Rightarrow> \<not> (is_hex a \<and> is_hex b) \<or> bad_escape cs
         | _ \<Rightarrow> True)
      else bad_escape cs)"

definition url_host :: "string \<Rightarrow> string option" where
  "url_host raw =
     (let u = takeWhile (\<lambda>c. c \<noteq> CHR ''#'') raw;
          frag = drop 1 (dropWhile (\<lambda>c. c \<noteq> CHR ''#'') raw) in
      if bad_escape frag then None
      else if u = ''*'' then Some []
      else case get_scheme True [] u of
        None \<Rightarrow> None
      | Some (scheme, r) \<Rightarrow>
          let rest = takeWhile (\<lambda>c. c \<noteq> CHR ''?'') r in
          if \<not> has_prefix rest ''/'' \<and> scheme \<noteq> [] then Some []
          else if has_prefix rest ''//'' \<and> (scheme \<noteq> [] \<or> \<not> has_prefix rest ''///'') then
            (let authority = takeWhile (\<lambda>c. c \<noteq> CHR ''/'') (drop 2 rest);
                 path = dropWhile (\<lambda>c. c \<noteq> CHR ''/'') (drop 2 rest);
                 parts = split_on CHR ''@'' authority;
                 host = last parts;
                 user = str_join ''@'' (butlast parts) in
             if bad_escape user \<or> CHR ''%'' \<in> set host \<or> bad_escape path then None else Some host)
          else if bad_escape rest then None else Some [])"

end
