(* ===== verification/Go_Mime.thy ===== *)
theory Go_Mime
  imports Go_Http
begin

text \<open>
  Header blocks, requests and responses as text: what \<open>net/http\<close> and \<open>net/textproto\<close> read, and that
  they read back the header fields the source writes.
\<close>

section \<open>Headers on the wire\<close>

definition header_set :: "header \<Rightarrow> string \<Rightarrow> string list \<Rightarrow> header" where
  "header_set h k vs = AList.update k vs h"

definition header_add :: "header \<Rightarrow> string \<Rightarrow> string \<Rightarrow> header" where
  "header_add h k v = header_set h k (header_values h k @ [v])"

definition upper_char :: "char \<Rightarrow> char" where
  "upper_char c =
     (let n = (of_char c :: nat) in if 97 \<le> n \<and> n \<le> 122 then char_of (n - 32) else c)"

text \<open>\<open>CanonicalMIMEHeaderKey\<close>: a letter at the front or after a hyphen in upper case, others lower.\<close>

fun canon_key :: "bool \<Rightarrow> string \<Rightarrow> string" where
  "canon_key up [] = []"
| "canon_key up (c # cs) =
     (if up then upper_char c else lower_char c) # canon_key (c = CHR ''-'') cs"

definition CR :: char where "CR = CHR 0x0D"
definition LF :: char where "LF = CHR 0x0A"
definition CRLF :: string where "CRLF = [CR, LF]"

text \<open>
  The complete lines of a text, without their ends: a line ends in a line feed or in both
  characters. \<open>drop_head\<close> is what follows the first empty line.
\<close>

definition http_lines :: "string \<Rightarrow> string list" where
  "http_lines s = map (\<lambda>l. trim_suffix l [CR]) (butlast (split_on LF s))"

function drop_head :: "string \<Rightarrow> string option" where
  "drop_head s =
     (if has_prefix s CRLF then Some (drop 2 s)
      else if has_prefix s [LF] then Some (drop 1 s)
      else (case dropWhile (\<lambda>c. c \<noteq> LF) s of [] \<Rightarrow> None | c # t \<Rightarrow> drop_head t))"
  by pat_completeness auto

termination
proof (relation "measure length")
  fix s c t
  assume "dropWhile (\<lambda>c. c \<noteq> LF) s = c # t"
  then have "length (c # t) \<le> length s"
    by (metis length_dropWhile_le)
  then show "(t, s) \<in> measure length" by simp
qed simp

declare drop_head.simps [simp del]

definition blank :: "char \<Rightarrow> bool" where
  "blank c = (c = CHR '' '' \<or> c = CHR 0x09)"

text \<open>\<open>ReadMIMEHeader\<close> of package \<open>textproto\<close>, with the continuation lines joined to their line.\<close>

fun unfold_lines :: "string list \<Rightarrow> string list" where
  "unfold_lines [] = []"
| "unfold_lines [l] = [trim_by blank l]"
| "unfold_lines (l # m # ls) =
     (if m \<noteq> [] \<and> blank (hd m) then unfold_lines ((trim_by blank l @ '' '' @ trim_by blank m) # ls)
      else trim_by blank l # unfold_lines (m # ls))"

definition header_line :: "string \<Rightarrow> (string \<times> string) option" where
  "header_line l =
     (if CHR '':'' \<notin> set l then None
      else Some (canon_key True (rev (dropWhile blank (rev (takeWhile (\<lambda>c. c \<noteq> CHR '':'') l)))),
                 trim_by blank (drop 1 (dropWhile (\<lambda>c. c \<noteq> CHR '':'') l))))"

fun header_of_lines :: "header \<Rightarrow> string list \<Rightarrow> header option" where
  "header_of_lines h [] = Some h"
| "header_of_lines h (l # ls) =
     (case header_line l of
        None \<Rightarrow> None
      | Some (k, v) \<Rightarrow> header_of_lines (if k = [] then h else header_add h k v) ls)"

text \<open>The header block: the lines up to the first empty one, which must be there.\<close>

definition read_mime_header :: "string list \<Rightarrow> header option" where
  "read_mime_header ls =
     (if [] \<in> set ls then header_of_lines [] (unfold_lines (takeWhile (\<lambda>l. l \<noteq> []) ls)) else None)"

record http_response =
  StatusCode :: int
  RespHeader :: header

text \<open>\<open>strings.SplitN(s, " ", 3)\<close>.\<close>

definition split3 :: "string \<Rightarrow> string list" where
  "split3 s =
     (case split_on CHR '' '' s of
        a # b # c # r \<Rightarrow> [a, b, str_join '' '' (c # r)]
      | ws \<Rightarrow> ws)"

definition parse_http_version :: "string \<Rightarrow> bool" where
  "parse_http_version v =
     (has_prefix v ''HTTP/'' \<and>
      (case split_on CHR ''.'' (drop 5 v) of
         a # b # r \<Rightarrow>
           snd (atoi a) \<and> fst (atoi a) \<ge> 0 \<and> snd (atoi (str_join ''.'' (b # r)))
           \<and> fst (atoi (str_join ''.'' (b # r))) \<ge> 0
       | _ \<Rightarrow> False))"

text \<open>\<open>http.ReadResponse\<close>: status line and header; None is its error.\<close>

definition read_response :: "string \<Rightarrow> http_response option" where
  "read_response s =
     (case http_lines s of
        l # ls \<Rightarrow>
          (case split3 l of
             v # code # _ \<Rightarrow>
               if length code = 3 \<and> snd (atoi code) \<and> fst (atoi code) \<ge> 0 \<and> parse_http_version v
               then (case read_mime_header ls of
                       None \<Rightarrow> None
                     | Some h \<Rightarrow> Some \<lparr>StatusCode = fst (atoi code), RespHeader = h\<rparr>)
               else None
           | _ \<Rightarrow> None)
      | [] \<Rightarrow> None)"

text \<open>
  \<open>http.ReadRequest\<close> as the server reads it: request line, header, and the host moved out of the
  header. The path is taken as it stands: the paths of this program need no escapes.
\<close>

definition read_request :: "string \<Rightarrow> http_request option" where
  "read_request s =
     (case http_lines s of
        l # ls \<Rightarrow>
          (case split3 l of
             [m, uri, v] \<Rightarrow>
               if parse_http_version v
               then (case read_mime_header ls of
                       None \<Rightarrow> None
                     | Some h \<Rightarrow>
                         Some \<lparr>Method = m, Path = uri, HostName = header_get h ''Host'',
                               Header = AList.delete ''Host'' h\<rparr>)
               else None
           | _ \<Rightarrow> None)
      | [] \<Rightarrow> None)"

section \<open>What is written is read back\<close>

text \<open>Header fields as the source writes them.\<close>

definition header_text :: "(string \<times> string) list \<Rightarrow> string" where
  "header_text kvs = concat (map (\<lambda>(k, v). k @ '': '' @ v @ CRLF) kvs)"

text \<open>A key is canonical and free of blanks and colons, a value has no line end in it.\<close>

definition good_field :: "string \<times> string \<Rightarrow> bool" where
  "good_field kv =
     (fst kv \<noteq> [] \<and> CHR '':'' \<notin> set (fst kv) \<and> \<not> list_ex blank (fst kv)
      \<and> CR \<notin> set (fst kv) \<and> LF \<notin> set (fst kv) \<and> CR \<notin> set (snd kv) \<and> LF \<notin> set (snd kv))"

lemma http_lines_cons:
  assumes "LF \<notin> set l"
  shows "http_lines (l @ CRLF @ s) = l # http_lines s"
proof -
  have "split_on LF ((l @ [CR]) @ LF # s) = (l @ [CR]) # split_on LF s"
    using assms by (intro split_on_append_sep) (simp add: CR_def LF_def)
  moreover have "split_on LF s \<noteq> []" by simp
  ultimately show ?thesis
    by (simp add: http_lines_def CRLF_def trim_suffix_def)
qed

lemma http_lines_header_text:
  "list_all good_field kvs \<Longrightarrow>
   http_lines (header_text kvs @ CRLF @ rest) = map (\<lambda>(k, v). k @ '': '' @ v) kvs @ [] # http_lines rest"
proof (induction kvs)
  case Nil
  then show ?case
    using http_lines_cons [of "[]" rest] by (simp add: header_text_def)
next
  case (Cons kv kvs)
  obtain k v where kv: "kv = (k, v)" by force
  with Cons.prems have "LF \<notin> set (k @ '': '' @ v)"
    by (auto simp: good_field_def LF_def)
  from http_lines_cons [OF this, of "header_text kvs @ CRLF @ rest"] Cons kv show ?case
    by (simp add: header_text_def)
qed

lemma trim_right_append:
  assumes "\<not> p c"
  shows "rev (dropWhile p (rev (xs @ c # ys))) = xs @ c # rev (dropWhile p (rev ys))"
proof -
  have "dropWhile p (rev ys @ c # rev xs) = dropWhile p (rev ys) @ c # rev xs"
    using assms by (auto simp: dropWhile_append dropWhile_eq_Nil_conv)
  then show ?thesis by simp
qed

lemma trim_by_trim_right: "trim_by p (rev (dropWhile p (rev s))) = trim_by p s"
proof (cases "list_all p s")
  case True
  then have d: "dropWhile p (rev s) = []" "dropWhile p s = []"
    by (auto simp: list_all_iff)
  show ?thesis
    unfolding trim_by_def d by simp
next
  case False
  then have "\<exists>x\<in>set s. \<not> p x"
    by (simp add: list_all_iff)
  then obtain a c b where s: "s = a @ c # b" "list_all p a" "\<not> p c"
    using split_list_first_prop [of s "\<lambda>x. \<not> p x"] by (auto simp: list_all_iff)
  have d: "dropWhile p (a @ c # ys) = c # ys" for ys
    using s(2,3) by (auto simp: dropWhile_append list_all_iff)
  have "rev (dropWhile p (rev (a @ c # b))) = a @ c # rev (dropWhile p (rev b))"
    using s(3) by (rule trim_right_append)
  moreover have "rev (dropWhile p (rev (c # rev (dropWhile p (rev b))))) = c # rev (dropWhile p (rev b))"
    using s(3) trim_right_append [of p c "[]" "rev (dropWhile p (rev b))"] by simp
  moreover have "rev (dropWhile p (rev (c # b))) = c # rev (dropWhile p (rev b))"
    using s(3) trim_right_append [of p c "[]" b] by simp
  ultimately show ?thesis
    by (simp only: s(1) trim_by_def d)
qed

lemma header_line_field:
  assumes "good_field (k, v)"
  shows "header_line (trim_by blank (k @ '': '' @ v)) = Some (canon_key True k, trim_by blank v)"
proof -
  have k: "k \<noteq> []" "CHR '':'' \<notin> set k" "\<forall>c\<in>set k. \<not> blank c"
    using assms by (auto simp: good_field_def list_ex_iff)
  define w where "w = rev (dropWhile blank (rev ('' '' @ v)))"
  have "dropWhile blank (k @ xs) = k @ xs" for xs
    using k by (cases k) auto
  moreover have "\<not> blank (CHR '':'')" by (simp add: blank_def)
  ultimately have t: "trim_by blank (k @ '': '' @ v) = k @ CHR '':'' # w"
    using trim_right_append [of blank "CHR '':''" k "'' '' @ v"] by (simp add: trim_by_def w_def)
  have "takeWhile (\<lambda>c. c \<noteq> CHR '':'') (k @ CHR '':'' # w) = k"
    using k(2) by (subst takeWhile_append2) auto
  moreover have "dropWhile (\<lambda>c. c \<noteq> CHR '':'') (k @ CHR '':'' # w) = CHR '':'' # w"
    using k(2) by (auto simp: dropWhile_append)
  moreover have "rev (dropWhile blank (rev k)) = k"
    using k(1,3) by (cases k rule: rev_cases) auto
  moreover have "trim_by blank w = trim_by blank v"
    by (simp add: w_def trim_by_trim_right del: rev_append append_Cons)
       (simp add: trim_by_def blank_def)
  ultimately show ?thesis
    unfolding header_line_def t by simp
qed

lemma unfold_lines_plain:
  "\<forall>l\<in>set ls. l \<noteq> [] \<and> \<not> blank (hd l) \<Longrightarrow> unfold_lines ls = map (trim_by blank) ls"
  by (induction ls rule: unfold_lines.induct) auto

lemma header_of_lines_fields:
  assumes "list_all good_field kvs"
  shows "header_of_lines h (map (trim_by blank) (map (\<lambda>(k, v). k @ '': '' @ v) kvs)) =
    Some (foldl (\<lambda>h (k, v). header_add h (canon_key True k) (trim_by blank v)) h kvs)"
  using assms
proof (induction kvs arbitrary: h)
  case (Cons kv kvs)
  obtain k v where kv: "kv = (k, v)" by force
  with Cons.prems have g: "good_field (k, v)" by simp
  then have "canon_key True k \<noteq> []"
    by (cases k) (auto simp: good_field_def)
  with Cons g kv header_line_field [OF g] show ?case
    by simp
qed simp

definition header_of_fields :: "(string \<times> string) list \<Rightarrow> header" where
  "header_of_fields kvs =
     foldl (\<lambda>h (k, v). header_add h (canon_key True k) (trim_by blank v)) [] kvs"

text \<open>Reading the lines of a header block gives the fields that were written.\<close>

lemma read_mime_header_text:
  assumes "list_all good_field kvs"
  shows "read_mime_header (http_lines (header_text kvs @ CRLF @ rest)) = Some (header_of_fields kvs)"
proof -
  let ?ls = "map (\<lambda>(k, v). k @ '': '' @ v) kvs"
  have ne: "\<forall>l\<in>set ?ls. l \<noteq> [] \<and> \<not> blank (hd l)"
    using assms by (fastforce simp: list_all_iff good_field_def list_ex_iff neq_Nil_conv)
  then have "takeWhile (\<lambda>l. l \<noteq> []) (?ls @ [] # http_lines rest) = ?ls"
    by (auto simp: takeWhile_append)
  then show ?thesis
    using assms ne
    by (simp only: read_mime_header_def http_lines_header_text header_of_fields_def
        unfold_lines_plain header_of_lines_fields) simp
qed

lemma header_values_set [simp]:
  "header_values (header_set h k vs) j = (if j = k then vs else header_values h j)"
  by (simp add: header_values_def header_set_def update_conv')

lemma header_values_of_fields:
  "header_values (foldl (\<lambda>h (k, v). header_add h (canon_key True k) (trim_by blank v)) h kvs) j =
     header_values h j @ map (trim_by blank \<circ> snd) (filter (\<lambda>(k, v). canon_key True k = j) kvs)"
  by (induction kvs arbitrary: h) (auto simp: header_add_def)

text \<open>The values of a key are those of its fields, in order.\<close>

lemma header_values_fields:
  "header_values (header_of_fields kvs) j =
     map (trim_by blank \<circ> snd) (filter (\<lambda>(k, v). canon_key True k = j) kvs)"
  by (simp add: header_of_fields_def header_values_of_fields) (simp add: header_values_def)

lemma header_values_delete [simp]:
  "header_values (AList.delete k h) j = (if j = k then [] else header_values h j)"
  by (simp add: header_values_def delete_conv')

text \<open>The reader stops after the empty line.\<close>

lemma drop_head_line:
  assumes "LF \<notin> set l" and "l \<noteq> []" and "hd l \<noteq> CR"
  shows "drop_head (l @ CRLF @ s) = drop_head s"
proof -
  have "\<not> has_prefix (l @ CRLF @ s) CRLF" "\<not> has_prefix (l @ CRLF @ s) [LF]"
    using assms by (cases l; auto simp: CRLF_def)+
  moreover have "dropWhile (\<lambda>c. c \<noteq> LF) (l @ CRLF @ s) = LF # s"
    using assms(1) by (subst dropWhile_append2) (auto simp: CRLF_def CR_def LF_def)
  ultimately show ?thesis
    by (subst drop_head.simps) simp
qed

lemma drop_head_end: "drop_head (CRLF @ s) = Some s"
  by (subst drop_head.simps) (simp add: CRLF_def)

lemma drop_head_text:
  "list_all good_field kvs \<Longrightarrow> drop_head (header_text kvs @ CRLF @ rest) = Some rest"
proof (induction kvs)
  case Nil
  then show ?case by (simp add: header_text_def drop_head_end)
next
  case (Cons kv kvs)
  obtain k v where kv: "kv = (k, v)" by force
  with Cons.prems have "LF \<notin> set (k @ '': '' @ v)" "k @ '': '' @ v \<noteq> []" "hd (k @ '': '' @ v) \<noteq> CR"
    by (auto simp: good_field_def LF_def neq_Nil_conv)
  from drop_head_line [OF this, of "header_text kvs @ CRLF @ rest"] Cons kv show ?case
    by (simp add: header_text_def)
qed

lemma parse_http_version_11: "parse_http_version ''HTTP/1.1''"
proof -
  have "atoi ''1'' = (1, True)" by code_simp
  then show ?thesis by (simp add: parse_http_version_def)
qed

text \<open>The header of a response that was written with good fields, and the rest of its text.\<close>

lemma read_response_text:
  assumes "list_all good_field kvs"
  shows "read_response (''HTTP/1.1 101 Switching Protocols'' @ CRLF @ header_text kvs @ CRLF @ rest) =
      Some \<lparr>StatusCode = 101, RespHeader = header_of_fields kvs\<rparr>"
    and "drop_head (''HTTP/1.1 101 Switching Protocols'' @ CRLF @ header_text kvs @ CRLF @ rest) = Some rest"
proof -
  let ?l = "''HTTP/1.1 101 Switching Protocols''"
  have l: "LF \<notin> set ?l" "?l \<noteq> []" "hd ?l \<noteq> CR" by (simp_all add: LF_def CR_def)
  have v: "split3 ?l = [''HTTP/1.1'', ''101'', ''Switching Protocols'']" "atoi ''101'' = (101, True)"
    by code_simp+
  show "read_response (?l @ CRLF @ header_text kvs @ CRLF @ rest) =
      Some \<lparr>StatusCode = 101, RespHeader = header_of_fields kvs\<rparr>"
    unfolding read_response_def http_lines_cons [OF l(1)] read_mime_header_text [OF assms] list.case v
    by (simp add: parse_http_version_11)
  show "drop_head (?l @ CRLF @ header_text kvs @ CRLF @ rest) = Some rest"
    unfolding drop_head_line [OF l] by (rule drop_head_text [OF assms])
qed

lemma read_request_text:
  assumes "list_all good_field kvs" and "LF \<notin> set uri" and "CHR '' '' \<notin> set uri"
  shows "read_request (''GET '' @ uri @ '' HTTP/1.1'' @ CRLF @ header_text kvs @ CRLF @ rest) =
    Some \<lparr>Method = ''GET'', Path = uri, HostName = header_get (header_of_fields kvs) ''Host'',
          Header = AList.delete ''Host'' (header_of_fields kvs)\<rparr>"
proof -
  let ?l = "''GET '' @ uri @ '' HTTP/1.1''"
  have l: "LF \<notin> set ?l" using assms(2) by (simp add: LF_def)
  have "split_on CHR '' '' (''GET'' @ CHR '' '' # uri @ CHR '' '' # ''HTTP/1.1'') = [''GET'', uri, ''HTTP/1.1'']"
    using assms(3) by (subst split_on_append_sep, simp, subst split_on_append_sep, simp) (simp add: split_on_no_sep)
  then have s: "split3 ?l = [''GET'', uri, ''HTTP/1.1'']"
    by (simp add: split3_def)
  have "http_lines (?l @ CRLF @ header_text kvs @ CRLF @ rest) =
      ?l # http_lines (header_text kvs @ CRLF @ rest)"
    by (rule http_lines_cons [OF l])
  then have "http_lines (''GET '' @ uri @ '' HTTP/1.1'' @ CRLF @ header_text kvs @ CRLF @ rest) =
      ?l # http_lines (header_text kvs @ CRLF @ rest)"
    by (simp only: append_assoc)
  then show ?thesis
    unfolding read_request_def by (simp only: list.case s read_mime_header_text [OF assms(1)] parse_http_version_11) simp
qed

end
