(* ===== verification/Ws_Conn.thy ===== *)
theory Ws_Conn
  imports Prelude
begin

text \<open>
  \<open>gorilla/websocket/conn.go\<close>, the connection object: message types, the record behind \<open>*Conn\<close>, the
  network connection under it, and masking. The connection's network side is explicit: bytes
  written so far, whether it was closed, the outcome of the writes to come, and the chunks the
  reads to come return.
\<close>

unbundle bit_operations_syntax

section \<open>Constants\<close>

definition CloseNormalClosure :: nat where "CloseNormalClosure = 1000"
definition CloseGoingAway :: nat where "CloseGoingAway = 1001"
definition CloseProtocolError :: nat where "CloseProtocolError = 1002"
definition CloseNoStatusReceived :: nat where "CloseNoStatusReceived = 1005"
definition CloseAbnormalClosure :: nat where "CloseAbnormalClosure = 1006"
definition CloseMessageTooBig :: nat where "CloseMessageTooBig = 1009"

definition TextMessage :: int where "TextMessage = 1"
definition BinaryMessage :: int where "BinaryMessage = 2"
definition CloseMessage :: int where "CloseMessage = 8"
definition PingMessage :: int where "PingMessage = 9"
definition PongMessage :: int where "PongMessage = 10"
definition continuationFrame :: int where "continuationFrame = 0"
definition noFrame :: int where "noFrame = -1"

definition maxFrameHeaderSize :: nat where "maxFrameHeaderSize = 2 + 8 + 4"
definition maxControlFramePayloadSize :: nat where "maxControlFramePayloadSize = 125"
definition finalBit :: byte where "finalBit = push_bit 7 1"
definition maskBit :: byte where "maskBit = push_bit 7 1"

lemmas message_types =
  TextMessage_def BinaryMessage_def CloseMessage_def PingMessage_def PongMessage_def
  continuationFrame_def noFrame_def

definition isControl :: "int \<Rightarrow> bool" where
  "isControl t = (t = CloseMessage \<or> t = PingMessage \<or> t = PongMessage)"

definition isData :: "int \<Rightarrow> bool" where
  "isData t = (t = TextMessage \<or> t = BinaryMessage)"

section \<open>Errors\<close>

text \<open>
  The errors of the package, those of the network, and \<open>io.EOF\<close>. A \<open>NetError\<close> says whether it is
  temporary; \<open>Wrapped\<close> is the anonymous struct of \<open>hideTempErr\<close>, which hides that.
\<close>

datatype ws_error =
    ErrCloseSent | ErrReadLimit | ErrWriteTimeout | ErrBadWriteOpCode | ErrWriteClosed
  | ErrInvalidControlFrame | ErrExtraInClient | ErrUnexpectedDataFrame
  | CloseError nat string
  | ProtocolError string
  | EOF
  | NetError bool string
  | Wrapped ws_error

definition errUnexpectedEOF :: ws_error where
  "errUnexpectedEOF = CloseError CloseAbnormalClosure ''unexpected EOF''"

fun hideTempErr :: "ws_error option \<Rightarrow> ws_error option" where
  "hideTempErr (Some (NetError True m)) = Some (Wrapped (NetError True m))"
| "hideTempErr e = e"

section \<open>The network connection\<close>

text \<open>
  Each write takes its outcome from \<open>write_plan\<close>: None is a full write, \<open>Some (n, e)\<close> one that wrote
  \<open>n\<close> bytes and failed; past the end of the plan writes succeed. The reads return \<open>chunks\<close> in
  turn, then fail with \<open>read_end\<close>.
\<close>

record netconn =
  sent :: bytes
  net_closed :: bool
  write_plan :: "(nat \<times> ws_error) option list"
  chunks :: "bytes list"
  read_end :: ws_error

definition net_write :: "netconn \<Rightarrow> bytes \<Rightarrow> nat \<times> ws_error option \<times> netconn" where
  "net_write nc b =
     (case write_plan nc of
        Some (n, e) # ps \<Rightarrow>
          (min n (length b), Some e, nc\<lparr>sent := sent nc @ take n b, write_plan := ps\<rparr>)
      | None # ps \<Rightarrow> (length b, None, nc\<lparr>sent := sent nc @ b, write_plan := ps\<rparr>)
      | [] \<Rightarrow> (length b, None, nc\<lparr>sent := sent nc @ b\<rparr>))"

text \<open>\<open>Read\<close> of the buffered reader into a buffer of \<open>k\<close> bytes.\<close>

definition net_read :: "netconn \<Rightarrow> nat \<Rightarrow> bytes \<times> ws_error option \<times> netconn" where
  "net_read nc k =
     (if k = 0 then ([], None, nc)
      else case chunks nc of
        [] \<Rightarrow> ([], Some (read_end nc), nc)
      | c # cs \<Rightarrow>
          (take k c, None, nc\<lparr>chunks := (if drop k c = [] then cs else drop k c # cs)\<rparr>))"

definition incoming :: "netconn \<Rightarrow> bytes" where
  "incoming nc = concat (chunks nc)"

section \<open>The connection\<close>

text \<open>
  A handler for pings or pongs: the default one (a pong for a ping, nothing for a pong), or one of
  the application.
\<close>

datatype handler = DefaultHandler | AppHandler "string \<Rightarrow> ws_error option"

record wsconn =
  netc :: netconn
  isServer :: bool
  subprotocol :: string
  closeSent :: bool
  writeErr :: "ws_error option"
  writeBuf :: bytes
  writePos :: nat
  writeFrameType :: int
  writeSeq :: nat
  readErr :: "ws_error option"
  readRemaining :: int
  readFinal :: bool
  readSeq :: nat
  readLength :: int
  readLimit :: int
  readMaskPos :: nat
  readMaskKey :: bytes
  handlePong :: handler
  handlePing :: handler
  rands :: "nat \<Rightarrow> 32 word"

text \<open>\<open>rands\<close> is the sequence of numbers \<open>rand.Uint32\<close> returns from now on.\<close>

definition newConn :: "netconn \<Rightarrow> bool \<Rightarrow> nat \<Rightarrow> (nat \<Rightarrow> 32 word) \<Rightarrow> wsconn" where
  "newConn nc server writeBufSize rs =
     \<lparr>netc = nc, isServer = server, subprotocol = [], closeSent = False, writeErr = None,
      writeBuf = replicate (writeBufSize + maxFrameHeaderSize) 0, writePos = maxFrameHeaderSize,
      writeFrameType = noFrame, writeSeq = 0, readErr = None, readRemaining = 0, readFinal = True,
      readSeq = 0, readLength = 0, readLimit = 0, readMaskPos = 0, readMaskKey = [0, 0, 0, 0],
      handlePong = DefaultHandler, handlePing = DefaultHandler, rands = rs\<rparr>"

definition Close :: "wsconn \<Rightarrow> wsconn" where
  "Close c = c\<lparr>netc := (netc c)\<lparr>net_closed := True\<rparr>\<rparr>"

definition SetReadLimit :: "wsconn \<Rightarrow> int \<Rightarrow> wsconn" where
  "SetReadLimit c limit = c\<lparr>readLimit := limit\<rparr>"

definition SetPingHandler :: "wsconn \<Rightarrow> (string \<Rightarrow> ws_error option) option \<Rightarrow> wsconn" where
  "SetPingHandler c h = c\<lparr>handlePing := (case h of None \<Rightarrow> DefaultHandler | Some f \<Rightarrow> AppHandler f)\<rparr>"

definition SetPongHandler :: "wsconn \<Rightarrow> (string \<Rightarrow> ws_error option) option \<Rightarrow> wsconn" where
  "SetPongHandler c h = c\<lparr>handlePong := (case h of None \<Rightarrow> DefaultHandler | Some f \<Rightarrow> AppHandler f)\<rparr>"

section \<open>Masking\<close>

text \<open>The loop of \<open>maskBytes\<close>: it writes over its argument and returns the position in the key.\<close>

fun maskBytes :: "bytes \<Rightarrow> nat \<Rightarrow> bytes \<Rightarrow> bytes \<times> nat" where
  "maskBytes key pos [] = ([], pos mod 4)"
| "maskBytes key pos (b # bs) =
     (let (r, p) = maskBytes key (Suc pos) bs in ((b XOR key ! (pos mod 4)) # r, p))"

definition newMaskKey :: "wsconn \<Rightarrow> bytes \<times> wsconn" where
  "newMaskKey c =
     (let n = rands c 0 in
      ([ucast n, ucast (drop_bit 8 n), ucast (drop_bit 16 n), ucast (drop_bit 24 n)],
       c\<lparr>rands := (\<lambda>i. rands c (Suc i))\<rparr>))"

lemma fst_maskBytes:
  "fst (maskBytes key pos bs) = map (\<lambda>(i, b). b XOR key ! (i mod 4)) (enumerate pos bs)"
  by (induction bs arbitrary: pos) (simp_all add: Let_def case_prod_beta)

lemma snd_maskBytes: "snd (maskBytes key pos bs) = (pos + length bs) mod 4"
  by (induction bs arbitrary: pos) (simp_all add: Let_def case_prod_beta)

lemma length_maskBytes [simp]: "length (fst (maskBytes key pos bs)) = length bs"
  by (simp add: fst_maskBytes)

lemma maskBytes_mod: "maskBytes key (pos mod 4) bs = maskBytes key pos bs"
proof (induction bs arbitrary: pos)
  case (Cons b bs)
  have "maskBytes key (Suc (pos mod 4)) bs = maskBytes key (Suc pos) bs"
    using Cons [of "Suc (pos mod 4)"] Cons [of "Suc pos"] by (simp add: mod_Suc_eq)
  then show ?case by simp
qed simp

text \<open>Masking twice with the same key and position gives the bytes back.\<close>

lemma maskBytes_involution: "fst (maskBytes key pos (fst (maskBytes key pos bs))) = bs"
  by (induction bs arbitrary: pos) (simp_all add: Let_def case_prod_beta xor.assoc)

text \<open>A message may be masked in pieces, each from the position the previous one returned.\<close>

lemma maskBytes_append:
  "fst (maskBytes key pos (xs @ ys)) =
     fst (maskBytes key pos xs) @ fst (maskBytes key (snd (maskBytes key pos xs)) ys)"
  by (induction xs arbitrary: pos) (simp_all add: Let_def case_prod_beta maskBytes_mod)

lemma newMaskKey_fields [simp]:
  "length (fst (newMaskKey c)) = 4"
  "snd (newMaskKey c) = c\<lparr>rands := (\<lambda>i. rands c (Suc i))\<rparr>"
  by (simp_all add: newMaskKey_def Let_def)

end
