(* ===== verification/Ws_Handshake.thy ===== *)
theory Ws_Handshake
  imports Go_Mime Go_Crypto Ws_Conn
begin

text \<open>
  \<open>gorilla/websocket/server.go\<close>, \<open>client.go\<close> and \<open>util.go\<close>: the opening handshake. \<open>Upgrade\<close> turns an
  HTTP request into a connection, \<open>NewClient\<close> and \<open>Dial\<close> are the other side. The calls that set
  deadlines are left out: the model has no clock.
\<close>

section \<open>Header tokens and the accept key\<close>

definition tokenListContainsValue :: "header \<Rightarrow> string \<Rightarrow> string \<Rightarrow> bool" where
  "tokenListContainsValue h name value =
     list_ex (\<lambda>v. list_ex (\<lambda>s. equal_fold value (trim_space s)) (split_on CHR '','' v))
       (header_values h name)"

definition keyGUID :: string where
  "keyGUID = ''258EAFA5-E914-47DA-95CA-C5AB0DC85B11''"

definition computeAcceptKey :: "string \<Rightarrow> string" where
  "computeAcceptKey challengeKey = base64 (sha1 (bytes_of challengeKey @ bytes_of keyGUID))"

text \<open>\<open>generateChallengeKey\<close>; the argument is what \<open>io.ReadFull(rand.Reader, p)\<close> put in \<open>p\<close>, or its error.\<close>

definition generateChallengeKey :: "bytes option \<Rightarrow> string option" where
  "generateChallengeKey p = map_option base64 p"

text \<open>\<open>Subprotocols\<close>: None is the nil slice.\<close>

definition Subprotocols :: "http_request \<Rightarrow> string list option" where
  "Subprotocols r =
     (let h = trim_space (header_get (Header r) ''Sec-Websocket-Protocol'') in
      if h = [] then None else Some (map trim_space (split_on CHR '','' h)))"

definition checkSameOrigin :: "http_request \<Rightarrow> bool" where
  "checkSameOrigin r =
     (case header_values (Header r) ''Origin'' of
        [] \<Rightarrow> True
      | v # _ \<Rightarrow> (case url_host v of None \<Rightarrow> False | Some h \<Rightarrow> h = HostName r))"

section \<open>The server side\<close>

record upgrader =
  UReadBufferSize :: nat
  UWriteBufferSize :: nat
  USubprotocols :: "string list option"
  UError :: bool
  CheckOrigin :: "(http_request \<Rightarrow> bool) option"

text \<open>
  \<open>UError\<close>: an error function of the application is set. \<open>DefaultReply\<close> is \<open>http.Error\<close> with the
  text of the status, \<open>CustomReply\<close> the call of that function.
\<close>

datatype reply = DefaultReply nat | CustomReply nat string

datatype upgrade_error = HandshakeError string | ClientSentData | UpgradeWriteError ws_error

text \<open>
  What the response writer gives when hijacked: None if it is no \<open>Hijacker\<close>, an error, or the
  network connection with the number of bytes already buffered from it.
\<close>

type_synonym hijack = "(string + netconn \<times> nat) option"

record upgrade_result =
  replies :: "reply list"
  outcome :: "(upgrade_error \<times> netconn option) + wsconn"

definition returnError :: "upgrader \<Rightarrow> nat \<Rightarrow> string \<Rightarrow> upgrade_result" where
  "returnError u status reason =
     \<lparr>replies = [if UError u then CustomReply status reason else DefaultReply status],
      outcome = Inl (HandshakeError reason, None)\<rparr>"

text \<open>The two nested loops look for the first server protocol the client offers.\<close>

definition selectSubprotocol :: "upgrader \<Rightarrow> http_request \<Rightarrow> header option \<Rightarrow> string" where
  "selectSubprotocol u r responseHeader =
     (case USubprotocols u of
        Some ps \<Rightarrow>
          (let cs = (case Subprotocols r of None \<Rightarrow> [] | Some cs \<Rightarrow> cs) in
           case List.find (\<lambda>s. list_ex (\<lambda>c. c = s) cs) ps of None \<Rightarrow> [] | Some s \<Rightarrow> s)
      | None \<Rightarrow>
          (case responseHeader of
             None \<Rightarrow> [] | Some h \<Rightarrow> header_get h ''Sec-Websocket-Protocol''))"

text \<open>Control characters of a response header value are written as blanks.\<close>

definition sanitise :: "string \<Rightarrow> string" where
  "sanitise v = map (\<lambda>b. if (of_char b :: nat) \<le> 31 then CHR '' '' else b) v"

definition response_fields :: "string \<Rightarrow> string \<Rightarrow> header option \<Rightarrow> (string \<times> string) list" where
  "response_fields key sub responseHeader =
     [(''Upgrade'', ''websocket''), (''Connection'', ''Upgrade''),
      (''Sec-WebSocket-Accept'', computeAcceptKey key)]
     @ (if sub \<noteq> [] then [(''Sec-Websocket-Protocol'', sub)] else [])
     @ concat (map (\<lambda>(k, vs). if k = ''Sec-Websocket-Protocol'' then []
                              else map (\<lambda>v. (k, sanitise v)) vs)
         (case responseHeader of None \<Rightarrow> [] | Some h \<Rightarrow> h))"

definition upgrade_response :: "string \<Rightarrow> string \<Rightarrow> header option \<Rightarrow> string" where
  "upgrade_response key sub responseHeader =
     ''HTTP/1.1 101 Switching Protocols'' @ CRLF
     @ header_text (response_fields key sub responseHeader) @ CRLF"

definition or_default :: "nat \<Rightarrow> nat" where
  "or_default n = (if n = 0 then 4096 else n)"

definition Upgrade ::
    "upgrader \<Rightarrow> hijack \<Rightarrow> (nat \<Rightarrow> 32 word) \<Rightarrow> http_request \<Rightarrow> header option \<Rightarrow> upgrade_result" where
  "Upgrade u hj rs r responseHeader =
     (if header_values (Header r) ''Sec-Websocket-Version'' = []
         \<or> hd (header_values (Header r) ''Sec-Websocket-Version'') \<noteq> ''13''
      then returnError u 400 ''websocket: version != 13''
      else if \<not> tokenListContainsValue (Header r) ''Connection'' ''upgrade''
      then returnError u 400 ''websocket: connection header != upgrade''
      else if \<not> tokenListContainsValue (Header r) ''Upgrade'' ''websocket''
      then returnError u 400 ''websocket: upgrade != websocket''
      else if \<not> (case CheckOrigin u of None \<Rightarrow> checkSameOrigin r | Some f \<Rightarrow> f r)
      then returnError u 403 ''websocket: origin not allowed''
      else let challengeKey = header_get (Header r) ''Sec-Websocket-Key'' in
      if challengeKey = [] then returnError u 400 ''websocket: key missing or blank''
      else let sub = selectSubprotocol u r responseHeader in
      case hj of
        None \<Rightarrow> returnError u 500 ''websocket: response does not implement http.Hijacker''
      | Some (Inl err) \<Rightarrow> returnError u 500 err
      | Some (Inr (nc, buffered)) \<Rightarrow>
          if buffered > 0
          then \<lparr>replies = [], outcome = Inl (ClientSentData, Some (nc\<lparr>net_closed := True\<rparr>))\<rparr>
          else let c = (newConn nc True (or_default (UWriteBufferSize u)) rs)\<lparr>subprotocol := sub\<rparr> in
          case net_write nc (bytes_of (upgrade_response challengeKey sub responseHeader)) of
            (_, Some e, nc1) \<Rightarrow>
              \<lparr>replies = [], outcome = Inl (UpgradeWriteError e, Some (nc1\<lparr>net_closed := True\<rparr>))\<rparr>
          | (_, None, nc1) \<Rightarrow> \<lparr>replies = [], outcome = Inr (c\<lparr>netc := nc1\<rparr>)\<rparr>)"

text \<open>The deprecated function of the package: no replies of its own, all origins allowed.\<close>

definition deprecated_upgrader :: "nat \<Rightarrow> nat \<Rightarrow> upgrader" where
  "deprecated_upgrader rd wr =
     \<lparr>UReadBufferSize = rd, UWriteBufferSize = wr, USubprotocols = None, UError = True,
      CheckOrigin = Some (\<lambda>_. True)\<rparr>"

section \<open>The client side\<close>

datatype client_error =
    NoRandom | ClientWriteError ws_error | BadResponse | ErrBadHandshake | ErrMalformedURL
  | DialFailed | DeadlineFailed | TlsFailed | HostnameMismatch

definition client_fields :: "url \<Rightarrow> string \<Rightarrow> header \<Rightarrow> (string \<times> string) list" where
  "client_fields u challengeKey requestHeader =
     [(''Host'', Host u), (''Upgrade'', ''websocket''), (''Connection'', ''Upgrade''),
      (''Sec-WebSocket-Version'', ''13''), (''Sec-WebSocket-Key'', challengeKey)]
     @ concat (map (\<lambda>(k, vs). map (\<lambda>v. (k, v)) vs) requestHeader)"

definition client_request :: "url \<Rightarrow> string \<Rightarrow> header \<Rightarrow> string" where
  "client_request u challengeKey requestHeader =
     ''GET '' @ request_uri u @ '' HTTP/1.1'' @ CRLF
     @ header_text (client_fields u challengeKey requestHeader) @ CRLF"

text \<open>
  The result is Go's triple: an error with the response when there is one, or the connection. The
  bytes after the response's header stay in the connection's reader.
\<close>

definition NewClient ::
    "netconn \<Rightarrow> url \<Rightarrow> header \<Rightarrow> nat \<Rightarrow> bytes option \<Rightarrow> (nat \<Rightarrow> 32 word)
     \<Rightarrow> (client_error \<times> http_response option \<times> netconn) + (wsconn \<times> http_response)" where
  "NewClient nc u requestHeader writeBufSize random rs =
     (case generateChallengeKey random of
        None \<Rightarrow> Inl (NoRandom, None, nc)
      | Some challengeKey \<Rightarrow>
          (case net_write nc (bytes_of (client_request u challengeKey requestHeader)) of
             (_, Some e, nc1) \<Rightarrow> Inl (ClientWriteError e, None, nc1)
           | (_, None, nc1) \<Rightarrow>
               (let text = string_of (incoming nc1);
                    nc2 = nc1\<lparr>chunks := (case drop_head text of
                                           None \<Rightarrow> [] | Some t \<Rightarrow> [bytes_of t])\<rparr> in
                case read_response text of
                  None \<Rightarrow> Inl (BadResponse, None, nc2)
                | Some resp \<Rightarrow>
                    if StatusCode resp \<noteq> 101
                       \<or> \<not> equal_fold (header_get (RespHeader resp) ''Upgrade'') ''websocket''
                       \<or> \<not> equal_fold (header_get (RespHeader resp) ''Connection'') ''upgrade''
                       \<or> header_get (RespHeader resp) ''Sec-Websocket-Accept'' \<noteq> computeAcceptKey challengeKey
                    then Inl (ErrBadHandshake, Some resp, nc2)
                    else Inr ((newConn nc2 False writeBufSize rs)
                                \<lparr>subprotocol := header_get (RespHeader resp) ''Sec-Websocket-Protocol''\<rparr>,
                              resp))))"

definition parseURL :: "string \<Rightarrow> url option" where
  "parseURL s =
     (case (if has_prefix s ''ws://'' then Some (''ws'', drop 5 s)
            else if has_prefix s ''wss://'' then Some (''wss'', drop 6 s) else None) of
        None \<Rightarrow> None
      | Some (scheme, t) \<Rightarrow>
          Some (if CHR ''/'' \<in> set t
                then \<lparr>Scheme = scheme, Opaque = dropWhile (\<lambda>c. c \<noteq> CHR ''/'') t,
                      Host = takeWhile (\<lambda>c. c \<noteq> CHR ''/'') t, UrlPath = []\<rparr>
                else \<lparr>Scheme = scheme, Opaque = ''/'', Host = t, UrlPath = []\<rparr>))"

text \<open>\<open>strings.LastIndex\<close> of one byte, with -1 for none.\<close>

definition last_index :: "char \<Rightarrow> string \<Rightarrow> int" where
  "last_index c s = int (length s) - 1 - int (length (takeWhile (\<lambda>d. d \<noteq> c) (rev s)))"

definition hostPortNoPort :: "url \<Rightarrow> string \<times> string" where
  "hostPortNoPort u =
     (let i = last_index CHR '':'' (Host u) in
      if i > last_index CHR '']'' (Host u) then (Host u, take (nat i) (Host u))
      else (Host u @ (if Scheme u = ''wss'' then '':443'' else '':80''), Host u))"

record tls_config =
  ServerName :: string
  InsecureSkipVerify :: bool

record dialer =
  TLSClientConfig :: "tls_config option"
  DWriteBufferSize :: nat
  DSubprotocols :: "string list"

text \<open>
  The network as \<open>Dial\<close> meets it: the connection a TCP dial gives, whether its deadline can be set,
  and the results of the TLS handshake and of the host name check for a server name.
\<close>

record dial_net =
  tcp_dial :: "string \<Rightarrow> netconn option"
  deadline_ok :: bool
  tls_client :: "netconn \<Rightarrow> string \<Rightarrow> netconn option"
  host_verified :: "string \<Rightarrow> bool"

definition zero_dialer :: dialer where
  "zero_dialer = \<lparr>TLSClientConfig = None, DWriteBufferSize = 0, DSubprotocols = []\<rparr>"

text \<open>
  On every error after the TCP dial the deferred function closes the connection. The last
  component of an error is that connection.
\<close>

definition closed_conn :: "netconn \<Rightarrow> netconn" where
  "closed_conn nc = nc\<lparr>net_closed := True\<rparr>"

definition tls_step :: "dial_net \<Rightarrow> dialer \<Rightarrow> url \<Rightarrow> string \<Rightarrow> netconn
     \<Rightarrow> (client_error \<times> netconn) + netconn" where
  "tls_step env d u hostNoPort nc =
     (if Scheme u \<noteq> ''wss'' then Inr nc
      else
        let cfg = (case TLSClientConfig d of
                     None \<Rightarrow> \<lparr>ServerName = hostNoPort, InsecureSkipVerify = False\<rparr>
                   | Some c \<Rightarrow> if ServerName c = [] then c\<lparr>ServerName := hostNoPort\<rparr> else c) in
        case tls_client env nc (ServerName cfg) of
          None \<Rightarrow> Inl (TlsFailed, nc)
        | Some nc1 \<Rightarrow>
            if \<not> InsecureSkipVerify cfg \<and> \<not> host_verified env (ServerName cfg)
            then Inl (HostnameMismatch, nc1) else Inr nc1)"

definition Dial ::
    "dial_net \<Rightarrow> dialer option \<Rightarrow> bytes option \<Rightarrow> (nat \<Rightarrow> 32 word) \<Rightarrow> string \<Rightarrow> header
     \<Rightarrow> (client_error \<times> http_response option \<times> netconn option) + (wsconn \<times> http_response)" where
  "Dial env dopt random rs urlStr requestHeader =
     (case parseURL urlStr of
        None \<Rightarrow> Inl (ErrMalformedURL, None, None)
      | Some u \<Rightarrow>
          let (hostPort, hostNoPort) = hostPortNoPort u;
              d = (case dopt of None \<Rightarrow> zero_dialer | Some d \<Rightarrow> d) in
          case tcp_dial env hostPort of
            None \<Rightarrow> Inl (DialFailed, None, None)
          | Some nc \<Rightarrow>
              if \<not> deadline_ok env then Inl (DeadlineFailed, None, Some (closed_conn nc))
              else (case tls_step env d u hostNoPort nc of
                Inl (e, nc1) \<Rightarrow> Inl (e, None, Some (closed_conn nc1))
              | Inr nc1 \<Rightarrow>
                  let h = (if DSubprotocols d = [] then requestHeader
                           else header_set requestHeader ''Sec-Websocket-Protocol''
                                  [str_join '', '' (DSubprotocols d)]) in
                  case NewClient nc1 u h (or_default (DWriteBufferSize d)) random rs of
                    Inl (e, resp, nc2) \<Rightarrow> Inl (e, resp, Some (closed_conn nc2))
                  | Inr (c, resp) \<Rightarrow> Inr (c, resp)))"

section \<open>Who is let in\<close>

text \<open>The checks of \<open>Upgrade\<close> on the request, in one predicate.\<close>

definition valid_handshake :: "upgrader \<Rightarrow> http_request \<Rightarrow> bool" where
  "valid_handshake u r =
     ((\<exists>vs. header_values (Header r) ''Sec-Websocket-Version'' = ''13'' # vs)
      \<and> tokenListContainsValue (Header r) ''Connection'' ''upgrade''
      \<and> tokenListContainsValue (Header r) ''Upgrade'' ''websocket''
      \<and> (case CheckOrigin u of None \<Rightarrow> checkSameOrigin r | Some f \<Rightarrow> f r)
      \<and> header_get (Header r) ''Sec-Websocket-Key'' \<noteq> [])"

lemma version_check:
  "(vs = [] \<or> hd vs \<noteq> x) \<longleftrightarrow> \<not> (\<exists>ws. vs = x # ws)"
  by (cases vs) auto

text \<open>An invalid handshake gets one error reply and leaves the connection to the HTTP server.\<close>

lemma Upgrade_invalid:
  assumes "\<not> valid_handshake u r"
  shows "\<exists>status reason. Upgrade u hj rs r rh = returnError u status reason \<and> status \<in> {400, 403}"
  using assms unfolding Upgrade_def version_check valid_handshake_def Let_def
  by (auto split: if_splits)

lemma Upgrade_valid:
  assumes "valid_handshake u r" and "hj = Some (Inr (nc, 0))"
  shows "Upgrade u hj rs r rh =
    (let sub = selectSubprotocol u r rh;
         c = (newConn nc True (or_default (UWriteBufferSize u)) rs)\<lparr>subprotocol := sub\<rparr>;
         (n, e, nc1) = net_write nc
           (bytes_of (upgrade_response (header_get (Header r) ''Sec-Websocket-Key'') sub rh)) in
     case e of
       None \<Rightarrow> \<lparr>replies = [], outcome = Inr (c\<lparr>netc := nc1\<rparr>)\<rparr>
     | Some e \<Rightarrow> \<lparr>replies = [], outcome = Inl (UpgradeWriteError e, Some (nc1\<lparr>net_closed := True\<rparr>))\<rparr>)"
  using assms unfolding Upgrade_def version_check valid_handshake_def Let_def
  by (simp split: prod.splits option.splits)

text \<open>Only a valid handshake on a hijacked connection with nothing buffered is upgraded.\<close>

lemma Upgrade_only_valid:
  assumes "outcome (Upgrade u hj rs r rh) = Inr c"
  shows "valid_handshake u r \<and> (\<exists>nc. hj = Some (Inr (nc, 0)))"
proof -
  have v: "valid_handshake u r"
  proof (rule ccontr)
    assume "\<not> valid_handshake u r"
    from Upgrade_invalid [OF this, of hj rs rh] assms show False
      by (auto simp: returnError_def)
  qed
  have "\<exists>nc. hj = Some (Inr (nc, 0))"
  proof (rule ccontr)
    assume "\<nexists>nc. hj = Some (Inr (nc, 0))"
    with assms v show False
      unfolding Upgrade_def version_check valid_handshake_def Let_def
      by (auto simp: returnError_def split: if_splits option.splits sum.splits prod.splits)
  qed
  with v show ?thesis ..
qed

section \<open>The two sides agree\<close>

lemma accept_key_text: "\<forall>c\<in>set (computeAcceptKey k). 43 \<le> (of_char c :: nat) \<and> (of_char c :: nat) \<le> 122"
  unfolding computeAcceptKey_def by (rule base64_range)

lemma plain_text:
  assumes "\<forall>c\<in>set s. 43 \<le> (of_char c :: nat)"
  shows "CR \<notin> set s" "LF \<notin> set s" "CHR '' '' \<notin> set s" "trim_by blank s = s"
proof -
  have "of_char CR = (13 :: nat)" "of_char LF = (10 :: nat)" "of_char (CHR '' '') = (32 :: nat)"
    "of_char (CHR 0x09) = (9 :: nat)"
    by (simp_all add: CR_def LF_def)
  with assms have n: "CR \<notin> set s" "LF \<notin> set s" "CHR '' '' \<notin> set s" "CHR 0x09 \<notin> set s"
    by force+
  then show "CR \<notin> set s" "LF \<notin> set s" "CHR '' '' \<notin> set s" by simp_all
  have "dropWhile blank t = t" if "set t \<subseteq> set s" for t
    using that n by (cases t) (auto simp: blank_def)
  then show "trim_by blank s = s"
    by (simp add: trim_by_def)
qed

lemma canon_names:
  "canon_key True ''Host'' = ''Host''"
  "canon_key True ''Upgrade'' = ''Upgrade''"
  "canon_key True ''Connection'' = ''Connection''"
  "canon_key True ''Sec-WebSocket-Accept'' = ''Sec-Websocket-Accept''"
  "canon_key True ''Sec-WebSocket-Version'' = ''Sec-Websocket-Version''"
  "canon_key True ''Sec-WebSocket-Key'' = ''Sec-Websocket-Key''"
  "canon_key True ''Sec-Websocket-Protocol'' = ''Sec-Websocket-Protocol''"
  by code_simp+

text \<open>What the client must be given: fields without line ends and none of the handshake's own keys.\<close>

definition reserved_keys :: "string set" where
  "reserved_keys =
     {''Host'', ''Upgrade'', ''Connection'', ''Sec-Websocket-Version'', ''Sec-Websocket-Key''}"

definition header_fields :: "header \<Rightarrow> (string \<times> string) list" where
  "header_fields h = concat (map (\<lambda>(k, vs). map (\<lambda>v. (k, v)) vs) h)"

definition good_client :: "url \<Rightarrow> header \<Rightarrow> bool" where
  "good_client u h =
     (good_field (''Host'', Host u) \<and> list_all good_field (header_fields h)
      \<and> (\<forall>(k, v)\<in>set (header_fields h). canon_key True k \<notin> reserved_keys)
      \<and> LF \<notin> set (request_uri u) \<and> CHR '' '' \<notin> set (request_uri u))"

lemma good_literals:
  "good_field (''Upgrade'', ''websocket'')" "good_field (''Connection'', ''Upgrade'')"
  "good_field (''Sec-WebSocket-Version'', ''13'')"
  "CR \<notin> set v \<Longrightarrow> LF \<notin> set v \<Longrightarrow> good_field (''Sec-WebSocket-Key'', v)"
  "CR \<notin> set v \<Longrightarrow> LF \<notin> set v \<Longrightarrow> good_field (''Sec-WebSocket-Accept'', v)"
  "CR \<notin> set v \<Longrightarrow> LF \<notin> set v \<Longrightarrow> good_field (''Sec-Websocket-Protocol'', v)"
  by (simp_all add: good_field_def CR_def LF_def blank_def)

lemma good_client_fields:
  assumes "good_client u h"
  shows "list_all good_field (client_fields u (base64 p) h)"
  using assms plain_text(1,2) [of "base64 p"] base64_range [of p]
  by (simp add: client_fields_def good_client_def header_fields_def good_literals)

lemma filter_reserved:
  assumes "good_client u h" and "j \<in> reserved_keys"
  shows "filter (\<lambda>(k, v). canon_key True k = j) (header_fields h) = []"
  using assms by (auto simp: good_client_def filter_empty_conv)

lemma client_values:
  assumes "good_client u h"
  shows "header_values (header_of_fields (client_fields u key h)) ''Sec-Websocket-Version'' = [''13'']"
    and "header_values (header_of_fields (client_fields u key h)) ''Connection'' = [''Upgrade'']"
    and "header_values (header_of_fields (client_fields u key h)) ''Upgrade'' = [''websocket'']"
    and "header_values (header_of_fields (client_fields u key h)) ''Sec-Websocket-Key'' = [trim_by blank key]"
proof -
  have t: "trim_by blank ''13'' = ''13''" "trim_by blank ''Upgrade'' = ''Upgrade''"
      "trim_by blank ''websocket'' = ''websocket''"
    by (simp_all add: trim_by_def blank_def)
  have r: "''Sec-Websocket-Version'' \<in> reserved_keys" "''Connection'' \<in> reserved_keys"
      "''Upgrade'' \<in> reserved_keys" "''Sec-Websocket-Key'' \<in> reserved_keys"
    by (simp_all add: reserved_keys_def)
  show "header_values (header_of_fields (client_fields u key h)) ''Sec-Websocket-Version'' = [''13'']"
    "header_values (header_of_fields (client_fields u key h)) ''Connection'' = [''Upgrade'']"
    "header_values (header_of_fields (client_fields u key h)) ''Upgrade'' = [''websocket'']"
    "header_values (header_of_fields (client_fields u key h)) ''Sec-Websocket-Key'' = [trim_by blank key]"
    unfolding header_values_fields client_fields_def header_fields_def [symmetric] filter_append
      filter_reserved [OF assms r(1)] filter_reserved [OF assms r(2)]
      filter_reserved [OF assms r(3)] filter_reserved [OF assms r(4)]
    by (simp_all add: canon_names t del: canon_key.simps)
qed

text \<open>The server parses the client's request and finds a valid handshake with the client's key.\<close>

lemma client_request_valid:
  assumes "good_client u h" and "p \<noteq> []" and "CheckOrigin up = Some (\<lambda>_. True)"
  shows "\<exists>r. read_request (client_request u (base64 p) h) = Some r \<and> valid_handshake up r
    \<and> header_get (Header r) ''Sec-Websocket-Key'' = base64 p"
proof -
  let ?f = "client_fields u (base64 p) h"
  let ?r = "\<lparr>Method = ''GET'', Path = request_uri u, HostName = header_get (header_of_fields ?f) ''Host'',
          Header = AList.delete ''Host'' (header_of_fields ?f)\<rparr>"
  have "read_request (client_request u (base64 p) h) = Some ?r"
    using assms(1) read_request_text [where rest = "[]" and uri = "request_uri u", OF good_client_fields [OF assms(1)]]
    by (simp add: client_request_def good_client_def)
  moreover have k: "header_get (Header ?r) ''Sec-Websocket-Key'' = base64 p"
    using plain_text(4) [of "base64 p"] base64_range [of p]
    by (simp add: header_get_def client_values [OF assms(1)])
  moreover have "split_on CHR '','' ''Upgrade'' = [''Upgrade'']" "split_on CHR '','' ''websocket'' = [''websocket'']"
    "trim_space ''Upgrade'' = ''Upgrade''" "trim_space ''websocket'' = ''websocket''"
    "equal_fold ''upgrade'' ''Upgrade''" "equal_fold ''websocket'' ''websocket''"
    by code_simp+
  moreover from this have "valid_handshake up ?r"
    unfolding valid_handshake_def k
    using base64_not_empty [OF assms(2)]
    by (simp add: client_values [OF assms(1)] tokenListContainsValue_def assms(3))
  ultimately show ?thesis by blast
qed

text \<open>What the server adds to its response must be free of line ends in its keys and protocol.\<close>

definition good_server :: "string \<Rightarrow> header option \<Rightarrow> bool" where
  "good_server sub rh =
     (CR \<notin> set sub \<and> LF \<notin> set sub \<and> trim_by blank sub = sub
      \<and> (\<forall>(k, v)\<in>set (header_fields (case rh of None \<Rightarrow> [] | Some h \<Rightarrow> h)).
           good_field (k, []) \<and>
           (k \<noteq> ''Sec-Websocket-Protocol'' \<longrightarrow> canon_key True k \<notin>
             {''Upgrade'', ''Connection'', ''Sec-Websocket-Accept'', ''Sec-Websocket-Protocol''})))"

definition extra_fields :: "header option \<Rightarrow> (string \<times> string) list" where
  "extra_fields rh =
     map (\<lambda>(k, v). (k, sanitise v))
       (filter (\<lambda>(k, v). k \<noteq> ''Sec-Websocket-Protocol'')
         (header_fields (case rh of None \<Rightarrow> [] | Some h \<Rightarrow> h)))"

lemma response_fields_eq:
  "response_fields key sub rh =
     [(''Upgrade'', ''websocket''), (''Connection'', ''Upgrade''),
      (''Sec-WebSocket-Accept'', computeAcceptKey key)]
     @ (if sub \<noteq> [] then [(''Sec-Websocket-Protocol'', sub)] else []) @ extra_fields rh"
proof -
  have e: "concat (map (\<lambda>(k, vs). if k = x then [] else map (\<lambda>v. (k, g v)) vs) h) =
      map (\<lambda>(k, v). (k, g v)) (filter (\<lambda>(k, v). k \<noteq> x) (header_fields h))"
    for x and g :: "string \<Rightarrow> string" and h :: header
    by (induction h) (auto simp: header_fields_def comp_def filter_map)
  show ?thesis
    unfolding response_fields_def extra_fields_def e by (simp add: case_prod_beta)
qed

lemma sanitise_safe: "CR \<notin> set (sanitise v)" "LF \<notin> set (sanitise v)"
  by (auto simp: sanitise_def CR_def LF_def)

lemma good_response_fields:
  assumes "good_server sub rh"
  shows "list_all good_field (response_fields key sub rh)"
proof -
  have "good_field (k, sanitise v)" if "good_field (k, [])" for k v
    using that sanitise_safe [of v] by (simp add: good_field_def)
  then have "list_all good_field (extra_fields rh)"
    using assms by (fastforce simp: extra_fields_def good_server_def list_all_iff)
  moreover have "CR \<notin> set (computeAcceptKey key)" "LF \<notin> set (computeAcceptKey key)"
    using accept_key_text [of key] plain_text(1,2) [of "computeAcceptKey key"] by auto
  ultimately show ?thesis
    using assms by (simp add: response_fields_eq good_literals good_server_def)
qed

lemma response_values:
  assumes "good_server sub rh"
  shows "header_values (header_of_fields (response_fields key sub rh)) ''Upgrade'' = [''websocket'']"
    and "header_values (header_of_fields (response_fields key sub rh)) ''Connection'' = [''Upgrade'']"
    and "header_values (header_of_fields (response_fields key sub rh)) ''Sec-Websocket-Accept'' =
      [computeAcceptKey key]"
    and "header_values (header_of_fields (response_fields key sub rh)) ''Sec-Websocket-Protocol'' =
      (if sub \<noteq> [] then [sub] else [])"
proof -
  have e: "filter (\<lambda>(k, v). canon_key True k = j) (extra_fields rh) = []"
    if "j \<in> {''Upgrade'', ''Connection'', ''Sec-Websocket-Accept'', ''Sec-Websocket-Protocol''}" for j
    using assms that by (fastforce simp: good_server_def extra_fields_def filter_empty_conv)
  have t: "trim_by blank ''Upgrade'' = ''Upgrade''" "trim_by blank ''websocket'' = ''websocket''"
      "trim_by blank (computeAcceptKey key) = computeAcceptKey key" "trim_by blank sub = sub"
    using assms accept_key_text [of key] plain_text(4) [of "computeAcceptKey key"]
    by (simp_all add: trim_by_def blank_def good_server_def)
  show "header_values (header_of_fields (response_fields key sub rh)) ''Upgrade'' = [''websocket'']"
    "header_values (header_of_fields (response_fields key sub rh)) ''Connection'' = [''Upgrade'']"
    "header_values (header_of_fields (response_fields key sub rh)) ''Sec-Websocket-Accept'' =
      [computeAcceptKey key]"
    "header_values (header_of_fields (response_fields key sub rh)) ''Sec-Websocket-Protocol'' =
      (if sub \<noteq> [] then [sub] else [])"
    unfolding header_values_fields response_fields_eq filter_append
    by (simp_all add: canon_names t e del: canon_key.simps)
qed

text \<open>The client accepts the response to its own key, whatever bytes follow it.\<close>

lemma client_accepts:
  assumes "good_server sub rh" and "write_plan nc = []"
    and "incoming nc = bytes_of (upgrade_response (base64 p) sub rh) @ rest"
  shows "\<exists>nc1 resp. NewClient nc u h wb (Some p) rs = Inr ((newConn nc1 False wb rs)\<lparr>subprotocol := sub\<rparr>, resp)
    \<and> sent nc1 = sent nc @ bytes_of (client_request u (base64 p) h) \<and> write_plan nc1 = []
    \<and> incoming nc1 = rest"
proof -
  let ?f = "response_fields (base64 p) sub rh"
  let ?nc1 = "nc\<lparr>sent := sent nc @ bytes_of (client_request u (base64 p) h)\<rparr>"
  have body: "string_of (incoming ?nc1) =
      ''HTTP/1.1 101 Switching Protocols'' @ CRLF @ header_text ?f @ CRLF @ string_of rest"
  proof -
    have "incoming ?nc1 = incoming nc"
      by (simp add: incoming_def)
    then show ?thesis
      unfolding assms(3) upgrade_response_def
      by (simp only: string_of_append string_of_bytes_of append_assoc)
  qed
  have w: "net_write nc (bytes_of (client_request u (base64 p) h)) =
      (length (client_request u (base64 p) h), None, ?nc1)"
    using assms(2) by (simp add: net_write_def)
  have r: "read_response (string_of (incoming ?nc1)) =
      Some \<lparr>StatusCode = 101, RespHeader = header_of_fields ?f\<rparr>"
    unfolding body by (rule read_response_text(1) [OF good_response_fields [OF assms(1)]])
  have d: "drop_head (string_of (incoming ?nc1)) = Some (string_of rest)"
    unfolding body by (rule read_response_text(2) [OF good_response_fields [OF assms(1)]])
  have f: "equal_fold ''websocket'' ''websocket''" "equal_fold ''Upgrade'' ''upgrade''"
    by code_simp+
  show ?thesis
    unfolding NewClient_def generateChallengeKey_def option.map option.case w prod.case Let_def r d
    using f assms(2)
    by (intro exI [of _ "nc\<lparr>sent := sent nc @ bytes_of (client_request u (base64 p) h), chunks := [rest]\<rparr>"]
        exI [of _ "\<lparr>StatusCode = 101, RespHeader = header_of_fields ?f\<rparr>"])
      (simp add: header_get_def response_values [OF assms(1)] incoming_def)
qed

end
