(* ===== verification/Mdns_Zone.thy ===== *)
theory Mdns_Zone
  imports Dns_Types
begin

text \<open>
  \<open>richtr/mdns/zone.go\<close> and \<open>server.go\<close>: the records of one advertised service, and the responder that
  answers queries from a zone. The interface \<open>Zone\<close> is a function from questions to records.
\<close>

section \<open>The service and its initialisation\<close>

record mdns_service =
  Instance :: string
  Service :: string
  Port :: int
  Info :: string
  Domain :: string
  HostDns :: string
  ipv4Addr :: ip
  ipv6Addr :: ip
  serviceAddr :: string
  instanceAddr :: string

datatype init_error = MissingInstance | MissingService | MissingPort | NoAddresses | NoHost

text \<open>What \<open>os.Hostname\<close> and two calls of \<open>net.InterfaceAddrs\<close> return, None for an error.\<close>

record host_env =
  hostname :: "string option"
  ifaddrs :: "string list option"
  ifaddrs_again :: "string list option"

definition trimDot :: "string \<Rightarrow> string" where
  "trimDot s = trim_by (\<lambda>c. c = CHR ''.'') s"

text \<open>
  The loop over the interface addresses: only a text without two colons in a row and without 127 is
  looked at, and only the masks 16 and 24 set the address.
\<close>

definition set_ipv4 :: "mdns_service \<Rightarrow> string \<Rightarrow> mdns_service" where
  "set_ipv4 m a =
     (if str_contains a ''::'' \<or> str_contains a ''127'' then m
      else
        let m1 = (if str_contains a ''/16'' then m\<lparr>ipv4Addr := parse_ip (trim_suffix a ''/16'')\<rparr> else m) in
        if str_contains a ''/24'' then m1\<lparr>ipv4Addr := parse_ip (trim_suffix a ''/24'')\<rparr> else m1)"

text \<open>
  When the first call fails and the second one succeeds, its result goes into a shadowing variable
  and no address is looked at.
\<close>

definition Init :: "host_env \<Rightarrow> mdns_service \<Rightarrow> init_error + mdns_service" where
  "Init env m0 =
     (let m = (if Domain m0 = [] then m0\<lparr>Domain := ''local''\<rparr> else m0) in
      if Instance m = [] then Inl MissingInstance
      else if Service m = [] then Inl MissingService
      else if Port m = 0 then Inl MissingPort
      else case hostname env of
        None \<Rightarrow> Inl NoHost
      | Some h \<Rightarrow>
          let m1 = m\<lparr>HostDns := h @ ''.''\<rparr> in
          case (case ifaddrs env of
                  Some as \<Rightarrow> Some as
                | None \<Rightarrow> map_option (\<lambda>_. []) (ifaddrs_again env)) of
            None \<Rightarrow> Inl NoAddresses
          | Some as \<Rightarrow>
              let m2 = foldl set_ipv4 m1 as;
                  sa = trimDot (Service m) @ ''.'' @ trimDot (Domain m) @ ''.'' in
              Inr (m2\<lparr>serviceAddr := sa, instanceAddr := trimDot (Instance m) @ ''.'' @ sa\<rparr>))"

section \<open>Records\<close>

definition defaultTTL :: "32 word" where
  "defaultTTL = 10"

definition rr_header_of :: "string \<Rightarrow> u16 \<Rightarrow> rr_header" where
  "rr_header_of name t =
     \<lparr>RRName = name, Rrtype = t, Class = ClassINET, Ttl = defaultTTL, Rdlength = 0\<rparr>"

definition a_records :: "mdns_service \<Rightarrow> rr list" where
  "a_records m =
     (case ipv4Addr m of None \<Rightarrow> [] | Some a \<Rightarrow> [RR_A (rr_header_of (HostDns m) TypeA) (Some a)])"

definition aaaa_records :: "mdns_service \<Rightarrow> rr list" where
  "aaaa_records m =
     (case ipv6Addr m of None \<Rightarrow> [] | Some a \<Rightarrow> [RR_AAAA (rr_header_of (HostDns m) TypeAAAA) (Some a)])"

definition srv_records :: "mdns_service \<Rightarrow> string \<Rightarrow> rr list" where
  "srv_records m name =
     SRV (rr_header_of name TypeSRV) 10 1 (word_of_int (Port m)) (HostDns m)
       # a_records m @ aaaa_records m"

definition txt_records :: "mdns_service \<Rightarrow> string \<Rightarrow> rr list" where
  "txt_records m name = [TXT (rr_header_of name TypeTXT) [Info m]]"

text \<open>The function calls itself with the types SRV, TXT, A and AAAA; each is a definition here.\<close>

definition instanceRecords :: "mdns_service \<Rightarrow> question \<Rightarrow> rr list" where
  "instanceRecords m q =
     (if Qtype q = TypeANY then srv_records m (instanceAddr m) @ txt_records m (instanceAddr m)
      else if Qtype q = TypeA then a_records m
      else if Qtype q = TypeAAAA then aaaa_records m
      else if Qtype q = TypeSRV then srv_records m (QName q)
      else if Qtype q = TypeTXT then txt_records m (QName q)
      else [])"

definition serviceRecords :: "mdns_service \<Rightarrow> question \<Rightarrow> rr list" where
  "serviceRecords m q =
     (if Qtype q = TypeANY \<or> Qtype q = TypePTR
      then PTR (rr_header_of (QName q) TypePTR) (instanceAddr m)
             # instanceRecords m \<lparr>QName = instanceAddr m, Qtype = TypeANY, Qclass = 0\<rparr>
      else [])"

definition Records :: "mdns_service \<Rightarrow> question \<Rightarrow> rr list" where
  "Records m q =
     (if QName q = serviceAddr m then serviceRecords m q
      else if QName q = instanceAddr m then instanceRecords m q
      else [])"

section \<open>The responder\<close>

type_synonym zone = "question \<Rightarrow> rr list"

record mdns_server =
  config_zone :: "zone option"
  has_ipv4 :: bool
  has_ipv6 :: bool
  shutdown :: bool

text \<open>The arguments say which multicast listeners could be opened; None is the error.\<close>

definition NewServer :: "zone option \<Rightarrow> bool \<Rightarrow> bool \<Rightarrow> mdns_server option" where
  "NewServer z v4 v6 =
     (if \<not> v4 \<and> \<not> v6 then None
      else Some \<lparr>config_zone = z, has_ipv4 = v4, has_ipv6 = v6, shutdown = False\<rparr>)"

datatype server_effect = CloseIPv4 | CloseIPv6 | SendTo bool bytes

definition Shutdown :: "mdns_server \<Rightarrow> mdns_server \<times> server_effect list" where
  "Shutdown s =
     (if shutdown s then (s, [])
      else (s\<lparr>shutdown := True\<rparr>,
            (if has_ipv4 s then [CloseIPv4] else []) @ (if has_ipv6 s then [CloseIPv6] else [])))"

definition handleQuestion :: "mdns_server \<Rightarrow> question \<Rightarrow> dns_msg \<Rightarrow> dns_msg" where
  "handleQuestion s q resp =
     (case config_zone s of
        None \<Rightarrow> resp
      | Some z \<Rightarrow> resp\<lparr>Answer := Answer resp @ z q\<rparr>)"

text \<open>The reply to a query, if it has an answer.\<close>

definition handleQuery :: "mdns_server \<Rightarrow> dns_msg \<Rightarrow> dns_msg option" where
  "handleQuery s query =
     (let resp = foldl (\<lambda>r q. handleQuestion s q r) (SetReply new_msg query) (Question query) in
      if Answer resp = [] then None else Some resp)"

section \<open>What a zone answers\<close>

lemma handleQuestion_fields [simp]:
  "Id (handleQuestion s q r) = Id r" "Question (handleQuestion s q r) = Question r"
  "Response (handleQuestion s q r) = Response r" "Rcode (handleQuestion s q r) = Rcode r"
  by (simp_all add: handleQuestion_def split: option.splits)

lemma foldl_handleQuestion:
  "Answer (foldl (\<lambda>r q. handleQuestion s q r) r qs) =
     Answer r @ (case config_zone s of None \<Rightarrow> [] | Some z \<Rightarrow> concat (map z qs))"
  "Id (foldl (\<lambda>r q. handleQuestion s q r) r qs) = Id r"
  "Question (foldl (\<lambda>r q. handleQuestion s q r) r qs) = Question r"
  "Response (foldl (\<lambda>r q. handleQuestion s q r) r qs) = Response r"
  by (induction qs arbitrary: r) (simp_all add: handleQuestion_def split: option.splits)

text \<open>The answers to all questions, in order, under the query's identifier.\<close>

lemma handleQuery_Some:
  assumes "handleQuery s query = Some resp"
  shows "Id resp = Id query" "Response resp" "Question resp = take 1 (Question query)"
    "\<exists>z. config_zone s = Some z \<and> Answer resp = concat (map z (Question query)) \<and> Answer resp \<noteq> []"
proof -
  let ?r = "foldl (\<lambda>r q. handleQuestion s q r) (SetReply new_msg query) (Question query)"
  have r: "resp = ?r" "Answer ?r \<noteq> []"
    using assms by (auto simp: handleQuery_def Let_def split: if_splits)
  show "Id resp = Id query" "Response resp" "Question resp = take 1 (Question query)"
    unfolding r(1) foldl_handleQuestion by (simp_all add: SetReply_question new_msg_def)
  show "\<exists>z. config_zone s = Some z \<and> Answer resp = concat (map z (Question query)) \<and> Answer resp \<noteq> []"
    using r(2) unfolding r(1) foldl_handleQuestion
    by (cases "config_zone s") (simp_all add: new_msg_def)
qed

lemma handleQuery_None:
  "handleQuery s query = None \<longleftrightarrow>
     (case config_zone s of None \<Rightarrow> True | Some z \<Rightarrow> \<forall>q\<in>set (Question query). z q = [])"
  by (auto simp: handleQuery_def Let_def foldl_handleQuestion new_msg_def split: option.splits)

lemma serviceRecords_ptr:
  "Qtype q = TypePTR \<or> Qtype q = TypeANY \<Longrightarrow>
   serviceRecords m q =
     PTR (rr_header_of (QName q) TypePTR) (instanceAddr m)
       # SRV (rr_header_of (instanceAddr m) TypeSRV) 10 1 (word_of_int (Port m)) (HostDns m)
       # a_records m @ aaaa_records m @ [TXT (rr_header_of (instanceAddr m) TypeTXT) [Info m]]"
  by (auto simp: serviceRecords_def instanceRecords_def srv_records_def txt_records_def)

text \<open>Shutting a server down twice closes its listeners once.\<close>

lemma Shutdown_idempotent: "Shutdown (fst (Shutdown s)) = (fst (Shutdown s), [])"
  by (simp add: Shutdown_def)

lemma Init_addresses:
  assumes "Init env m0 = Inr m"
  shows "serviceAddr m = trimDot (Service m0) @ ''.'' @ trimDot (Domain m) @ ''.''"
    and "instanceAddr m = trimDot (Instance m0) @ ''.'' @ serviceAddr m"
    and "Domain m = (if Domain m0 = [] then ''local'' else Domain m0)"
    and "Info m = Info m0" and "Port m = Port m0" and "ipv6Addr m = ipv6Addr m0"
    and "\<exists>h. hostname env = Some h \<and> HostDns m = h @ ''.''"
proof -
  have f: "Domain (foldl set_ipv4 x as) = Domain x" "Info (foldl set_ipv4 x as) = Info x"
      "Port (foldl set_ipv4 x as) = Port x" "ipv6Addr (foldl set_ipv4 x as) = ipv6Addr x"
      "HostDns (foldl set_ipv4 x as) = HostDns x" for x as
    by (induction as arbitrary: x) (simp_all add: set_ipv4_def Let_def)
  show "serviceAddr m = trimDot (Service m0) @ ''.'' @ trimDot (Domain m) @ ''.''"
    "instanceAddr m = trimDot (Instance m0) @ ''.'' @ serviceAddr m"
    "Domain m = (if Domain m0 = [] then ''local'' else Domain m0)"
    "Info m = Info m0" "Port m = Port m0" "ipv6Addr m = ipv6Addr m0"
    "\<exists>h. hostname env = Some h \<and> HostDns m = h @ ''.''"
    using assms by (auto simp: Init_def Let_def f split: if_splits option.splits)
qed

end
