(* ===== verification/Nws_Service.thy ===== *)
theory Nws_Service
  imports Nws_Proxy Go_Regexp Ws_Handshake Mdns_Zone
begin

text \<open>
  \<open>service.go\<close> with the connection set-up of \<open>socket.go\<close> and \<open>run.go\<close>: the HTTP front end of the proxy.
  It routes a request, resolves the path to a named web socket, creates the socket on first use,
  upgrades the connection and adds it to the socket.
\<close>

section \<open>Requests\<close>

definition name_char :: "char \<Rightarrow> bool" where
  "name_char c =
     (let n = (of_char c :: nat) in
      (65 \<le> n \<and> n \<le> 90) \<or> (97 \<le> n \<and> n \<le> 122) \<or> (48 \<le> n \<and> n \<le> 57)
      \<or> c = CHR ''.'' \<or> c = CHR ''_'' \<or> c = CHR ''-'')"

definition serviceNameRegex :: rx where
  "serviceNameRegex = RCls name_char 1 (Some 255)"

definition peerIdRegex :: rx where
  "peerIdRegex = RCls is_digit 4 None"

text \<open>\<open>^(.*/network/NAME/ID)$\<close>; the dot is any character but a line feed.\<close>

definition isNetworkRequest :: "string \<Rightarrow> bool" where
  "isNetworkRequest p =
     match_string True
       (RSeq (RCls (\<lambda>c. c \<noteq> LF) 0 None)
         (RSeq (RLit ''/network/'') (RSeq serviceNameRegex (RSeq (RLit ''/'') peerIdRegex)))) True p"

text \<open>\<open>(/control/(network|local)/NAME/ID)\<close>, not anchored.\<close>

definition isControlRequest :: "string \<Rightarrow> bool" where
  "isControlRequest p =
     match_string False
       (RSeq (RLit ''/control/'') (RSeq (RAlt (RLit ''network'') (RLit ''local''))
         (RSeq (RLit ''/'') (RSeq serviceNameRegex (RSeq (RLit ''/'') peerIdRegex))))) False p"

definition isValidServiceName :: "string \<Rightarrow> bool" where
  "isValidServiceName s = match_string True serviceNameRegex True s"

section \<open>The service\<close>

text \<open>
  \<open>namedWebSockets\<close> maps a path to a pointer: the index of a socket in \<open>sockets\<close>. \<open>wsconns\<close> holds the
  web socket connections; a connection's \<open>ws_ref\<close> is its index plus one, and 0 is the nil pointer.
\<close>

type_synonym sock_ref = nat

text \<open>\<open>DiscoveryClient\<close>: one advertised service; the sockets hold pointers to them.\<close>

record discovery_client =
  dcServiceType :: string
  dcPort :: int
  dcServer :: "mdns_server option"

record service =
  svcHost :: string
  svcPort :: int
  namedWebSockets :: "string \<Rightarrow> sock_ref option"
  sockets :: "nws list"
  wsconns :: "wsconn list"
  discoveryClients :: "discovery_client list"
  advertisedServiceNames :: "string \<Rightarrow> bool option"
  registeredServiceNames :: "string \<Rightarrow> bool option"

definition nil_ws :: ws_ref where
  "nil_ws = 0"

definition NewNamedWebSocketService :: "string \<Rightarrow> int \<Rightarrow> service" where
  "NewNamedWebSocketService host port =
     \<lparr>svcHost = host, svcPort = port, namedWebSockets = Map.empty, sockets = [], wsconns = [],
      discoveryClients = [], advertisedServiceNames = Map.empty,
      registeredServiceNames = Map.empty\<rparr>"

definition GetNamedWebSockets :: "service \<Rightarrow> sock_ref option \<Rightarrow> string \<Rightarrow> unit" where
  "GetNamedWebSockets v socket path = ()"

definition SetNamedWebSockets :: "service \<Rightarrow> sock_ref \<Rightarrow> string \<Rightarrow> service" where
  "SetNamedWebSockets v socket path =
     v\<lparr>namedWebSockets := (namedWebSockets v)(path \<mapsto> socket)\<rparr>"

text \<open>A new socket object, not yet in the map.\<close>

definition alloc_socket :: "service \<Rightarrow> string \<Rightarrow> bool \<Rightarrow> service \<times> sock_ref \<times> effect list" where
  "alloc_socket v name isNetwork =
     (let (s, e) = NewNamedWebSocket name isNetwork in
      (v\<lparr>sockets := sockets v @ [s]\<rparr>, length (sockets v), e))"

definition alloc_ws :: "service \<Rightarrow> wsconn \<Rightarrow> service \<times> ws_ref" where
  "alloc_ws v c = (v\<lparr>wsconns := wsconns v @ [c]\<rparr>, Suc (length (wsconns v)))"

definition on_socket ::
    "service \<Rightarrow> sock_ref \<Rightarrow> (nws \<Rightarrow> nws \<times> effect list) \<Rightarrow> service \<times> effect list" where
  "on_socket v i f =
     (let (s, e) = f (sockets v ! i) in (v\<lparr>sockets := (sockets v)[i := s]\<rparr>, e))"

text \<open>
  The path to socket map with creation on a miss, as \<open>serveWSCreator\<close> and \<open>Browse\<close> both do it.
\<close>

definition resolve_socket ::
    "service \<Rightarrow> string \<Rightarrow> string \<Rightarrow> bool \<Rightarrow> service \<times> sock_ref \<times> effect list" where
  "resolve_socket v path name isNetwork =
     (case namedWebSockets v path of
        Some i \<Rightarrow> (v, i, [])
      | None \<Rightarrow>
          (let (v1, i, e) = alloc_socket v name isNetwork in
           (SetNamedWebSockets v1 i path, i, e)))"

section \<open>Connection set-up\<close>

definition proxy_upgrader :: upgrader where
  "proxy_upgrader =
     \<lparr>UReadBufferSize = 8192, UWriteBufferSize = 8192, USubprotocols = None, UError = False,
      CheckOrigin = Some (\<lambda>_. True)\<rparr>"

definition upgrade_header :: "http_request \<Rightarrow> header" where
  "upgrade_header r =
     (let s = trim_space (header_get (Header r) ''Sec-Websocket-Protocol'');
          selected = (if s \<noteq> [] then hd (split_on CHR '','' s) else []) in
      [(''Access-Control-Allow-Origin'', [''*'']),
       (''Access-Control-Allow-Credentials'', [''true'']),
       (''Access-Control-Allow-Headers'', [''content-type'']),
       (''Sec-Websocket-Protocol'', [selected])])"

text \<open>What a request brings with it besides its text: the hijacked connection and random numbers.\<close>

record http_env =
  hijacked :: hijack
  env_rands :: "nat \<Rightarrow> 32 word"

definition reply_effect :: "reply \<Rightarrow> effect" where
  "reply_effect p = (case p of DefaultReply n \<Rightarrow> HttpError n | CustomReply n _ \<Rightarrow> HttpError n)"

definition upgradeToWebSocket ::
    "service \<Rightarrow> http_env \<Rightarrow> http_request \<Rightarrow> service \<times> ws_ref \<times> effect list" where
  "upgradeToWebSocket v env r =
     (let u = Upgrade proxy_upgrader (hijacked env) (env_rands env) r (Some (upgrade_header r)) in
      case outcome u of
        Inl _ \<Rightarrow> (v, nil_ws, map reply_effect (replies u))
      | Inr c \<Rightarrow> (let (v1, w) = alloc_ws v c in (v1, w, map reply_effect (replies u))))"

text \<open>
  A failed upgrade is answered with 404, and the function goes on with the nil connection: there
  is no return after \<open>http.Error\<close>.
\<close>

definition serveService ::
    "service \<Rightarrow> http_env \<Rightarrow> http_request \<Rightarrow> sock_ref \<Rightarrow> int \<Rightarrow> service \<times> effect list" where
  "serveService v env r i peerId =
     (if Method r \<noteq> ''GET'' then (v, [HttpError 405])
      else
        let isProxy = (header_get (Header r) ''X-NetworkWebSocket-Proxy'' = ''true'');
            (v1, w, e1) = upgradeToWebSocket v env r;
            e2 = (if w = nil_ws then [HttpError 404] else []);
            (v2, e3) =
              on_socket v1 i (\<lambda>s.
                if isProxy then proxy_addConnection s \<lparr>pc_id = peerId, pc_ws = w, writeable = True\<rparr>
                else peer_addConnection s \<lparr>pc_id = peerId, pc_ws = w\<rparr>) in
        (v2, e1 @ e2 @ e3))"

definition serveControl ::
    "service \<Rightarrow> http_env \<Rightarrow> http_request \<Rightarrow> sock_ref \<Rightarrow> int \<Rightarrow> service \<times> effect list" where
  "serveControl v env r i peerId =
     (if Method r \<noteq> ''GET'' then (v, [HttpError 405])
      else
        let (v1, w, e1) = upgradeToWebSocket v env r;
            e2 = (if w = nil_ws then [HttpError 404] else []);
            (v2, e3) = on_socket v1 i (\<lambda>s. control_addConnection s \<lparr>pc_id = peerId, pc_ws = w\<rparr>) in
        (v2, e1 @ e2 @ e3))"

section \<open>Handlers\<close>

text \<open>
  What \<open>serveWSCreator\<close> reads off the path: is it a network path, a control path, the socket's path,
  its name and the id. None is an index out of range.
\<close>

record ws_path =
  isNetwork :: bool
  isControlPath :: bool
  servicePath :: string
  serviceNamePart :: string
  peerIdStr :: string

definition parse_ws_path :: "string \<Rightarrow> ws_path option" where
  "parse_ws_path p =
     (let parts = split_on CHR ''/'' p; n = length parts in
      if n < 2 \<or> (isControlRequest p \<and> n < 3) then None
      else Some
        \<lparr>isNetwork = isNetworkRequest p, isControlPath = isControlRequest p,
         servicePath =
           (if isControlRequest p then CHR ''/'' # str_join ''/'' (drop 2 (take (n - 1) parts))
            else str_join ''/'' (take (n - 1) parts)),
         serviceNamePart = parts ! (n - 2), peerIdStr = parts ! (n - 1)\<rparr>)"

definition serveWSCreator ::
    "service \<Rightarrow> http_env \<Rightarrow> http_request \<Rightarrow> (service \<times> effect list) option" where
  "serveWSCreator v env r =
     (if Method r \<noteq> ''GET'' then Some (v, [HttpError 405])
      else if to_lower (header_get (Header r) ''Upgrade'') \<noteq> ''websocket'' then Some (v, [HttpError 404])
      else
        (case parse_ws_path (Path r) of
           None \<Rightarrow> None
         | Some w \<Rightarrow>
             if \<not> isValidServiceName (serviceNamePart w) then Some (v, [HttpError 404])
             else
               let (v1, i, e1) = resolve_socket v (servicePath w) (serviceNamePart w) (isNetwork w);
                   peerId = fst (atoi (peerIdStr w));
                   (v2, e2) = (if isControlPath w then serveControl v1 env r i peerId
                               else serveService v1 env r i peerId) in
               Some (v2, e1 @ e2)))"

text \<open>\<open>asset\<close> is the generated function \<open>Asset\<close> of \<open>templates.go\<close>.\<close>

definition serveConsoleTemplate ::
    "(string \<Rightarrow> string option) \<Rightarrow> service \<Rightarrow> http_request \<Rightarrow> effect list" where
  "serveConsoleTemplate asset v r =
     HttpHeader ''Content-Type'' ''text/html; charset=utf-8'' #
     (if Method r \<noteq> ''GET'' then [HttpError 405]
      else if Path r = ''/'' then [HttpBody ''<h2>A Named WebSockets Proxy is running on this host</h2>'']
      else if Path r \<noteq> ''/console'' then [HttpError 404]
      else if HostName r \<noteq> ''localhost:'' @ itoa (svcPort v) \<and> HostName r \<noteq> ''127.0.0.1:'' @ itoa (svcPort v)
      then [HttpError 403]
      else (case asset ''_templates/console.html'' of
              None \<Rightarrow> [HttpError 404]
            | Some html \<Rightarrow> [HttpTemplate html (svcPort v)]))"

datatype endpoint = Console | WSCreator

definition serveMux :: "(string \<times> endpoint) list" where
  "serveMux =
     [(''/'', Console), (''/local/'', WSCreator), (''/network/'', WSCreator), (''/control/'', WSCreator)]"

text \<open>One request to the server of \<open>StartHTTPServer\<close>. None is a panic in the handler.\<close>

definition serveHTTP ::
    "(string \<Rightarrow> string option) \<Rightarrow> service \<Rightarrow> http_env \<Rightarrow> http_request \<Rightarrow> (service \<times> effect list) option" where
  "serveHTTP asset v env r =
     (case mux_route serveMux r of
        Redirect p \<Rightarrow> Some (v, [HttpRedirect p])
      | NoHandler \<Rightarrow> Some (v, [HttpError 404])
      | Handler Console \<Rightarrow> Some (v, serveConsoleTemplate asset v r)
      | Handler WSCreator \<Rightarrow> serveWSCreator v env r)"

text \<open>
  \<open>main\<close> up to the discovery loop: \<open>GetNamedWebSockets\<close> assigns to its own parameter, so the global
  \<open>sock\<close> is still nil and a socket is always made.
\<close>

definition main_setup :: "string \<Rightarrow> service \<times> sock_ref \<times> effect list" where
  "main_setup host =
     (let v = NewNamedWebSocketService host 2000;
          u = GetNamedWebSockets v None ''/network/Mediascape'';
          (v1, i, e) = alloc_socket v ''Mediascape'' True in
      (SetNamedWebSockets v1 i ''/network/Mediascape'', i, e))"

section \<open>Nil connections\<close>

text \<open>
  How a handler's effects end. A method call on the nil connection panics; \<open>net/http\<close> recovers a
  panic of the handler's own goroutine, but not one of the pump goroutines it started.
\<close>

datatype handler_end = Returned | Recovered | Crashed crash

fun run_effects :: "effect list \<Rightarrow> effect list \<times> handler_end" where
  "run_effects [] = ([], Returned)"
| "run_effects (e # es) =
     (case e of
        WsText w s \<Rightarrow>
          if w = nil_ws then ([], Recovered) else (let (xs, f) = run_effects es in (e # xs, f))
      | GoPumps w \<Rightarrow>
          if w = nil_ws then ([e], Crashed NilDereference)
          else (let (xs, f) = run_effects es in (e # xs, f))
      | _ \<Rightarrow> (let (xs, f) = run_effects es in (e # xs, f)))"

section \<open>Names and paths\<close>

lemma isValidServiceName_iff:
  "isValidServiceName s \<longleftrightarrow> list_all name_char s \<and> 1 \<le> length s \<and> length s \<le> 255"
  by (simp add: isValidServiceName_def match_string_full serviceNameRegex_def)

lemma name_char_plain:
  "name_char c \<Longrightarrow> c \<noteq> CHR ''/'' \<and> c \<noteq> CHR ''='' \<and> c \<noteq> CHR '','' \<and> c \<noteq> CHR '';'' \<and> c \<noteq> CHR '' ''
    \<and> c \<noteq> CHR ''['' \<and> c \<noteq> LF"
  by (auto simp: name_char_def LF_def)

lemma valid_name_chars:
  "isValidServiceName s \<Longrightarrow> CHR ''/'' \<notin> set s \<and> LF \<notin> set s"
  using name_char_plain by (auto simp: isValidServiceName_iff list_all_iff)

lemma is_digit_plain: "is_digit c \<Longrightarrow> c \<noteq> CHR ''/'' \<and> c \<noteq> LF"
  by (auto simp: is_digit_def LF_def)

text \<open>An id in a path: four or more digits.\<close>

definition peer_id_text :: "string \<Rightarrow> bool" where
  "peer_id_text s = (list_all is_digit s \<and> 4 \<le> length s)"

lemma name_lang: "s \<in> rx_lang serviceNameRegex \<longleftrightarrow> isValidServiceName s"
  by (simp add: isValidServiceName_def match_string_full)

lemma id_lang: "s \<in> rx_lang peerIdRegex \<longleftrightarrow> peer_id_text s"
  by (simp add: peerIdRegex_def peer_id_text_def)

lemma dots_lang: "s \<in> rx_lang (RCls (\<lambda>c. c \<noteq> x) 0 None) \<longleftrightarrow> x \<notin> set s"
  by (auto simp: list_all_iff)

lemma isNetworkRequest_iff:
  "isNetworkRequest p \<longleftrightarrow>
     (\<exists>pre name ident. p = pre @ ''/network/'' @ name @ ''/'' @ ident \<and> LF \<notin> set pre
        \<and> isValidServiceName name \<and> peer_id_text ident)"
  unfolding isNetworkRequest_def match_string_full rx_lang_path name_lang id_lang dots_lang
  by (rule refl)

text \<open>The part of a path the control expression matches.\<close>

definition control_text :: "string \<Rightarrow> bool" where
  "control_text u =
     (\<exists>scope name ident. u = ''/control/'' @ scope @ ''/'' @ name @ ''/'' @ ident
        \<and> scope \<in> {''network'', ''local''} \<and> isValidServiceName name \<and> peer_id_text ident)"

lemma isControlRequest_iff:
  "isControlRequest p \<longleftrightarrow> (\<exists>a u b. control_text u \<and> p = a @ u @ b)"
proof -
  have "u \<in> rx_lang (RSeq (RLit ''/control/'') (RSeq (RAlt (RLit ''network'') (RLit ''local''))
         (RSeq (RLit ''/'') (RSeq serviceNameRegex (RSeq (RLit ''/'') peerIdRegex))))) \<longleftrightarrow> control_text u" for u
    unfolding rx_lang_lit_seq [of u] rx_lang_path name_lang id_lang rx_lang_lits control_text_def
    by blast
  then show ?thesis
    unfolding isControlRequest_def match_string_iff by blast
qed

lemma isNetworkRequestI:
  "LF \<notin> set pre \<Longrightarrow> isValidServiceName name \<Longrightarrow> peer_id_text ident \<Longrightarrow>
   isNetworkRequest (pre @ ''/network/'' @ name @ ''/'' @ ident)"
  unfolding isNetworkRequest_iff by blast

lemma peer_id_chars: "peer_id_text s \<Longrightarrow> CHR ''/'' \<notin> set s \<and> LF \<notin> set s"
  using is_digit_plain by (auto simp: peer_id_text_def list_all_iff)

lemma split_path_end:
  assumes "CHR ''/'' \<notin> set scope" and "isValidServiceName name" and "CHR ''/'' \<notin> set ident"
  shows "split_on CHR ''/'' (pre @ ''/'' @ scope @ ''/'' @ name @ ''/'' @ ident) =
    split_on CHR ''/'' pre @ [scope, name, ident]"
proof -
  have n: "CHR ''/'' \<notin> set name"
    using valid_name_chars [OF assms(2)] by simp
  have "split_on CHR ''/'' (((pre @ CHR ''/'' # scope) @ CHR ''/'' # name) @ CHR ''/'' # ident) =
      split_on CHR ''/'' pre @ [scope, name, ident]"
    unfolding split_on_last_sep [OF assms(3)] split_on_last_sep [OF n] split_on_last_sep [OF assms(1)]
    by simp
  then show ?thesis by simp
qed

text \<open>Whether a path is a network or a control path can be read off its components.\<close>

lemma network_component:
  assumes "isNetworkRequest p"
  shows "\<exists>ps name ident. split_on CHR ''/'' p = ps @ [''network'', name, ident]"
proof -
  obtain pre name ident where p: "p = pre @ ''/network/'' @ name @ ''/'' @ ident"
      "isValidServiceName name" "peer_id_text ident"
    using assms isNetworkRequest_iff by blast
  have "split_on CHR ''/'' p = split_on CHR ''/'' pre @ [''network'', name, ident]"
    using split_path_end [of "''network''" name ident pre] p peer_id_chars [OF p(3)] by simp
  then show ?thesis by blast
qed

lemma count_list_valid:
  "isValidServiceName name \<Longrightarrow> count_list name CHR ''/'' = 0"
  "peer_id_text ident \<Longrightarrow> count_list ident CHR ''/'' = 0"
  using valid_name_chars peer_id_chars by (metis count_notin)+

lemma control_slashes:
  assumes "isControlRequest p"
  shows "4 \<le> count_list p CHR ''/''"
proof -
  obtain a u b where u: "control_text u" "p = a @ u @ b"
    using assms isControlRequest_iff by blast
  then have "count_list u CHR ''/'' = 4"
    by (auto simp: control_text_def count_list_valid)
  with u(2) show ?thesis by simp
qed

lemma parse_network_path:
  assumes "isValidServiceName name" and "peer_id_text ident"
  shows "parse_ws_path (''/network/'' @ name @ ''/'' @ ident) =
    Some \<lparr>isNetwork = True, isControlPath = False, servicePath = ''/network/'' @ name,
          serviceNamePart = name, peerIdStr = ident\<rparr>"
proof -
  let ?p = "''/network/'' @ name @ ''/'' @ ident"
  have s: "split_on CHR ''/'' ?p = [[], ''network'', name, ident]"
    using split_path_end [of "''network''" name ident "[]"] assms peer_id_chars by simp
  have "isNetworkRequest ?p"
    using isNetworkRequestI [of "[]"] assms by simp
  moreover have "\<not> isControlRequest ?p"
    using control_slashes [of ?p] count_list_valid assms by fastforce
  ultimately show ?thesis
    unfolding parse_ws_path_def s Let_def by simp
qed

lemma parse_local_path:
  assumes "isValidServiceName name" and "peer_id_text ident"
  shows "parse_ws_path (''/local/'' @ name @ ''/'' @ ident) =
    Some \<lparr>isNetwork = False, isControlPath = False, servicePath = ''/local/'' @ name,
          serviceNamePart = name, peerIdStr = ident\<rparr>"
proof -
  let ?p = "''/local/'' @ name @ ''/'' @ ident"
  have s: "split_on CHR ''/'' ?p = [[], ''local'', name, ident]"
    using split_path_end [of "''local''" name ident "[]"] assms peer_id_chars by simp
  have "\<not> isNetworkRequest ?p"
  proof
    assume "isNetworkRequest ?p"
    from network_component [OF this] show False
      unfolding s by (auto simp: append_eq_Cons_conv)
  qed
  moreover have "\<not> isControlRequest ?p"
    using control_slashes [of ?p] count_list_valid assms by fastforce
  ultimately show ?thesis
    unfolding parse_ws_path_def s Let_def by simp
qed

lemma parse_control_path:
  assumes "isValidServiceName name" and "peer_id_text ident" and "scope \<in> {''network'', ''local''}"
  shows "parse_ws_path (''/control/'' @ scope @ ''/'' @ name @ ''/'' @ ident) =
    Some \<lparr>isNetwork = (scope = ''network''), isControlPath = True,
          servicePath = ''/'' @ scope @ ''/'' @ name, serviceNamePart = name, peerIdStr = ident\<rparr>"
proof -
  let ?p = "''/control/'' @ scope @ ''/'' @ name @ ''/'' @ ident"
  have s: "split_on CHR ''/'' ?p = [[], ''control'', scope, name, ident]"
    using split_path_end [of scope name ident "''/control''"] assms peer_id_chars by auto
  have "isNetworkRequest ?p \<longleftrightarrow> scope = ''network''"
  proof
    assume "isNetworkRequest ?p"
    from network_component [OF this] show "scope = ''network''"
      unfolding s by (auto simp: append_eq_Cons_conv)
  next
    assume sc: "scope = ''network''"
    have "?p = ''/control'' @ ''/network/'' @ name @ ''/'' @ ident"
      by (simp add: sc)
    then show "isNetworkRequest ?p"
      using isNetworkRequestI [of "''/control''"] assms by (simp add: LF_def)
  qed
  moreover have "control_text ?p"
    unfolding control_text_def using assms by blast
  then have "isControlRequest ?p"
    unfolding isControlRequest_iff by (metis append_Nil append_Nil2)
  ultimately show ?thesis
    unfolding parse_ws_path_def s Let_def by simp
qed

section \<open>Routing\<close>

definition plain_name :: "string \<Rightarrow> bool" where
  "plain_name s = (isValidServiceName s \<and> s \<noteq> ''.'' \<and> s \<noteq> ''..'')"

lemma clean_elems_plain:
  "\<forall>e\<in>set es. e \<noteq> [] \<and> e \<noteq> ''.'' \<and> e \<noteq> ''..'' \<Longrightarrow> clean_elems acc es = rev es @ acc"
  by (induction es arbitrary: acc) auto

lemma clean_path_plain:
  assumes "split_on CHR ''/'' p = [] # es" and "es \<noteq> []"
    and "\<forall>e\<in>set es. e \<noteq> [] \<and> e \<noteq> ''.'' \<and> e \<noteq> ''..''"
  shows "clean_path p = p"
proof -
  have p: "p = str_join ''/'' ([] # es)"
    using str_join_split_on [of "CHR ''/''" p] assms(1) by simp
  then have q: "p = CHR ''/'' # str_join ''/'' es"
    using assms(2) by (simp add: str_join_Cons)
  have "last es \<noteq> []" "CHR ''/'' \<notin> set (last es)"
    using assms split_on_parts [of "last es" "CHR ''/''" p] by simp_all
  then have "last p \<noteq> CHR ''/''"
    using str_join_last [OF assms(2), of "''/''"] by (auto simp: q) (metis last_in_set)
  moreover have "clean_elems [] (split_on CHR ''/'' p) = rev es"
    using clean_elems_plain [OF assms(3)] assms(1) by simp
  moreover have "p \<noteq> []" "hd p = CHR ''/''"
    by (simp_all add: q)
  ultimately show ?thesis
    using q by (simp add: clean_path_def Let_def)
qed

lemma mux_scope:
  assumes "plain_name name" and "peer_id_text ident" and "scope \<in> {''network'', ''local''}"
    and "Path r = ''/'' @ scope @ ''/'' @ name @ ''/'' @ ident"
  shows "mux_route serveMux r = Handler WSCreator"
proof -
  have "split_on CHR ''/'' (Path r) = [] # [scope, name, ident]"
    using split_path_end [of scope name ident "[]"] assms peer_id_chars
    by (auto simp: plain_name_def)
  moreover have "ident \<noteq> []" "ident \<noteq> ''.''" "ident \<noteq> ''..''" "name \<noteq> []"
    using assms(1,2) by (auto simp: plain_name_def peer_id_text_def isValidServiceName_iff)
  ultimately have "clean_path (Path r) = Path r"
    using assms(1,3) by (intro clean_path_plain) (auto simp: plain_name_def)
  then show ?thesis
    using assms(3,4) by (auto simp: mux_route_def serveMux_def longest_pattern_def)
qed

lemma mux_control:
  assumes "plain_name name" and "peer_id_text ident" and "scope \<in> {''network'', ''local''}"
    and "Path r = ''/control/'' @ scope @ ''/'' @ name @ ''/'' @ ident"
  shows "mux_route serveMux r = Handler WSCreator"
proof -
  have "split_on CHR ''/'' (Path r) = [] # [''control'', scope, name, ident]"
    using split_path_end [of scope name ident "''/control''"] assms peer_id_chars
    by (auto simp: plain_name_def)
  moreover have "ident \<noteq> []" "ident \<noteq> ''.''" "ident \<noteq> ''..''" "name \<noteq> []"
    using assms(1,2) by (auto simp: plain_name_def peer_id_text_def isValidServiceName_iff)
  ultimately have "clean_path (Path r) = Path r"
    using assms(1,3) by (intro clean_path_plain) (auto simp: plain_name_def)
  then show ?thesis
    using assms(3,4) by (auto simp: mux_route_def serveMux_def longest_pattern_def)
qed

section \<open>Set-up of one connection\<close>

text \<open>A request the upgrader accepts, on a connection that can be hijacked and written.\<close>

definition upgradable :: "http_env \<Rightarrow> http_request \<Rightarrow> bool" where
  "upgradable env r =
     (\<exists>c. outcome (Upgrade proxy_upgrader (hijacked env) (env_rands env) r (Some (upgrade_header r))) = Inr c)"

lemma upgrade_success:
  assumes "upgradable env r"
  shows "\<exists>c. upgradeToWebSocket v env r = (v\<lparr>wsconns := wsconns v @ [c]\<rparr>, Suc (length (wsconns v)), [])"
proof -
  obtain c where c: "outcome (Upgrade proxy_upgrader (hijacked env) (env_rands env) r (Some (upgrade_header r))) = Inr c"
    using assms by (auto simp: upgradable_def)
  from Upgrade_only_valid [OF c] obtain nc where v: "valid_handshake proxy_upgrader r"
    and h: "hijacked env = Some (Inr (nc, 0))" by auto
  have "replies (Upgrade proxy_upgrader (hijacked env) (env_rands env) r (Some (upgrade_header r))) = []"
    using Upgrade_valid [OF v h] by (simp add: Let_def split: prod.splits option.splits)
  with c show ?thesis
    by (auto simp: upgradeToWebSocket_def alloc_ws_def Let_def)
qed

lemma upgrade_failure:
  assumes "\<not> upgradable env r"
  shows "\<exists>e. upgradeToWebSocket v env r = (v, nil_ws, e) \<and> (\<forall>x\<in>set e. \<exists>n. x = HttpError n)"
  using assms
  by (cases "outcome (Upgrade proxy_upgrader (hijacked env) (env_rands env) r (Some (upgrade_header r)))")
    (auto simp: upgradable_def upgradeToWebSocket_def reply_effect_def Let_def split: reply.splits)

text \<open>The part of \<open>serveWSCreator\<close> after its checks.\<close>

lemma serveWSCreator_ok:
  assumes "Method r = ''GET''" and "to_lower (header_get (Header r) ''Upgrade'') = ''websocket''"
    and "parse_ws_path (Path r) = Some w" and "isValidServiceName (serviceNamePart w)"
    and "resolve_socket v (servicePath w) (serviceNamePart w) (isNetwork w) = (v1, i, e1)"
  shows "serveWSCreator v env r =
    (let (v2, e2) = (if isControlPath w then serveControl v1 env r i (fst (atoi (peerIdStr w)))
                     else serveService v1 env r i (fst (atoi (peerIdStr w)))) in Some (v2, e1 @ e2))"
  using assms by (simp add: serveWSCreator_def)

text \<open>A failed upgrade: the nil connection reaches the pumps and the process dies.\<close>

lemma run_effects_replies:
  "\<forall>x\<in>set e. \<exists>n. x = HttpError n \<Longrightarrow> run_effects (e @ es) = (e @ fst (run_effects es), snd (run_effects es))"
  by (induction e) (auto simp: Let_def split: prod.splits)

lemma run_effects_append:
  "snd (run_effects xs) = Returned \<Longrightarrow>
   run_effects (xs @ ys) = (xs @ fst (run_effects ys), snd (run_effects ys))"
  by (induction xs) (auto simp: Let_def split: prod.splits effect.splits if_splits)

lemma run_effects_texts:
  "\<forall>x\<in>set es. \<exists>w s. x = WsText w s \<and> w \<noteq> nil_ws \<Longrightarrow> run_effects es = (es, Returned)"
  by (induction es) auto

definition no_nil :: "nws \<Rightarrow> bool" where
  "no_nil s =
     (nil_ws \<notin> pc_ws ` set (peers s) \<and> nil_ws \<notin> pc_ws ` set (proxies s)
      \<and> nil_ws \<notin> pc_ws ` set (controllers s))"

lemma peer_add_run:
  assumes "no_nil s"
  shows "snd (run_effects (snd (peer_addConnection s p))) =
    (if pc_ws p = nil_ws then Crashed NilDereference else Returned)"
proof -
  have n: "\<forall>c\<in>set (controllers s). pc_ws c \<noteq> nil_ws" "\<forall>x\<in>set (proxies s). pc_ws x \<noteq> nil_ws"
    using assms by (force simp: no_nil_def image_iff)+
  have "run_effects (announce_to_controllers ''connect'' s (pc_id p) @ announce_to_proxies ''connect'' s (pc_id p)) =
      (announce_to_controllers ''connect'' s (pc_id p) @ announce_to_proxies ''connect'' s (pc_id p), Returned)"
    by (rule run_effects_texts)
      (auto simp: announce_to_controllers_eq announce_to_proxies_eq n(1) n(2))
  then show ?thesis
    using run_effects_append [of "announce_to_controllers ''connect'' s (pc_id p) @ announce_to_proxies ''connect'' s (pc_id p)"
        "[GoPumps (pc_ws p)]"]
    by (simp add: peer_add_effects)
qed

lemma control_add_run:
  "pc_ws c = nil_ws \<Longrightarrow> snd (run_effects (snd (control_addConnection s c))) = Crashed NilDereference"
  by (simp add: control_add_effects)

end
