(* ===== verification/Mdns_Client.thy ===== *)
theory Mdns_Client
  imports Mdns_Zone
begin

text \<open>
  \<open>richtr/mdns/client.go\<close>: a query collects the answers it receives into service entries. The map
  \<open>inprogress\<close> holds pointers, and an alias makes two names point to one entry; so the entries are
  a list and the map holds indices.
\<close>

section \<open>State\<close>

record service_entry =
  SEName :: string
  SEHost :: string
  AddrV4 :: ip
  AddrV6 :: ip
  SEPort :: int
  SEInfo :: string
  hasTXT :: bool
  sent_entry :: bool

definition complete :: "service_entry \<Rightarrow> bool" where
  "complete e = ((AddrV4 e \<noteq> None \<or> AddrV6 e \<noteq> None) \<and> SEPort e \<noteq> 0 \<and> hasTXT e)"

definition new_entry :: "string \<Rightarrow> service_entry" where
  "new_entry name =
     \<lparr>SEName = name, SEHost = [], AddrV4 = None, AddrV6 = None, SEPort = 0, SEInfo = [],
      hasTXT = False, sent_entry = False\<rparr>"

record query_state =
  inprogress :: "string \<Rightarrow> nat option"
  entries :: "service_entry list"

definition no_progress :: query_state where
  "no_progress = \<lparr>inprogress = Map.empty, entries = []\<rparr>"

section \<open>Operations\<close>

definition ensureName :: "query_state \<Rightarrow> string \<Rightarrow> query_state \<times> nat" where
  "ensureName st name =
     (case inprogress st name of
        Some i \<Rightarrow> (st, i)
      | None \<Rightarrow>
          (st\<lparr>inprogress := (inprogress st)(name \<mapsto> length (entries st)),
              entries := entries st @ [new_entry name]\<rparr>, length (entries st)))"

definition alias_entry :: "query_state \<Rightarrow> string \<Rightarrow> string \<Rightarrow> query_state" where
  "alias_entry st src dst =
     (let (st1, i) = ensureName st src in st1\<lparr>inprogress := (inprogress st1)(dst \<mapsto> i)\<rparr>)"

definition upd_entry :: "query_state \<Rightarrow> nat \<Rightarrow> (service_entry \<Rightarrow> service_entry) \<Rightarrow> query_state" where
  "upd_entry st i f = st\<lparr>entries := (entries st)[i := f (entries st ! i)]\<rparr>"

text \<open>One answer of a response; the second component is the variable \<open>inp\<close>, None while it is nil.\<close>

definition handle_answer :: "query_state \<times> nat option \<Rightarrow> rr \<Rightarrow> query_state \<times> nat option" where
  "handle_answer s a =
     (let (st, inp) = s in
      case a of
        PTR h p \<Rightarrow> (let (st1, i) = ensureName st p in (st1, Some i))
      | SRV h _ _ port tgt \<Rightarrow>
          (let st0 = (if tgt \<noteq> RRName h then alias_entry st (RRName h) tgt else st);
               (st1, i) = ensureName st0 (RRName h) in
           (upd_entry st1 i (\<lambda>e. e\<lparr>SEHost := tgt, SEPort := uint port\<rparr>), Some i))
      | TXT h txts \<Rightarrow>
          (let (st1, i) = ensureName st (RRName h) in
           (upd_entry st1 i (\<lambda>e. e\<lparr>SEInfo := str_join ''|'' txts, hasTXT := True\<rparr>), Some i))
      | RR_A h addr \<Rightarrow>
          (let (st1, i) = ensureName st (RRName h) in
           (upd_entry st1 i (\<lambda>e. e\<lparr>AddrV4 := addr\<rparr>), Some i))
      | RR_AAAA h addr \<Rightarrow>
          (let (st1, i) = ensureName st (RRName h) in
           (upd_entry st1 i (\<lambda>e. e\<lparr>AddrV6 := addr\<rparr>), Some i))
      | OtherRR _ _ \<Rightarrow> (st, inp))"

text \<open>
  What a response leads to: an entry sent on the channel \<open>Entries\<close> (dropped when the channel is
  full), or a query for the name of the last entry touched.
\<close>

datatype client_effect = Deliver service_entry | Dropped service_entry | AskFor string

text \<open>
  One response. None is a nil dereference: \<open>inp\<close> is still nil when no answer is of a known type.
\<close>

definition handle_response ::
    "query_state \<Rightarrow> bool \<Rightarrow> dns_msg \<Rightarrow> (query_state \<times> client_effect) option" where
  "handle_response st room resp =
     (let (st1, inp) = foldl handle_answer (st, None) (Answer resp) in
      case inp of
        None \<Rightarrow> None
      | Some i \<Rightarrow>
          let e = entries st1 ! i in
          if complete e \<and> \<not> sent_entry e then
            let e1 = e\<lparr>sent_entry := True\<rparr> in
            Some (upd_entry st1 i (\<lambda>_. e1), if room then Deliver e1 else Dropped e1)
          else Some (st1, AskFor (SEName e)))"

record query_param =
  QPService :: string
  QPDomain :: string

text \<open>The message of the first query and of the queries for one instance.\<close>

definition query_message :: "u16 \<Rightarrow> string \<Rightarrow> dns_msg" where
  "query_message ident name =
     (SetQuestion new_msg ident name TypePTR)\<lparr>RecursionDesired := False\<rparr>"

definition query_name :: "query_param \<Rightarrow> string" where
  "query_name p =
     trimDot (QPService p) @ ''.''
     @ trimDot (if QPDomain p = [] then ''local'' else QPDomain p) @ ''.''"

text \<open>The loop of \<open>query\<close> over the responses that arrive before the timeout.\<close>

fun handle_responses ::
    "query_state \<Rightarrow> dns_msg list \<Rightarrow> (query_state \<times> client_effect list) option" where
  "handle_responses st [] = Some (st, [])"
| "handle_responses st (m # ms) =
     (case handle_response st True m of
        None \<Rightarrow> None
      | Some (st1, e) \<Rightarrow>
          (case handle_responses st1 ms of None \<Rightarrow> None | Some (st2, es) \<Rightarrow> Some (st2, e # es)))"

section \<open>The entries in progress\<close>

text \<open>Every name in the map points to an entry.\<close>

definition query_inv :: "query_state \<Rightarrow> bool" where
  "query_inv st = (\<forall>n i. inprogress st n = Some i \<longrightarrow> i < length (entries st))"

lemma query_inv_init [inv_intros]: "query_inv no_progress"
  by (simp add: query_inv_def no_progress_def)

lemma ensureName_inv [inv_intros]:
  assumes "query_inv st" and "ensureName st n = (st1, i)"
  shows "query_inv st1" "i < length (entries st1)" "inprogress st1 n = Some i"
    "length (entries st) \<le> length (entries st1)"
  using assms by (auto simp: query_inv_def ensureName_def less_Suc_eq split: option.splits if_splits)

lemma alias_inv [inv_intros]:
  assumes "query_inv st"
  shows "query_inv (alias_entry st a b)" "length (entries st) \<le> length (entries (alias_entry st a b))"
proof -
  obtain st1 i where e: "ensureName st a = (st1, i)" by force
  note inv = ensureName_inv [OF assms e]
  with e show "query_inv (alias_entry st a b)" "length (entries st) \<le> length (entries (alias_entry st a b))"
    by (auto simp: alias_entry_def query_inv_def)
qed

lemma upd_entry_inv [simp]:
  "query_inv (upd_entry st i f) = query_inv st"
  "length (entries (upd_entry st i f)) = length (entries st)"
  "inprogress (upd_entry st i f) = inprogress st"
  by (simp_all add: query_inv_def upd_entry_def)

definition inp_ok :: "query_state \<times> nat option \<Rightarrow> bool" where
  "inp_ok s = (query_inv (fst s) \<and> (case snd s of None \<Rightarrow> True | Some i \<Rightarrow> i < length (entries (fst s))))"

lemma ensureName_step:
  "query_inv st \<Longrightarrow> query_inv (fst (ensureName st n)) \<and>
     snd (ensureName st n) < length (entries (fst (ensureName st n)))"
  using ensureName_inv [of st n] by (metis prod.collapse)

lemma handle_answer_inv:
  assumes "inp_ok s"
  shows "inp_ok (handle_answer s a)"
proof -
  obtain st inp where s: "s = (st, inp)" by force
  then have q: "query_inv st"
    using assms by (simp add: inp_ok_def)
  show ?thesis
  proof (cases a)
    case (SRV h p w port tgt)
    have "query_inv (if tgt \<noteq> RRName h then alias_entry st (RRName h) tgt else st)"
      using q by (simp add: alias_inv(1))
    from ensureName_step [OF this, of "RRName h"] SRV s show ?thesis
      by (cases "tgt = RRName h") (simp_all add: handle_answer_def inp_ok_def Let_def case_prod_beta)
  next
    case (OtherRR h b)
    with assms s show ?thesis
      by (simp add: handle_answer_def)
  qed (use s ensureName_step [OF q] in \<open>simp_all add: handle_answer_def inp_ok_def Let_def case_prod_beta\<close>)
qed

lemma handle_answers_inv: "inp_ok s \<Longrightarrow> inp_ok (foldl handle_answer s as)"
  by (induction as arbitrary: s) (simp_all add: handle_answer_inv)

text \<open>A response keeps the invariant.\<close>

lemma handle_response_inv [inv_intros]:
  assumes "query_inv st" and "handle_response st room m = Some (st1, e)"
  shows "query_inv st1"
proof -
  have "inp_ok (st, None)"
    using assms(1) by (simp add: inp_ok_def)
  from handle_answers_inv [OF this, of "Answer m"] assms(2) show ?thesis
    by (auto simp: handle_response_def inp_ok_def Let_def split: prod.splits option.splits if_splits)
qed

text \<open>It dereferences nil exactly when every answer is of a type the client does not know.\<close>

definition known_rr :: "rr \<Rightarrow> bool" where
  "known_rr a = (case a of OtherRR _ _ \<Rightarrow> False | _ \<Rightarrow> True)"

lemma snd_handle_answer:
  "snd (handle_answer s a) = None \<longleftrightarrow> snd s = None \<and> \<not> known_rr a"
  by (cases a) (simp_all add: handle_answer_def known_rr_def Let_def split: prod.splits)

lemma snd_handle_answers:
  "snd (foldl handle_answer s as) = None \<longleftrightarrow> snd s = None \<and> (\<forall>a\<in>set as. \<not> known_rr a)"
  by (induction as arbitrary: s) (auto simp: snd_handle_answer)

lemma handle_response_crash:
  "handle_response st room m = None \<longleftrightarrow> (\<forall>a\<in>set (Answer m). \<not> known_rr a)"
proof -
  have "handle_response st room m = None \<longleftrightarrow> snd (foldl handle_answer (st, None) (Answer m)) = None"
    by (auto simp: handle_response_def Let_def split: prod.splits option.splits)
  then show ?thesis
    by (simp add: snd_handle_answers)
qed

section \<open>Discovery of an advertised service\<close>

text \<open>
  What the client relies on: a responder answers the query for a service with a pointer to its
  instance, the instance's host and port, the host's addresses and the instance's text.
\<close>

definition address_rrs :: "string \<Rightarrow> ip \<Rightarrow> ip \<Rightarrow> rr list" where
  "address_rrs host a4 a6 =
     (case a4 of None \<Rightarrow> [] | Some a \<Rightarrow> [RR_A (rr_header_of host TypeA) (Some a)])
     @ (case a6 of None \<Rightarrow> [] | Some a \<Rightarrow> [RR_AAAA (rr_header_of host TypeAAAA) (Some a)])"

definition found_entry :: "string \<Rightarrow> string \<Rightarrow> u16 \<Rightarrow> ip \<Rightarrow> ip \<Rightarrow> string \<Rightarrow> service_entry" where
  "found_entry inst host port a4 a6 info =
     \<lparr>SEName = inst, SEHost = host, AddrV4 = a4, AddrV6 = a6, SEPort = uint port, SEInfo = info,
      hasTXT = True, sent_entry = False\<rparr>"

text \<open>Answers about an instance that is not in progress yet gather in one new entry.\<close>

lemma handle_answers_found:
  assumes "inprogress st inst = None" and "inst \<noteq> host"
  shows "foldl handle_answer (st, inp)
      (PTR h inst # SRV (rr_header_of inst TypeSRV) p w port host # address_rrs host a4 a6
        @ [TXT (rr_header_of inst TypeTXT) [info]]) =
    (st\<lparr>inprogress := (inprogress st)(inst \<mapsto> length (entries st), host \<mapsto> length (entries st)),
        entries := entries st @ [found_entry inst host port a4 a6 info]\<rparr>,
     Some (length (entries st)))"
proof -
  have e: "rr_header.RRName (rr_header_of n t) = n" for n t
    by (simp add: rr_header_of_def)
  show ?thesis
    using assms
    by (cases a4; cases a6)
      (simp_all add: handle_answer_def ensureName_def alias_entry_def upd_entry_def address_rrs_def
        found_entry_def new_entry_def e Let_def nth_append fun_upd_twist)
qed

locale mdns_responder =
  fixes records :: zone
    and sname inst host :: string
    and port :: u16
    and a4 a6 :: ip
    and info :: string
  assumes ptr_answer:
    "Qtype q = TypePTR \<Longrightarrow> QName q = sname \<Longrightarrow>
     records q = PTR (rr_header_of sname TypePTR) inst # SRV (rr_header_of inst TypeSRV) 10 1 port host
       # address_rrs host a4 a6 @ [TXT (rr_header_of inst TypeTXT) [info]]"
begin

text \<open>The responder's server replies to the client's first query.\<close>

lemma reply_answer:
  assumes "config_zone s = Some records"
  shows "\<exists>resp. handleQuery s (query_message ident sname) = Some resp \<and> Id resp = ident \<and>
    Answer resp = PTR (rr_header_of sname TypePTR) inst # SRV (rr_header_of inst TypeSRV) 10 1 port host
       # address_rrs host a4 a6 @ [TXT (rr_header_of inst TypeTXT) [info]]"
proof -
  let ?q = "\<lparr>QName = sname, Qtype = TypePTR, Qclass = ClassINET\<rparr>"
  have q: "Question (query_message ident sname) = [?q]" "Id (query_message ident sname) = ident"
    by (simp_all add: query_message_def SetQuestion_def)
  have a: "records ?q = PTR (rr_header_of sname TypePTR) inst # SRV (rr_header_of inst TypeSRV) 10 1 port host
       # address_rrs host a4 a6 @ [TXT (rr_header_of inst TypeTXT) [info]]"
    by (rule ptr_answer) simp_all
  have "handleQuery s (query_message ident sname) \<noteq> None"
    by (simp add: handleQuery_None assms q a)
  then obtain resp where r: "handleQuery s (query_message ident sname) = Some resp"
    by auto
  from handleQuery_Some [OF this] assms a q show ?thesis
    using r by auto
qed

text \<open>The client that receives the reply delivers the entry, once.\<close>

lemma reply_delivers:
  assumes "config_zone s = Some records" and "handleQuery s (query_message ident sname) = Some resp"
    and "inprogress st inst = None" and "inst \<noteq> host"
    and "port \<noteq> 0" and "a4 \<noteq> None \<or> a6 \<noteq> None"
  shows "\<exists>st1. handle_response st True resp =
      Some (st1, Deliver (found_entry inst host port a4 a6 info\<lparr>sent_entry := True\<rparr>))
    \<and> inprogress st1 inst = Some (length (entries st))"
proof -
  have "uint port \<noteq> 0"
    using assms(5) by (simp add: uint_0_iff)
  then have c: "complete (found_entry inst host port a4 a6 info)"
    using assms(6) by (auto simp: complete_def found_entry_def)
  have "Answer resp = PTR (rr_header_of sname TypePTR) inst # SRV (rr_header_of inst TypeSRV) 10 1 port host
       # address_rrs host a4 a6 @ [TXT (rr_header_of inst TypeTXT) [info]]"
    using reply_answer [OF assms(1), of ident] assms(2) by auto
  then show ?thesis
    unfolding handle_response_def
    using c assms(4)
    by (simp only: handle_answers_found [OF assms(3,4)])
      (simp add: Let_def nth_append upd_entry_def found_entry_def)
qed

end

text \<open>An initialised service is such a responder.\<close>

lemma records_ptr_answer:
  assumes "Qtype q = TypePTR" and "QName q = serviceAddr m"
  shows "Records m q = PTR (rr_header_of (serviceAddr m) TypePTR) (instanceAddr m)
    # SRV (rr_header_of (instanceAddr m) TypeSRV) 10 1 (word_of_int (Port m)) (HostDns m)
    # address_rrs (HostDns m) (ipv4Addr m) (ipv6Addr m)
    @ [TXT (rr_header_of (instanceAddr m) TypeTXT) [Info m]]"
  using assms
  by (simp add: Records_def serviceRecords_ptr address_rrs_def a_records_def aaaa_records_def
      split: option.splits)

interpretation advertised: mdns_responder "Records m" "serviceAddr m" "instanceAddr m" "HostDns m"
    "word_of_int (Port m)" "ipv4Addr m" "ipv6Addr m" "Info m" for m
  by unfold_locales (rule records_ptr_answer)

text \<open>Every entry delivered is complete and marked, so it is not delivered again.\<close>

lemma handle_response_deliver:
  assumes "query_inv st" and "handle_response st room m = Some (st1, Deliver e)"
  shows "complete e" "sent_entry e" "e \<in> set (entries st1)"
proof -
  have "inp_ok (foldl handle_answer (st, None) (Answer m))"
    using assms(1) by (intro handle_answers_inv) (simp add: inp_ok_def)
  with assms(2) show "complete e" "sent_entry e" "e \<in> set (entries st1)"
    by (auto simp: handle_response_def upd_entry_def complete_def inp_ok_def Let_def set_update_memI
        split: prod.splits option.splits if_splits)
qed

end
