(* ===== verification/Nws_Discovery.thy ===== *)
theory Nws_Discovery
  imports Nws_Service Mdns_Client
begin

text \<open>
  \<open>discovery.go\<close>: a named web socket is advertised as a DNS-SD service, and the services other hosts
  advertise are joined by a proxy connection.
\<close>

section \<open>Advertising\<close>

text \<open>
  What registering meets: the host's name and addresses, which multicast listeners open, and the
  random number in the instance name.
\<close>

record register_env =
  re_host :: host_env
  re_v4 :: bool
  re_v6 :: bool
  re_rand :: nat

definition dnssd_name :: "string \<Rightarrow> nat \<Rightarrow> string" where
  "dnssd_name serviceType n = serviceType @ ''['' @ nat_dec n @ '']''"

definition mdns_service_for :: "string \<Rightarrow> string \<Rightarrow> string \<Rightarrow> int \<Rightarrow> mdns_service" where
  "mdns_service_for inst serviceType domain port =
     \<lparr>Instance = inst, Service = ''_ws._tcp'', Port = port, Info = ''path=/network/'' @ serviceType,
      Domain = domain, HostDns = [], ipv4Addr = None, ipv6Addr = None, serviceAddr = [],
      instanceAddr = []\<rparr>"

text \<open>\<open>Register\<close>; an error of \<open>Init\<close> or \<open>NewServer\<close> ends the process.\<close>

definition Register ::
    "register_env \<Rightarrow> service \<Rightarrow> discovery_client \<Rightarrow> string \<Rightarrow> crash + service \<times> discovery_client" where
  "Register env v dc domain =
     (let name = dnssd_name (dcServiceType dc) (re_rand env) in
      case Init (re_host env) (mdns_service_for name (dcServiceType dc) domain (dcPort dc)) of
        Inl _ \<Rightarrow> Inl LogFatal
      | Inr m \<Rightarrow>
          (case NewServer (Some (Records m)) (re_v4 env) (re_v6 env) of
             None \<Rightarrow> Inl LogFatal
           | Some srv \<Rightarrow>
               Inr (v\<lparr>advertisedServiceNames := (advertisedServiceNames v)(name \<mapsto> True)\<rparr>,
                    dc\<lparr>dcServer := Some srv\<rparr>)))"

definition NewDiscoveryClient ::
    "register_env \<Rightarrow> service \<Rightarrow> string \<Rightarrow> int \<Rightarrow> crash + service \<times> dc_ref" where
  "NewDiscoveryClient env v serviceType port =
     (case Register env v \<lparr>dcServiceType = serviceType, dcPort = port, dcServer = None\<rparr> ''local'' of
        Inl c \<Rightarrow> Inl c
      | Inr (v1, dc) \<Rightarrow>
          Inr (v1\<lparr>discoveryClients := discoveryClients v1 @ [dc]\<rparr>, length (discoveryClients v1)))"

text \<open>The goroutine \<open>sock.advertise\<close>.\<close>

definition advertise :: "register_env \<Rightarrow> service \<Rightarrow> sock_ref \<Rightarrow> int \<Rightarrow> crash + service" where
  "advertise env v i port =
     (case discoveryClient (sockets v ! i) of
        Some _ \<Rightarrow> Inr v
      | None \<Rightarrow>
          (case NewDiscoveryClient env v (serviceName (sockets v ! i)) port of
             Inl c \<Rightarrow> Inl c
           | Inr (v1, d) \<Rightarrow>
               Inr (v1\<lparr>sockets := (sockets v1)[i := (sockets v1 ! i)\<lparr>discoveryClient := Some d\<rparr>]\<rparr>)))"

definition dc_Shutdown :: "discovery_client \<Rightarrow> discovery_client \<times> server_effect list" where
  "dc_Shutdown dc =
     (case dcServer dc of
        None \<Rightarrow> (dc, [])
      | Some s \<Rightarrow> (let (s1, e) = Shutdown s in (dc\<lparr>dcServer := Some s1\<rparr>, e)))"

section \<open>Browsing\<close>

text \<open>\<open>^([A-Za-z0-9\._-]{1,255})\[[0-9]+\]( \([0-9]+\))?$\<close>.\<close>

definition network_service_rx :: rx where
  "network_service_rx =
     RSeq serviceNameRegex (RSeq (RLit ''['') (RSeq (RCls is_digit 1 None) (RSeq (RLit '']'')
       (RAlt (RLit []) (RSeq (RLit '' ('') (RSeq (RCls is_digit 1 None) (RLit '')'')))))))"

definition NetworkServiceMatcher :: "string \<Rightarrow> bool" where
  "NetworkServiceMatcher s = match_string True network_service_rx True s"

record discovery_server =
  dsHost :: string
  dsPort :: int
  dsClosed :: bool

definition ds_Shutdown :: "discovery_server \<Rightarrow> discovery_server" where
  "ds_Shutdown ds = ds\<lparr>dsClosed := True\<rparr>"

definition browse_param :: query_param where
  "browse_param = \<lparr>QPService = ''_ws._tcp'', QPDomain = ''local''\<rparr>"

text \<open>The instance's name: the components before the last one that is \<open>_ws\<close>.\<close>

definition short_name :: "string \<Rightarrow> string" where
  "short_name name =
     (case dropWhile (\<lambda>c. c \<noteq> ''_ws'') (rev (split_on CHR ''.'' name)) of
        [] \<Rightarrow> []
      | _ # before \<Rightarrow> str_join ''.'' (rev before))"

definition txt_sep :: "char \<Rightarrow> bool" where
  "txt_sep c = (c \<in> {CHR ''='', CHR '','', CHR '';'', CHR '' ''})"

text \<open>
  The loop over the parts of the text record, two at a time. It reads the part after a key
  \<open>path\<close> without checking that there is one.
\<close>

fun txt_path :: "string list \<Rightarrow> crash + string" where
  "txt_path [] = Inr ''/''"
| "txt_path [k] = (if to_lower k = ''path'' then Inl IndexOutOfRange else Inr ''/'')"
| "txt_path (k # v # ps) = (if to_lower k = ''path'' then Inr v else txt_path ps)"

definition service_path :: "string \<Rightarrow> crash + string" where
  "service_path info =
     (let parts = fields_func txt_sep info in if length parts > 1 then txt_path parts else Inr ''/'')"

text \<open>
  What the handling of one entry meets: the random id and, for each dial in turn, the network, the
  key and the numbers for masks.
\<close>

record dial_world =
  dw_id :: nat
  dw_net :: "nat \<Rightarrow> dial_net"
  dw_key :: "nat \<Rightarrow> bytes option"
  dw_masks :: "nat \<Rightarrow> nat \<Rightarrow> 32 word"

definition remote_url :: "string \<Rightarrow> int \<Rightarrow> string \<Rightarrow> nat \<Rightarrow> string" where
  "remote_url host port path ident =
     url_string \<lparr>Scheme = ''ws'', Opaque = [], Host = trim_suffix host ''.'' @ '':'' @ itoa port,
                 UrlPath = path @ ''/'' @ nat_dec ident\<rparr>"

definition dial_header :: "discovery_server \<Rightarrow> header" where
  "dial_header ds = [(''Origin'', [dsHost ds]), (''X-NetworkWebSocket-Proxy'', [''true''])]"

fun dial_hosts ::
    "dial_world \<Rightarrow> header \<Rightarrow> int \<Rightarrow> string \<Rightarrow> nat \<Rightarrow> string list \<Rightarrow> effect list \<times> wsconn option" where
  "dial_hosts dw hdr port path k [] = ([], None)"
| "dial_hosts dw hdr port path k (h # hs) =
     (let u = remote_url h port path (dw_id dw) in
      case Dial (dw_net dw k) None (dw_key dw k) (dw_masks dw k) u hdr of
        Inl _ \<Rightarrow> (let (e, c) = dial_hosts dw hdr port path (Suc k) hs in (WsDial u # e, c))
      | Inr (c, _) \<Rightarrow> ([WsDial u], Some c))"

definition entry_hosts :: "service_entry \<Rightarrow> string list" where
  "entry_hosts e = [SEHost e, ip_string (AddrV4 e), ip_string (AddrV6 e)]"

text \<open>The handling of one entry in the goroutine of \<open>Browse\<close>.\<close>

definition browse_entry ::
    "discovery_server \<Rightarrow> service \<Rightarrow> dial_world \<Rightarrow> service_entry \<Rightarrow> crash + service \<times> effect list" where
  "browse_entry ds v dw e =
     (let name = short_name (SEName e) in
      if \<not> NetworkServiceMatcher name then Inr (v, [])
      else if map_flag (advertisedServiceNames v) name then Inr (v, [])
      else if map_flag (registeredServiceNames v) name then Inr (v, [])
      else
        (case service_path (SEInfo e) of
           Inl c \<Rightarrow> Inl c
         | Inr path \<Rightarrow>
             let (v1, i, e1) = resolve_socket v path (path_base path) True;
                 (e2, conn) = dial_hosts dw (dial_header ds) (SEPort e) path 0 (entry_hosts e) in
             (case conn of
                None \<Rightarrow> Inr (v1, e1 @ e2)
              | Some c \<Rightarrow>
                  let (v2, w) = alloc_ws v1 c;
                      (v3, e3) = on_socket v2 i (\<lambda>s. proxy_addConnection s
                                   \<lparr>pc_id = int (dw_id dw), pc_ws = w, writeable = False\<rparr>) in
                  Inr (v3\<lparr>registeredServiceNames := (registeredServiceNames v3)(name \<mapsto> True)\<rparr>,
                       e1 @ e2 @ e3))))"

text \<open>The entries of one \<open>Browse\<close>, in the order they arrive.\<close>

fun browse_entries ::
    "discovery_server \<Rightarrow> service \<Rightarrow> (dial_world \<times> service_entry) list
     \<Rightarrow> crash + service \<times> effect list" where
  "browse_entries ds v [] = Inr (v, [])"
| "browse_entries ds v ((dw, e) # es) =
     (case browse_entry ds v dw e of
        Inl c \<Rightarrow> Inl c
      | Inr (v1, e1) \<Rightarrow>
          (case browse_entries ds v1 es of Inl c \<Rightarrow> Inl c | Inr (v2, e2) \<Rightarrow> Inr (v2, e1 @ e2)))"

section \<open>What an advertisement says\<close>

lemma dnssd_name_split: "dnssd_name t n = t @ CHR ''['' # nat_dec n @ '']''"
  by (simp add: dnssd_name_def)

lemma NetworkServiceMatcher_dnssd:
  assumes "isValidServiceName t"
  shows "NetworkServiceMatcher (dnssd_name t n)"
proof -
  have "dnssd_name t n = t @ ''['' @ nat_dec n @ '']'' @ []"
    by (simp add: dnssd_name_def)
  moreover have "nat_dec n \<in> rx_lang (RCls is_digit 1 None)"
    using nat_dec_nonempty [of n] by (cases "nat_dec n") (auto simp del: nat_dec_nonempty, (metis nat_dec_digits list.pred_inject(2))+)
  ultimately show ?thesis
    unfolding NetworkServiceMatcher_def match_string_full network_service_rx_def rx_lang_path
    using assms by (metis name_lang rx_lang.simps(1,4) UnI1 insertI1)
qed

text \<open>Leading dots aside, the instance's DNS name gives the advertised name back.\<close>

lemma trim_by_none:
  assumes "s \<noteq> []" and "\<not> p (hd s)" and "\<not> p (last s)"
  shows "trim_by p s = s"
proof -
  have "dropWhile p s = s"
    using assms(1,2) by (cases s) auto
  moreover have "dropWhile p (rev s) = rev s"
    using assms(1,3) by (cases "rev s") (auto simp: last_rev hd_rev [symmetric])
  ultimately show ?thesis by (simp add: trim_by_def)
qed

lemma trimDot_dnssd:
  assumes "isValidServiceName t" and "hd t \<noteq> CHR ''.''"
  shows "trimDot (dnssd_name t n) = dnssd_name t n"
proof -
  have "t \<noteq> []"
    using assms(1) by (auto simp: isValidServiceName_iff)
  then show ?thesis
    unfolding trimDot_def using assms(2)
    by (intro trim_by_none) (auto simp: dnssd_name_def)
qed

lemma short_name_instance:
  "short_name (inst @ ''._ws._tcp.local.'') = inst"
proof -
  have "split_on CHR ''.'' ((((inst @ CHR ''.'' # ''_ws'') @ CHR ''.'' # ''_tcp'') @ CHR ''.'' # ''local'') @ CHR ''.'' # []) =
      split_on CHR ''.'' inst @ [''_ws'', ''_tcp'', ''local'', []]"
    by (subst split_on_last_sep, simp)+ simp
  then have "split_on CHR ''.'' (inst @ ''._ws._tcp.local.'') =
      split_on CHR ''.'' inst @ [''_ws'', ''_tcp'', ''local'', []]"
    by simp
  then show ?thesis
    by (simp add: short_name_def)
qed

lemma service_path_info:
  assumes "isValidServiceName t"
  shows "service_path (''path=/network/'' @ t) = Inr (''/network/'' @ t)"
proof -
  have t: "\<forall>c\<in>set (''/network/'' @ t). \<not> txt_sep c"
    using assms name_char_plain by (auto simp: isValidServiceName_iff list_all_iff txt_sep_def)
  have "fields_func txt_sep (''path'' @ CHR ''='' # ''/network/'' @ t) =
      ''path'' # fields_func txt_sep (''/network/'' @ t)"
    by (rule fields_func_append_sep) (auto simp: txt_sep_def)
  also have "fields_func txt_sep (''/network/'' @ t) = [''/network/'' @ t]"
    by (rule fields_func_no_sep [OF _ t]) simp
  finally have f: "fields_func txt_sep (''path=/network/'' @ t) = [''path'', ''/network/'' @ t]"
    by simp
  have "to_lower ''path'' = ''path''" by code_simp
  then show ?thesis
    unfolding service_path_def f Let_def by simp
qed

lemma path_base_network:
  assumes "isValidServiceName t"
  shows "path_base (''/network/'' @ t) = t"
proof -
  have "t \<noteq> []" "CHR ''/'' \<notin> set t"
    using assms valid_name_chars by (auto simp: isValidServiceName_iff)
  from path_base_last [OF this, of "''/network''"] show ?thesis by simp
qed

lemma browse_query_name: "query_name browse_param = ''_ws._tcp.local.''"
  by (simp add: query_name_def browse_param_def trimDot_def trim_by_def)

text \<open>
  An advertised socket is found: another host's query gets a reply from which the client delivers
  an entry, and the entry names the advertisement, the port and the path of the socket.
\<close>

lemma advertisement_delivered:
  assumes reg: "Register env v \<lparr>dcServiceType = t, dcPort = port, dcServer = None\<rparr> ''local'' = Inr (v1, dc)"
    and name: "isValidServiceName t" "hd t \<noteq> CHR ''.''"
    and init: "Init (re_host env) (mdns_service_for (dnssd_name t (re_rand env)) t ''local'' port) = Inr m"
    and port: "(word_of_int port :: u16) \<noteq> 0" and addr: "ipv4Addr m \<noteq> None"
    and host: "HostDns m \<noteq> instanceAddr m"
    and new: "inprogress st (instanceAddr m) = None"
  shows "\<exists>srv resp st1 e. dcServer dc = Some srv
    \<and> handleQuery srv (query_message ident (query_name browse_param)) = Some resp
    \<and> handle_response st True resp = Some (st1, Deliver e)
    \<and> short_name (SEName e) = dnssd_name t (re_rand env)
    \<and> SEHost e = HostDns m \<and> SEPort e = uint (word_of_int port :: u16) \<and> AddrV4 e = ipv4Addr m
    \<and> service_path (SEInfo e) = Inr (''/network/'' @ t)
    \<and> advertisedServiceNames v1 (dnssd_name t (re_rand env)) = Some True"
proof -
  let ?n = "dnssd_name t (re_rand env)"
  let ?e = "found_entry (instanceAddr m) (HostDns m) (word_of_int (Port m)) (ipv4Addr m) (ipv6Addr m) (Info m)"
  obtain srv where srv: "dcServer dc = Some srv" "config_zone srv = Some (Records m)"
      and adv: "advertisedServiceNames v1 ?n = Some True"
    using reg init by (auto simp: Register_def NewServer_def Let_def split: if_splits)
  note ia = Init_addresses [OF init]
  have sa: "serviceAddr m = ''_ws._tcp.local.''"
    using ia(1,3) by (simp add: mdns_service_for_def trimDot_def trim_by_def)
  have inst: "instanceAddr m = ?n @ ''._ws._tcp.local.''"
    using ia(2) sa trimDot_dnssd [OF name] by (simp add: mdns_service_for_def)
  have p: "Port m = port" "Info m = ''path=/network/'' @ t"
    using ia by (simp_all add: mdns_service_for_def)
  obtain resp where r: "handleQuery srv (query_message ident (serviceAddr m)) = Some resp"
    using advertised.reply_answer [OF srv(2)] by blast
  have "\<exists>st1. handle_response st True resp = Some (st1, Deliver (?e\<lparr>sent_entry := True\<rparr>))
      \<and> inprogress st1 (instanceAddr m) = Some (length (entries st))"
    using port addr host new by (intro advertised.reply_delivers [OF srv(2) r]) (auto simp: p)
  then obtain st1 where d: "handle_response st True resp = Some (st1, Deliver (?e\<lparr>sent_entry := True\<rparr>))"
    by blast
  have "short_name (instanceAddr m) = ?n"
    unfolding inst by (rule short_name_instance)
  with srv r d adv sa show ?thesis
    by (intro exI [of _ srv] exI [of _ resp] exI [of _ st1] exI [of _ "?e\<lparr>sent_entry := True\<rparr>"])
      (simp add: browse_query_name found_entry_def p service_path_info [OF name(1), simplified])
qed

end
