(* ===== verification/Nws_System.thy ===== *)
theory Nws_System
  imports Nws_Discovery
begin

text \<open>
  The running proxy: the service, the goroutines that read from its connections, and the steps they
  take in any order. A step is one handler run to its end; a pump that wants to put a message on a
  full channel waits with that message. Reachable states keep the invariants proved here.
\<close>

section \<open>States\<close>

datatype pump_conn = PeerPump peer_conn | ProxyPump proxy_conn | CtlPump control_conn

fun pump_ws :: "pump_conn \<Rightarrow> ws_ref" where
  "pump_ws (PeerPump p) = pc_ws p"
| "pump_ws (ProxyPump x) = pc_ws x"
| "pump_ws (CtlPump c) = pc_ws c"

text \<open>A read pump: its socket, its connection, and the message it is about to send, if any.\<close>

record proc =
  p_sock :: sock_ref
  p_conn :: pump_conn
  p_pending :: "message option"

text \<open>
  \<open>pingers\<close> are the write pumps: their loop has no exit. \<open>ads\<close> are the sockets whose \<open>advertise\<close>
  goroutine has not run yet.
\<close>

record sys =
  svc :: service
  notif :: notified
  procs :: "proc list"
  pingers :: "ws_ref list"
  ads :: "sock_ref list"
  ds :: discovery_server
  dead :: "crash option"

section \<open>Starting goroutines\<close>

definition socket_conns :: "nws \<Rightarrow> pump_conn list" where
  "socket_conns s = map PeerPump (peers s) @ map ProxyPump (proxies s) @ map CtlPump (controllers s)"

definition conns_with :: "service \<Rightarrow> ws_ref \<Rightarrow> proc list" where
  "conns_with v w =
     concat (map (\<lambda>i. map (\<lambda>c. \<lparr>p_sock = i, p_conn = c, p_pending = None\<rparr>)
                        (filter (\<lambda>c. pump_ws c = w) (socket_conns (sockets v ! i))))
       [0..<length (sockets v)])"

text \<open>The read pumps that the effects of a handler start, for the connections it has just added.\<close>

fun spawned :: "effect list \<Rightarrow> ws_ref list" where
  "spawned [] = []"
| "spawned (GoPumps w # es) = w # spawned es"
| "spawned (_ # es) = spawned es"

definition spawn :: "service \<Rightarrow> effect list \<Rightarrow> proc list" where
  "spawn v es = concat (map (\<lambda>w. take 1 (conns_with v w)) (spawned es))"

definition new_ads :: "service \<Rightarrow> effect list \<Rightarrow> sock_ref list" where
  "new_ads v es =
     (if list_ex (\<lambda>e. case e of GoAdvertise _ \<Rightarrow> True | _ \<Rightarrow> False) es
      then [length (sockets v) - 1] else [])"

text \<open>Effects in a goroutine of the proxy: nobody recovers a panic there.\<close>

definition run_go :: "effect list \<Rightarrow> effect list \<times> crash option" where
  "run_go es =
     (case run_effects es of
        (xs, Returned) \<Rightarrow> (xs, None)
      | (xs, Recovered) \<Rightarrow> (xs, Some NilDereference)
      | (xs, Crashed c) \<Rightarrow> (xs, Some c))"

section \<open>One turn of a pump\<close>

definition pump_turn ::
    "platform \<Rightarrow> nws \<times> notified \<Rightarrow> pump_conn \<Rightarrow> read_result \<Rightarrow> (nws \<times> notified) pump" where
  "pump_turn pf st c r =
     (case c of
        PeerPump p \<Rightarrow> peer_readConnectionPump pf st p r
      | ProxyPump x \<Rightarrow> proxy_readConnectionPump pf st x r
      | CtlPump k \<Rightarrow>
          (case control_readConnectionPump (fst st) k r of
             Loop s e \<Rightarrow> Loop (s, snd st) e
           | Enqueue s e m \<Rightarrow> Enqueue (s, snd st) e m
           | Exit s e \<Rightarrow> Exit (s, snd st) e
           | Die x e \<Rightarrow> Die x e))"

definition put_socket :: "sys \<Rightarrow> sock_ref \<Rightarrow> nws \<times> notified \<Rightarrow> sys" where
  "put_socket S i st =
     S\<lparr>svc := (svc S)\<lparr>sockets := (sockets (svc S))[i := fst st]\<rparr>, notif := snd st\<rparr>"

text \<open>The state after a turn of the \<open>n\<close>th pump, before its effects are looked at.\<close>

definition after_turn :: "sys \<Rightarrow> nat \<Rightarrow> (nws \<times> notified) pump \<Rightarrow> sys \<times> effect list" where
  "after_turn S n t =
     (let p = procs S ! n; i = p_sock p in
      case t of
        Loop st e \<Rightarrow> (put_socket S i st, e)
      | Enqueue st e m \<Rightarrow>
          ((put_socket S i st)\<lparr>procs := (procs S)[n := p\<lparr>p_pending := Some m\<rparr>]\<rparr>, e)
      | Exit st e \<Rightarrow>
          ((put_socket S i st)\<lparr>procs := take n (procs S) @ drop (Suc n) (procs S)\<rparr>, e)
      | Die c e \<Rightarrow> (S\<lparr>dead := Some c\<rparr>, e))"

definition stop_if :: "sys \<Rightarrow> crash option \<Rightarrow> sys" where
  "stop_if S c = (case c of None \<Rightarrow> S | Some _ \<Rightarrow> S\<lparr>dead := c\<rparr>)"

section \<open>Steps\<close>

inductive sys_step ::
    "platform \<Rightarrow> (string \<Rightarrow> string option) \<Rightarrow> sys \<Rightarrow> effect list \<Rightarrow> sys \<Rightarrow> bool"
  for pf asset where
  http: "sys_step pf asset S xs
      (stop_if (S\<lparr>svc := v, procs := procs S @ spawn v xs, pingers := pingers S @ spawned xs,
                  ads := ads S @ new_ads v xs\<rparr>)
        (case fin of Crashed c \<Rightarrow> Some c | _ \<Rightarrow> None))"
    if "dead S = None" "serveHTTP asset (svc S) env r = Some (v, es)" "run_effects es = (xs, fin)"
| http_panic: "sys_step pf asset S [] S"
    if "dead S = None" "serveHTTP asset (svc S) env r = None"
| read: "sys_step pf asset S xs (stop_if S1 c)"
    if "dead S = None" "n < length (procs S)" "p_pending (procs S ! n) = None"
      "after_turn S n (pump_turn pf (sockets (svc S) ! p_sock (procs S ! n), notif S)
         (p_conn (procs S ! n)) r) = (S1, es)"
      "run_go es = (xs, c)"
| send: "sys_step pf asset S []
      ((put_socket S (p_sock (procs S ! n)) (s1, notif S))
         \<lparr>procs := (procs S)[n := (procs S ! n)\<lparr>p_pending := None\<rparr>]\<rparr>)"
    if "dead S = None" "n < length (procs S)" "p_pending (procs S ! n) = Some m"
      "chan_send (sockets (svc S) ! p_sock (procs S ! n)) m = Some s1"
| dispatch: "sys_step pf asset S xs (stop_if (put_socket S i (s1, notif S)) c)"
    if "dead S = None" "i < length (sockets (svc S))"
      "messageDispatcher (sockets (svc S) ! i) = Some (s1, es)" "run_go es = (xs, c)"
| ping: "sys_step pf asset S [WsPing w] S"
    if "dead S = None" "w \<in> set (pingers S)"
| advertised: "sys_step pf asset S []
      (case advertise env (svc S) i (svcPort (svc S)) of
         Inl c \<Rightarrow> S\<lparr>dead := Some c\<rparr>
       | Inr v \<Rightarrow> S\<lparr>svc := v, ads := remove1 i (ads S)\<rparr>)"
    if "dead S = None" "i \<in> set (ads S)"
| browse: "sys_step pf asset S xs
      (stop_if (S\<lparr>svc := v, procs := procs S @ spawn v xs, pingers := pingers S @ spawned xs,
                  ads := ads S @ new_ads v xs\<rparr>) c)"
    if "dead S = None" "browse_entry (ds S) (svc S) dw e = Inr (v, es)" "run_go es = (xs, c)"
| browse_panic: "sys_step pf asset S [] (S\<lparr>dead := Some c\<rparr>)"
    if "dead S = None" "browse_entry (ds S) (svc S) dw e = Inl c"

definition start :: "string \<Rightarrow> sys" where
  "start host =
     (let (v, i, e) = main_setup host in
      \<lparr>svc = v, notif = no_notified, procs = [], pingers = [], ads = new_ads v e,
       ds = \<lparr>dsHost = host, dsPort = 2000, dsClosed = False\<rparr>, dead = None\<rparr>)"

inductive reachable :: "platform \<Rightarrow> (string \<Rightarrow> string option) \<Rightarrow> string \<Rightarrow> sys \<Rightarrow> bool"
  for pf asset host where
  init: "reachable pf asset host (start host)"
| step: "reachable pf asset host S \<Longrightarrow> sys_step pf asset S xs S1 \<Longrightarrow> reachable pf asset host S1"

inductive_cases sys_stepE: "sys_step pf asset S xs S1"

section \<open>What one socket keeps\<close>

definition sock_refs :: "nws \<Rightarrow> ws_ref list" where
  "sock_refs s = map pc_ws (peers s) @ map pc_ws (proxies s) @ map pc_ws (controllers s)"

definition refs :: "nws \<Rightarrow> ws_ref \<Rightarrow> nat" where
  "refs s w = count_list (sock_refs s) w"

definition sock_inv :: "nws \<Rightarrow> bool" where
  "sock_inv s = (length (broadcastBuffer s) \<le> buffer_capacity \<and> (\<forall>w. distinct (owned s w)))"

text \<open>A socket after an operation: it holds its invariant and no connection it did not hold.\<close>

definition keeps :: "nws \<Rightarrow> nws \<Rightarrow> bool" where
  "keeps s t = ((sock_inv s \<longrightarrow> sock_inv t) \<and> (\<forall>w. refs t w \<le> refs s w))"

lemma keeps_refl [inv_intros]: "keeps s s"
  by (simp add: keeps_def)

lemma distinct_count_list: "distinct xs \<longleftrightarrow> (\<forall>w. count_list xs w \<le> 1)"
proof (induction xs)
  case Nil
  then show ?case by simp
next
  case (Cons x xs)
  have "(\<forall>w. count_list (x # xs) w \<le> 1) \<longleftrightarrow> count_list xs x = 0 \<and> (\<forall>w. count_list xs w \<le> 1)"
  proof
    assume a: "\<forall>w. count_list (x # xs) w \<le> 1"
    have "count_list xs w \<le> 1" for w
      using spec [OF a, of w] by (simp split: if_splits)
    with spec [OF a, of x] show "count_list xs x = 0 \<and> (\<forall>w. count_list xs w \<le> 1)"
      by simp
  qed simp
  with Cons show ?case by (simp add: count_list_0_iff)
qed

lemma ws_distinct_refs: "ws_distinct s \<longleftrightarrow> (\<forall>w. refs s w \<le> 1)"
  unfolding ws_distinct_def refs_def sock_refs_def by (rule distinct_count_list)

lemma count_list_remove_first: "count_list (map f (remove_first p xs)) w \<le> count_list (map f xs) w"
  by (induction xs) auto

lemma new_socket_inv [simp]: "sock_inv (fst (NewNamedWebSocket name n))" "refs (fst (NewNamedWebSocket name n)) w = 0"
  by (simp_all add: NewNamedWebSocket_def sock_inv_def refs_def sock_refs_def)

lemma add_inv [inv_intros]:
  "sock_inv s \<Longrightarrow> sock_inv (fst (peer_addConnection s p))"
  "sock_inv s \<Longrightarrow> sock_inv (fst (proxy_addConnection s x))"
  "sock_inv s \<Longrightarrow> sock_inv (fst (control_addConnection s c))"
  by (simp_all add: sock_inv_def)

lemma add_refs [simp]:
  "refs (fst (peer_addConnection s p)) w = refs s w + (if w = pc_ws p then 1 else 0)"
  "refs (fst (proxy_addConnection s x)) w = refs s w + (if w = pc_ws x then 1 else 0)"
  "refs (fst (control_addConnection s c)) w = refs s w + (if w = pc_ws c then 1 else 0)"
  by (simp_all add: refs_def sock_refs_def)

lemma remove_keeps [inv_intros]:
  "keeps s (fst (peer_removeConnection s p))"
  "keeps s (fst (proxy_removeConnection s x))"
  "keeps s (fst (control_removeConnection s c))"
  using count_list_remove_first
  by (auto simp: keeps_def sock_inv_def refs_def sock_refs_def intro!: add_mono)

lemma own_keeps [inv_intros]: "keeps s (own_peer s x k)" "keeps s (disown_peer s x k)"
  by (auto simp: keeps_def sock_inv_def refs_def sock_refs_def own_peer_def disown_peer_def Let_def)

lemma chan_keeps:
  "chan_send s m = Some t \<Longrightarrow> keeps s t"
  "messageDispatcher s = Some (t, es) \<Longrightarrow> keeps s t"
  by (auto simp: keeps_def sock_inv_def refs_def sock_refs_def chan_send_def messageDispatcher_def
      split: if_splits list.splits)

section \<open>What one turn of a pump keeps\<close>

definition pump_all :: "('s \<Rightarrow> bool) \<Rightarrow> 's pump \<Rightarrow> bool" where
  "pump_all P t = (case t of Loop st _ \<Rightarrow> P st | Enqueue st _ _ \<Rightarrow> P st | Exit st _ \<Rightarrow> P st | Die _ _ \<Rightarrow> True)"

definition keeps_pair :: "nws \<times> notified \<Rightarrow> nws \<times> notified \<Rightarrow> bool" where
  "keeps_pair a b = (keeps (fst a) (fst b) \<and> (notified_inv (snd a) \<longrightarrow> notified_inv (snd b)))"

lemma peer_turn_keeps:
  "pump_all (keeps_pair (s, g)) (peer_readConnectionPump pf (s, g) p r)"
proof (cases rule: peer_pump_cases [of pf s g p r])
  case exit
  then show ?thesis
    by (simp add: pump_all_def keeps_pair_def remove_keeps)
next
  case (old buf)
  then show ?thesis
    by (simp add: pump_all_def keeps_pair_def keeps_refl)
next
  case (fresh buf e)
  then show ?thesis
    by (simp add: pump_all_def keeps_pair_def keeps_refl notified_inv_push)
next
  case (die c)
  then show ?thesis
    by (simp add: pump_all_def)
qed

lemma proxy_message_keeps: "pump_all (keeps_pair (s, g)) (proxy_message pf (s, g) m)"
proof -
  have "notified_inv g \<Longrightarrow> Payload m \<notin> set (proxyNotifiedList g) \<Longrightarrow> wants_notify (Payload m) \<Longrightarrow>
      notified_inv (push_both g (Payload m))"
    by (rule notified_inv_push) (auto simp: notified_inv_def)
  then show ?thesis
    by (auto simp: proxy_message_def pump_all_def keeps_pair_def keeps_refl Let_def split: option.splits)
qed

lemma proxy_turn_keeps:
  "pump_all (keeps_pair (s, g)) (proxy_readConnectionPump pf (s, g) x r)"
proof -
  have exit: "pump_all (keeps_pair (s, g))
      (let (s1, e) = proxy_removeConnection s x in Exit (s1, g) e)"
    using remove_keeps(2) [of s x] by (simp add: pump_all_def keeps_pair_def case_prod_beta)
  show ?thesis
  proof (cases r)
    case ReadErr
    with exit show ?thesis by (simp add: proxy_readConnectionPump_def)
  next
    case (Frame op buf)
    show ?thesis
    proof (cases "op \<noteq> text_message \<or> unmarshal buf = None")
      case True
      with Frame exit show ?thesis
        by (auto simp: proxy_readConnectionPump_def pump_all_def keeps_pair_def keeps_refl)
    next
      case False
      then obtain m where "op = text_message" "unmarshal buf = Some m" by auto
      with Frame proxy_message_keeps [of s g pf m] show ?thesis
        by (auto simp: proxy_readConnectionPump_def pump_all_def keeps_pair_def keeps_refl own_keeps)
    qed
  qed
qed

lemma control_turn_keeps:
  "pump_all (keeps s) (control_readConnectionPump s c r)"
  using remove_keeps(3) [of s c]
  by (auto simp: control_readConnectionPump_def pump_all_def keeps_refl
      split: read_result.splits option.splits prod.splits if_splits)

lemma pump_turn_keeps: "pump_all (keeps_pair st) (pump_turn pf st c r)"
proof (cases c)
  case (CtlPump k)
  have "pump_all (keeps (fst st)) (control_readConnectionPump (fst st) k r)"
    by (rule control_turn_keeps)
  with CtlPump show ?thesis
    by (auto simp: pump_turn_def pump_all_def keeps_pair_def split: pump.splits)
qed (use peer_turn_keeps proxy_turn_keeps in \<open>cases st; simp add: pump_turn_def\<close>)+

section \<open>What the service keeps\<close>

definition total_refs :: "service \<Rightarrow> ws_ref \<Rightarrow> nat" where
  "total_refs v w = sum_list (map (\<lambda>s. refs s w) (sockets v))"

text \<open>
  Every socket holds its invariant, the path map is injective and in range, and a connection is in
  at most one list of at most one socket.
\<close>

definition service_inv :: "service \<Rightarrow> bool" where
  "service_inv v =
     ((\<forall>s\<in>set (sockets v). sock_inv s)
      \<and> (\<forall>p i. namedWebSockets v p = Some i \<longrightarrow> i < length (sockets v))
      \<and> (\<forall>p q i. namedWebSockets v p = Some i \<and> namedWebSockets v q = Some i \<longrightarrow> p = q)
      \<and> (\<forall>w. w \<noteq> nil_ws \<longrightarrow> total_refs v w \<le> 1)
      \<and> (\<forall>w. w > length (wsconns v) \<longrightarrow> total_refs v w = 0))"

lemma refs_le_total: "i < length (sockets v) \<Longrightarrow> refs (sockets v ! i) w \<le> total_refs v w"
  using elem_le_sum_list [of i "map (\<lambda>s. refs s w) (sockets v)"] by (simp add: total_refs_def)

lemma total_refs_update:
  assumes "i < length (sockets v)"
  shows "total_refs (v\<lparr>sockets := (sockets v)[i := s]\<rparr>) w + refs (sockets v ! i) w =
    total_refs v w + refs s w"
proof -
  have "sum_list ((map (\<lambda>s. refs s w) (sockets v))[i := refs s w]) =
      total_refs v w + refs s w - refs (sockets v ! i) w"
    using assms by (subst sum_list_update) (simp_all add: total_refs_def)
  moreover have "refs (sockets v ! i) w \<le> total_refs v w"
    by (rule refs_le_total [OF assms])
  ultimately show ?thesis
    by (simp add: total_refs_def map_update)
qed

lemma service_inv_keeps:
  assumes "service_inv v" and "i < length (sockets v)" and "keeps (sockets v ! i) s"
  shows "service_inv (v\<lparr>sockets := (sockets v)[i := s]\<rparr>)"
proof -
  have "total_refs (v\<lparr>sockets := (sockets v)[i := s]\<rparr>) w \<le> total_refs v w" for w
    using total_refs_update [OF assms(2), of s w] assms(3) by (simp add: keeps_def) (metis add_le_mono1 add_le_imp_le_right add.commute)
  moreover have "sock_inv t" if "t \<in> set ((sockets v)[i := s])" for t
    using that assms set_update_subset_insert [of "sockets v" i s]
    by (auto simp: service_inv_def keeps_def)
  ultimately show ?thesis
    using assms(1) unfolding service_inv_def
    by (simp, metis le_trans le_zero_eq)
qed

text \<open>A connection that no socket holds yet, or the nil connection, may be added.\<close>

definition fresh_ws :: "service \<Rightarrow> ws_ref \<Rightarrow> bool" where
  "fresh_ws v w = (w = nil_ws \<or> (total_refs v w = 0 \<and> w \<le> length (wsconns v)))"

lemma service_inv_add:
  assumes "service_inv v" and "i < length (sockets v)" and "fresh_ws v w" and "sock_inv s"
    and "\<And>u. refs s u = refs (sockets v ! i) u + (if u = w then 1 else 0)"
  shows "service_inv (v\<lparr>sockets := (sockets v)[i := s]\<rparr>)"
proof -
  have t: "total_refs (v\<lparr>sockets := (sockets v)[i := s]\<rparr>) u = total_refs v u + (if u = w then 1 else 0)" for u
    using total_refs_update [OF assms(2), of s u] assms(5) [of u] by simp
  have "sock_inv t" if "t \<in> set ((sockets v)[i := s])" for t
    using that assms set_update_subset_insert [of "sockets v" i s] by (auto simp: service_inv_def)
  with t assms(1,3) show ?thesis
    unfolding service_inv_def fresh_ws_def by (auto simp: nil_ws_def)
qed

lemma alloc_ws_inv:
  assumes "service_inv v" and "alloc_ws v c = (v1, w)"
  shows "service_inv v1" "fresh_ws v1 w" "sockets v1 = sockets v" "w \<noteq> nil_ws"
    "namedWebSockets v1 = namedWebSockets v"
  using assms by (auto simp: alloc_ws_def service_inv_def fresh_ws_def total_refs_def nil_ws_def)

lemma alloc_socket_inv:
  assumes "service_inv v" and "alloc_socket v name n = (v1, i, e)"
  shows "service_inv v1" "i = length (sockets v)" "length (sockets v1) = Suc i"
    "namedWebSockets v1 = namedWebSockets v"
proof -
  have v1: "v1 = v\<lparr>sockets := sockets v @ [fst (NewNamedWebSocket name n)]\<rparr>" "i = length (sockets v)"
    using assms(2) by (auto simp: alloc_socket_def case_prod_beta)
  show "i = length (sockets v)" "length (sockets v1) = Suc i" "namedWebSockets v1 = namedWebSockets v"
    by (simp_all add: v1)
  show "service_inv v1"
    using assms(1) unfolding v1 service_inv_def total_refs_def by (auto simp: less_SucI)
qed

lemma resolve_socket_inv:
  assumes "service_inv v" and "resolve_socket v path name n = (v1, i, e)"
  shows "service_inv v1" "i < length (sockets v1)" "namedWebSockets v1 path = Some i"
    "\<forall>p. p \<noteq> path \<longrightarrow> namedWebSockets v1 p = namedWebSockets v p"
proof -
  have "service_inv v1 \<and> i < length (sockets v1) \<and> namedWebSockets v1 path = Some i
    \<and> (\<forall>p. p \<noteq> path \<longrightarrow> namedWebSockets v1 p = namedWebSockets v p)"
  proof (cases "namedWebSockets v path")
    case (Some j)
    with assms show ?thesis
      by (auto simp: resolve_socket_def service_inv_def)
  next
    case None
    obtain v2 j e2 where a: "alloc_socket v name n = (v2, j, e2)"
      by (cases "alloc_socket v name n") auto
    note inv = alloc_socket_inv [OF assms(1) a]
    have v1: "v1 = SetNamedWebSockets v2 i path" "i = j"
      using assms(2) None a by (auto simp: resolve_socket_def)
    have m: "namedWebSockets v2 = namedWebSockets v" "\<And>p. namedWebSockets v p \<noteq> Some j"
      using assms(1) inv by (auto simp: service_inv_def)
    have "service_inv v1"
      using inv(1,3) m unfolding v1 service_inv_def SetNamedWebSockets_def total_refs_def
      by simp
    with inv v1 show ?thesis
      by (simp add: SetNamedWebSockets_def)
  qed
  then show "service_inv v1" "i < length (sockets v1)" "namedWebSockets v1 path = Some i"
    "\<forall>p. p \<noteq> path \<longrightarrow> namedWebSockets v1 p = namedWebSockets v p"
    by auto
qed

lemma on_socket_eq:
  "on_socket v i f =
     (v\<lparr>sockets := (sockets v)[i := fst (f (sockets v ! i))]\<rparr>, snd (f (sockets v ! i)))"
  by (simp add: on_socket_def case_prod_beta)

lemma on_socket_add:
  assumes "service_inv v" and "i < length (sockets v)" and "fresh_ws v w"
  shows "pc_ws p = w \<Longrightarrow> service_inv (fst (on_socket v i (\<lambda>s. peer_addConnection s p)))"
    and "pc_ws x = w \<Longrightarrow> service_inv (fst (on_socket v i (\<lambda>s. proxy_addConnection s x)))"
    and "pc_ws c = w \<Longrightarrow> service_inv (fst (on_socket v i (\<lambda>s. control_addConnection s c)))"
proof -
  have s: "sock_inv (sockets v ! i)"
    using assms(1,2) by (simp add: service_inv_def)
  show "pc_ws p = w \<Longrightarrow> service_inv (fst (on_socket v i (\<lambda>s. peer_addConnection s p)))"
    using service_inv_add [OF assms(1,2,3) add_inv(1) [OF s, of p]] by (simp add: on_socket_eq)
  show "pc_ws x = w \<Longrightarrow> service_inv (fst (on_socket v i (\<lambda>s. proxy_addConnection s x)))"
    using service_inv_add [OF assms(1,2,3) add_inv(2) [OF s, of x]] by (simp add: on_socket_eq)
  show "pc_ws c = w \<Longrightarrow> service_inv (fst (on_socket v i (\<lambda>s. control_addConnection s c)))"
    using service_inv_add [OF assms(1,2,3) add_inv(3) [OF s, of c]] by (simp add: on_socket_eq)
qed

lemma upgrade_inv:
  assumes "service_inv v" and "upgradeToWebSocket v env r = (v1, w, e)"
  shows "service_inv v1" "fresh_ws v1 w" "sockets v1 = sockets v"
    "namedWebSockets v1 = namedWebSockets v"
proof -
  have "service_inv v1 \<and> fresh_ws v1 w \<and> sockets v1 = sockets v
      \<and> namedWebSockets v1 = namedWebSockets v"
  proof (cases "outcome (Upgrade proxy_upgrader (hijacked env) (env_rands env) r (Some (upgrade_header r)))")
    case (Inl x)
    with assms show ?thesis
      by (auto simp: upgradeToWebSocket_def fresh_ws_def Let_def)
  next
    case (Inr c)
    obtain v2 u where a: "alloc_ws v c = (v2, u)" by force
    with Inr assms alloc_ws_inv [OF assms(1) a] show ?thesis
      by (auto simp: upgradeToWebSocket_def Let_def)
  qed
  then show "service_inv v1" "fresh_ws v1 w" "sockets v1 = sockets v"
    "namedWebSockets v1 = namedWebSockets v"
    by simp_all
qed

lemma on_socket_fields [simp]:
  "length (sockets (fst (on_socket v i f))) = length (sockets v)"
  "namedWebSockets (fst (on_socket v i f)) = namedWebSockets v"
  "wsconns (fst (on_socket v i f)) = wsconns v"
  by (simp_all add: on_socket_eq)

lemma serve_inv:
  assumes "service_inv v" and "i < length (sockets v)"
  shows "service_inv (fst (serveService v env r i k)) \<and>
      length (sockets (fst (serveService v env r i k))) = length (sockets v)"
    and "service_inv (fst (serveControl v env r i k)) \<and>
      length (sockets (fst (serveControl v env r i k))) = length (sockets v)"
proof -
  obtain v1 w e where u: "upgradeToWebSocket v env r = (v1, w, e)"
    by (cases "upgradeToWebSocket v env r") auto
  note inv = upgrade_inv [OF assms(1) u]
  have i: "i < length (sockets v1)" using inv(3) assms(2) by simp
  note add = on_socket_add [OF inv(1) i inv(2)]
  show "service_inv (fst (serveService v env r i k)) \<and>
      length (sockets (fst (serveService v env r i k))) = length (sockets v)"
    using assms(1) inv(3)
      add(1) [of "\<lparr>pc_id = k, pc_ws = w\<rparr>"] add(2) [of "\<lparr>pc_id = k, pc_ws = w, writeable = True\<rparr>"]
    by (cases "header_get (Header r) ''X-NetworkWebSocket-Proxy'' = ''true''")
      (simp_all add: serveService_def u case_prod_beta Let_def)
  show "service_inv (fst (serveControl v env r i k)) \<and>
      length (sockets (fst (serveControl v env r i k))) = length (sockets v)"
    using assms(1) inv(3) add(3) [of "\<lparr>pc_id = k, pc_ws = w\<rparr>"]
    by (simp add: serveControl_def u case_prod_beta Let_def)
qed

lemma serveHTTP_inv:
  assumes "service_inv v" and "serveHTTP asset v env r = Some (v1, es)"
  shows "service_inv v1" "length (sockets v) \<le> length (sockets v1)"
proof -
  have creator: "service_inv v1 \<and> length (sockets v) \<le> length (sockets v1)"
    if c: "serveWSCreator v env r = Some (v1, es)" for v1 es
  proof (cases "Method r \<noteq> ''GET'' \<or> to_lower (header_get (Header r) ''Upgrade'') \<noteq> ''websocket''")
    case True
    with c assms(1) show ?thesis
      by (auto simp: serveWSCreator_def split: if_splits)
  next
    case get: False
    then obtain w where w: "parse_ws_path (Path r) = Some w"
      using c by (cases "parse_ws_path (Path r)") (auto simp: serveWSCreator_def)
    show ?thesis
    proof (cases "isValidServiceName (serviceNamePart w)")
      case False
      with c assms(1) get w show ?thesis
        by (auto simp: serveWSCreator_def)
    next
      case True
      obtain v2 i e2 where s: "resolve_socket v (servicePath w) (serviceNamePart w) (isNetwork w) = (v2, i, e2)"
        by (cases "resolve_socket v (servicePath w) (serviceNamePart w) (isNetwork w)") auto
      note inv = resolve_socket_inv [OF assms(1) s]
      have len: "length (sockets v) \<le> length (sockets v2)"
        using s by (auto simp: resolve_socket_def alloc_socket_def SetNamedWebSockets_def
            split: option.splits prod.splits)
      from serve_inv [OF inv(1,2), of env r "fst (atoi (peerIdStr w))"] c get w True s len show ?thesis
        by (auto simp: serveWSCreator_def case_prod_beta Let_def split: if_splits)
    qed
  qed
  have "service_inv v1 \<and> length (sockets v) \<le> length (sockets v1)"
    using assms creator
    by (auto simp: serveHTTP_def split: route.splits endpoint.splits)
  then show "service_inv v1" "length (sockets v) \<le> length (sockets v1)"
    by simp_all
qed

lemma browse_entry_inv:
  assumes "service_inv v" and "browse_entry d v dw e = Inr (v1, es)"
  shows "service_inv v1 \<and> length (sockets v) \<le> length (sockets v1)"
proof (cases "\<not> NetworkServiceMatcher (short_name (SEName e))
    \<or> map_flag (advertisedServiceNames v) (short_name (SEName e))
    \<or> map_flag (registeredServiceNames v) (short_name (SEName e))")
  case True
  with assms show ?thesis
    by (auto simp: browse_entry_def Let_def split: if_splits)
next
  case False
  then obtain path where p: "service_path (SEInfo e) = Inr path"
    using assms(2) by (cases "service_path (SEInfo e)") (auto simp: browse_entry_def Let_def)
  obtain v2 i e2 where s: "resolve_socket v path (path_base path) True = (v2, i, e2)"
    by (cases "resolve_socket v path (path_base path) True") auto
  note inv = resolve_socket_inv [OF assms(1) s]
  have len: "length (sockets v) \<le> length (sockets v2)"
    using s by (auto simp: resolve_socket_def alloc_socket_def SetNamedWebSockets_def
        split: option.splits prod.splits)
  obtain e3 conn where d: "dial_hosts dw (dial_header d) (SEPort e) path 0 (entry_hosts e) = (e3, conn)"
    by force
  show ?thesis
  proof (cases conn)
    case None
    with assms(2) False p s d inv len show ?thesis
      by (auto simp: browse_entry_def Let_def)
  next
    case (Some c)
    obtain v3 w where a: "alloc_ws v2 c = (v3, w)" by force
    note ws = alloc_ws_inv [OF inv(1) a]
    have i: "i < length (sockets v3)" using inv(2) ws(3) by simp
    let ?x = "\<lparr>pc_id = int (dw_id dw), pc_ws = w, writeable = False\<rparr>"
    have add: "service_inv (fst (on_socket v3 i (\<lambda>s. proxy_addConnection s ?x)))"
      by (rule on_socket_add(2) [OF ws(1) i ws(2)]) simp
    let ?v4 = "fst (on_socket v3 i (\<lambda>s. proxy_addConnection s ?x))"
    have v1: "v1 = ?v4\<lparr>registeredServiceNames :=
        (registeredServiceNames ?v4)(short_name (SEName e) \<mapsto> True)\<rparr>"
      using assms(2) False p s d Some a by (auto simp: browse_entry_def Let_def case_prod_beta)
    have "service_inv v1"
      using add unfolding v1 service_inv_def total_refs_def by simp
    with len ws(3) show ?thesis
      by (simp add: v1)
  qed
qed

lemma Register_fields:
  assumes "Register env v dc domain = Inr (v1, dc1)"
  shows "sockets v1 = sockets v" "namedWebSockets v1 = namedWebSockets v" "wsconns v1 = wsconns v"
  using assms by (auto simp: Register_def Let_def split: sum.splits option.splits)

lemma advertise_inv:
  assumes "service_inv v" and "i < length (sockets v)" and "advertise env v i port = Inr v1"
  shows "service_inv v1 \<and> length (sockets v1) = length (sockets v)"
proof (cases "discoveryClient (sockets v ! i)")
  case (Some d)
  with assms show ?thesis by (simp add: advertise_def)
next
  case None
  then obtain v2 dc where r: "Register env v \<lparr>dcServiceType = serviceName (sockets v ! i), dcPort = port,
      dcServer = None\<rparr> ''local'' = Inr (v2, dc)"
    and v1: "v1 = v2\<lparr>discoveryClients := discoveryClients v2 @ [dc],
      sockets := (sockets v2)[i := (sockets v2 ! i)\<lparr>discoveryClient := Some (length (discoveryClients v2))\<rparr>]\<rparr>"
    using assms(3) by (auto simp: advertise_def NewDiscoveryClient_def split: sum.splits prod.splits)
  note f = Register_fields [OF r]
  let ?s = "(sockets v ! i)\<lparr>discoveryClient := Some (length (discoveryClients v2))\<rparr>"
  have "keeps (sockets v ! i) ?s"
    by (simp add: keeps_def sock_inv_def refs_def sock_refs_def)
  from service_inv_keeps [OF assms(1,2) this] show ?thesis
    unfolding v1 by (simp add: f service_inv_def total_refs_def)
qed

section \<open>What every reachable state holds\<close>

definition sys_inv :: "sys \<Rightarrow> bool" where
  "sys_inv S =
     (service_inv (svc S) \<and> notified_inv (notif S) \<and> 0 < length (sockets (svc S))
      \<and> (\<forall>p\<in>set (procs S). p_sock p < length (sockets (svc S)))
      \<and> (\<forall>i\<in>set (ads S). i < length (sockets (svc S))))"

lemma sys_inv_stop [simp]: "sys_inv (stop_if S c) = sys_inv S"
  by (simp add: stop_if_def sys_inv_def split: option.splits)

lemma spawn_socks: "p \<in> set (spawn v es) \<Longrightarrow> p_sock p < length (sockets v)"
  by (auto simp: spawn_def conns_with_def dest!: in_set_takeD)

lemma sys_inv_grow:
  assumes "sys_inv S" and "service_inv v" and "length (sockets (svc S)) \<le> length (sockets v)"
  shows "sys_inv (S\<lparr>svc := v, procs := procs S @ spawn v xs, pingers := ps, ads := ads S @ new_ads v es\<rparr>)"
proof -
  have "0 < length (sockets v)"
    using assms(1,3) unfolding sys_inv_def by linarith
  then have "\<forall>i\<in>set (new_ads v es). i < length (sockets v)"
    by (simp add: new_ads_def)
  moreover have "\<forall>p\<in>set (procs S). p_sock p < length (sockets v)" "\<forall>i\<in>set (ads S). i < length (sockets v)"
    using assms by (auto simp: sys_inv_def)
  ultimately show ?thesis
    using assms spawn_socks by (auto simp: sys_inv_def)
qed

lemma put_socket_inv:
  assumes "sys_inv S" and "i < length (sockets (svc S))"
    and "keeps_pair (sockets (svc S) ! i, notif S) st"
  shows "sys_inv (put_socket S i st)"
proof -
  have "service_inv ((svc S)\<lparr>sockets := (sockets (svc S))[i := fst st]\<rparr>)"
    using assms by (intro service_inv_keeps) (simp_all add: sys_inv_def keeps_pair_def)
  with assms show ?thesis
    by (simp add: put_socket_def sys_inv_def keeps_pair_def)
qed

lemma sys_inv_procs:
  assumes "sys_inv S" and "p_sock ` set ps \<subseteq> p_sock ` set (procs S)"
  shows "sys_inv (S\<lparr>procs := ps\<rparr>)"
  using assms by (fastforce simp: sys_inv_def)

lemma pending_socks:
  assumes "n < length ps"
  shows "p_sock ` set (ps[n := (ps ! n)\<lparr>p_pending := x\<rparr>]) \<subseteq> p_sock ` set ps"
proof -
  have "map p_sock (ps[n := (ps ! n)\<lparr>p_pending := x\<rparr>]) = map p_sock ps"
    using assms by (simp add: map_update list_update_same_conv)
  then show ?thesis
    by (metis image_set order_refl)
qed

lemma after_turn_inv:
  assumes "sys_inv S" and "n < length (procs S)"
    and "pump_all (keeps_pair (sockets (svc S) ! p_sock (procs S ! n), notif S)) t"
    and "after_turn S n t = (S1, es)"
  shows "sys_inv S1"
proof -
  let ?p = "procs S ! n"
  have i: "p_sock ?p < length (sockets (svc S))"
    using assms(1,2) by (simp add: sys_inv_def)
  have pr [simp]: "procs (put_socket S j st) = procs S" for j st
    by (simp add: put_socket_def)
  note upd = pending_socks [OF assms(2)]
  have del: "set (take n (procs S) @ drop (Suc n) (procs S)) \<subseteq> set (procs S)"
    using set_take_subset set_drop_subset by fastforce
  show ?thesis
  proof (cases t)
    case (Loop st e)
    with assms i show ?thesis
      by (auto simp: after_turn_def pump_all_def Let_def intro!: put_socket_inv)
  next
    case (Enqueue st e m)
    with assms(3) have "sys_inv (put_socket S (p_sock ?p) st)"
      by (intro put_socket_inv [OF assms(1) i]) (simp add: pump_all_def)
    from sys_inv_procs [OF this] upd Enqueue assms(4) show ?thesis
      by (auto simp: after_turn_def Let_def)
  next
    case (Exit st e)
    with assms(3) have "sys_inv (put_socket S (p_sock ?p) st)"
      by (intro put_socket_inv [OF assms(1) i]) (simp add: pump_all_def)
    from sys_inv_procs [OF this, of "take n (procs S) @ drop (Suc n) (procs S)"]
      image_mono [OF del, of p_sock] Exit assms(4) show ?thesis
      by (auto simp: after_turn_def Let_def)
  next
    case (Die c e)
    with assms show ?thesis
      by (auto simp: after_turn_def sys_inv_def Let_def)
  qed
qed

lemma sys_step_inv:
  assumes "sys_step pf asset S xs S1" and "sys_inv S"
  shows "sys_inv S1"
  using assms
proof (induction rule: sys_step.induct)
  case (http S env r v es xs fin)
  then have "service_inv v" "length (sockets (svc S)) \<le> length (sockets v)"
    using serveHTTP_inv [OF _ http(2)] by (auto simp: sys_inv_def)
  from sys_inv_grow [OF http.prems this] show ?case by simp
next
  case (read S n r S1 es xs c)
  from after_turn_inv [OF read.prems read(2) pump_turn_keeps read(4)] show ?case by simp
next
  case (send S n m s1)
  have i: "p_sock (procs S ! n) < length (sockets (svc S))"
    using send by (simp add: sys_inv_def)
  have "sys_inv (put_socket S (p_sock (procs S ! n)) (s1, notif S))"
    using chan_keeps(1) [OF send(4)] by (intro put_socket_inv [OF send.prems i]) (simp add: keeps_pair_def)
  from sys_inv_procs [OF this] pending_socks [OF send(2)] show ?case
    by (simp add: put_socket_def)
next
  case (dispatch S i s1 es xs c)
  have "sys_inv (put_socket S i (s1, notif S))"
    using chan_keeps(2) [OF dispatch(3)]
    by (intro put_socket_inv [OF dispatch.prems dispatch(2)]) (simp add: keeps_pair_def)
  then show ?case by simp
next
  case (advertised S i env)
  have i: "i < length (sockets (svc S))"
    using advertised by (simp add: sys_inv_def)
  show ?case
  proof (cases "advertise env (svc S) i (svcPort (svc S))")
    case (Inl c)
    with advertised.prems show ?thesis by (simp add: sys_inv_def)
  next
    case (Inr v)
    with advertise_inv [OF _ i Inr] advertised.prems show ?thesis
      by (auto simp: sys_inv_def dest: notin_set_remove1)
  qed
next
  case (browse S dw e v es xs c)
  then have "service_inv v" "length (sockets (svc S)) \<le> length (sockets v)"
    using browse_entry_inv [OF _ browse(2)] by (auto simp: sys_inv_def)
  from sys_inv_grow [OF browse.prems this] show ?case by simp
qed (auto simp: sys_inv_def)

lemma service_inv_new [inv_intros]: "service_inv (NewNamedWebSocketService host port)"
  by (simp add: service_inv_def NewNamedWebSocketService_def total_refs_def)

lemma start_inv: "sys_inv (start host)"
proof -
  have "service_inv (NewNamedWebSocketService host 2000)"
    by (rule service_inv_new)
  moreover obtain v1 i e where a: "alloc_socket (NewNamedWebSocketService host 2000) ''Mediascape'' True = (v1, i, e)"
    by (cases "alloc_socket (NewNamedWebSocketService host 2000) ''Mediascape'' True") auto
  ultimately have inv: "service_inv v1" "i = 0" "length (sockets v1) = 1" "namedWebSockets v1 = Map.empty"
    using alloc_socket_inv [OF _ a] by (simp_all add: NewNamedWebSocketService_def)
  have m: "main_setup host = (SetNamedWebSockets v1 i ''/network/Mediascape'', i, e)"
    by (simp add: main_setup_def a)
  have "service_inv (SetNamedWebSockets v1 i ''/network/Mediascape'')"
    using inv unfolding service_inv_def SetNamedWebSockets_def total_refs_def by simp
  with inv show ?thesis
    by (simp add: start_def m sys_inv_def notified_inv_init new_ads_def SetNamedWebSockets_def)
qed

theorem reachable_inv: "reachable pf asset host S \<Longrightarrow> sys_inv S"
  by (induction rule: reachable.induct) (simp_all add: start_inv sys_step_inv)

end
