(* ===== verification/Nws_Link.thy ===== *)
theory Nws_Link
  imports Nws_Proxy
begin

text \<open>
  Two hosts joined by one web socket: a writeable proxy connection on the first host, the proxy
  connection the second host dialled. What the first host writes to the connection is what the
  pump of the second host reads.
\<close>

section \<open>Reading a sequence of frames\<close>

text \<open>
  The second host's pump over the text frames that arrive: the state, the effects, and the messages
  it puts on the broadcast channel. None: the pump ended or the process stopped.
\<close>

fun pump_run ::
    "platform \<Rightarrow> nws \<times> notified \<Rightarrow> proxy_conn \<Rightarrow> string list
     \<Rightarrow> ((nws \<times> notified) \<times> effect list \<times> message list) option" where
  "pump_run pf st y [] = Some (st, [], [])"
| "pump_run pf st y (f # fs) =
     (case proxy_readConnectionPump pf st y (Frame text_message f) of
        Loop st1 e \<Rightarrow>
          (case pump_run pf st1 y fs of
             None \<Rightarrow> None | Some (st2, es, ms) \<Rightarrow> Some (st2, e @ es, ms))
      | Enqueue st1 e m \<Rightarrow>
          (case pump_run pf st1 y fs of
             None \<Rightarrow> None | Some (st2, es, ms) \<Rightarrow> Some (st2, e @ es, m # ms))
      | Exit st1 e \<Rightarrow> None
      | Die c e \<Rightarrow> None)"

lemma pump_run_append:
  "pump_run pf st y (fs @ gs) =
     (case pump_run pf st y fs of
        None \<Rightarrow> None
      | Some (st1, es, ms) \<Rightarrow>
          (case pump_run pf st1 y gs of
             None \<Rightarrow> None | Some (st2, es2, ms2) \<Rightarrow> Some (st2, es @ es2, ms @ ms2)))"
  by (induction pf st y fs rule: pump_run.induct) (auto split: pump.splits option.splits)

section \<open>Frames of a proxy connection\<close>

lemma action_names [simp]:
  "to_valid_utf8 ''connect'' = ''connect''" "to_valid_utf8 ''disconnect'' = ''disconnect''"
  "to_valid_utf8 ''message'' = ''message''" "to_valid_utf8 ''directmessage'' = ''directmessage''"
  "to_valid_utf8 [] = []"
  by (rule to_valid_utf8_ascii, simp)+

lemma read_connect:
  assumes "int_in_range j" and "int_in_range k"
  shows "proxy_readConnectionPump pf (s, g) y
      (Frame text_message (marshal \<lparr>Action = ''connect'', Source = j, Target = k, Payload = []\<rparr>)) =
    Loop (own_peer s y k, g) (tell_controllers ''connect'' s k)"
  using assms by (simp add: proxy_readConnectionPump_def unmarshal_marshal del: to_valid_utf8.simps)

lemma read_disconnect:
  assumes "int_in_range j" and "int_in_range k"
  shows "proxy_readConnectionPump pf (s, g) y
      (Frame text_message (marshal \<lparr>Action = ''disconnect'', Source = j, Target = k, Payload = []\<rparr>)) =
    Loop (disown_peer s y k, g) (tell_controllers ''disconnect'' s k)"
  using assms by (simp add: proxy_readConnectionPump_def unmarshal_marshal del: to_valid_utf8.simps)

lemma read_message:
  assumes "int_in_range k" and "\<not> wants_notify (to_valid_utf8 b) \<or> to_valid_utf8 b \<in> set (proxyNotifiedList g)"
  shows "proxy_readConnectionPump pf (s, g) y
      (Frame text_message (marshal \<lparr>Action = ''message'', Source = k, Target = 0, Payload = b\<rparr>)) =
    Enqueue (s, g) [] \<lparr>source = k, target = 0, payload = to_valid_utf8 b, fromProxy = True\<rparr>"
proof -
  have "int_in_range 0" by (simp add: int_in_range_def min_int_def max_int_def)
  with assms show ?thesis
    by (auto simp: proxy_readConnectionPump_def proxy_message_def unmarshal_marshal
        simp del: to_valid_utf8.simps)
qed

section \<open>The peers a host announces\<close>

datatype peer_op = Join peer_conn | Leave peer_conn

fun run_op :: "nws \<Rightarrow> peer_op \<Rightarrow> nws \<times> effect list" where
  "run_op s (Join p) = peer_addConnection s p"
| "run_op s (Leave p) = peer_removeConnection s p"

fun run_ops :: "nws \<Rightarrow> peer_op list \<Rightarrow> nws \<times> effect list" where
  "run_ops s [] = (s, [])"
| "run_ops s (p # ps) =
     (let (s1, e1) = run_op s p; (s2, e2) = run_ops s1 ps in (s2, e1 @ e2))"

text \<open>A peer joins with an id nobody has, and a peer that leaves is connected.\<close>

fun good_ops :: "nws \<Rightarrow> peer_op list \<Rightarrow> bool" where
  "good_ops s [] = True"
| "good_ops s (Join p # ps) =
     (pc_id p \<notin> pc_id ` set (peers s) \<and> int_in_range (pc_id p)
      \<and> good_ops (fst (peer_addConnection s p)) ps)"
| "good_ops s (Leave p # ps) =
     (p \<in> set (peers s) \<and> int_in_range (pc_id p) \<and> good_ops (fst (peer_removeConnection s p)) ps)"

text \<open>The connection \<open>x\<close> is a writeable proxy connection of the socket, and nothing else uses it.\<close>

definition link_ok :: "nws \<Rightarrow> proxy_conn \<Rightarrow> bool" where
  "link_ok s x =
     (x \<in> set (proxies s) \<and> distinct (map pc_ws (proxies s)) \<and> writeable x
      \<and> pc_ws x \<notin> pc_ws ` set (controllers s) \<and> int_in_range (pc_id x)
      \<and> distinct (map pc_id (peers s)))"

lemma texts_to_GoPumps_map [simp]:
  "texts_to w (if b then [WsClose v] else []) = []"
  by simp

lemma join_frames:
  assumes "link_ok s x"
  shows "texts_to (pc_ws x) (snd (peer_addConnection s p)) =
    [marshal \<lparr>Action = ''connect'', Source = pc_id x, Target = pc_id p, Payload = []\<rparr>]"
  using assms
  by (simp add: peer_add_effects announce_elsewhere announce_to_proxy link_ok_def)

lemma leave_frames:
  assumes "link_ok s x"
  shows "texts_to (pc_ws x) (snd (peer_removeConnection s p)) =
    [marshal \<lparr>Action = ''disconnect'', Source = pc_id x, Target = pc_id p, Payload = []\<rparr>]"
proof -
  let ?s = "s\<lparr>controllers := remove_first (\<lambda>c. pc_id c = pc_id p) (controllers s)\<rparr>"
  have "pc_ws x \<notin> pc_ws ` set (controllers ?s)"
    using assms set_remove_first_subset [of "\<lambda>c. pc_id c = pc_id p" "controllers s"]
    by (auto simp: link_ok_def)
  then have "texts_to (pc_ws x) (announce_to_controllers ''disconnect'' ?s (pc_id p)) = []"
    by (rule announce_elsewhere)
  with assms show ?thesis
    by (simp add: peer_remove_effects announce_to_proxy link_ok_def split: option.splits)
qed

lemma link_ok_step:
  assumes "link_ok s x"
  shows "pc_id p \<notin> pc_id ` set (peers s) \<Longrightarrow> link_ok (fst (peer_addConnection s p)) x"
    and "link_ok (fst (peer_removeConnection s p)) x"
proof -
  show "pc_id p \<notin> pc_id ` set (peers s) \<Longrightarrow> link_ok (fst (peer_addConnection s p)) x"
    using assms by (simp add: link_ok_def)
  show "link_ok (fst (peer_removeConnection s p)) x"
    using assms set_remove_first_subset [of "\<lambda>c. pc_id c = pc_id p" "controllers s"]
    by (auto simp: link_ok_def distinct_map_remove_first)
qed

text \<open>
  The second host owns, for the connection, exactly the first host's peers: kept by every
  announcement that is read.
\<close>

lemma ops_synchronise:
  assumes "link_ok s x" and "good_ops s ops"
    and "set (owned t (pc_ws y)) = pc_id ` set (peers s)"
  shows "\<exists>t1 es. pump_run pf (t, g) y (texts_to (pc_ws x) (snd (run_ops s ops))) = Some ((t1, g), es, [])
    \<and> set (owned t1 (pc_ws y)) = pc_id ` set (peers (fst (run_ops s ops)))
    \<and> peers t1 = peers t \<and> proxies t1 = proxies t \<and> controllers t1 = controllers t"
  using assms
proof (induction ops arbitrary: s t)
  case Nil
  then show ?case by simp
next
  case (Cons op ops)
  have ir: "int_in_range (pc_id x)"
    using Cons.prems(1) by (simp add: link_ok_def)
  show ?case
  proof (cases op)
    case (Join p)
    let ?s = "fst (peer_addConnection s p)" and ?t = "own_peer t y (pc_id p)"
    have r: "int_in_range (pc_id p)" and l: "link_ok ?s x" and o: "good_ops ?s ops"
      using Cons.prems Join link_ok_step(1) by auto
    have "set (owned ?t (pc_ws y)) = pc_id ` set (peers ?s)"
      using Cons.prems(3) by simp
    from Cons.IH [OF l o this] obtain t1 es where
      "pump_run pf (?t, g) y (texts_to (pc_ws x) (snd (run_ops ?s ops))) = Some ((t1, g), es, [])"
      "set (owned t1 (pc_ws y)) = pc_id ` set (peers (fst (run_ops ?s ops)))"
      "peers t1 = peers t \<and> proxies t1 = proxies t \<and> controllers t1 = controllers t"
      by auto
    then show ?thesis
      using join_frames [OF Cons.prems(1), of p]
      by (simp add: Join read_connect [OF ir r] case_prod_beta Let_def)
  next
    case (Leave p)
    let ?s = "fst (peer_removeConnection s p)" and ?t = "disown_peer t y (pc_id p)"
    have r: "int_in_range (pc_id p)" and l: "link_ok ?s x" and o: "good_ops ?s ops"
      using Cons.prems Leave link_ok_step(2) by auto
    have "distinct (map pc_id (peers s))"
      using Cons.prems(1) by (simp add: link_ok_def)
    then have "set (owned ?t (pc_ws y)) = pc_id ` set (peers ?s)"
      using Cons.prems(3) by (simp add: mset_image_remove_first_ids)
    from Cons.IH [OF l o this] obtain t1 es where
      "pump_run pf (?t, g) y (texts_to (pc_ws x) (snd (run_ops ?s ops))) = Some ((t1, g), es, [])"
      "set (owned t1 (pc_ws y)) = pc_id ` set (peers (fst (run_ops ?s ops)))"
      "peers t1 = peers t \<and> proxies t1 = proxies t \<and> controllers t1 = controllers t"
      by auto
    then show ?thesis
      using leave_frames [OF Cons.prems(1), of p]
      by (simp add: Leave read_disconnect [OF ir r] case_prod_beta Let_def)
  qed
qed

text \<open>The first announcements tell the second host about every peer there is.\<close>

lemma initial_frames:
  assumes "writeable x"
  shows "texts_to (pc_ws x) (snd (proxy_addConnection s x)) =
    map (\<lambda>k. marshal \<lparr>Action = ''connect'', Source = pc_id x, Target = k, Payload = []\<rparr>)
      (map pc_id (peers s))"
  using assms by (simp add: proxy_add_effects texts_to_map flip: map_map)

lemma connects_owned:
  assumes "int_in_range j" and "\<forall>k\<in>set ks. int_in_range k"
  shows "\<exists>t1 es. pump_run pf (t, g) y
      (map (\<lambda>k. marshal \<lparr>Action = ''connect'', Source = j, Target = k, Payload = []\<rparr>) ks) =
        Some ((t1, g), es, [])
    \<and> set (owned t1 (pc_ws y)) = set (owned t (pc_ws y)) \<union> set ks
    \<and> peers t1 = peers t \<and> proxies t1 = proxies t \<and> controllers t1 = controllers t"
  using assms(2)
proof (induction ks arbitrary: t)
  case Nil
  then show ?case by simp
next
  case (Cons k ks)
  from Cons.IH [of "own_peer t y k"] Cons.prems obtain t1 es where
    "pump_run pf (own_peer t y k, g) y
      (map (\<lambda>k. marshal \<lparr>Action = ''connect'', Source = j, Target = k, Payload = []\<rparr>) ks) =
      Some ((t1, g), es, [])"
    "set (owned t1 (pc_ws y)) = insert k (set (owned t (pc_ws y)) \<union> set ks)"
    "peers t1 = peers t \<and> proxies t1 = proxies t \<and> controllers t1 = controllers t"
    by auto
  with Cons.prems show ?case
    by (simp add: read_connect [OF assms(1)])
qed

end
