(* ===== verification/Mdns_Wire.thy ===== *)
theory Mdns_Wire
  imports Mdns_Client Dns_Roundtrip
begin

text \<open>
  The parts of \<open>richtr/mdns/server.go\<close> and \<open>client.go\<close> that turn packets into messages and back: the loops
  that receive, \<open>parsePacket\<close>, \<open>sendResponse\<close> and \<open>sendQuery\<close>, on the codec of package \<open>dns\<close>. A packet is
  unpacked from a buffer that still holds the packets before behind it. The result is None when a packet
  keeps the goroutine busy for ever, and Panic ends the process.
\<close>

section \<open>The responder\<close>

text \<open>A write to a listener that is nil fails; \<open>from4\<close> says that the sender has an IPv4 address.\<close>

definition sendResponse :: "mdns_server \<Rightarrow> dns_msg \<Rightarrow> bool \<Rightarrow> server_effect list outcome option" where
  "sendResponse s resp from4 =
     wbind (Pack resp) (\<lambda>buf.
       Some (if (if from4 then has_ipv4 s else has_ipv6 s) then Ret [SendTo from4 buf]
             else Fail (OtherError ''invalid argument'')))"

definition parsePacket :: "mdns_server \<Rightarrow> bytes \<Rightarrow> bytes \<Rightarrow> bool \<Rightarrow> server_effect list outcome option" where
  "parsePacket s packet spare from4 =
     wbind (Unpack new_msg packet spare) (\<lambda>m.
       case handleQuery s m of None \<Rightarrow> Some (Ret []) | Some resp \<Rightarrow> sendResponse s resp from4)"

text \<open>
  What \<open>recv\<close> reads in turn: None is an error of the socket, and a packet that does not fit the buffer
  is cut off. An error of \<open>parsePacket\<close> is only logged.
\<close>

fun server_recv ::
    "mdns_server \<Rightarrow> bytes \<Rightarrow> (bytes \<times> bool) option list \<Rightarrow> server_effect list outcome option" where
  "server_recv s buf [] = Some (Ret [])"
| "server_recv s buf (None # rs) = (if shutdown s then Some (Ret []) else server_recv s buf rs)"
| "server_recv s buf (Some (p, from4) # rs) =
     (if shutdown s then Some (Ret [])
      else
        let packet = take (length buf) p; spare = drop (length p) buf in
        case parsePacket s packet spare from4 of
          None \<Rightarrow> None
        | Some Panic \<Rightarrow> Some Panic
        | Some (Fail e) \<Rightarrow> server_recv s (packet @ spare) rs
        | Some (Ret es) \<Rightarrow>
            wbind (server_recv s (packet @ spare) rs) (\<lambda>es1. Some (Ret (es @ es1))))"

section \<open>The client\<close>

datatype client_packet = Multicast bool bytes

text \<open>The query goes out on the listeners that are open.\<close>

definition sendQuery :: "bool \<Rightarrow> bool \<Rightarrow> dns_msg \<Rightarrow> client_packet list outcome option" where
  "sendQuery has4 has6 q =
     wbind (Pack q) (\<lambda>buf.
       Some (Ret ((if has4 then [Multicast True buf] else []) @ (if has6 then [Multicast False buf] else []))))"

text \<open>The messages that \<open>recv\<close> puts into its channel; packets that cannot be unpacked are skipped.\<close>

fun client_recv :: "bytes \<Rightarrow> bytes option list \<Rightarrow> dns_msg list outcome option" where
  "client_recv buf [] = Some (Ret [])"
| "client_recv buf (None # rs) = client_recv buf rs"
| "client_recv buf (Some p # rs) =
     (let packet = take (length buf) p; spare = drop (length p) buf in
      case Unpack new_msg packet spare of
        None \<Rightarrow> None
      | Some Panic \<Rightarrow> Some Panic
      | Some (Fail e) \<Rightarrow> client_recv (packet @ spare) rs
      | Some (Ret m) \<Rightarrow> wbind (client_recv (packet @ spare) rs) (\<lambda>ms. Some (Ret (m # ms))))"

section \<open>Messages that arrive\<close>

lemma good_nameI: "list_all wire_label ls \<Longrightarrow> name_text ls = s \<Longrightarrow> good_name s"
  by (auto simp: good_name_def)

text \<open>The client does not look at the lengths of the data.\<close>

lemma handle_answer_set_hdr:
  "RRName h = RRName (rr_hdr r) \<Longrightarrow> handle_answer s (set_hdr h r) = handle_answer s r"
  by (cases s; cases r) (simp_all add: handle_answer_def)

lemma handle_answer_with_rdlength [simp]: "handle_answer s (with_rdlength r) = handle_answer s r"
  by (simp add: with_rdlength_def handle_answer_set_hdr)

lemma foldl_handle_answer_received [simp]:
  "foldl handle_answer s (map with_rdlength rs) = foldl handle_answer s rs"
  by (induction rs arbitrary: s) simp_all

lemma received_fields [simp]:
  "Question (received m) = Question m" "Answer (received m) = map with_rdlength (Answer m)"
  "Id (received m) = Id m" "Compress (received m) = Compress m" "RecursionDesired (received m) = RecursionDesired m"
  by (simp_all add: received_def)

lemma handle_response_received [simp]: "handle_response st room (received m) = handle_response st room m"
  by (simp add: handle_response_def)

lemma packet_read:
  assumes "good_msg m"
  shows "Unpack new_msg (message_wire m) spare = Some (Ret (received m))"
proof -
  have "holds_at (message_wire m) 0 (message_wire m)"
    using holds_at_middle [of "[]" "message_wire m" "[]"] by simp
  moreover have "(received m)\<lparr>Compress := Compress new_msg\<rparr> = received m"
    using assms by (simp add: good_msg_def new_msg_def)
  ultimately show ?thesis
    using Unpack_wire [OF assms] by metis
qed

text \<open>The answer depends on the questions and the fields a reply takes over only.\<close>

lemma handleQuery_received: "handleQuery s (received q) = handleQuery s q"
  by (simp add: handleQuery_def SetReply_def)

lemma parsePacket_wire:
  assumes "good_msg q" and "handleQuery s q = Some resp" and "good_msg resp" and "has_ipv4 s"
  shows "parsePacket s (message_wire q) spare True = Some (Ret [SendTo True (message_wire resp)])"
  using assms by (simp add: parsePacket_def packet_read handleQuery_received sendResponse_def Pack_wire)

lemma foldl_handleQuestion_codes:
  "Compress (foldl (\<lambda>r q. handleQuestion s q r) r qs) = Compress r"
  "Truncated (foldl (\<lambda>r q. handleQuestion s q r) r qs) = Truncated r"
  "Opcode (foldl (\<lambda>r q. handleQuestion s q r) r qs) = Opcode r"
  "Rcode (foldl (\<lambda>r q. handleQuestion s q r) r qs) = Rcode r"
  "Ns (foldl (\<lambda>r q. handleQuestion s q r) r qs) = Ns r"
  "Extra (foldl (\<lambda>r q. handleQuestion s q r) r qs) = Extra r"
  by (induction qs arbitrary: r) (simp_all add: handleQuestion_def split: option.splits)

text \<open>A reply is a message that can be packed when its records can.\<close>

lemma good_reply:
  assumes "handleQuery s q = Some resp" and "good_msg q" and "list_all good_rr (Answer resp)"
    and "length (Answer resp) < 65536"
  shows "good_msg resp"
proof -
  have r: "resp = foldl (\<lambda>r q. handleQuestion s q r) (SetReply new_msg q) (Question q)"
    using assms(1) by (auto simp: handleQuery_def Let_def split: if_splits)
  have c: "Compress (SetReply new_msg q) = False" "Truncated (SetReply new_msg q) = False"
    "Opcode (SetReply new_msg q) = 0" "Rcode (SetReply new_msg q) = 0" "Ns (SetReply new_msg q) = []"
    "Extra (SetReply new_msg q) = []"
    by (simp_all add: SetReply_def new_msg_def Let_def OpcodeQuery_def RcodeSuccess_def split: list.splits)
  have "Question resp = take 1 (Question q)"
    using handleQuery_Some [OF assms(1)] by blast
  then have "list_all (\<lambda>q. good_name (QName q)) (Question resp)" "length (Question resp) < 65536"
    using assms(2) by (auto simp: good_msg_def list_all_iff dest: in_set_takeD)
  then show ?thesis
    using assms(3,4) unfolding good_msg_def
    by (simp only: r foldl_handleQuestion_codes c) simp
qed

end
