(* ===== verification/Mdns_Query.thy ===== *)
theory Mdns_Query
  imports Mdns_Wire
begin

text \<open>
  A whole query of \<open>richtr/mdns/client.go\<close>: the client with its two sockets, and the loop that sends the
  first query, collects what arrives until the time is over, and asks again for entries that are not
  complete. The messages that arrive come with whether the channel of entries has room; the identifiers of
  the queries are an argument.
\<close>

section \<open>The client\<close>

record mdns_client =
  ipv4List :: bool
  ipv6List :: bool
  client_closed :: bool

text \<open>The arguments say which sockets could be opened.\<close>

definition newClient :: "bool \<Rightarrow> bool \<Rightarrow> mdns_client option" where
  "newClient ipv4 ipv6 =
     (if \<not> ipv4 \<and> \<not> ipv6 then None
      else Some \<lparr>ipv4List = ipv4, ipv6List = ipv6, client_closed = False\<rparr>)"

definition client_Close :: "mdns_client \<Rightarrow> mdns_client \<times> server_effect list" where
  "client_Close c =
     (if client_closed c then (c, [])
      else (c\<lparr>client_closed := True\<rparr>,
            (if ipv4List c then [CloseIPv4] else []) @ (if ipv6List c then [CloseIPv6] else [])))"

text \<open>The system's answers to the two calls that choose the interface.\<close>

definition setInterface :: "bool \<Rightarrow> bool \<Rightarrow> bool" where
  "setInterface set4 set6 = (if \<not> set4 then False else if \<not> set6 then False else True)"

definition DefaultParams :: "string \<Rightarrow> query_param" where
  "DefaultParams service = \<lparr>QPService = service, QPDomain = ''local''\<rparr>"

section \<open>A query\<close>

datatype client_event = Sent client_packet | Entry service_entry

definition sent_by :: "mdns_client \<Rightarrow> dns_msg \<Rightarrow> client_packet list outcome option" where
  "sent_by c m = sendQuery (ipv4List c) (ipv6List c) m"

text \<open>One message after the other; an error of a query for one entry is only logged.\<close>

fun query_loop ::
    "mdns_client \<Rightarrow> (nat \<Rightarrow> u16) \<Rightarrow> nat \<Rightarrow> query_state \<Rightarrow> (bool \<times> dns_msg) list
     \<Rightarrow> client_event list outcome option" where
  "query_loop c ids k st [] = Some (Ret [])"
| "query_loop c ids k st ((room, m) # ms) =
     (case handle_response st room m of
        None \<Rightarrow> Some Panic
      | Some (st1, eff) \<Rightarrow>
          (case eff of
             Deliver e \<Rightarrow> wbind (query_loop c ids k st1 ms) (\<lambda>evs. Some (Ret (Entry e # evs)))
           | Dropped e \<Rightarrow> query_loop c ids k st1 ms
           | AskFor name \<Rightarrow>
               (case sent_by c (query_message (ids k) name) of
                  None \<Rightarrow> None
                | Some Panic \<Rightarrow> Some Panic
                | Some (Fail e) \<Rightarrow> query_loop c ids (Suc k) st1 ms
                | Some (Ret ps) \<Rightarrow>
                    wbind (query_loop c ids (Suc k) st1 ms) (\<lambda>evs. Some (Ret (map Sent ps @ evs))))))"

text \<open>When the first query cannot be sent, the function returns without an error.\<close>

definition client_query ::
    "mdns_client \<Rightarrow> (nat \<Rightarrow> u16) \<Rightarrow> query_param \<Rightarrow> (bool \<times> dns_msg) list \<Rightarrow> client_event list outcome option" where
  "client_query c ids p ms =
     (case sent_by c (query_message (ids 0) (query_name p)) of
        None \<Rightarrow> None
      | Some Panic \<Rightarrow> Some Panic
      | Some (Fail e) \<Rightarrow> Some (Ret [])
      | Some (Ret ps) \<Rightarrow> wbind (query_loop c ids 1 no_progress ms) (\<lambda>evs. Some (Ret (map Sent ps @ evs))))"

text \<open>\<open>Query\<close> on sockets that could be opened or not, and on an interface that could be chosen or not.\<close>

definition Query ::
    "bool \<Rightarrow> bool \<Rightarrow> (bool \<times> bool) option \<Rightarrow> (nat \<Rightarrow> u16) \<Rightarrow> query_param \<Rightarrow> (bool \<times> dns_msg) list
     \<Rightarrow> client_event list outcome option" where
  "Query ipv4 ipv6 iface ids p ms =
     (case newClient ipv4 ipv6 of
        None \<Rightarrow> Some (Fail (OtherError ''Failed to bind to any udp port!''))
      | Some c \<Rightarrow>
          (case iface of
             None \<Rightarrow> client_query c ids p ms
           | Some (set4, set6) \<Rightarrow>
               if setInterface set4 set6 then client_query c ids p ms
               else Some (Fail (OtherError ''interface''))))"

definition Lookup ::
    "bool \<Rightarrow> bool \<Rightarrow> (nat \<Rightarrow> u16) \<Rightarrow> string \<Rightarrow> (bool \<times> dns_msg) list \<Rightarrow> client_event list outcome option" where
  "Lookup ipv4 ipv6 ids service ms = Query ipv4 ipv6 None ids (DefaultParams service) ms"

section \<open>The entries of a query\<close>

fun entries_of :: "client_event list \<Rightarrow> service_entry list" where
  "entries_of [] = []"
| "entries_of (Entry e # evs) = e # entries_of evs"
| "entries_of (Sent p # evs) = entries_of evs"

lemma entries_of_append [simp]: "entries_of (xs @ ys) = entries_of xs @ entries_of ys"
  by (induction xs rule: entries_of.induct) simp_all

lemma entries_of_sent [simp]: "entries_of (map Sent ps) = []"
  by (induction ps) simp_all

text \<open>A message leads to at most one entry, and the queries in between do not change which.\<close>

fun delivered :: "client_effect list \<Rightarrow> service_entry list" where
  "delivered [] = []"
| "delivered (Deliver e # es) = e # delivered es"
| "delivered (_ # es) = delivered es"

lemma query_loop_entries:
  "query_loop c ids k st (map (Pair True) ms) = Some (Ret evs) \<Longrightarrow>
   \<exists>st1 es. handle_responses st ms = Some (st1, es) \<and> entries_of evs = delivered es"
proof (induction ms arbitrary: k st evs)
  case (Cons m ms)
  obtain st1 eff where h: "handle_response st True m = Some (st1, eff)"
    using Cons.prems by (auto split: option.splits)
  have "\<exists>k1 evs1 ps. query_loop c ids k1 st1 (map (Pair True) ms) = Some (Ret evs1)
      \<and> evs = (case eff of Deliver e \<Rightarrow> Entry e # evs1 | Dropped e \<Rightarrow> evs1 | AskFor n \<Rightarrow> map Sent ps @ evs1)"
    using Cons.prems h
    by (auto simp: wbind_def split: client_effect.splits option.splits outcome.splits)
  then obtain k1 evs1 ps where q: "query_loop c ids k1 st1 (map (Pair True) ms) = Some (Ret evs1)"
      "evs = (case eff of Deliver e \<Rightarrow> Entry e # evs1 | Dropped e \<Rightarrow> evs1 | AskFor n \<Rightarrow> map Sent ps @ evs1)"
    by blast
  from Cons.IH [OF q(1)] q(2) h show ?case
    by (auto split: client_effect.splits)
qed simp

end
