(* ===== verification/Notificator.thy ===== *)
theory Notificator
  imports Nws_Notify
begin

text \<open>
  \<open>notificator/notification.go\<close>: the program that shows a notification, which depends on the operating
  system, and what the pumps run with it.
\<close>

datatype notifier = OsxNotificator string | LinuxNotificator | WindowsNotificator

record notificator =
  system_notifier :: "notifier option"
  defaultIcon :: string

text \<open>On any other system the notifier stays nil.\<close>

definition New_notificator :: "string \<Rightarrow> string \<Rightarrow> string \<Rightarrow> notificator" where
  "New_notificator os icon appName =
     \<lparr>system_notifier =
        (if os = ''darwin'' then Some (OsxNotificator appName)
         else if os = ''linux'' then Some LinuxNotificator
         else if os = ''windows'' then Some WindowsNotificator
         else None),
      defaultIcon = icon\<rparr>"

text \<open>The program and its arguments.\<close>

fun notifier_push :: "notifier \<Rightarrow> string \<Rightarrow> string \<Rightarrow> string \<Rightarrow> string list" where
  "notifier_push (OsxNotificator appName) title text iconPath =
     [''growlnotify'', ''-n'', appName, ''--image'', iconPath, ''-m'', title, text]"
| "notifier_push LinuxNotificator title text iconPath = [''notify-send'', ''-i'', iconPath, title, text]"
| "notifier_push WindowsNotificator title text iconPath = [''growlnotify'', ''/i:'', iconPath, ''/t:'', title, text]"

text \<open>What \<open>Push\<close> runs; None is the dereference of a notifier that is nil.\<close>

definition Notificator_Push :: "notificator \<Rightarrow> string \<Rightarrow> string \<Rightarrow> string \<Rightarrow> string list option" where
  "Notificator_Push n title text iconPath =
     (let icon = (if iconPath \<noteq> [] then iconPath else defaultIcon n) in
      case system_notifier n of None \<Rightarrow> None | Some nt \<Rightarrow> Some (notifier_push nt title text icon))"

text \<open>The program behind the effect \<open>NotifyPush\<close> of the pumps, with the icon they look up.\<close>

definition notify_command :: "platform \<Rightarrow> string \<Rightarrow> string \<Rightarrow> string list option" where
  "notify_command pf path s =
     Notificator_Push (New_notificator (goos pf) path ''Mediascape'') ''Mediascape'' s path"

text \<open>
  A push happens on Linux only, so the notifier is never nil, and the message is one argument of the
  program whatever characters it has.
\<close>

lemma notify_command_runs:
  "NotifyPush s \<in> set (show_notification pf url t) \<Longrightarrow>
   s = t \<and> notify_command pf path s = Some [''notify-send'', ''-i'', path, ''Mediascape'', t]"
  by (auto simp: show_notification_def notify_command_def Notificator_Push_def New_notificator_def split: if_splits)

end
