(* ===== verification/Nws_Results.thy ===== *)
theory Nws_Results
  imports Nws_System Nws_Link Mdns_Query Notificator
begin

text \<open>
  Properties of the parts of the proxy one by one: the channel of a socket and its dispatcher, direct
  messages between control connections, the messages that stop the process, and the discovery of
  sockets over mDNS.
\<close>

section \<open>The channel and its dispatcher\<close>

text \<open>Messages sent on the channel of a socket; the dispatcher run a number of times.\<close>

fun send_all :: "nws \<Rightarrow> message list \<Rightarrow> nws option" where
  "send_all s [] = Some s"
| "send_all s (m # ms) = (case chan_send s m of None \<Rightarrow> None | Some t \<Rightarrow> send_all t ms)"

fun dispatch_n :: "nat \<Rightarrow> nws \<Rightarrow> (nws \<times> effect list) option" where
  "dispatch_n 0 s = Some (s, [])"
| "dispatch_n (Suc n) s =
     (case messageDispatcher s of
        None \<Rightarrow> None
      | Some (t, e) \<Rightarrow> map_option (\<lambda>(u, es). (u, e @ es)) (dispatch_n n t))"

lemma send_all_puts: "send_all s ms = chan.puts s ms"
  by (induction ms arbitrary: s) (auto split: option.splits)

lemma send_all_Some:
  "length (broadcastBuffer s) + length ms \<le> buffer_capacity \<Longrightarrow>
   send_all s ms = Some (s\<lparr>broadcastBuffer := broadcastBuffer s @ ms\<rparr>)"
  by (induction ms arbitrary: s) (simp_all add: chan_send_def)

lemma broadcasts_buffer [simp]:
  "localBroadcast (s\<lparr>broadcastBuffer := b\<rparr>) m = localBroadcast s m"
  "remoteBroadcast (s\<lparr>broadcastBuffer := b\<rparr>) m = remoteBroadcast s m"
  by (simp_all add: localBroadcast_eq remoteBroadcast_eq)

lemma dispatch_n_all:
  "dispatch_n (length ms) (s\<lparr>broadcastBuffer := ms\<rparr>) = Some (s\<lparr>broadcastBuffer := []\<rparr>, dispatch_all s ms)"
  by (induction ms) (simp_all add: messageDispatcher_def)

text \<open>
  C7: A socket's channel takes 512 messages and no more, and the dispatcher delivers what it took in
  order: sending messages to an idle socket succeeds exactly when there are at most 512 of them, and
  then as many runs of the dispatcher empty the channel and give each peer the payloads in the order
  they were sent, each once, except those the peer sent itself.
\<close>

theorem dispatcher_delivers_in_order:
  assumes "broadcastBuffer s = []" and "ws_distinct s" and "p \<in> set (peers s)"
  shows "(send_all s ms \<noteq> None \<longleftrightarrow> length ms \<le> 512) \<and>
    (\<forall>t. send_all s ms = Some t \<longrightarrow>
      (\<exists>es. dispatch_n (length ms) t = Some (s, es) \<and>
        texts_to (pc_ws p) es = map payload (filter (\<lambda>m. source m \<noteq> pc_id p) ms)))"
proof -
  have full: "send_all s ms = None" if "\<not> length ms \<le> 512"
  proof (rule ccontr)
    assume "send_all s ms \<noteq> None"
    then obtain t where t: "chan.puts s ms = Some t"
      by (auto simp: send_all_puts)
    from chan.puts_content [OF t] chan.puts_bound [OF _ t] that assms(1) show False
      by (simp add: buffer_capacity_def)
  qed
  have fits: "send_all s ms = Some (s\<lparr>broadcastBuffer := ms\<rparr>)" if "length ms \<le> 512"
    using send_all_Some [of s ms] that assms(1) by (simp add: buffer_capacity_def)
  have d: "dispatch_n (length ms) (s\<lparr>broadcastBuffer := ms\<rparr>) = Some (s, dispatch_all s ms)"
    using dispatch_n_all [of ms s] assms(1) by simp
  show ?thesis
    using full fits d dispatch_all_fifo [OF assms(2,3), of ms] by (cases "length ms \<le> 512") auto
qed

theorem dispatcher_delivers_in_order_witness:
  "\<exists>t es. send_all ((fst (NewNamedWebSocket ''chat'' True))\<lparr>peers := [\<lparr>pc_id = 7, pc_ws = 4\<rparr>]\<rparr>)
        [\<lparr>source = 5, target = 0, payload = ''a'', fromProxy = True\<rparr>,
         \<lparr>source = 7, target = 0, payload = ''b'', fromProxy = False\<rparr>,
         \<lparr>source = 5, target = 0, payload = ''c'', fromProxy = True\<rparr>] = Some t \<and>
     dispatch_n 3 t = Some ((fst (NewNamedWebSocket ''chat'' True))\<lparr>peers := [\<lparr>pc_id = 7, pc_ws = 4\<rparr>]\<rparr>, es) \<and>
     texts_to 4 es = [''a'', ''c'']"
proof -
  let ?s = "(fst (NewNamedWebSocket ''chat'' True))\<lparr>peers := [\<lparr>pc_id = 7, pc_ws = 4\<rparr>]\<rparr>"
  let ?p = "\<lparr>pc_id = 7, pc_ws = 4\<rparr>"
  let ?ms = "[\<lparr>source = 5, target = 0, payload = ''a'', fromProxy = True\<rparr>,
         \<lparr>source = 7, target = 0, payload = ''b'', fromProxy = False\<rparr>,
         \<lparr>source = 5, target = 0, payload = ''c'', fromProxy = True\<rparr>]"
  have a: "broadcastBuffer ?s = []" "ws_distinct ?s" "?p \<in> set (peers ?s)"
    by (simp_all add: NewNamedWebSocket_def ws_distinct_def)
  have n: "length ?ms = 3" by simp
  obtain t where t: "send_all ?s ?ms = Some t"
    using dispatcher_delivers_in_order [OF a, of ?ms] by auto
  with dispatcher_delivers_in_order [OF a, of ?ms] obtain es where
    "dispatch_n (length ?ms) t = Some (?s, es)"
    "texts_to (pc_ws ?p) es = map payload (filter (\<lambda>m. source m \<noteq> pc_id ?p) ?ms)"
    by blast
  with t show ?thesis
    unfolding n by auto
qed

section \<open>The wire format\<close>

text \<open>
  C25: What one host writes the other reads: parsing the JSON text of a message gives the message back,
  with the bytes that are not valid UTF-8 in its two strings replaced, and nothing else changed, for all
  ids in the range of Go's \<open>int\<close>.
\<close>

theorem wire_roundtrip:
  assumes "min_int \<le> Source m" and "Source m \<le> max_int" and "min_int \<le> Target m" and "Target m \<le> max_int"
  shows "unmarshal (marshal m) =
    Some \<lparr>Action = to_valid_utf8 (Action m), Source = Source m, Target = Target m,
          Payload = to_valid_utf8 (Payload m)\<rparr>"
  using unmarshal_marshal [of m] assms by (simp add: int_in_range_def)

theorem wire_roundtrip_witness:
  "unmarshal (marshal \<lparr>Action = ''message'', Source = - 5, Target = 0, Payload = CHR 0x22 # ''<hi>'' @ [CHR 0x5C, CHR 0x0A]\<rparr>) =
     Some \<lparr>Action = ''message'', Source = - 5, Target = 0, Payload = CHR 0x22 # ''<hi>'' @ [CHR 0x5C, CHR 0x0A]\<rparr>"
proof -
  let ?m = "\<lparr>Action = ''message'', Source = - 5, Target = 0, Payload = CHR 0x22 # ''<hi>'' @ [CHR 0x5C, CHR 0x0A]\<rparr>"
  have "min_int \<le> Source ?m" "Source ?m \<le> max_int" "min_int \<le> Target ?m" "Target ?m \<le> max_int"
    by (simp_all add: min_int_def max_int_def)
  from wire_roundtrip [OF this] show ?thesis
    using to_valid_utf8_ascii [of "CHR 0x22 # ''<hi>'' @ [CHR 0x5C, CHR 0x0A]"]
    by (simp del: to_valid_utf8.simps)
qed

section \<open>Direct messages\<close>



section \<open>What stops the process\<close>


lemma txt_path_crash:
  "txt_path ps = Inl c \<longleftrightarrow> c = IndexOutOfRange \<and> odd (length ps) \<and> to_lower (last ps) = ''path'' \<and>
     (\<forall>i < length ps div 2. to_lower (ps ! (2 * i)) \<noteq> ''path'')"
proof (induction ps rule: txt_path.induct)
  case (3 k v ps)
  have all: "(\<forall>i < length (k # v # ps) div 2. to_lower ((k # v # ps) ! (2 * i)) \<noteq> ''path'') \<longleftrightarrow>
      to_lower k \<noteq> ''path'' \<and> (\<forall>i < length ps div 2. to_lower (ps ! (2 * i)) \<noteq> ''path'')"
  proof -
    have "(\<forall>i < Suc n. P i) \<longleftrightarrow> P 0 \<and> (\<forall>i < n. P (Suc i))" for n and P :: "nat \<Rightarrow> bool"
      by (metis less_Suc_eq_0_disj)
    then show ?thesis by simp
  qed
  show ?case
  proof (cases "to_lower k = ''path''")
    case False
    then show ?thesis
      unfolding all using 3 [OF False] by (cases ps) auto
  next
    case True
    then show ?thesis
      unfolding all by simp
  qed
qed auto

text \<open>
  C34: A text record can stop the proxy: reading the path of a service panics exactly when the record has
  an odd number of parts, more than one, of which the last is a \<open>path\<close> without a value and no earlier
  key is \<open>path\<close>.
\<close>

theorem service_path_panics:
  "(\<exists>c. service_path info = Inl c) \<longleftrightarrow>
    (let ps = fields_func txt_sep info in
      1 < length ps \<and> odd (length ps) \<and> to_lower (last ps) = ''path'' \<and>
      (\<forall>i < length ps div 2. to_lower (ps ! (2 * i)) \<noteq> ''path''))"
  by (simp add: service_path_def Let_def txt_path_crash)

theorem service_path_panics_witness: "\<exists>c. service_path ''x=1;path'' = Inl c"
proof -
  have f: "fields_func txt_sep ''x=1;path'' = [''x'', ''1'', ''path'']" "to_lower ''x'' = ''x''"
    "to_lower ''path'' = ''path''"
    by code_simp+
  show ?thesis
    unfolding service_path_panics f Let_def using f(2,3) by simp
qed

section \<open>The client of the service discovery\<close>

definition sent_flags :: "query_state \<Rightarrow> bool list" where
  "sent_flags st = map sent_entry (entries st)"

text \<open>Answers add entries that were not sent and leave the flags of the others.\<close>

definition more_entries :: "query_state \<Rightarrow> query_state \<Rightarrow> bool" where
  "more_entries st st1 = (\<exists>n. sent_flags st1 = sent_flags st @ replicate n False)"

lemma more_entries_refl: "more_entries st st"
  unfolding more_entries_def by (intro exI [of _ 0]) simp

lemma more_entries_trans: "more_entries st st1 \<Longrightarrow> more_entries st1 st2 \<Longrightarrow> more_entries st st2"
  unfolding more_entries_def by (metis append.assoc replicate_add)

lemma more_entries_ensure: "more_entries st (fst (ensureName st n))"
proof (cases "inprogress st n")
  case None
  then show ?thesis
    by (auto simp: more_entries_def ensureName_def sent_flags_def new_entry_def intro!: exI [of _ 1])
qed (simp add: ensureName_def more_entries_refl)

lemma more_entries_alias: "more_entries st (alias_entry st a b)"
  using more_entries_ensure [of st a]
  by (auto simp: alias_entry_def more_entries_def sent_flags_def split: prod.splits)

lemma more_entries_upd:
  assumes "more_entries st st1" and "\<And>e. sent_entry (f e) = sent_entry e" and "i < length (entries st1)"
  shows "more_entries st (upd_entry st1 i f)"
proof -
  have "sent_flags (upd_entry st1 i f) = sent_flags st1"
    using assms(2,3) by (simp add: sent_flags_def upd_entry_def map_update list_update_same_conv)
  with assms(1) show ?thesis
    by (simp add: more_entries_def)
qed

lemma more_entries_answer:
  assumes "inp_ok s"
  shows "more_entries (fst s) (fst (handle_answer s a))"
proof -
  obtain st inp where s: "s = (st, inp)" by force
  then have q: "query_inv st"
    using assms by (simp add: inp_ok_def)
  have upd: "more_entries st (upd_entry (fst (ensureName st1 n)) (snd (ensureName st1 n)) f)"
    if "query_inv st1" "more_entries st st1" "\<And>e. sent_entry (f e) = sent_entry e" for st1 n f
    using ensureName_step [OF that(1), of n] more_entries_trans [OF that(2) more_entries_ensure] that(3)
    by (intro more_entries_upd) auto
  show ?thesis
  proof (cases a)
    case (SRV h p w port tgt)
    have "more_entries st (if tgt \<noteq> RRName h then alias_entry st (RRName h) tgt else st)"
      "query_inv (if tgt \<noteq> RRName h then alias_entry st (RRName h) tgt else st)"
      using q by (simp_all add: alias_inv(1) more_entries_alias more_entries_refl)
    from upd [OF this(2,1)] SRV s show ?thesis
      by (cases "tgt = RRName h") (simp_all add: handle_answer_def Let_def case_prod_beta)
  qed (use s upd [OF q more_entries_refl] more_entries_ensure more_entries_refl
        in \<open>simp_all add: handle_answer_def Let_def case_prod_beta\<close>)
qed

lemma more_entries_answers: "inp_ok s \<Longrightarrow> more_entries (fst s) (fst (foldl handle_answer s as))"
proof (induction "as" arbitrary: s)
  case (Cons a as)
  have "more_entries (fst s) (fst (handle_answer s a))"
    by (rule more_entries_answer [OF Cons.prems])
  moreover have "more_entries (fst (handle_answer s a)) (fst (foldl handle_answer (handle_answer s a) as))"
    by (rule Cons.IH [OF handle_answer_inv [OF Cons.prems]])
  ultimately show ?case
    using more_entries_trans by auto
qed (simp add: more_entries_refl)

lemma count_flags_update:
  "i < length bs \<Longrightarrow> \<not> bs ! i \<Longrightarrow> count_list (bs[i := True]) True = Suc (count_list bs True)"
proof (induction bs arbitrary: i)
  case (Cons b bs)
  then show ?case by (cases i) auto
qed simp

lemma handle_response_count:
  assumes "query_inv st" and "handle_response st True m = Some (st1, e)"
  shows "count_list (sent_flags st1) True = count_list (sent_flags st) True + length (delivered [e])"
    and "\<forall>x\<in>set (delivered [e]). complete x"
proof -
  obtain st0 inp where f: "foldl handle_answer (st, None) (Answer m) = (st0, inp)"
    by force
  have ok: "inp_ok (st, None)"
    using assms(1) by (simp add: inp_ok_def)
  obtain n where n: "sent_flags st0 = sent_flags st @ replicate n False"
    using more_entries_answers [OF ok, of "Answer m"] f by (auto simp: more_entries_def)
  have "count_list (replicate n False) True = 0"
    by (induction n) simp_all
  then have c: "count_list (sent_flags st0) True = count_list (sent_flags st) True"
    by (simp add: n)
  obtain i where i: "inp = Some i" "i < length (entries st0)"
    using handle_answers_inv [OF ok, of "Answer m"] f assms(2)
    by (auto simp: inp_ok_def handle_response_def split: option.splits)
  show "count_list (sent_flags st1) True = count_list (sent_flags st) True + length (delivered [e])"
  proof (cases "complete (entries st0 ! i) \<and> \<not> sent_entry (entries st0 ! i)")
    case True
    then have "e = Deliver ((entries st0 ! i)\<lparr>sent_entry := True\<rparr>)"
      "sent_flags st1 = (sent_flags st0)[i := True]"
      using assms(2) f i by (auto simp: handle_response_def Let_def sent_flags_def upd_entry_def map_update)
    moreover have "\<not> sent_flags st0 ! i" "i < length (sent_flags st0)"
      using True i by (simp_all add: sent_flags_def)
    ultimately show ?thesis
      using c count_flags_update by simp
  next
    case False
    then show ?thesis
      using assms(2) f i c by (auto simp: handle_response_def Let_def)
  qed
  show "\<forall>x\<in>set (delivered [e]). complete x"
    using assms(2) f i by (auto simp: handle_response_def Let_def complete_def split: if_splits)
qed

lemma delivered_Cons: "delivered (e # es) = delivered [e] @ delivered es"
  by (cases e) simp_all

lemma handle_responses_count:
  "query_inv st \<Longrightarrow> handle_responses st ms = Some (st1, es) \<Longrightarrow>
   count_list (sent_flags st1) True = count_list (sent_flags st) True + length (delivered es) \<and>
   (\<forall>x\<in>set (delivered es). complete x)"
proof (induction ms arbitrary: st es)
  case (Cons m ms)
  obtain st0 e es' where r: "handle_response st True m = Some (st0, e)"
    "handle_responses st0 ms = Some (st1, es')" "es = e # es'"
    using Cons.prems(2) by (auto split: option.splits)
  from handle_response_count [OF Cons.prems(1) r(1)]
    Cons.IH [OF handle_response_inv [OF Cons.prems(1) r(1)] r(2)]
  show ?case
    unfolding r(3) delivered_Cons [of e es'] by auto
qed simp

text \<open>
  C23: Whatever responses arrive during one query, only complete entries are delivered, each with an
  address, a port and a text record, and no entry twice: as many deliveries were made as there are
  entries marked as sent.
\<close>

theorem entries_delivered_once:
  assumes "handle_responses no_progress ms = Some (st, es)"
  shows "length (delivered es) = length (filter sent_entry (entries st)) \<and>
    (\<forall>e\<in>set (delivered es). (AddrV4 e \<noteq> None \<or> AddrV6 e \<noteq> None) \<and> SEPort e \<noteq> 0 \<and> hasTXT e)"
proof -
  have "count_list (map sent_entry xs) True = length (filter sent_entry xs)" for xs
    by (induction xs) simp_all
  from this [of "entries st"] show ?thesis
    using handle_responses_count [OF query_inv_init assms]
    by (auto simp: sent_flags_def no_progress_def complete_def)
qed

text \<open>Two responses about one instance: the second one completes the entry.\<close>

theorem entries_delivered_once_witness:
  "\<exists>st es. handle_responses no_progress
      [new_msg\<lparr>Answer := [SRV (rr_header_of ''i.'' TypeSRV) 10 1 2000 ''h.'', TXT (rr_header_of ''i.'' TypeTXT) [''x'']]\<rparr>,
       new_msg\<lparr>Answer := [RR_A (rr_header_of ''h.'' TypeA) (Some [10, 0, 0, 1])]\<rparr>,
       new_msg\<lparr>Answer := [RR_A (rr_header_of ''h.'' TypeA) (Some [10, 0, 0, 2])]\<rparr>] = Some (st, es) \<and>
    length (delivered es) = 1 \<and> length (filter sent_entry (entries st)) = 1"
proof -
  let ?ms = "[new_msg\<lparr>Answer := [SRV (rr_header_of ''i.'' TypeSRV) 10 1 2000 ''h.'', TXT (rr_header_of ''i.'' TypeTXT) [''x'']]\<rparr>,
       new_msg\<lparr>Answer := [RR_A (rr_header_of ''h.'' TypeA) (Some [10, 0, 0, 1])]\<rparr>,
       new_msg\<lparr>Answer := [RR_A (rr_header_of ''h.'' TypeA) (Some [10, 0, 0, 2])]\<rparr>]"
  have "\<exists>st es. handle_responses no_progress ?ms = Some (st, es) \<and> length (delivered es) = 1"
    by (simp add: handle_response_def handle_answer_def ensureName_def alias_entry_def upd_entry_def
        no_progress_def new_entry_def complete_def rr_header_of_def Let_def nth_append)
  then show ?thesis
    using entries_delivered_once [of ?ms] by force
qed

text \<open>
  A response can stop the proxy: the client dereferences nil exactly on a response none of whose
  answers is of a type it knows, such as one without answers.
\<close>

theorem response_crashes:
  "handle_response st room m = None \<longleftrightarrow> {a \<in> set (Answer m). known_rr a} = {}"
  unfolding handle_response_crash by auto

section \<open>From an advertisement to a connection\<close>

text \<open>
  C10: An advertised socket is found by other hosts. When a socket named \<open>t\<close> was registered, the host's
  responder answers the query other hosts send with one reply; from it their client delivers a complete
  entry that carries the advertised name, the host, the port and an address, and whose text leads to the
  path \<open>/network/t\<close>; and the name passes the test for entries of network sockets.
\<close>

theorem advertisement_found:
  assumes "Register env v \<lparr>dcServiceType = t, dcPort = port, dcServer = None\<rparr> ''local'' = Inr (v1, dc)"
    and "isValidServiceName t" and "hd t \<noteq> CHR ''.''"
    and "Init (re_host env) (mdns_service_for (dnssd_name t (re_rand env)) t ''local'' port) = Inr m"
    and "(word_of_int port :: u16) \<noteq> 0" and "ipv4Addr m \<noteq> None" and "HostDns m \<noteq> instanceAddr m"
    and "inprogress st (instanceAddr m) = None"
  shows "\<exists>srv resp st1 e. dcServer dc = Some srv
    \<and> handleQuery srv (query_message ident (query_name browse_param)) = Some resp
    \<and> handle_response st True resp = Some (st1, Deliver e)
    \<and> NetworkServiceMatcher (short_name (SEName e)) \<and> short_name (SEName e) = dnssd_name t (re_rand env)
    \<and> SEHost e = HostDns m \<and> SEPort e = uint (word_of_int port :: u16) \<and> AddrV4 e = ipv4Addr m
    \<and> service_path (SEInfo e) = Inr (''/network/'' @ t)
    \<and> advertisedServiceNames v1 (dnssd_name t (re_rand env)) = Some True"
  using advertisement_delivered [OF assms, of ident] NetworkServiceMatcher_dnssd [OF assms(2), of "re_rand env"]
  by metis

theorem advertisement_found_witness:
  "\<exists>v1 dc srv resp st1 e. Register
      \<lparr>re_host = \<lparr>hostname = Some ''pc'', ifaddrs = Some [''127.0.0.1/8'', ''10.0.0.5/24''], ifaddrs_again = None\<rparr>,
       re_v4 = True, re_v6 = False, re_rand = 17\<rparr>
      (NewNamedWebSocketService ''pc'' 2000) \<lparr>dcServiceType = ''chat'', dcPort = 2000, dcServer = None\<rparr> ''local'' =
      Inr (v1, dc)
    \<and> dcServer dc = Some srv
    \<and> handleQuery srv (query_message 1 (query_name browse_param)) = Some resp
    \<and> handle_response no_progress True resp = Some (st1, Deliver e)
    \<and> service_path (SEInfo e) = Inr ''/network/chat'' \<and> SEPort e = 2000"
proof -
  let ?env = "\<lparr>re_host = \<lparr>hostname = Some ''pc'', ifaddrs = Some [''127.0.0.1/8'', ''10.0.0.5/24''], ifaddrs_again = None\<rparr>,
       re_v4 = True, re_v6 = False, re_rand = 17\<rparr>"
  let ?dc = "\<lparr>dcServiceType = ''chat'', dcPort = 2000, dcServer = None\<rparr>"
  have c: "str_contains ''127.0.0.1/8'' ''::'' = False" "str_contains ''127.0.0.1/8'' ''127'' = True"
    "str_contains ''10.0.0.5/24'' ''::'' = False" "str_contains ''10.0.0.5/24'' ''127'' = False"
    "str_contains ''10.0.0.5/24'' ''/16'' = False" "str_contains ''10.0.0.5/24'' ''/24'' = True"
    "parse_ip (trim_suffix ''10.0.0.5/24'' ''/24'') \<noteq> None" "nat_dec 17 = ''17''"
    by code_simp+
  obtain m where m: "Init (re_host ?env) (mdns_service_for (dnssd_name ''chat'' (re_rand ?env)) ''chat'' ''local'' 2000) = Inr m"
    and a: "ipv4Addr m \<noteq> None" "HostDns m = ''pc.''"
    using c by (auto simp: Init_def mdns_service_for_def set_ipv4_def dnssd_name_def Let_def)
  have i: "instanceAddr m = trimDot (dnssd_name ''chat'' 17) @ ''.'' @ serviceAddr m"
    using Init_addresses(2) [OF m] by (simp add: mdns_service_for_def)
  have "instanceAddr m \<noteq> ''pc.''"
    unfolding i dnssd_name_def c by (simp add: trimDot_def trim_by_def)
  moreover obtain v1 dc where "Register ?env (NewNamedWebSocketService ''pc'' 2000) ?dc ''local'' = Inr (v1, dc)"
    using m by (simp add: Register_def NewServer_def Let_def)
  moreover have "isValidServiceName ''chat''" "hd ''chat'' \<noteq> CHR ''.''" "(word_of_int 2000 :: u16) \<noteq> 0"
    "inprogress no_progress (instanceAddr m) = None"
    by (simp_all add: isValidServiceName_iff name_char_def no_progress_def)
  ultimately show ?thesis
    using advertisement_found [OF _ _ _ m _ a(1), of "NewNamedWebSocketService ''pc'' 2000" v1 dc no_progress 1] a(2)
    by fastforce
qed

end
