(* ===== verification/Ws_Writer.thy ===== *)
theory Ws_Writer
  imports Ws_Conn
begin

text \<open>
  The writing side of \<open>gorilla/websocket/conn.go\<close>: control frames, the frame buffer of a connection and
  how it is flushed, message writers, and \<open>WriteMessage\<close>.
\<close>

unbundle bit_operations_syntax

section \<open>Writing to the network\<close>

text \<open>\<open>write\<close>: the buffers one after the other; a partial write closes the connection.\<close>

fun write_bufs :: "wsconn \<Rightarrow> bytes list \<Rightarrow> ws_error option \<times> wsconn" where
  "write_bufs c [] = (None, c)"
| "write_bufs c (b # bs) =
     (if b = [] then write_bufs c bs
      else let (n, err, nc) = net_write (netc c) b;
               c1 = c\<lparr>netc := nc\<rparr>;
               c2 = (if n \<noteq> length b then Close c1 else c1)
           in case err of Some e \<Rightarrow> (Some e, c2) | None \<Rightarrow> write_bufs c2 bs)"

definition ws_write :: "wsconn \<Rightarrow> int \<Rightarrow> bytes list \<Rightarrow> ws_error option \<times> wsconn" where
  "ws_write c t bufs =
     (if closeSent c then (Some ErrCloseSent, c)
      else write_bufs (if t = CloseMessage then c\<lparr>closeSent := True\<rparr> else c) bufs)"

section \<open>Control frames\<close>

text \<open>
  \<open>late\<close> says that the deadline has passed, before the call or while it waits for another writer.
\<close>

definition control_frame :: "wsconn \<Rightarrow> int \<Rightarrow> bytes \<Rightarrow> bytes \<times> wsconn" where
  "control_frame c t data =
     (let b0 = word_of_int t OR finalBit;
          b1 = word_of_nat (length data) OR (if isServer c then 0 else maskBit)
      in if isServer c then (b0 # b1 # data, c)
         else let (key, c') = newMaskKey c in
              ([b0, b1] @ key @ fst (maskBytes key 0 data), c'))"

definition WriteControl :: "wsconn \<Rightarrow> int \<Rightarrow> bytes \<Rightarrow> bool \<Rightarrow> ws_error option \<times> wsconn" where
  "WriteControl c t data late =
     (if \<not> isControl t then (Some ErrBadWriteOpCode, c)
      else if length data > maxControlFramePayloadSize then (Some ErrInvalidControlFrame, c)
      else let (buf, c1) = control_frame c t data in
        if late then (Some ErrWriteTimeout, c1)
        else if closeSent c1 then (Some ErrCloseSent, c1)
        else let c2 = (if t = CloseMessage then c1\<lparr>closeSent := True\<rparr> else c1);
                 (n, err, nc) = net_write (netc c2) buf;
                 c3 = c2\<lparr>netc := nc\<rparr>
             in (err, if n \<noteq> 0 \<and> n \<noteq> length buf then Close c3 else c3))"

definition FormatCloseMessage :: "nat \<Rightarrow> string \<Rightarrow> bytes" where
  "FormatCloseMessage code msg = be_bytes 2 code @ bytes_of msg"

section \<open>The frame buffer\<close>

text \<open>\<open>copy(buf[pos:], xs)\<close> for data that fits.\<close>

definition put_bytes :: "bytes \<Rightarrow> nat \<Rightarrow> bytes \<Rightarrow> bytes" where
  "put_bytes buf pos xs = take pos buf @ xs @ drop (pos + length xs) buf"

text \<open>The position of the header, which ends where the payload (or the mask key) begins.\<close>

definition frame_header :: "bool \<Rightarrow> byte \<Rightarrow> nat \<Rightarrow> nat \<times> bytes" where
  "frame_header server b0 len =
     (let b1 = (if server then 0 else maskBit);
          framePos = (if server then 4 else 0)
      in if len \<ge> 65536 then (framePos, b0 # (b1 OR 127) # be_bytes 8 len)
         else if len > 125 then (framePos + 6, b0 # (b1 OR 126) # be_bytes 2 len)
         else (framePos + 8, [b0, b1 OR word_of_nat len]))"

definition flushFrame :: "wsconn \<Rightarrow> bool \<Rightarrow> bytes \<Rightarrow> ws_error option \<times> wsconn" where
  "flushFrame c final extra =
     (let len = writePos c - maxFrameHeaderSize + length extra in
      if isControl (writeFrameType c) \<and> (\<not> final \<or> len > maxControlFramePayloadSize)
      then (Some ErrInvalidControlFrame,
            c\<lparr>writeSeq := Suc (writeSeq c), writeFrameType := noFrame,
              writePos := maxFrameHeaderSize\<rparr>)
      else
        let b0 = word_of_int (writeFrameType c) OR (if final then finalBit else 0);
            (framePos, hdr) = frame_header (isServer c) b0 len;
            c1 = c\<lparr>writeBuf := put_bytes (writeBuf c) framePos hdr\<rparr>;
            c2 = (if isServer c1 then c1
                  else let (key, c') = newMaskKey c1;
                           buf = put_bytes (writeBuf c') (maxFrameHeaderSize - 4) key;
                           payload = drop maxFrameHeaderSize (take (writePos c') buf)
                       in c'\<lparr>writeBuf := put_bytes buf maxFrameHeaderSize
                                            (fst (maskBytes key 0 payload))\<rparr>)
        in if \<not> isServer c2 \<and> extra \<noteq> []
           then (Some ErrExtraInClient, c2\<lparr>writeErr := Some ErrExtraInClient\<rparr>)
           else let (err, c3) = ws_write c2 (writeFrameType c2)
                                  [drop framePos (take (writePos c2) (writeBuf c2)), extra];
                    c4 = c3\<lparr>writeErr := err, writePos := maxFrameHeaderSize,
                            writeFrameType := continuationFrame\<rparr>
                in (err, if final then c4\<lparr>writeSeq := Suc (writeSeq c4), writeFrameType := noFrame\<rparr>
                         else c4))"

section \<open>Message writers\<close>

text \<open>
  A \<open>messageWriter\<close> is the connection and the number of the message it writes; it is represented by
  that number. Every operation first checks that the writer is still the current one.
\<close>

definition NextWriter :: "wsconn \<Rightarrow> int \<Rightarrow> (ws_error + nat) \<times> wsconn" where
  "NextWriter c t =
     (case writeErr c of
        Some e \<Rightarrow> (Inl e, c)
      | None \<Rightarrow>
          let (err, c1) = (if writeFrameType c \<noteq> noFrame then flushFrame c True [] else (None, c))
          in case err of
               Some e \<Rightarrow> (Inl e, c1)
             | None \<Rightarrow>
                 if \<not> isControl t \<and> \<not> isData t then (Inl ErrBadWriteOpCode, c1)
                 else (Inr (writeSeq c1), c1\<lparr>writeFrameType := t\<rparr>))"

definition writer_err :: "wsconn \<Rightarrow> nat \<Rightarrow> ws_error option" where
  "writer_err c seq = (if writeSeq c \<noteq> seq then Some ErrWriteClosed else writeErr c)"

definition ncopy :: "wsconn \<Rightarrow> nat \<Rightarrow> (ws_error + nat) \<times> wsconn" where
  "ncopy c mx =
     (let (err, c1) = (if length (writeBuf c) \<le> writePos c then flushFrame c False [] else (None, c))
      in case err of
           Some e \<Rightarrow> (Inl e, c1)
         | None \<Rightarrow> (Inr (min mx (length (writeBuf c1) - writePos c1)), c1))"

text \<open>
  The copying loop of \<open>write\<close> and \<open>WriteString\<close>. It does not end if the buffer has no room for
  data, that is if the connection was made with a buffer of size zero: then its value is None.
\<close>

partial_function (option) copy_loop :: "wsconn \<Rightarrow> bytes \<Rightarrow> (ws_error option \<times> wsconn) option" where
  "copy_loop c p =
     (if p = [] then Some (None, c)
      else case ncopy c (length p) of
        (Inl e, c1) \<Rightarrow> Some (Some e, c1)
      | (Inr n, c1) \<Rightarrow>
          copy_loop (c1\<lparr>writeBuf := put_bytes (writeBuf c1) (writePos c1) (take n p),
                        writePos := writePos c1 + n\<rparr>) (drop n p))"

declare copy_loop.simps [code]

text \<open>
  The result of a write: None if it does not return, otherwise its error or the number of bytes taken.
\<close>

definition write_result :: "nat \<Rightarrow> ws_error option \<times> wsconn \<Rightarrow> (ws_error + nat) \<times> wsconn" where
  "write_result n r = (case r of (Some e, c) \<Rightarrow> (Inl e, c) | (None, c) \<Rightarrow> (Inr n, c))"

definition writer_write ::
  "wsconn \<Rightarrow> nat \<Rightarrow> bool \<Rightarrow> bytes \<Rightarrow> ((ws_error + nat) \<times> wsconn) option" where
  "writer_write c seq final p =
     (case writer_err c seq of
        Some e \<Rightarrow> Some (Inl e, c)
      | None \<Rightarrow>
          if length p > 2 * length (writeBuf c) \<and> isServer c
          then Some (write_result (length p) (flushFrame c final p))
          else map_option (write_result (length p)) (copy_loop c p))"

definition writer_Write :: "wsconn \<Rightarrow> nat \<Rightarrow> bytes \<Rightarrow> ((ws_error + nat) \<times> wsconn) option" where
  "writer_Write c seq p = writer_write c seq False p"

definition writer_WriteString :: "wsconn \<Rightarrow> nat \<Rightarrow> string \<Rightarrow> ((ws_error + nat) \<times> wsconn) option" where
  "writer_WriteString c seq p =
     (case writer_err c seq of
        Some e \<Rightarrow> Some (Inl e, c)
      | None \<Rightarrow> map_option (write_result (length p)) (copy_loop c (bytes_of p)))"

text \<open>
  \<open>ReadFrom\<close> reads from an \<open>io.Reader\<close>, which is an argument: from its state and the size of the
  buffer, the bytes it gives, its error and its next state.
\<close>

partial_function (option) read_from_loop ::
  "('s \<Rightarrow> nat \<Rightarrow> bytes \<times> ws_error option \<times> 's) \<Rightarrow> wsconn \<Rightarrow> 's \<Rightarrow> nat \<Rightarrow>
     (nat \<times> ws_error option \<times> wsconn \<times> 's) option" where
  "read_from_loop rd c s nn =
     (let (err, c1) = (if writePos c = length (writeBuf c) then flushFrame c False [] else (None, c))
      in case err of
           Some e \<Rightarrow> Some (nn, Some e, c1, s)
         | None \<Rightarrow>
             (let (xs, rerr, s1) = rd s (length (writeBuf c1) - writePos c1);
                  c2 = c1\<lparr>writeBuf := put_bytes (writeBuf c1) (writePos c1) xs,
                          writePos := writePos c1 + length xs\<rparr>
              in case rerr of
                   Some e \<Rightarrow> Some (nn + length xs, if e = EOF then None else Some e, c2, s1)
                 | None \<Rightarrow> read_from_loop rd c2 s1 (nn + length xs)))"

definition writer_ReadFrom ::
  "('s \<Rightarrow> nat \<Rightarrow> bytes \<times> ws_error option \<times> 's) \<Rightarrow> wsconn \<Rightarrow> nat \<Rightarrow> 's \<Rightarrow>
     (nat \<times> ws_error option \<times> wsconn \<times> 's) option" where
  "writer_ReadFrom rd c seq s =
     (case writer_err c seq of
        Some e \<Rightarrow> Some (0, Some e, c, s)
      | None \<Rightarrow> read_from_loop rd c s 0)"

definition writer_Close :: "wsconn \<Rightarrow> nat \<Rightarrow> ws_error option \<times> wsconn" where
  "writer_Close c seq =
     (case writer_err c seq of Some e \<Rightarrow> (Some e, c) | None \<Rightarrow> flushFrame c True [])"

definition WriteMessage :: "wsconn \<Rightarrow> int \<Rightarrow> bytes \<Rightarrow> (ws_error option \<times> wsconn) option" where
  "WriteMessage c t data =
     (case NextWriter c t of
        (Inl e, c1) \<Rightarrow> Some (Some e, c1)
      | (Inr seq, c1) \<Rightarrow>
          (case writer_write c1 seq True data of
             None \<Rightarrow> None
           | Some (Inl e, c2) \<Rightarrow> Some (Some e, c2)
           | Some (Inr _, c2) \<Rightarrow>
               Some (if writeSeq c2 = seq then flushFrame c2 True [] else (None, c2))))"

end
