(* ===== verification/Ws_Frames.thy ===== *)
theory Ws_Frames
  imports Ws_Writer
begin

text \<open>
  What goes over the wire: frames, and messages as sequences of frames. A flush of the connection's
  buffer sends one frame, and \<open>WriteMessage\<close> sends exactly the frames of its message.
\<close>

unbundle bit_operations_syntax

section \<open>Frames on the wire\<close>

text \<open>
  What a frame is, from RFC 6455: the header, the mask key if there is one, and the payload. A message
  is a sequence of frames: the first has the message's type, the others are continuations, and the
  last may be marked final.
\<close>

definition mask_key :: "32 word \<Rightarrow> bytes" where
  "mask_key n = [ucast n, ucast (drop_bit 8 n), ucast (drop_bit 16 n), ucast (drop_bit 24 n)]"

definition frame_bytes :: "bytes option \<Rightarrow> bool \<Rightarrow> int \<Rightarrow> bytes \<Rightarrow> bytes" where
  "frame_bytes key final t data =
     (let len = length data; m = (if key = None then 0 else maskBit) in
      (word_of_int t OR (if final then finalBit else 0)) #
      (if len \<ge> 65536 then (m OR 127) # be_bytes 8 len
       else if len > 125 then (m OR 126) # be_bytes 2 len
       else [m OR word_of_nat len]) @
      (case key of None \<Rightarrow> data | Some k \<Rightarrow> k @ fst (maskBytes k 0 data)))"

fun message_bytes :: "bool \<Rightarrow> (nat \<Rightarrow> 32 word) \<Rightarrow> bool \<Rightarrow> int \<Rightarrow> bytes list \<Rightarrow> bytes" where
  "message_bytes server rs fin t [] = []"
| "message_bytes server rs fin t (p # ps) =
     frame_bytes (if server then None else Some (mask_key (rs 0))) (fin \<and> ps = []) t p @
     message_bytes server (\<lambda>i. rs (Suc i)) fin continuationFrame ps"

text \<open>The payloads: pieces of \<open>k\<close> bytes, and a last one that may be shorter.\<close>

function fragments :: "nat \<Rightarrow> 'a list \<Rightarrow> 'a list list" where
  "fragments k xs =
     (if k = 0 \<or> length xs \<le> k then [xs] else take k xs # fragments k (drop k xs))"
  by auto

termination
  by (relation "measure (\<lambda>(k, xs). length xs)") auto

declare fragments.simps [simp del]

lemma fragments_short: "length xs \<le> k \<Longrightarrow> fragments k xs = [xs]"
  by (simp add: fragments.simps)

lemma fragments_full: "length q = k \<Longrightarrow> 0 < k \<Longrightarrow> p \<noteq> [] \<Longrightarrow> fragments k (q @ p) = q # fragments k p"
  by (subst fragments.simps) simp

lemma fragments_not_Nil [simp]: "fragments k xs \<noteq> []"
  by (subst fragments.simps) simp

lemma concat_fragments [simp]: "concat (fragments k xs) = xs"
  by (induction k xs rule: fragments.induct) (subst fragments.simps, simp)

lemma length_fragments: "0 < k \<Longrightarrow> q \<in> set (fragments k xs) \<Longrightarrow> length q \<le> k"
proof (induction k xs rule: fragments.induct)
  case (1 k xs)
  then show ?case
    by (cases "length xs \<le> k") (auto simp: fragments.simps [of k xs])
qed

lemma message_bytes_append:
  "message_bytes server rs False t (xs @ ys) =
     message_bytes server rs False t xs @
     message_bytes server (\<lambda>i. rs (i + length xs)) False (if xs = [] then t else continuationFrame) ys"
  by (induction xs arbitrary: rs t) simp_all

lemma message_bytes_snoc:
  "message_bytes server rs True t (xs @ [x]) =
     message_bytes server rs False t xs @
     frame_bytes (if server then None else Some (mask_key (rs (length xs)))) True
       (if xs = [] then t else continuationFrame) x"
  by (induction xs arbitrary: rs t) simp_all

section \<open>A flush sends one frame\<close>

definition pending :: "wsconn \<Rightarrow> bytes" where
  "pending c = drop maxFrameHeaderSize (take (writePos c) (writeBuf c))"

text \<open>A connection that can send: nothing failed yet, and the buffer's positions are in range.\<close>

definition writable :: "wsconn \<Rightarrow> bool" where
  "writable c = (\<not> closeSent c \<and> writeErr c = None \<and> write_plan (netc c) = [] \<and>
     maxFrameHeaderSize < length (writeBuf c) \<and>
     maxFrameHeaderSize \<le> writePos c \<and> writePos c \<le> length (writeBuf c))"

definition next_rands :: "wsconn \<Rightarrow> nat \<Rightarrow> nat \<Rightarrow> 32 word" where
  "next_rands c n = (if isServer c then rands c else (\<lambda>i. rands c (i + n)))"

lemma length_put_bytes:
  "pos + length xs \<le> length buf \<Longrightarrow> length (put_bytes buf pos xs) = length buf"
  by (simp add: put_bytes_def)

lemma put_bytes_window:
  "pos + length xs = q \<Longrightarrow> q \<le> e \<Longrightarrow> e \<le> length buf \<Longrightarrow>
   drop pos (take e (put_bytes buf pos xs)) = xs @ drop q (take e buf)"
  by (auto simp: put_bytes_def drop_take)

lemma put_bytes_before:
  "pos + length xs \<le> q \<Longrightarrow> q \<le> e \<Longrightarrow> e \<le> length buf \<Longrightarrow>
   drop q (take e (put_bytes buf pos xs)) = drop q (take e buf)"
  by (auto simp: put_bytes_def drop_take min_def)

lemma put_bytes_take:
  "pos + length xs = e \<Longrightarrow> e \<le> length buf \<Longrightarrow> take e (put_bytes buf pos xs) = take pos buf @ xs"
  by (auto simp: put_bytes_def)

lemma length_pending: "writePos c \<le> length (writeBuf c) \<Longrightarrow> length (pending c) = writePos c - maxFrameHeaderSize"
  by (simp add: pending_def)

lemma newMaskKey_fst: "fst (newMaskKey c) = mask_key (rands c 0)"
  by (simp add: newMaskKey_def mask_key_def Let_def)

lemma length_mask_key [simp]: "length (mask_key n) = 4"
  by (simp add: mask_key_def)

lemma frame_header_position:
  "fst (frame_header server b n) + length (snd (frame_header server b n)) =
     (if server then maxFrameHeaderSize else maxFrameHeaderSize - 4)"
  by (simp add: frame_header_def maxFrameHeaderSize_def)

lemma frame_bytes_header:
  "frame_bytes key final t data =
     snd (frame_header (key = None) (word_of_int t OR (if final then finalBit else 0)) (length data)) @
     (case key of None \<Rightarrow> data | Some k \<Rightarrow> k @ fst (maskBytes k 0 data))"
  by (simp add: frame_bytes_def frame_header_def Let_def)

text \<open>The bytes a flush hands to the network: header, mask key and payload, one after the other.\<close>

definition flush_buffer :: "wsconn \<Rightarrow> bool \<Rightarrow> bytes \<Rightarrow> nat \<times> bytes" where
  "flush_buffer c final extra =
     (let (framePos, hdr) = frame_header (isServer c)
            (word_of_int (writeFrameType c) OR (if final then finalBit else 0))
            (writePos c - maxFrameHeaderSize + length extra);
          buf = put_bytes (writeBuf c) framePos hdr
      in (framePos,
          if isServer c then buf
          else let key = mask_key (rands c 0); buf2 = put_bytes buf (maxFrameHeaderSize - 4) key
               in put_bytes buf2 maxFrameHeaderSize
                    (fst (maskBytes key 0 (drop maxFrameHeaderSize (take (writePos c) buf2))))))"

definition frame_key :: "wsconn \<Rightarrow> bytes option" where
  "frame_key c = (if isServer c then None else Some (mask_key (rands c 0)))"

lemma flush_buffer_frame:
  assumes "maxFrameHeaderSize \<le> writePos c" "writePos c \<le> length (writeBuf c)"
    and "isServer c \<or> extra = []"
  shows "drop (fst (flush_buffer c final extra)) (take (writePos c) (snd (flush_buffer c final extra))) @ extra =
           frame_bytes (frame_key c) final (writeFrameType c) (pending c @ extra)"
    and "length (snd (flush_buffer c final extra)) = length (writeBuf c)"
proof -
  define b0 where "b0 = word_of_int (writeFrameType c) OR (if final then finalBit else 0)"
  define n where "n = writePos c - maxFrameHeaderSize + length extra"
  obtain pos hdr where fh: "frame_header (isServer c) b0 n = (pos, hdr)"
    by fastforce
  have len: "pos + length hdr = (if isServer c then maxFrameHeaderSize else maxFrameHeaderSize - 4)"
    using frame_header_position [of "isServer c" b0 n] fh by simp
  have n: "n = length (pending c @ extra)"
    using assms by (simp add: n_def length_pending)
  note fh' = fh [unfolded b0_def n_def] and fhn = fh [unfolded b0_def n]
  define buf where "buf = put_bytes (writeBuf c) pos hdr"
  have size: "length buf = length (writeBuf c)"
    unfolding buf_def by (rule length_put_bytes) (use len assms in auto)
  have payload: "drop maxFrameHeaderSize (take (writePos c) buf) = pending c"
    unfolding buf_def pending_def by (rule put_bytes_before) (use len assms in auto)
  show "drop (fst (flush_buffer c final extra)) (take (writePos c) (snd (flush_buffer c final extra))) @ extra =
           frame_bytes (frame_key c) final (writeFrameType c) (pending c @ extra)"
  proof (cases "isServer c")
    case True
    have "drop pos (take (writePos c) buf) = hdr @ pending c"
      unfolding buf_def pending_def by (rule put_bytes_window) (use len True assms in auto)
    with True fh' fhn show ?thesis
      by (simp add: flush_buffer_def frame_bytes_header frame_key_def Let_def buf_def)
  next
    case False
    define key where "key = mask_key (rands c 0)"
    define buf2 where "buf2 = put_bytes buf (maxFrameHeaderSize - 4) key"
    define xs where "xs = fst (maskBytes key 0 (pending c))"
    have four: "maxFrameHeaderSize - 4 + length key = maxFrameHeaderSize"
      by (simp add: key_def maxFrameHeaderSize_def)
    have size2: "length buf2 = length (writeBuf c)"
      unfolding buf2_def size [symmetric] by (rule length_put_bytes) (use four size assms in auto)
    have payload2: "drop maxFrameHeaderSize (take (writePos c) buf2) = pending c"
      unfolding buf2_def payload [symmetric] by (rule put_bytes_before) (use four size assms in auto)
    have xs: "maxFrameHeaderSize + length xs = writePos c"
      using assms by (simp add: xs_def length_pending)
    have "take maxFrameHeaderSize buf2 = take pos (writeBuf c) @ hdr @ key"
      using len False assms(1,2) four size
      by (simp add: buf2_def buf_def put_bytes_take length_put_bytes)
    then have "drop pos (take (writePos c) (put_bytes buf2 maxFrameHeaderSize xs)) = hdr @ key @ xs"
      using len False assms(1,2) size2 xs by (simp add: put_bytes_take)
    with False fh' fhn assms(3) payload2 show ?thesis
      by (simp add: flush_buffer_def frame_bytes_header frame_key_def Let_def xs_def
          flip: buf_def key_def buf2_def)
  qed
  show "length (snd (flush_buffer c final extra)) = length (writeBuf c)"
  proof (cases "isServer c")
    case False
    define key where "key = mask_key (rands c 0)"
    define buf2 where "buf2 = put_bytes buf (maxFrameHeaderSize - 4) key"
    have "length buf2 = length (writeBuf c)"
      unfolding buf2_def size [symmetric]
      by (rule length_put_bytes) (use size assms in \<open>auto simp: key_def maxFrameHeaderSize_def\<close>)
    with False fh' assms(1,2) show ?thesis
      by (simp add: flush_buffer_def Let_def length_put_bytes flip: buf_def key_def buf2_def)
  qed (use fh' size in \<open>simp add: flush_buffer_def buf_def\<close>)
qed

text \<open>The connection after a flush whose write succeeded.\<close>

definition flushed :: "wsconn \<Rightarrow> bool \<Rightarrow> bytes \<Rightarrow> wsconn" where
  "flushed c final extra =
     c\<lparr>netc := (netc c)\<lparr>sent := sent (netc c) @
           frame_bytes (frame_key c) final (writeFrameType c) (pending c @ extra)\<rparr>,
       closeSent := (writeFrameType c = CloseMessage), writeErr := None,
       writeBuf := snd (flush_buffer c final extra), writePos := maxFrameHeaderSize,
       writeFrameType := (if final then noFrame else continuationFrame),
       writeSeq := (if final then Suc (writeSeq c) else writeSeq c), rands := next_rands c 1\<rparr>"

lemma write_bufs_ok:
  "write_plan (netc c) = [] \<Longrightarrow>
   write_bufs c bs = (None, c\<lparr>netc := (netc c)\<lparr>sent := sent (netc c) @ concat bs\<rparr>\<rparr>)"
  by (induction bs arbitrary: c) (simp_all add: net_write_def Let_def)

lemma ws_write_ok:
  "\<not> closeSent c \<Longrightarrow> write_plan (netc c) = [] \<Longrightarrow>
   ws_write c t bs = (None, c\<lparr>netc := (netc c)\<lparr>sent := sent (netc c) @ concat bs\<rparr>,
                              closeSent := (t = CloseMessage)\<rparr>)"
  by (auto simp: ws_write_def write_bufs_ok intro!: wsconn.equality)

lemma flushFrame_eq:
  assumes fb: "flush_buffer c final extra = (pos, buf)"
    and ok: "\<not> (isControl (writeFrameType c) \<and>
      (\<not> final \<or> writePos c - maxFrameHeaderSize + length extra > maxControlFramePayloadSize))"
    and ex: "isServer c \<or> extra = []"
  shows "flushFrame c final extra =
      (let (err, c3) = ws_write (c\<lparr>writeBuf := buf, rands := next_rands c 1\<rparr>) (writeFrameType c)
                         [drop pos (take (writePos c) buf), extra];
           c4 = c3\<lparr>writeErr := err, writePos := maxFrameHeaderSize,
                   writeFrameType := continuationFrame\<rparr>
       in (err, if final then c4\<lparr>writeSeq := Suc (writeSeq c4), writeFrameType := noFrame\<rparr> else c4))"
proof -
  define b0 where "b0 = word_of_int (writeFrameType c) OR (if final then finalBit else 0)"
  obtain p hdr where fh: "frame_header (isServer c) b0
      (writePos c - maxFrameHeaderSize + length extra) = (p, hdr)"
    by fastforce
  note fh' = fh [unfolded b0_def]
  note fb' = fb [unfolded flush_buffer_def fh' Let_def prod.case Pair_inject]
  show ?thesis
  proof (cases "isServer c")
    case True
    then have "put_bytes (writeBuf c) pos hdr = buf" "p = pos"
      using fb' by auto
    with True show ?thesis
      unfolding flushFrame_def Let_def if_not_P [OF ok] fh' prod.case
      by (simp add: next_rands_def)
  next
    case False
    define buf2 where "buf2 = put_bytes (put_bytes (writeBuf c) pos hdr) (maxFrameHeaderSize - 4) (mask_key (rands c 0))"
    have "p = pos" and buf: "put_bytes buf2 maxFrameHeaderSize
        (fst (maskBytes (mask_key (rands c 0)) 0 (drop maxFrameHeaderSize (take (writePos c) buf2)))) = buf"
      using fb' False by (auto simp: buf2_def)
    have swap: "c\<lparr>rands := r, writeBuf := b\<rparr> = c\<lparr>writeBuf := b, rands := r\<rparr>" for r b
      by (rule wsconn.equality) simp_all
    from buf \<open>p = pos\<close> False ex show ?thesis
      unfolding flushFrame_def Let_def if_not_P [OF ok] fh' prod.case
      by (simp add: next_rands_def newMaskKey_fst case_prod_beta swap flip: buf2_def)
  qed
qed

lemma flushFrame_ok:
  assumes w: "writable c" and ctl: "isControl (writeFrameType c) \<Longrightarrow> final \<and> length (pending c @ extra) \<le> 125"
    and ex: "isServer c \<or> extra = []"
  shows "flushFrame c final extra = (None, flushed c final extra)"
proof -
  have len: "writePos c - maxFrameHeaderSize + length extra = length (pending c @ extra)"
    using w by (simp add: writable_def length_pending)
  obtain pos buf where fb: "flush_buffer c final extra = (pos, buf)"
    by fastforce
  have "drop pos (take (writePos c) buf) @ extra =
      frame_bytes (frame_key c) final (writeFrameType c) (pending c @ extra)"
    using flush_buffer_frame(1) [of c extra final] w ex by (simp add: writable_def fb)
  moreover have "\<not> (isControl (writeFrameType c) \<and> (\<not> final \<or>
      writePos c - maxFrameHeaderSize + length extra > maxControlFramePayloadSize))"
    unfolding len using ctl by (auto simp: maxControlFramePayloadSize_def)
  ultimately show ?thesis
    using w ex
    by (auto simp: flushFrame_eq [OF fb] ws_write_ok writable_def flushed_def fb Let_def
        intro!: wsconn.equality)
qed

section \<open>The copying loop\<close>

lemma message_bytes_server: "message_bytes True rs fin t ps = message_bytes True rs' fin t ps"
proof (induction ps arbitrary: t rs rs')
  case (Cons p ps)
  show ?case
    using Cons [of "\<lambda>i. rs (Suc i)" continuationFrame "\<lambda>i. rs' (Suc i)"] by simp
qed simp

lemma message_bytes_next_rands:
  "message_bytes (isServer c) (\<lambda>i. rands c (i + n)) fin t ps =
   message_bytes (isServer c) (next_rands c n) fin t ps"
  using message_bytes_server by (cases "isServer c") (auto simp: next_rands_def)

text \<open>
  \<open>sent_pieces c ps c'\<close>: from \<open>c\<close> to \<open>c'\<close> the message's writer sent the pieces \<open>ps\<close> as frames that are
  not final; nothing else changed but the buffer.
\<close>

definition sent_pieces :: "wsconn \<Rightarrow> bytes list \<Rightarrow> wsconn \<Rightarrow> bool" where
  "sent_pieces c ps c' =
     (c' = c\<lparr>netc := (netc c)\<lparr>sent := sent (netc c) @
                message_bytes (isServer c) (rands c) False (writeFrameType c) ps\<rparr>,
             writeBuf := writeBuf c', writePos := writePos c',
             writeFrameType := (if ps = [] then writeFrameType c else continuationFrame),
             rands := next_rands c (length ps)\<rparr> \<and>
      length (writeBuf c') = length (writeBuf c) \<and> writable c')"

lemma sent_pieces_fields:
  assumes "sent_pieces c ps c'"
  shows "netc c' = (netc c)\<lparr>sent := sent (netc c) @
             message_bytes (isServer c) (rands c) False (writeFrameType c) ps\<rparr>"
    and "writeFrameType c' = (if ps = [] then writeFrameType c else continuationFrame)"
    and "rands c' = next_rands c (length ps)" and "isServer c' = isServer c"
    and "writeSeq c' = writeSeq c" and "length (writeBuf c') = length (writeBuf c)" and "writable c'"
proof -
  from assms have c': "c' = c\<lparr>netc := (netc c)\<lparr>sent := sent (netc c) @
                message_bytes (isServer c) (rands c) False (writeFrameType c) ps\<rparr>,
             writeBuf := writeBuf c', writePos := writePos c',
             writeFrameType := (if ps = [] then writeFrameType c else continuationFrame),
             rands := next_rands c (length ps)\<rparr>"
    and rest: "length (writeBuf c') = length (writeBuf c)" "writable c'"
    by (simp_all add: sent_pieces_def)
  show "netc c' = (netc c)\<lparr>sent := sent (netc c) @
             message_bytes (isServer c) (rands c) False (writeFrameType c) ps\<rparr>"
    "writeFrameType c' = (if ps = [] then writeFrameType c else continuationFrame)"
    "rands c' = next_rands c (length ps)" "isServer c' = isServer c" "writeSeq c' = writeSeq c"
    by (subst c', simp)+
qed (use assms in \<open>simp_all add: sent_pieces_def\<close>)

lemma sent_pieces_trans:
  assumes 1: "sent_pieces c ps c1" and 2: "sent_pieces c1 qs c2"
  shows "sent_pieces c (ps @ qs) c2"
proof -
  note f1 = sent_pieces_fields [OF 1]
  have rands: "next_rands c1 n = next_rands c (length ps + n)" for n
    using f1 by (auto simp: next_rands_def add.assoc add.commute add.left_commute)
  have "c2 = c1\<lparr>netc := (netc c1)\<lparr>sent := sent (netc c1) @
                message_bytes (isServer c1) (rands c1) False (writeFrameType c1) qs\<rparr>,
             writeBuf := writeBuf c2, writePos := writePos c2,
             writeFrameType := (if qs = [] then writeFrameType c1 else continuationFrame),
             rands := next_rands c1 (length qs)\<rparr>"
    using 2 by (simp add: sent_pieces_def)
  also have "\<dots> = c1\<lparr>netc := (netc c)\<lparr>sent := sent (netc c) @
                message_bytes (isServer c) (rands c) False (writeFrameType c) (ps @ qs)\<rparr>,
             writeBuf := writeBuf c2, writePos := writePos c2,
             writeFrameType := (if ps @ qs = [] then writeFrameType c else continuationFrame),
             rands := next_rands c (length (ps @ qs))\<rparr>"
    using f1 by (simp add: rands message_bytes_append message_bytes_next_rands)
  also have "\<dots> = c\<lparr>netc := (netc c)\<lparr>sent := sent (netc c) @
                message_bytes (isServer c) (rands c) False (writeFrameType c) (ps @ qs)\<rparr>,
             writeBuf := writeBuf c2, writePos := writePos c2,
             writeFrameType := (if ps @ qs = [] then writeFrameType c else continuationFrame),
             rands := next_rands c (length (ps @ qs))\<rparr>"
    using 1 by (subst sent_pieces_def [THEN iffD1, THEN conjunct1, OF 1]) simp
  finally show ?thesis
    using f1 sent_pieces_fields [OF 2] by (simp add: sent_pieces_def)
qed

abbreviation room :: "wsconn \<Rightarrow> nat" where
  "room c \<equiv> length (writeBuf c) - maxFrameHeaderSize"

lemma flush_piece:
  assumes w: "writable c" and d: "\<not> isControl (writeFrameType c)"
  shows "flushFrame c False [] = (None, flushed c False [])"
    and "sent_pieces c [pending c] (flushed c False [])" and "pending (flushed c False []) = []"
proof -
  have t: "writeFrameType c \<noteq> CloseMessage"
    using d by (auto simp: isControl_def)
  have len: "length (snd (flush_buffer c False [])) = length (writeBuf c)"
    using flush_buffer_frame(2) w by (simp add: writable_def)
  show "flushFrame c False [] = (None, flushed c False [])"
    by (rule flushFrame_ok) (use w d in auto)
  show "pending (flushed c False []) = []"
    by (simp add: pending_def flushed_def)
  show "sent_pieces c [pending c] (flushed c False [])"
    using w t len
    by (auto simp: sent_pieces_def writable_def flushed_def frame_key_def next_rands_def
        intro!: wsconn.equality)
qed

lemma copy_piece:
  assumes "writable c" "writePos c + length xs \<le> length (writeBuf c)"
    and c1: "c1 = c\<lparr>writeBuf := put_bytes (writeBuf c) (writePos c) xs,
                     writePos := writePos c + length xs\<rparr>"
  shows "sent_pieces c [] c1" and "pending c1 = pending c @ xs"
proof -
  have "length (put_bytes (writeBuf c) (writePos c) xs) = length (writeBuf c)"
    by (rule length_put_bytes) (use assms in auto)
  then show "sent_pieces c [] c1"
    using assms by (auto simp: sent_pieces_def writable_def next_rands_def intro!: wsconn.equality)
  show "pending c1 = pending c @ xs"
    using assms by (simp add: pending_def put_bytes_take writable_def)
qed

lemma writable_room: "writable c \<Longrightarrow> 0 < room c \<and> length (pending c) \<le> room c \<and>
    length (pending c) = writePos c - maxFrameHeaderSize"
  by (auto simp: writable_def length_pending)

theorem copy_loop_pieces:
  assumes "writable c" and "isControl (writeFrameType c) \<Longrightarrow> length (pending c @ p) \<le> room c"
  shows "\<exists>c'. copy_loop c p = Some (None, c') \<and>
           sent_pieces c (butlast (fragments (room c) (pending c @ p))) c' \<and>
           pending c' = last (fragments (room c) (pending c @ p))"
  using assms
proof (induction "length p" arbitrary: c p rule: less_induct)
  case less
  note room = writable_room [OF \<open>writable c\<close>]
  show ?case
  proof (cases "p = []")
    case True
    have "sent_pieces c [] c"
      using less.prems by (auto simp: sent_pieces_def next_rands_def intro!: wsconn.equality)
    with True room show ?thesis
      by (auto simp: copy_loop.simps fragments_short)
  next
    case False
    define c1 where "c1 = (if length (pending c) = room c then flushed c False [] else c)"
    define qs where "qs = (if length (pending c) = room c then [pending c] else [])"
    define q where "q = (if length (pending c) = room c then [] else pending c)"
    have full: "length (writeBuf c) \<le> writePos c \<longleftrightarrow> length (pending c) = room c"
      using less.prems(1) room by (auto simp: writable_def)
    have d: "\<not> isControl (writeFrameType c)" if "length (pending c) = room c"
      using less.prems(2) that False by auto
    have step: "sent_pieces c qs c1" "pending c1 = q"
      using flush_piece(2,3) [OF less.prems(1) d] less.prems(1)
      by (auto simp: c1_def qs_def q_def sent_pieces_def next_rands_def intro!: wsconn.equality)
    note f1 = sent_pieces_fields [OF step(1)]
    define n where "n = min (length p) (length (writeBuf c1) - writePos c1)"
    have ncopy: "ncopy c (length p) = (Inr n, c1)"
      using flush_piece(1) [OF less.prems(1) d] full by (auto simp: ncopy_def c1_def n_def)
    have q: "length q < room c"
      using room by (auto simp: q_def)
    have space: "length (writeBuf c1) - writePos c1 = room c - length q"
      using writable_room [OF f1(7)] f1(6,7) step(2) by (auto simp: writable_def)
    define c2 where "c2 = c1\<lparr>writeBuf := put_bytes (writeBuf c1) (writePos c1) (take n p),
                            writePos := writePos c1 + n\<rparr>"
    have n: "length (take n p) = n" "0 < n"
      using False space q by (auto simp: n_def)
    have c2: "sent_pieces c1 [] c2" "pending c2 = q @ take n p"
      using copy_piece [OF f1(7), of "take n p" c2] n space step(2) by (auto simp: c2_def n_def)
    have c12: "sent_pieces c qs c2"
      using sent_pieces_trans [OF step(1) c2(1)] by simp
    note f2 = sent_pieces_fields [OF c12]
    have loop: "copy_loop c p = copy_loop c2 (drop n p)"
      using False ncopy by (subst copy_loop.simps) (simp add: c2_def)
    have rest: "pending c2 @ drop n p = q @ p"
      by (simp add: c2(2))
    have short: "length (pending c2 @ drop n p) \<le> room c2" if "isControl (writeFrameType c2)"
      using that less.prems(2) f2(2,6) rest d False
      by (auto simp: qs_def q_def message_types isControl_def split: if_splits)
    obtain c' where c': "copy_loop c2 (drop n p) = Some (None, c')"
      "sent_pieces c2 (butlast (fragments (room c2) (pending c2 @ drop n p))) c'"
      "pending c' = last (fragments (room c2) (pending c2 @ drop n p))"
      using less.hyps [of "drop n p" c2] n False f2(7) short by auto
    have frs: "fragments (room c) (pending c @ p) = qs @ fragments (room c) (q @ p)"
      using False room by (auto simp: qs_def q_def fragments_full)
    have "sent_pieces c (butlast (fragments (room c) (pending c @ p))) c'"
      using sent_pieces_trans [OF c12 c'(2)] f2(6) rest by (simp add: frs butlast_append)
    then show ?thesis
      using c' loop f2(6) rest frs by auto
  qed
qed

section \<open>A message\<close>

text \<open>
  Between two messages the buffer is empty. A server sends a message longer than twice its buffer in
  one frame; every other message goes through the buffer, in frames as large as it.
\<close>

definition idle :: "wsconn \<Rightarrow> bool" where
  "idle c = (writable c \<and> writeFrameType c = noFrame \<and> writePos c = maxFrameHeaderSize)"

definition pieces :: "wsconn \<Rightarrow> bytes \<Rightarrow> bytes list" where
  "pieces c data =
     (if isServer c \<and> length data > 2 * length (writeBuf c) then [data] else fragments (room c) data)"

definition sendable :: "wsconn \<Rightarrow> int \<Rightarrow> bytes \<Rightarrow> bool" where
  "sendable c t data =
     (isData t \<or> isControl t \<and> length data \<le> maxControlFramePayloadSize \<and> length data \<le> room c)"

definition after_message :: "wsconn \<Rightarrow> int \<Rightarrow> bytes \<Rightarrow> bytes \<Rightarrow> wsconn" where
  "after_message c t data buf =
     c\<lparr>netc := (netc c)\<lparr>sent := sent (netc c) @
          message_bytes (isServer c) (rands c) True t (pieces c data)\<rparr>,
       writeBuf := buf, closeSent := (t = CloseMessage), writeSeq := Suc (writeSeq c),
       rands := next_rands c (length (pieces c data))\<rparr>"

lemma sent_pieces_same:
  assumes "sent_pieces c ps c'"
  shows "subprotocol c' = subprotocol c" "readErr c' = readErr c" "readRemaining c' = readRemaining c"
    "readFinal c' = readFinal c" "readSeq c' = readSeq c" "readLength c' = readLength c"
    "readLimit c' = readLimit c" "readMaskPos c' = readMaskPos c" "readMaskKey c' = readMaskKey c"
    "handlePong c' = handlePong c" "handlePing c' = handlePing c"
  by (subst sent_pieces_def [THEN iffD1, THEN conjunct1, OF assms], simp)+

lemma flushed_last:
  assumes s: "sent_pieces c1 ps c2" and c1: "c1 = c\<lparr>writeFrameType := t\<rparr>" and i: "idle c"
    and last: "pieces c data = ps @ [pending c2 @ extra]" and close: "t = CloseMessage \<Longrightarrow> ps = []"
    and ex: "isServer c \<or> extra = []"
  shows "\<exists>buf. length buf = length (writeBuf c) \<and> flushed c2 True extra = after_message c t data buf"
proof -
  note f = sent_pieces_fields [OF s]
  have key: "frame_key c2 = (if isServer c then None else Some (mask_key (rands c (length ps))))"
    using f(3,4) by (simp add: frame_key_def next_rands_def c1)
  have "message_bytes (isServer c) (rands c) False t ps @
          frame_bytes (frame_key c2) True (writeFrameType c2) (pending c2 @ extra) =
        message_bytes (isServer c) (rands c) True t (pieces c data)"
    using f(2) key by (simp add: last message_bytes_snoc c1)
  then have sent: "sent (netc c2) @ frame_bytes (frame_key c2) True (writeFrameType c2) (pending c2 @ extra) =
      sent (netc c) @ message_bytes (isServer c) (rands c) True t (pieces c data)"
    using f(1) by (simp add: c1)
  have rnd: "next_rands c2 1 = next_rands c (length (pieces c data))"
    using f(3,4) by (auto simp: next_rands_def last c1 add.commute)
  have ct: "(writeFrameType c2 = CloseMessage) = (t = CloseMessage)"
    using f(2) close by (auto simp: c1 message_types split: if_splits)
  have "netc (flushed c2 True extra) = (netc c2)\<lparr>sent := sent (netc c) @
          message_bytes (isServer c) (rands c) True t (pieces c data)\<rparr>"
    by (simp add: flushed_def sent)
  then have nc: "netc (flushed c2 True extra) = (netc c)\<lparr>sent := sent (netc c) @
          message_bytes (isServer c) (rands c) True t (pieces c data)\<rparr>"
    by (simp add: f(1) c1)
  have "flushed c2 True extra = after_message c t data (snd (flush_buffer c2 True extra))"
    using sent_pieces_same [OF s] f(4,5) i
    by (intro wsconn.equality, unfold nc)
      (simp_all add: flushed_def after_message_def rnd ct c1 idle_def writable_def
        del: One_nat_def)
  moreover have "length (snd (flush_buffer c2 True extra)) = length (writeBuf c)"
    using flush_buffer_frame(2) [of c2] f c1 ex by (auto simp: writable_def)
  ultimately show ?thesis by blast
qed

theorem WriteMessage_sends:
  assumes i: "idle c" and t: "sendable c t data"
  shows "\<exists>buf. length buf = length (writeBuf c) \<and>
           WriteMessage c t data = Some (None, after_message c t data buf)"
proof -
  define c1 where "c1 = c\<lparr>writeFrameType := t\<rparr>"
  have w: "writable c1" and p1: "pending c1 = []" and same: "writeSeq c1 = writeSeq c"
    "isServer c1 = isServer c" "room c1 = room c" "length (writeBuf c1) = length (writeBuf c)"
    using i by (auto simp: c1_def idle_def writable_def pending_def)
  have ft: "writeFrameType c1 = t"
    by (simp add: c1_def)
  have next_writer: "NextWriter c t = (Inr (writeSeq c), c1)"
    using i t by (auto simp: NextWriter_def idle_def writable_def c1_def sendable_def)
  have werr: "writer_err c1 (writeSeq c) = None"
    using w same by (simp add: writer_err_def writable_def)
  show ?thesis
  proof (cases "isServer c \<and> length data > 2 * length (writeBuf c)")
    case True
    then have pcs: "pieces c data = [] @ [pending c1 @ data]"
      by (simp add: pieces_def p1)
    have nctl: "isControl (writeFrameType c1) \<Longrightarrow> True \<and> length (pending c1 @ data) \<le> 125"
      using t by (auto simp: p1 ft sendable_def isData_def isControl_def message_types
          maxControlFramePayloadSize_def)
    have "flushFrame c1 True data = (None, flushed c1 True data)"
      by (rule flushFrame_ok) (use w True same nctl in auto)
    moreover have "sent_pieces c1 [] c1"
      using w by (auto simp: sent_pieces_def next_rands_def intro!: wsconn.equality)
    ultimately show ?thesis
      using flushed_last [OF _ c1_def i pcs refl] next_writer werr True same
      by (auto simp: WriteMessage_def writer_write_def write_result_def after_message_def)
  next
    case False
    have ctl: "length (pending c1 @ data) \<le> room c1" "length data \<le> 125" if "isControl t"
      using that t same by (auto simp: p1 sendable_def isData_def isControl_def message_types
          maxControlFramePayloadSize_def)
    obtain c2 where c2: "copy_loop c1 data = Some (None, c2)"
      "sent_pieces c1 (butlast (fragments (room c1) data)) c2"
      "pending c2 = last (fragments (room c1) data)"
      using copy_loop_pieces [OF w, of data] ctl by (auto simp: ft p1)
    note f = sent_pieces_fields [OF c2(2)]
    have pcs: "pieces c data = butlast (fragments (room c1) data) @ [pending c2 @ []]"
      unfolding pieces_def if_not_P [OF False] using same c2(3) by simp
    have "length (pending c2) \<le> 125" if "isControl (writeFrameType c2)"
      using that f(2) c2(3) ctl p1
      by (auto simp: ft fragments_short isControl_def message_types split: if_splits)
    then have "flushFrame c2 True [] = (None, flushed c2 True [])"
      by (intro flushFrame_ok) (use f(7) in auto)
    moreover have "butlast (fragments (room c1) data) = []" if "t = CloseMessage"
      using that ctl p1 by (simp add: fragments_short isControl_def)
    ultimately show ?thesis
      using flushed_last [OF c2(2) c1_def i pcs] next_writer werr False same c2(1) f(5)
      by (auto simp: WriteMessage_def writer_write_def write_result_def)
  qed
qed

end
