(* ===== verification/Ws_Writer_Safety.thy ===== *)
theory Ws_Writer_Safety
  imports Ws_Frames
begin

text \<open>
  What holds of the writing side whatever the network does: the buffer keeps its size and the position
  stays inside it, writing returns if the buffer has room and does not if it has none, nothing is sent
  after a close frame, and the first error of the network is the error of every later message.
\<close>

section \<open>The buffer\<close>

definition buffer_ok :: "wsconn \<Rightarrow> bool" where
  "buffer_ok c = (maxFrameHeaderSize \<le> writePos c \<and> writePos c \<le> length (writeBuf c))"

lemma write_bufs_same: "snd (write_bufs c bs) = c\<lparr>netc := netc (snd (write_bufs c bs))\<rparr>"
proof (induction bs arbitrary: c)
  case (Cons b bs)
  show ?case
  proof (cases "b = []")
    case False
    obtain n err nc where nw: "net_write (netc c) b = (n, err, nc)"
      using prod_cases3 by blast
    define c2 where "c2 = (if n \<noteq> length b then Close (c\<lparr>netc := nc\<rparr>) else c\<lparr>netc := nc\<rparr>)"
    have c2: "c2 = c\<lparr>netc := netc c2\<rparr>"
      by (simp add: c2_def Close_def)
    have eq: "write_bufs c (b # bs) = (case err of Some e \<Rightarrow> (Some e, c2) | None \<Rightarrow> write_bufs c2 bs)"
      unfolding c2_def using False nw by (simp add: Let_def)
    show ?thesis
    proof (cases err)
      case None
      have "snd (write_bufs c2 bs) = c2\<lparr>netc := netc (snd (write_bufs c2 bs))\<rparr>"
        by (rule Cons)
      also have "\<dots> = c\<lparr>netc := netc (snd (write_bufs c2 bs))\<rparr>"
        by (subst c2) simp
      finally show ?thesis
        using eq None by simp
    qed (use eq c2 in simp)
  next
    case True
    show ?thesis
      unfolding write_bufs.simps if_P [OF True] by (rule Cons)
  qed
qed simp

lemma ws_write_same:
  "snd (ws_write c t bs) =
     c\<lparr>netc := netc (snd (ws_write c t bs)), closeSent := closeSent c \<or> t = CloseMessage\<rparr>"
proof (cases "closeSent c")
  case False
  define c1 where "c1 = (if t = CloseMessage then c\<lparr>closeSent := True\<rparr> else c)"
  have "snd (ws_write c t bs) = c1\<lparr>netc := netc (snd (ws_write c t bs))\<rparr>"
    using write_bufs_same [of c1 bs] False by (simp add: ws_write_def c1_def)
  moreover have "c1 = c\<lparr>closeSent := closeSent c \<or> t = CloseMessage\<rparr>"
    using False by (auto simp: c1_def intro!: wsconn.equality)
  ultimately obtain nc where "snd (ws_write c t bs) =
      c\<lparr>closeSent := closeSent c \<or> t = CloseMessage, netc := nc\<rparr>"
    by metis
  then show ?thesis
    by (intro wsconn.equality) simp_all
qed (simp add: ws_write_def)

lemma flushFrame_cases [case_names invalid sent]:
  assumes ex: "isServer c \<or> extra = []"
  obtains "flushFrame c final extra = (Some ErrInvalidControlFrame,
             c\<lparr>writeSeq := Suc (writeSeq c), writeFrameType := noFrame, writePos := maxFrameHeaderSize\<rparr>)"
        "isControl (writeFrameType c)"
    | buf err nc where "length buf = length (writeBuf c) \<or> \<not> buffer_ok c"
        "flushFrame c final extra = (err,
           c\<lparr>netc := nc, closeSent := closeSent c \<or> writeFrameType c = CloseMessage, writeErr := err,
             writeBuf := buf, writePos := maxFrameHeaderSize,
             writeFrameType := (if final then noFrame else continuationFrame),
             writeSeq := (if final then Suc (writeSeq c) else writeSeq c), rands := next_rands c 1\<rparr>)"
        "closeSent c \<Longrightarrow> nc = netc c \<and> err = Some ErrCloseSent"
        "write_plan (netc c) = [] \<Longrightarrow> \<not> closeSent c \<Longrightarrow> err = None \<and> write_plan nc = []"
proof (cases "isControl (writeFrameType c) \<and>
      (\<not> final \<or> writePos c - maxFrameHeaderSize + length extra > maxControlFramePayloadSize)")
  case True
  then show ?thesis
    using that(1) by (simp add: flushFrame_def Let_def)
next
  case False
  obtain pos buf where fb: "flush_buffer c final extra = (pos, buf)"
    by fastforce
  define c2 where "c2 = c\<lparr>writeBuf := buf, rands := next_rands c 1\<rparr>"
  define r where "r = ws_write c2 (writeFrameType c) [drop pos (take (writePos c) buf), extra]"
  have "snd r = c2\<lparr>netc := netc (snd r), closeSent := closeSent c2 \<or> writeFrameType c = CloseMessage\<rparr>"
    unfolding r_def by (rule ws_write_same)
  then obtain nc where "snd r = c2\<lparr>netc := nc, closeSent := closeSent c2 \<or> writeFrameType c = CloseMessage\<rparr>"
    by metis
  then have r: "r = (fst r, c\<lparr>netc := netc (snd r), writeBuf := buf, rands := next_rands c 1,
      closeSent := closeSent c \<or> writeFrameType c = CloseMessage\<rparr>)"
    by (intro prod_eqI wsconn.equality) (simp_all add: c2_def)
  show ?thesis
  proof (rule that(2) [of buf "fst r" "netc (snd r)"])
    show "length buf = length (writeBuf c) \<or> \<not> buffer_ok c"
      using flush_buffer_frame(2) [of c extra final] ex fb by (auto simp: buffer_ok_def)
    show "flushFrame c final extra = (fst r,
           c\<lparr>netc := netc (snd r), closeSent := closeSent c \<or> writeFrameType c = CloseMessage,
             writeErr := fst r, writeBuf := buf, writePos := maxFrameHeaderSize,
             writeFrameType := (if final then noFrame else continuationFrame),
             writeSeq := (if final then Suc (writeSeq c) else writeSeq c), rands := next_rands c 1\<rparr>)"
      unfolding flushFrame_eq [OF fb False ex] c2_def [symmetric] r_def [symmetric]
      by (subst r) (auto simp: Let_def intro!: wsconn.equality)
    show "closeSent c \<Longrightarrow> netc (snd r) = netc c \<and> fst r = Some ErrCloseSent"
      by (simp add: r_def ws_write_def c2_def)
    show "write_plan (netc c) = [] \<Longrightarrow> \<not> closeSent c \<Longrightarrow> fst r = None \<and> write_plan (netc (snd r)) = []"
      by (simp add: r_def ws_write_ok c2_def)
  qed
qed

lemma flushFrame_keeps:
  assumes "buffer_ok c" "isServer c \<or> extra = []"
  shows "buffer_ok (snd (flushFrame c final extra))"
    and "length (writeBuf (snd (flushFrame c final extra))) = length (writeBuf c)"
    and "isServer (snd (flushFrame c final extra)) = isServer c"
    and "writePos (snd (flushFrame c final extra)) = maxFrameHeaderSize"
  using assms by (cases rule: flushFrame_cases [OF assms(2), of final]; auto simp: buffer_ok_def)+

section \<open>Writing returns\<close>

lemma ncopy_progress:
  assumes "buffer_ok c" "0 < room c" "p \<noteq> []"
  shows "buffer_ok (snd (ncopy c (length p)))" "room (snd (ncopy c (length p))) = room c"
    and "fst (ncopy c (length p)) = Inr n \<Longrightarrow>
      0 < n \<and> n \<le> length p \<and> writePos (snd (ncopy c (length p))) + n \<le> length (writeBuf c)"
proof -
  define c1 where "c1 = (if length (writeBuf c) \<le> writePos c then snd (flushFrame c False []) else c)"
  have c1: "buffer_ok c1" "length (writeBuf c1) = length (writeBuf c)"
    using flushFrame_keeps(1,2) assms(1) by (auto simp: c1_def)
  have "writePos c1 < length (writeBuf c1)"
    using flushFrame_keeps(4) [of c "[]" False] assms c1(2) by (auto simp: c1_def)
  moreover have "snd (ncopy c (length p)) = c1"
    by (auto simp: ncopy_def c1_def case_prod_beta split: option.split)
  moreover have "n = min (length p) (length (writeBuf c1) - writePos c1)"
    if "fst (ncopy c (length p)) = Inr n"
    using that by (auto simp: ncopy_def c1_def case_prod_beta split: option.splits if_splits)
  ultimately show "buffer_ok (snd (ncopy c (length p)))" "room (snd (ncopy c (length p))) = room c"
    "fst (ncopy c (length p)) = Inr n \<Longrightarrow>
      0 < n \<and> n \<le> length p \<and> writePos (snd (ncopy c (length p))) + n \<le> length (writeBuf c)"
    using c1 assms(3) by (auto simp: buffer_ok_def)
qed

lemma copy_loop_returns:
  assumes "buffer_ok c" "0 < room c"
  shows "\<exists>err c'. copy_loop c p = Some (err, c') \<and> buffer_ok c' \<and> room c' = room c"
  using assms
proof (induction "length p" arbitrary: c p rule: less_induct)
  case less
  show ?case
  proof (cases "p = []")
    case False
    note pr = ncopy_progress [OF less.prems False]
    obtain r c1 where nc: "ncopy c (length p) = (r, c1)"
      by fastforce
    show ?thesis
    proof (cases r)
      case (Inl e)
      then show ?thesis
        using pr(1,2) nc False by (simp add: copy_loop.simps)
    next
      case (Inr n)
      then have n: "0 < n" "n \<le> length p" "writePos c1 + n \<le> length (writeBuf c)"
        using pr(3) nc by auto
      define c2 where "c2 = c1\<lparr>writeBuf := put_bytes (writeBuf c1) (writePos c1) (take n p),
                            writePos := writePos c1 + n\<rparr>"
      have len1: "length (writeBuf c1) = length (writeBuf c)"
        using pr(1,2) nc less.prems(2) by (auto simp: buffer_ok_def)
      have "length (writeBuf c2) = length (writeBuf c1)"
        unfolding c2_def by (simp, rule length_put_bytes) (use n len1 in auto)
      then have "buffer_ok c2" "room c2 = room c"
        using pr(1) nc n len1 by (auto simp: c2_def buffer_ok_def)
      moreover have "copy_loop c p = copy_loop c2 (drop n p)"
        using False nc Inr by (subst copy_loop.simps) (simp add: c2_def)
      ultimately show ?thesis
        using less.hyps [of "drop n p" c2] n False less.prems(2) by auto
    qed
  qed (use less.prems in \<open>simp add: copy_loop.simps\<close>)
qed

theorem WriteMessage_returns:
  assumes "buffer_ok c" "0 < room c"
  shows "\<exists>r. WriteMessage c t data = Some r"
proof -
  obtain r c1 where nw: "NextWriter c t = (r, c1)"
    by fastforce
  have c1: "buffer_ok c1 \<and> room c1 = room c" if "r = Inr seq" for seq
    using that nw flushFrame_keeps(1,2) [OF assms(1), of "[]" True] assms(1)
    by (auto simp: NextWriter_def case_prod_beta buffer_ok_def split: option.splits if_splits)
  show ?thesis
  proof (cases r)
    case (Inr seq)
    then have "\<exists>x. writer_write c1 seq True data = Some x"
      using copy_loop_returns [of c1 data] c1 [OF Inr] assms(2)
      by (fastforce simp: writer_write_def split: option.split)
    then show ?thesis
      using nw Inr by (auto simp: WriteMessage_def split: sum.split)
  qed (simp add: WriteMessage_def nw)
qed

text \<open>Without room in the buffer the loop sends empty frames for ever.\<close>

definition stuck :: "wsconn \<Rightarrow> bytes \<Rightarrow> bool" where
  "stuck c p = (writePos c = length (writeBuf c) \<and> room c = 0 \<and> buffer_ok c \<and> p \<noteq> [] \<and>
     \<not> closeSent c \<and> write_plan (netc c) = [] \<and> \<not> isControl (writeFrameType c))"

lemma copy_loop_stuck:
  assumes "stuck c p"
  shows "copy_loop c p = None"
proof (rule ccontr)
  assume "copy_loop c p \<noteq> None"
  then obtain r where ret: "copy_loop c p = Some r"
    by blast
  have "\<not> stuck c p"
  proof (rule copy_loop.raw_induct [where P = "\<lambda>c p r. \<not> stuck c p", OF _ ret])
    fix loop c p r
    assume IH: "\<And>c p r. loop c p = Some r \<Longrightarrow> \<not> stuck c p"
      and ret: "(if p = [] then Some (None, c) else case ncopy c (length p) of
        (Inl e, c1) \<Rightarrow> Some (Some e, c1)
      | (Inr n, c1) \<Rightarrow> loop (c1\<lparr>writeBuf := put_bytes (writeBuf c1) (writePos c1) (take n p),
                        writePos := writePos c1 + n\<rparr>) (drop n p)) = Some r"
    show "\<not> stuck c p"
    proof
      assume c: "stuck c p"
      obtain buf nc where buf: "length buf = length (writeBuf c)" "write_plan nc = []" and
        fl: "flushFrame c False [] = (None, c\<lparr>netc := nc, closeSent := closeSent c \<or> writeFrameType c = CloseMessage,
             writeErr := None, writeBuf := buf, writePos := maxFrameHeaderSize,
             writeFrameType := continuationFrame, writeSeq := writeSeq c, rands := next_rands c 1\<rparr>)"
        by (cases rule: flushFrame_cases [of c "[]" False]) (use c in \<open>auto simp: stuck_def\<close>)
      have "ncopy c (length p) = (Inr 0, snd (flushFrame c False []))"
        using c buf fl by (auto simp: ncopy_def buffer_ok_def stuck_def)
      then have "loop (snd (flushFrame c False [])) p = Some r"
        using ret c fl by (simp add: put_bytes_def stuck_def)
      from IH [OF this] show False
        using c buf fl by (auto simp: stuck_def buffer_ok_def isControl_def message_types)
    qed
  qed
  with assms show False by blast
qed

section \<open>After a close frame\<close>

text \<open>An operation that leaves the network as it is, keeps \<open>closeSent\<close> and reports an error.\<close>

definition silent :: "wsconn \<Rightarrow> wsconn \<Rightarrow> bool" where
  "silent c c' = (netc c' = netc c \<and> closeSent c')"

lemma silent_refl: "closeSent c \<Longrightarrow> silent c c"
  by (simp add: silent_def)

lemma silent_trans: "silent c c1 \<Longrightarrow> silent c1 c2 \<Longrightarrow> silent c c2"
  by (simp add: silent_def)

lemma flushFrame_closed:
  assumes "closeSent c" "isServer c \<or> extra = []"
  shows "\<exists>e c'. flushFrame c final extra = (Some e, c') \<and> silent c c'"
  by (cases rule: flushFrame_cases [OF assms(2), of final]) (use assms in \<open>auto simp: silent_def\<close>)

lemma copy_loop_closed:
  assumes "closeSent c"
  shows "\<exists>err c'. copy_loop c p = Some (err, c') \<and> silent c c' \<and> (err = None \<longrightarrow> writeSeq c' = writeSeq c)"
  using assms
proof (induction "length p" arbitrary: c p rule: less_induct)
  case less
  show ?case
  proof (cases "p = []")
    case False
    show ?thesis
    proof (cases "length (writeBuf c) \<le> writePos c")
      case True
      then have "\<exists>e c1. ncopy c (length p) = (Inl e, c1) \<and> silent c c1"
        using flushFrame_closed [OF less.prems, of "[]" False] by (auto simp: ncopy_def)
      with False show ?thesis
        by (subst copy_loop.simps) auto
    next
      case room: False
      define n where "n = min (length p) (length (writeBuf c) - writePos c)"
      define c2 where "c2 = c\<lparr>writeBuf := put_bytes (writeBuf c) (writePos c) (take n p),
                             writePos := writePos c + n\<rparr>"
      have c2: "closeSent c2" "silent c c2" "writeSeq c2 = writeSeq c"
        using less.prems by (auto simp: c2_def silent_def)
      have "copy_loop c p = copy_loop c2 (drop n p)"
        using False room by (subst copy_loop.simps) (simp add: ncopy_def n_def c2_def)
      then show ?thesis
        using less.hyps [of "drop n p" c2] c2 False room silent_trans by (fastforce simp: n_def)
    qed
  qed (use less.prems in \<open>simp add: copy_loop.simps silent_refl\<close>)
qed

theorem closed_is_silent:
  assumes "closeSent c"
  shows "\<exists>e c'. WriteControl c t data late = (Some e, c') \<and> silent c c'"
    and "\<exists>e c'. WriteMessage c t data = Some (Some e, c') \<and> silent c c'"
proof -
  show "\<exists>e c'. WriteControl c t data late = (Some e, c') \<and> silent c c'"
    using assms by (auto simp: WriteControl_def control_frame_def Let_def case_prod_beta silent_def)
  obtain r c1 where nw: "NextWriter c t = (r, c1)"
    by fastforce
  have c1: "silent c c1"
    using nw flushFrame_closed [OF assms, of "[]" True] assms
    by (auto simp: NextWriter_def silent_def split: option.splits if_splits prod.splits)
  show "\<exists>e c'. WriteMessage c t data = Some (Some e, c') \<and> silent c c'"
  proof (cases r)
    case (Inr seq)
    have closed1: "closeSent c1"
      using c1 by (simp add: silent_def)
    consider e c2 where "writer_write c1 seq True data = Some (Inl e, c2)" "silent c1 c2"
      | n c2 where "writer_write c1 seq True data = Some (Inr n, c2)" "silent c1 c2" "writeSeq c2 = seq"
    proof (cases "writer_err c1 seq")
      case (Some e)
      then show ?thesis
        using that(1) closed1 by (simp add: writer_write_def silent_refl)
    next
      case None
      then have seq: "writeSeq c1 = seq"
        by (auto simp: writer_err_def split: if_splits)
      show ?thesis
      proof (cases "length data > 2 * length (writeBuf c1) \<and> isServer c1")
        case True
        then show ?thesis
          using None flushFrame_closed [OF closed1, of data True] that(1)
          by (auto simp: writer_write_def write_result_def)
      next
        case False
        obtain err c2 where loop: "copy_loop c1 data = Some (err, c2)" "silent c1 c2"
          "err = None \<longrightarrow> writeSeq c2 = writeSeq c1"
          using copy_loop_closed [OF closed1] by blast
        then have "writer_write c1 seq True data = Some (write_result (length data) (err, c2))"
          unfolding writer_write_def if_not_P [OF False] by (simp add: None)
        then show ?thesis
          using loop seq that by (cases err) (auto simp: write_result_def)
      qed
    qed
    then show ?thesis
    proof cases
      case 1
      with nw Inr c1 show ?thesis
        by (auto simp: WriteMessage_def intro: silent_trans)
    next
      case 2
      obtain e c3 where "flushFrame c2 True [] = (Some e, c3)" "silent c2 c3"
        using flushFrame_closed [of c2 "[]" True] 2 by (auto simp: silent_def)
      with 2 nw Inr c1 show ?thesis
        by (auto simp: WriteMessage_def intro: silent_trans)
    qed
  qed (use nw c1 in \<open>auto simp: WriteMessage_def\<close>)
qed

end
