(* ===== verification/Ws_Reader.thy ===== *)
theory Ws_Reader
  imports Ws_Writer Go_Strings
begin

text \<open>
  The reading side of \<open>gorilla/websocket/conn.go\<close>: how a frame is read and checked, how control frames are
  answered, message readers, and \<open>ReadMessage\<close>. The loops end because each round takes something from
  the input: every read returns bytes, or uses up a chunk, or fails.
\<close>

unbundle bit_operations_syntax

section \<open>Reading from the network\<close>

text \<open>\<open>readFull\<close>: \<open>k\<close> bytes or an error; an end of the input is an unexpected one.\<close>

function readFull :: "netconn \<Rightarrow> nat \<Rightarrow> bytes \<times> ws_error option \<times> netconn" where
  "readFull nc k =
     (if k = 0 then ([], None, nc)
      else let (xs, err, nc1) = net_read nc k in
        case err of
          Some e \<Rightarrow> ([], Some (if e = EOF then errUnexpectedEOF else e), nc1)
        | None \<Rightarrow> (let (ys, err2, nc2) = readFull nc1 (k - length xs) in (xs @ ys, err2, nc2)))"
  by auto

lemma net_read_decreases:
  "net_read nc k = (xs, None, nc1) \<Longrightarrow> k \<noteq> 0 \<Longrightarrow>
   length (chunks nc1) + (k - length xs) < length (chunks nc) + k"
  by (cases "chunks nc") (auto simp: net_read_def)

termination readFull
  by (relation "measure (\<lambda>(nc, k). length (chunks nc) + k)") (auto dest!: net_read_decreases [OF sym])

declare readFull.simps [simp del]

text \<open>\<open>io.CopyN(ioutil.Discard, br, n)\<close>, which reads with a buffer of 8192 bytes.\<close>

function skip :: "netconn \<Rightarrow> nat \<Rightarrow> ws_error option \<times> netconn" where
  "skip nc n =
     (if n = 0 then (None, nc)
      else let (xs, err, nc1) = net_read nc (min 8192 n) in
        case err of Some e \<Rightarrow> (Some e, nc1) | None \<Rightarrow> skip nc1 (n - length xs))"
  by auto

lemma net_read_progress:
  "net_read nc k = (xs, None, nc1) \<Longrightarrow> k \<noteq> 0 \<Longrightarrow>
   length xs \<le> k \<and> (xs \<noteq> [] \<and> length (chunks nc1) \<le> length (chunks nc) \<or>
     xs = [] \<and> length (chunks nc1) < length (chunks nc))"
  by (cases "chunks nc") (auto simp: net_read_def)

termination skip
proof (relation "measure (\<lambda>(nc, n). length (chunks nc) + n)", goal_cases)
  case (2 nc n r xs q err nc1)
  then have "net_read nc (min 8192 n) = (xs, None, nc1)" "min 8192 n \<noteq> 0"
    by auto
  from net_read_progress [OF this] 2(1) show ?case
    by (cases xs) auto
qed simp

declare skip.simps [simp del]

definition conn_read :: "wsconn \<Rightarrow> nat \<Rightarrow> bytes \<times> ws_error option \<times> wsconn" where
  "conn_read c k = (let (xs, err, nc) = readFull (netc c) k in (xs, err, c\<lparr>netc := nc\<rparr>))"

section \<open>Reads in closed form\<close>

fun drop_chunks :: "nat \<Rightarrow> bytes list \<Rightarrow> bytes list" where
  "drop_chunks k [] = []"
| "drop_chunks k (c # cs) =
     (if k = 0 then c # cs else if length c \<le> k then drop_chunks (k - length c) cs else drop k c # cs)"

lemma concat_drop_chunks: "concat (drop_chunks k cs) = drop k (concat cs)"
  by (induction k cs rule: drop_chunks.induct) simp_all

lemma drop_chunks_0 [simp]: "drop_chunks 0 cs = cs"
  by (cases cs) simp_all

lemma length_drop_chunks: "length (drop_chunks k cs) \<le> length cs"
  by (induction k cs rule: drop_chunks.induct) auto

definition read_failure :: "netconn \<Rightarrow> ws_error" where
  "read_failure nc = (if read_end nc = EOF then errUnexpectedEOF else read_end nc)"

lemma readFull_0 [simp]: "readFull nc 0 = ([], None, nc)"
  by (simp add: readFull.simps)

lemma readFull_eq:
  "readFull nc k = (take k (incoming nc),
     if k \<le> length (incoming nc) then None else Some (read_failure nc),
     nc\<lparr>chunks := drop_chunks k (chunks nc)\<rparr>)"
proof (induction "chunks nc" arbitrary: nc k)
  case Nil
  then have "chunks nc = []"
    by simp
  then show ?case
    by (subst readFull.simps) (simp add: net_read_def incoming_def read_failure_def)
next
  case (Cons x xs)
  define nc1 where "nc1 = nc\<lparr>chunks := (if drop k x = [] then xs else drop k x # xs)\<rparr>"
  have x: "chunks nc = x # xs"
    using Cons(2) by simp
  show ?case
  proof (cases "k = 0")
    case False
    have nr: "net_read nc k = (take k x, None, nc1)"
      using False x by (simp add: net_read_def nc1_def)
    show ?thesis
    proof (cases "length x \<le> k")
      case True
      have "readFull nc1 (k - length x) = (take (k - length x) (incoming nc1),
         if k - length x \<le> length (incoming nc1) then None else Some (read_failure nc1),
         nc1\<lparr>chunks := drop_chunks (k - length x) (chunks nc1)\<rparr>)"
        using True by (intro Cons(1)) (simp add: nc1_def)
      then show ?thesis
        using False nr True x
        by (subst readFull.simps) (auto simp: nc1_def incoming_def read_failure_def)
    next
      case False
      then show ?thesis
        using nr x \<open>k \<noteq> 0\<close>
        by (subst readFull.simps) (simp add: nc1_def incoming_def)
    qed
  qed simp
qed

lemma skip_eq:
  "skip nc k = (if k \<le> length (incoming nc) then None else Some (read_end nc),
     nc\<lparr>chunks := drop_chunks k (chunks nc)\<rparr>)"
proof (induction nc k rule: skip.induct)
  case (1 nc n)
  show ?case
  proof (cases "n = 0")
    case False
    show ?thesis
    proof (cases "chunks nc")
      case Nil
      with False show ?thesis
        by (subst skip.simps) (simp add: net_read_def incoming_def min_def)
    next
      case (Cons x xs)
      define m where "m = min 8192 n"
      define nc1 where "nc1 = nc\<lparr>chunks := (if drop m x = [] then xs else drop m x # xs)\<rparr>"
      have nr: "net_read nc m = (take m x, None, nc1)"
        using False Cons by (simp add: net_read_def nc1_def m_def)
      have "skip nc1 (n - length (take m x)) =
          (if n - length (take m x) \<le> length (incoming nc1) then None else Some (read_end nc1),
           nc1\<lparr>chunks := drop_chunks (n - length (take m x)) (chunks nc1)\<rparr>)"
        using 1 [OF False, OF refl nr [unfolded m_def, symmetric] refl refl] by (simp add: m_def)
      then show ?thesis
        using False nr Cons
        by (subst skip.simps) (auto simp: nc1_def incoming_def m_def min_def split: if_splits)
    qed
  qed (simp add: skip.simps)
qed
section \<open>One frame\<close>

definition handleProtocolError :: "wsconn \<Rightarrow> string \<Rightarrow> ws_error \<times> wsconn" where
  "handleProtocolError c m =
     (ProtocolError (''websocket: '' @ m),
      snd (WriteControl c CloseMessage (FormatCloseMessage CloseProtocolError m) False))"

text \<open>\<open>int64(u)\<close>, and addition of \<open>int64\<close>.\<close>

definition to_int64 :: "int \<Rightarrow> int" where
  "to_int64 x = (x + 2 ^ 63) mod 2 ^ 64 - 2 ^ 63"

text \<open>Step 1: the rest of the previous frame.\<close>

definition skip_rest :: "wsconn \<Rightarrow> ws_error option \<times> wsconn" where
  "skip_rest c =
     (if readRemaining c > 0
      then let (err, nc) = skip (netc c) (nat (readRemaining c)) in (err, c\<lparr>netc := nc\<rparr>)
      else (None, c))"

text \<open>Step 2: the first two bytes. The result is the protocol error, if there is one.\<close>

definition head_final :: "byte \<Rightarrow> bool" where
  "head_final b0 = (b0 AND finalBit \<noteq> 0)"

definition head_type :: "byte \<Rightarrow> int" where
  "head_type b0 = uint (b0 AND 15)"

definition head_reserved :: "byte \<Rightarrow> int" where
  "head_reserved b0 = uint (drop_bit 4 b0 AND 7)"

definition head_mask :: "byte \<Rightarrow> bool" where
  "head_mask b1 = (b1 AND maskBit \<noteq> 0)"

definition head_length :: "byte \<Rightarrow> int" where
  "head_length b1 = uint (b1 AND 127)"

definition check_head :: "wsconn \<Rightarrow> byte \<Rightarrow> string option \<times> wsconn" where
  "check_head c b0 =
     (let final = head_final b0; t = head_type b0 in
      if head_reserved b0 \<noteq> 0
      then (Some (''unexpected reserved bits '' @ itoa (head_reserved b0)), c)
      else if isControl t then
        (if readRemaining c > int maxControlFramePayloadSize
         then (Some ''control frame length > 125'', c)
         else if \<not> final then (Some ''control frame not final'', c)
         else (None, c))
      else if isData t then
        (if \<not> readFinal c then (Some ''message start before final message frame'', c)
         else (None, c\<lparr>readFinal := final\<rparr>))
      else if t = continuationFrame then
        (if readFinal c then (Some ''continuation after final message frame'', c)
         else (None, c\<lparr>readFinal := final\<rparr>))
      else (Some (''unknown opcode '' @ itoa t), c))"

text \<open>Step 3: the longer forms of the length.\<close>

definition read_length :: "wsconn \<Rightarrow> ws_error option \<times> wsconn" where
  "read_length c =
     (if readRemaining c = 126 then
        (let (b, err, c1) = conn_read c 2 in
         case err of Some e \<Rightarrow> (Some e, c1)
                   | None \<Rightarrow> (None, c1\<lparr>readRemaining := int (be_val b)\<rparr>))
      else if readRemaining c = 127 then
        (let (b, err, c1) = conn_read c 8 in
         case err of Some e \<Rightarrow> (Some e, c1)
                   | None \<Rightarrow> (None, c1\<lparr>readRemaining := to_int64 (int (be_val b))\<rparr>))
      else (None, c))"

text \<open>
  Step 4: the mask. A read that fails has overwritten a part of the key, which nobody reads then: the
  connection has failed.
\<close>

definition read_mask :: "wsconn \<Rightarrow> ws_error option \<times> wsconn" where
  "read_mask c =
     (let (key, err, c1) = conn_read (c\<lparr>readMaskPos := 0\<rparr>) 4
      in (err, if err = None then c1\<lparr>readMaskKey := key\<rparr>
               else c1\<lparr>readMaskKey := key @ drop (length key) (readMaskKey c1)\<rparr>))"

text \<open>Step 5: a data frame is counted, and refused if its message gets too long.\<close>

definition data_frame :: "wsconn \<Rightarrow> int \<Rightarrow> (ws_error + int) \<times> wsconn" where
  "data_frame c t =
     (let c1 = c\<lparr>readLength := to_int64 (readLength c + readRemaining c)\<rparr> in
      if readLimit c1 > 0 \<and> readLength c1 > readLimit c1
      then (Inl ErrReadLimit,
            snd (WriteControl c1 CloseMessage (FormatCloseMessage CloseMessageTooBig []) False))
      else (Inr t, c1))"

text \<open>Steps 6 and 7: the payload of a control frame, and what is done with it.\<close>

definition control_payload :: "wsconn \<Rightarrow> bytes \<times> ws_error option \<times> wsconn" where
  "control_payload c =
     (if readRemaining c > 0
      then let (p, err, c1) = conn_read (c\<lparr>readRemaining := 0\<rparr>) (nat (readRemaining c))
           in (if err = None \<and> isServer c1 then fst (maskBytes (readMaskKey c1) 0 p) else p, err, c1)
      else ([], None, c))"

definition call_pong :: "wsconn \<Rightarrow> string \<Rightarrow> ws_error option \<times> wsconn" where
  "call_pong c m = (case handlePong c of DefaultHandler \<Rightarrow> (None, c) | AppHandler f \<Rightarrow> (f m, c))"

definition call_ping :: "wsconn \<Rightarrow> string \<Rightarrow> ws_error option \<times> wsconn" where
  "call_ping c m =
     (case handlePing c of
        DefaultHandler \<Rightarrow> (None, snd (WriteControl c PongMessage (bytes_of m) False))
      | AppHandler f \<Rightarrow> (f m, c))"

definition close_result :: "bytes \<Rightarrow> ws_error" where
  "close_result payload =
     (let code = (if length payload \<ge> 2 then be_val (take 2 payload) else CloseNoStatusReceived);
          msg = (if length payload \<ge> 2 then string_of (drop 2 payload) else [])
      in if code = CloseNormalClosure \<or> code = CloseGoingAway then EOF else CloseError code msg)"

definition process_control :: "wsconn \<Rightarrow> int \<Rightarrow> bytes \<Rightarrow> (ws_error + int) \<times> wsconn" where
  "process_control c t payload =
     (if t = PongMessage then
        (let (err, c1) = call_pong c (string_of payload) in
         (case err of Some e \<Rightarrow> Inl e | None \<Rightarrow> Inr t, c1))
      else if t = PingMessage then
        (let (err, c1) = call_ping c (string_of payload) in
         (case err of Some e \<Rightarrow> Inl e | None \<Rightarrow> Inr t, c1))
      else if t = CloseMessage then
        (Inl (close_result payload), snd (WriteControl c CloseMessage [] False))
      else (Inr t, c))"

definition frame_body :: "wsconn \<Rightarrow> int \<Rightarrow> (ws_error + int) \<times> wsconn" where
  "frame_body c t =
     (if t = continuationFrame \<or> t = TextMessage \<or> t = BinaryMessage then data_frame c t
      else let (payload, err, c1) = control_payload c in
        case err of Some e \<Rightarrow> (Inl e, c1) | None \<Rightarrow> process_control c1 t payload)"

definition protocol_error :: "wsconn \<Rightarrow> string \<Rightarrow> (ws_error + int) \<times> wsconn" where
  "protocol_error c m = (let (e, c1) = handleProtocolError c m in (Inl e, c1))"

text \<open>The steps after the first two bytes are read.\<close>

definition frame_after_head :: "wsconn \<Rightarrow> byte \<Rightarrow> byte \<Rightarrow> (ws_error + int) \<times> wsconn" where
  "frame_after_head c b0 b1 =
     (let (bad, c1) = check_head (c\<lparr>readRemaining := head_length b1\<rparr>) b0 in
      case bad of
        Some m \<Rightarrow> protocol_error c1 m
      | None \<Rightarrow>
          (let (err, c2) = read_length c1 in
           case err of
             Some e \<Rightarrow> (Inl e, c2)
           | None \<Rightarrow>
               if head_mask b1 \<noteq> isServer c2 then protocol_error c2 ''incorrect mask flag''
               else (let (err2, c3) = (if head_mask b1 then read_mask c2 else (None, c2)) in
                     case err2 of
                       Some e \<Rightarrow> (Inl e, c3)
                     | None \<Rightarrow> frame_body c3 (head_type b0))))"

definition advanceFrame :: "wsconn \<Rightarrow> (ws_error + int) \<times> wsconn" where
  "advanceFrame c =
     (let (err, c1) = skip_rest c in
      case err of
        Some e \<Rightarrow> (Inl e, c1)
      | None \<Rightarrow>
          (let (b, err2, c2) = conn_read c1 2 in
           case err2 of
             Some e \<Rightarrow> (Inl e, c2)
           | None \<Rightarrow> frame_after_head c2 (b ! 0) (b ! 1)))"

section \<open>Each step uses up input\<close>

definition input_left :: "wsconn \<Rightarrow> nat" where
  "input_left c = length (incoming (netc c))"

definition shrinks :: "wsconn \<Rightarrow> wsconn \<Rightarrow> bool" where
  "shrinks c c' = (input_left c' \<le> input_left c \<and> length (chunks (netc c')) \<le> length (chunks (netc c)))"

lemma shrinks_refl: "shrinks c c"
  by (simp add: shrinks_def)

lemma shrinks_trans: "shrinks c c1 \<Longrightarrow> shrinks c1 c2 \<Longrightarrow> shrinks c c2"
  by (simp add: shrinks_def)

lemma shrinks_same: "netc c' = netc c \<Longrightarrow> shrinks c c'"
  by (simp add: shrinks_def input_left_def)

lemma conn_read_shrinks: "shrinks c (snd (snd (conn_read c k)))"
  by (simp add: conn_read_def readFull_eq shrinks_def input_left_def incoming_def
      concat_drop_chunks length_drop_chunks)

lemma conn_read_left:
  "conn_read c k = (b, None, c') \<Longrightarrow> input_left c' = input_left c - k \<and> k \<le> input_left c \<and> length b = k"
  by (auto simp: conn_read_def readFull_eq input_left_def incoming_def concat_drop_chunks split: if_splits)

lemma skip_rest_shrinks: "shrinks c (snd (skip_rest c))"
  by (simp add: skip_rest_def skip_eq shrinks_def input_left_def incoming_def
      concat_drop_chunks length_drop_chunks)

lemma net_write_input: "chunks (snd (snd (net_write nc b))) = chunks nc"
  by (auto simp: net_write_def split: list.split option.split)

lemma WriteControl_input: "chunks (netc (snd (WriteControl c t data late))) = chunks (netc c)"
  using net_write_input
  by (auto simp: WriteControl_def control_frame_def Close_def Let_def case_prod_beta)

lemma WriteControl_shrinks: "shrinks c (snd (WriteControl c t data late))"
  by (simp add: shrinks_def input_left_def incoming_def WriteControl_input)

lemma check_head_shrinks: "netc (snd (check_head c b)) = netc c"
  by (simp add: check_head_def Let_def)

lemma read_length_shrinks: "shrinks c (snd (read_length c))"
  using conn_read_shrinks [of c 2] conn_read_shrinks [of c 8]
  by (auto simp: read_length_def Let_def case_prod_beta shrinks_refl shrinks_def input_left_def
      split: option.split)

lemma read_mask_shrinks: "shrinks c (snd (read_mask c))"
  using conn_read_shrinks [of "c\<lparr>readMaskPos := 0\<rparr>" 4]
  by (auto simp: read_mask_def Let_def case_prod_beta shrinks_def input_left_def)

lemma data_frame_shrinks: "shrinks c (snd (data_frame c t))"
  using WriteControl_input
  by (auto simp: data_frame_def Let_def shrinks_def input_left_def incoming_def)

lemma control_payload_shrinks: "shrinks c (snd (snd (control_payload c)))"
  using conn_read_shrinks [of "c\<lparr>readRemaining := 0\<rparr>"]
  by (auto simp: control_payload_def Let_def case_prod_beta shrinks_def input_left_def)

lemma process_control_shrinks: "shrinks c (snd (process_control c t p))"
  by (auto simp: process_control_def call_ping_def call_pong_def WriteControl_shrinks shrinks_refl
      split: handler.split)

lemma frame_body_shrinks: "shrinks c (snd (frame_body c t))"
  using control_payload_shrinks process_control_shrinks shrinks_trans
  by (fastforce simp: frame_body_def data_frame_shrinks Let_def case_prod_beta split: option.split)

lemma protocol_error_shrinks: "shrinks c (snd (protocol_error c m))"
  by (simp add: protocol_error_def handleProtocolError_def WriteControl_shrinks)

lemma frame_after_head_shrinks: "shrinks c (snd (frame_after_head c b0 b1))"
proof -
  define c1 where "c1 = snd (check_head (c\<lparr>readRemaining := head_length b1\<rparr>) b0)"
  define c2 where "c2 = snd (read_length c1)"
  define c3 where "c3 = (if head_mask b1 then snd (read_mask c2) else c2)"
  have 1: "shrinks c c1"
    by (rule shrinks_same) (simp add: c1_def check_head_shrinks)
  have 2: "shrinks c c2"
    using 1 read_length_shrinks shrinks_trans by (auto simp: c2_def)
  have 3: "shrinks c c3"
    using 2 read_mask_shrinks [of c2] shrinks_trans by (auto simp: c3_def)
  have "snd (frame_after_head c b0 b1) \<in>
      {snd (protocol_error c1 m) | m. True} \<union> {snd (protocol_error c2 m) | m. True} \<union>
      {c2, c3, snd (frame_body c3 (head_type b0))}"
    by (auto simp: frame_after_head_def c1_def c2_def c3_def Let_def case_prod_beta split: option.split)
  then show ?thesis
    using shrinks_trans [OF 1 protocol_error_shrinks] shrinks_trans [OF 2 protocol_error_shrinks] 2 3
      shrinks_trans [OF 3 frame_body_shrinks] by auto
qed

lemma advanceFrame_shrinks: "shrinks c (snd (advanceFrame c))"
proof -
  define c1 where "c1 = snd (skip_rest c)"
  define c2 where "c2 = snd (snd (conn_read c1 2))"
  have 1: "shrinks c c1"
    by (simp add: c1_def skip_rest_shrinks)
  have 2: "shrinks c c2"
    using 1 conn_read_shrinks shrinks_trans by (auto simp: c2_def)
  have "snd (advanceFrame c) \<in> {c1, c2} \<union> {snd (frame_after_head c2 b0 b1) | b0 b1. True}"
    by (auto simp: advanceFrame_def c1_def c2_def Let_def case_prod_beta split: option.split)
  then show ?thesis
    using 1 2 shrinks_trans [OF 2 frame_after_head_shrinks] by auto
qed

lemma advanceFrame_progress:
  assumes "advanceFrame c = (Inr t, c')"
  shows "input_left c' + 2 \<le> input_left c"
proof -
  obtain c1 where c1: "skip_rest c = (None, c1)"
    using assms by (cases "skip_rest c") (auto simp: advanceFrame_def split: option.splits)
  obtain b err c2 where c2: "conn_read c1 2 = (b, err, c2)"
    using prod_cases3 by blast
  have err: "err = None" and c': "c' = snd (frame_after_head c2 (b ! 0) (b ! 1))"
    using assms by (auto simp: advanceFrame_def c1 c2 split: option.splits)
  have "input_left c2 + 2 \<le> input_left c1"
    using conn_read_left c2 err by fastforce
  then show ?thesis
    using skip_rest_shrinks [of c] frame_after_head_shrinks [of c2 "b ! 0" "b ! 1"]
    by (simp add: shrinks_def c1 c')
qed

section \<open>Message readers\<close>

text \<open>\<open>NextReader\<close>: the type of the next message and the number of its reader.\<close>

function next_reader_loop :: "wsconn \<Rightarrow> (ws_error + int \<times> nat) \<times> wsconn" where
  "next_reader_loop c =
     (case readErr c of
        Some e \<Rightarrow> (Inl e, c)
      | None \<Rightarrow>
          (case advanceFrame c of
             (Inl e, c1) \<Rightarrow> (Inl (the (hideTempErr (Some e))), c1\<lparr>readErr := hideTempErr (Some e)\<rparr>)
           | (Inr t, c1) \<Rightarrow>
               if isData t then (Inr (t, readSeq c1), c1) else next_reader_loop c1))"
  by auto

termination
  by (relation "measure input_left") (auto dest!: advanceFrame_progress [OF sym])

declare next_reader_loop.simps [simp del]

definition NextReader :: "wsconn \<Rightarrow> (ws_error + int \<times> nat) \<times> wsconn" where
  "NextReader c = next_reader_loop (c\<lparr>readSeq := Suc (readSeq c), readLength := 0\<rparr>)"

text \<open>
  \<open>Read\<close> of the message reader with number \<open>seq\<close> into a buffer of \<open>k\<close> bytes: the bytes it gives and
  its error.
\<close>

definition read_data :: "wsconn \<Rightarrow> nat \<Rightarrow> bytes \<times> ws_error option \<times> wsconn" where
  "read_data c k =
     (let k1 = (if int k > readRemaining c then nat (readRemaining c) else k);
          (xs, err, nc) = net_read (netc c) k1;
          (ys, pos) = (if isServer c then maskBytes (readMaskKey c) (readMaskPos c) xs
                       else (xs, readMaskPos c))
      in (ys, hideTempErr err,
          c\<lparr>netc := nc, readErr := hideTempErr err, readMaskPos := pos,
            readRemaining := readRemaining c - int (length xs)\<rparr>))"

definition internal_error :: ws_error where
  "internal_error = ProtocolError ''websocket: internal error, unexpected text or binary in Reader''"

function reader_loop :: "wsconn \<Rightarrow> nat \<Rightarrow> nat \<Rightarrow> bytes \<times> ws_error option \<times> wsconn" where
  "reader_loop c seq k =
     (case readErr c of
        Some e \<Rightarrow> ([], Some (if e = EOF \<and> seq = readSeq c then errUnexpectedEOF else e), c)
      | None \<Rightarrow>
          if readRemaining c > 0 then read_data c k
          else if readFinal c then ([], Some EOF, c\<lparr>readSeq := Suc (readSeq c)\<rparr>)
          else (case advanceFrame c of
             (Inl e, c1) \<Rightarrow> reader_loop (c1\<lparr>readErr := hideTempErr (Some e)\<rparr>) seq k
           | (Inr t, c1) \<Rightarrow>
               reader_loop (if isData t then c1\<lparr>readErr := Some internal_error\<rparr> else c1) seq k))"
  by auto

lemma hideTempErr_Some [simp]: "hideTempErr (Some e) \<noteq> None" "hideTempErr err = None \<longleftrightarrow> err = None"
  by (cases "Some e" rule: hideTempErr.cases; simp) (cases err rule: hideTempErr.cases; simp)

lemma input_left_readErr [simp]: "input_left (c\<lparr>readErr := e\<rparr>) = input_left c"
  by (simp add: input_left_def)

termination reader_loop
proof (relation "measure (\<lambda>(c, seq, k). 2 * input_left c + (if readErr c = None then 1 else 0))",
    goal_cases)
  case (2 c seq k r c1 e)
  then have "shrinks c c1"
    using advanceFrame_shrinks [of c] by (metis snd_conv)
  with 2 show ?case by (auto simp: shrinks_def)
next
  case (3 c seq k r c1 t)
  then have "input_left c1 + 2 \<le> input_left c"
    using advanceFrame_progress by metis
  with 3 show ?case by auto
qed simp

declare reader_loop.simps [simp del]

definition reader_Read :: "wsconn \<Rightarrow> nat \<Rightarrow> nat \<Rightarrow> bytes \<times> ws_error option \<times> wsconn" where
  "reader_Read c seq k = (if seq \<noteq> readSeq c then ([], Some EOF, c) else reader_loop c seq k)"

definition read_size :: "wsconn \<Rightarrow> nat" where
  "read_size c = input_left c + length (chunks (netc c))"

lemma read_data_progress:
  assumes "read_data c k = (xs, None, c')" "0 < k" "0 < readRemaining c"
  shows "read_size c' < read_size c"
proof -
  define k1 where "k1 = (if int k > readRemaining c then nat (readRemaining c) else k)"
  obtain ys err nc where nr: "net_read (netc c) k1 = (ys, err, nc)"
    using prod_cases3 by blast
  have c': "netc c' = nc" "err = None"
    using assms(1) nr by (auto simp: read_data_def k1_def Let_def case_prod_beta)
  have k1: "k1 \<noteq> 0"
    using assms(2,3) by (simp add: k1_def)
  obtain z zs where z: "chunks (netc c) = z # zs"
    using nr c' k1 by (cases "chunks (netc c)") (auto simp: net_read_def)
  have nc: "nc = (netc c)\<lparr>chunks := (if drop k1 z = [] then zs else drop k1 z # zs)\<rparr>"
    using nr z k1 by (simp add: net_read_def)
  show ?thesis
    using k1 by (cases z) (auto simp: read_size_def input_left_def incoming_def c' z nc)
qed

lemma reader_loop_progress:
  "reader_loop c seq k = (xs, None, c') \<Longrightarrow> 0 < k \<Longrightarrow> read_size c' < read_size c"
proof (induction c seq k rule: reader_loop.induct)
  case (1 c seq k)
  show ?case
  proof (cases "readErr c")
    case None
    show ?thesis
    proof (cases "0 < readRemaining c")
      case True
      with None 1(3,4) show ?thesis
        using read_data_progress by (simp add: reader_loop.simps [of c])
    next
      case False
      then have rf: "\<not> readFinal c"
        using None 1(3) by (auto simp: reader_loop.simps [of c])
      obtain r c1 where adv: "advanceFrame c = (r, c1)"
        by fastforce
      have sh: "read_size (c1\<lparr>readErr := e\<rparr>) \<le> read_size c" "read_size c1 \<le> read_size c" for e
        using advanceFrame_shrinks [of c] adv by (simp_all add: shrinks_def read_size_def)
      show ?thesis
      proof (cases r)
        case (Inl e)
        have "read_size c' < read_size (c1\<lparr>readErr := hideTempErr (Some e)\<rparr>)"
          using 1(1) [OF None False rf adv [symmetric] Inl] 1(3,4) None False rf adv Inl
          by (simp add: reader_loop.simps [of c])
        with sh(1) show ?thesis
          by (rule order.strict_trans2 [rotated])
      next
        case (Inr t)
        define c2 where "c2 = (if isData t then c1\<lparr>readErr := Some internal_error\<rparr> else c1)"
        have "reader_loop c seq k = reader_loop c2 seq k"
          using None False rf adv Inr by (simp add: reader_loop.simps [of c] c2_def)
        then have "read_size c' < read_size c2"
          using 1(2) [OF None False rf adv [symmetric] Inr] 1(3,4) by (simp add: c2_def)
        moreover have "read_size c2 \<le> read_size c"
          using sh by (simp add: c2_def)
        ultimately show ?thesis by simp
      qed
    qed
  qed (use 1 in \<open>simp add: reader_loop.simps [of c]\<close>)
qed

section \<open>Whole messages\<close>

text \<open>
  \<open>ioutil.ReadAll\<close> offers some room for every read, never none; which room, after so many bytes, is
  the argument \<open>avail\<close>.
\<close>

function read_all ::
  "(nat \<Rightarrow> nat) \<Rightarrow> nat \<Rightarrow> wsconn \<Rightarrow> bytes \<Rightarrow> bytes \<times> ws_error option \<times> wsconn" where
  "read_all avail seq c acc =
     (let (xs, err, c1) = reader_Read c seq (Suc (avail (length acc))) in
      case err of
        Some e \<Rightarrow> (acc @ xs, if e = EOF then None else Some e, c1)
      | None \<Rightarrow> read_all avail seq c1 (acc @ xs))"
  by auto

termination
  by (relation "measure (\<lambda>(avail, seq, c, acc). read_size c)")
    (auto simp: reader_Read_def split: if_splits dest!: reader_loop_progress [OF sym])

declare read_all.simps [simp del]

definition ReadMessage ::
  "(nat \<Rightarrow> nat) \<Rightarrow> wsconn \<Rightarrow> (ws_error + int \<times> bytes \<times> ws_error option) \<times> wsconn" where
  "ReadMessage avail c =
     (case NextReader c of
        (Inl e, c1) \<Rightarrow> (Inl e, c1)
      | (Inr (t, seq), c1) \<Rightarrow>
          (let (p, err, c2) = read_all avail seq c1 [] in (Inr (t, p, err), c2)))"

end
