(* ===== verification/Ws_Delivery.thy ===== *)
theory Ws_Delivery
  imports Ws_Frames Ws_Reader
begin

text \<open>
  The reading side inverts the writing side: what the reader makes of the bytes of a data frame and of a
  control frame, and that \<open>ReadMessage\<close> returns the message whose frames come in, however the network
  cuts them into chunks and however much room the caller offers.
\<close>

unbundle bit_operations_syntax

section \<open>A frame\<close>

lemma head_opcode:
  assumes "t \<in> {0, 1, 2, 8, 9, 10}"
  shows "head_final (word_of_int t OR (if fin then finalBit else 0)) = fin"
    and "head_type (word_of_int t OR (if fin then finalBit else 0)) = t"
    and "head_reserved (word_of_int t OR (if fin then finalBit else 0)) = 0"
proof -
  have "\<forall>t \<in> {0, 1, 2, 8, 9, 10}. \<forall>fin \<in> {True, False}.
      head_final (word_of_int t OR (if fin then finalBit else 0)) = fin \<and>
      head_type (word_of_int t OR (if fin then finalBit else 0)) = t \<and>
      head_reserved (word_of_int t OR (if fin then finalBit else 0)) = 0"
    by code_simp
  with assms show "head_final (word_of_int t OR (if fin then finalBit else 0)) = fin"
    and "head_type (word_of_int t OR (if fin then finalBit else 0)) = t"
    and "head_reserved (word_of_int t OR (if fin then finalBit else 0)) = 0"
    by blast+
qed

lemma head_count_all:
  "list_all (\<lambda>n. head_mask (0 OR word_of_nat n) = False \<and> head_length (0 OR word_of_nat n) = int n \<and>
     head_mask (maskBit OR word_of_nat n) = True \<and> head_length (maskBit OR word_of_nat n) = int n) [0..<128]"
  by code_simp

lemma head_count:
  assumes "n < 128"
  shows "head_mask ((if b then 0 else maskBit) OR word_of_nat n) = (\<not> b)"
    and "head_length ((if b then 0 else maskBit) OR word_of_nat n) = int n"
  using head_count_all assms by (auto simp: list_all_iff)

definition on_wire :: "bytes option \<Rightarrow> bytes \<Rightarrow> bytes" where
  "on_wire key p = (case key of None \<Rightarrow> p | Some k \<Rightarrow> fst (maskBytes k 0 p))"

text \<open>The bytes that follow the first two of a frame's header.\<close>

definition length_bytes :: "nat \<Rightarrow> bytes" where
  "length_bytes n = (if n \<ge> 65536 then be_bytes 8 n else if n > 125 then be_bytes 2 n else [])"

definition length_code :: "nat \<Rightarrow> nat" where
  "length_code n = (if n \<ge> 65536 then 127 else if n > 125 then 126 else n)"

definition frame_head :: "bytes option \<Rightarrow> bool \<Rightarrow> int \<Rightarrow> nat \<Rightarrow> bytes \<Rightarrow> bytes" where
  "frame_head key fin t code lb =
     [word_of_int t OR (if fin then finalBit else 0),
      (if key = None then 0 else maskBit) OR word_of_nat code] @
     lb @ (case key of None \<Rightarrow> [] | Some k \<Rightarrow> k)"

lemma frame_bytes_split:
  "frame_bytes key fin t p =
     frame_head key fin t (length_code (length p)) (length_bytes (length p)) @ on_wire key p"
  by (auto simp: frame_bytes_def frame_head_def Let_def length_code_def length_bytes_def on_wire_def
      split: option.split)

definition at_input :: "wsconn \<Rightarrow> nat \<Rightarrow> wsconn" where
  "at_input c k = c\<lparr>netc := (netc c)\<lparr>chunks := drop_chunks k (chunks (netc c))\<rparr>\<rparr>"

abbreviation input :: "wsconn \<Rightarrow> bytes" where
  "input c \<equiv> incoming (netc c)"

lemma input_at [simp]: "input (at_input c k) = drop k (input c)"
  by (simp add: at_input_def incoming_def concat_drop_chunks)

lemma drop_chunks_add: "drop_chunks m (drop_chunks n cs) = drop_chunks (n + m) cs"
proof (induction n cs rule: drop_chunks.induct)
  case (2 k c cs)
  show ?case
  proof (cases "k = 0 \<or> length c \<le> k")
    case False
    then show ?thesis by (cases "m = 0") (auto simp: add.commute)
  qed (use 2 in auto)
qed simp

lemma conn_read_ok:
  "k \<le> length (input c) \<Longrightarrow> conn_read c k = (take k (input c), None, at_input c k)"
  by (simp add: conn_read_def readFull_eq at_input_def)

lemma conn_read_prefix:
  assumes "input c = xs @ ys" "length xs = k"
  shows "conn_read c k = (xs, None, at_input c k)"
  using conn_read_ok [of k c] assms by simp

text \<open>What the code of a length and the bytes after it stand for.\<close>

definition length_form :: "nat \<Rightarrow> bytes \<Rightarrow> int \<Rightarrow> bool" where
  "length_form code lb v =
     (code < 126 \<and> lb = [] \<and> v = int code \<or>
      code = 126 \<and> length lb = 2 \<and> v = int (be_val lb) \<or>
      code = 127 \<and> length lb = 8 \<and> v = to_int64 (int (be_val lb)))"

lemma read_length_form:
  assumes "readRemaining c = int code" "input c = lb @ ys" "length_form code lb v"
  shows "read_length c = (None, (at_input c (length lb))\<lparr>readRemaining := v\<rparr>)"
proof -
  consider "code < 126" "lb = []" "v = int code" | "code = 126" "length lb = 2" "v = int (be_val lb)"
    | "code = 127" "length lb = 8" "v = to_int64 (int (be_val lb))"
    using assms(3) by (auto simp: length_form_def)
  then show ?thesis
  proof cases
    case 1
    with assms(1) show ?thesis
      by (auto simp: read_length_def at_input_def intro!: wsconn.equality)
  next
    case 2
    with assms(1) show ?thesis
      using conn_read_prefix [OF assms(2)] by (simp add: read_length_def)
  next
    case 3
    with assms(1) show ?thesis
      using conn_read_prefix [OF assms(2)] by (simp add: read_length_def)
  qed
qed

lemma length_form_of:
  assumes "n < 2 ^ 63"
  shows "length_form (length_code n) (length_bytes n) (int n)"
proof -
  consider "n \<ge> 65536" | "n < 65536" "n > 125" | "n \<le> 125"
    by linarith
  then show ?thesis
    using assms by cases
      (auto simp: length_form_def length_code_def length_bytes_def be_val_be_bytes to_int64_def)
qed

text \<open>\<open>moved c c'\<close>: only the position in the input and in the message changed.\<close>

definition moved :: "wsconn \<Rightarrow> wsconn \<Rightarrow> bool" where
  "moved c c' =
     (c' = c\<lparr>netc := (netc c)\<lparr>chunks := chunks (netc c')\<rparr>, readRemaining := readRemaining c',
             readFinal := readFinal c', readSeq := readSeq c', readLength := readLength c',
             readMaskPos := readMaskPos c', readMaskKey := readMaskKey c'\<rparr>)"

lemma moved_iff:
  "moved c c' \<longleftrightarrow> sent (netc c') = sent (netc c) \<and> net_closed (netc c') = net_closed (netc c) \<and>
     write_plan (netc c') = write_plan (netc c) \<and> read_end (netc c') = read_end (netc c) \<and>
     isServer c' = isServer c \<and> subprotocol c' = subprotocol c \<and> closeSent c' = closeSent c \<and>
     writeErr c' = writeErr c \<and> writeBuf c' = writeBuf c \<and> writePos c' = writePos c \<and>
     writeFrameType c' = writeFrameType c \<and> writeSeq c' = writeSeq c \<and> readErr c' = readErr c \<and>
     readLimit c' = readLimit c \<and> handlePong c' = handlePong c \<and> handlePing c' = handlePing c \<and>
     rands c' = rands c"
proof
  assume m: "moved c c'"
  show "sent (netc c') = sent (netc c) \<and> net_closed (netc c') = net_closed (netc c) \<and>
     write_plan (netc c') = write_plan (netc c) \<and> read_end (netc c') = read_end (netc c) \<and>
     isServer c' = isServer c \<and> subprotocol c' = subprotocol c \<and> closeSent c' = closeSent c \<and>
     writeErr c' = writeErr c \<and> writeBuf c' = writeBuf c \<and> writePos c' = writePos c \<and>
     writeFrameType c' = writeFrameType c \<and> writeSeq c' = writeSeq c \<and> readErr c' = readErr c \<and>
     readLimit c' = readLimit c \<and> handlePong c' = handlePong c \<and> handlePing c' = handlePing c \<and>
     rands c' = rands c"
    by (intro conjI; subst m [unfolded moved_def]; simp)
qed (auto simp: moved_def intro!: wsconn.equality netconn.equality)

lemma moved_trans: "moved c c1 \<Longrightarrow> moved c1 c2 \<Longrightarrow> moved c c2"
  by (simp add: moved_iff)

text \<open>A connection about to read a frame that passes the checks of its header.\<close>

definition head_ok :: "wsconn \<Rightarrow> bytes option \<Rightarrow> int \<Rightarrow> bool \<Rightarrow> nat \<Rightarrow> bool" where
  "head_ok c key t fin code =
     (readRemaining c \<le> 0 \<and> (key = None \<longleftrightarrow> \<not> isServer c) \<and>
      (\<forall>k. key = Some k \<longrightarrow> length k = 4) \<and>
      (if isControl t then fin \<and> code \<le> 125
       else t \<in> {0, 1, 2} \<and> (t = 0 \<longleftrightarrow> \<not> readFinal c) \<and> code < 128))"

definition head_read :: "wsconn \<Rightarrow> bytes option \<Rightarrow> bool \<Rightarrow> bytes \<Rightarrow> int \<Rightarrow> wsconn" where
  "head_read c key fin lb v =
     (at_input c (2 + length lb + (case key of None \<Rightarrow> 0 | Some k \<Rightarrow> length k)))
       \<lparr>readRemaining := v, readFinal := fin,
        readMaskPos := (if key = None then readMaskPos c else 0),
        readMaskKey := (case key of None \<Rightarrow> readMaskKey c | Some k \<Rightarrow> k)\<rparr>"

lemma input_head_read:
  assumes "input c = frame_head key fin t code lb @ body"
  shows "input (head_read c key fin' lb v) = body"
proof -
  have "input (head_read c key fin' lb v) =
      drop (2 + length lb + (case key of None \<Rightarrow> 0 | Some k \<Rightarrow> length k)) (input c)"
    using input_at by (simp add: head_read_def)
  then show ?thesis
    unfolding assms frame_head_def by (auto split: option.split)
qed

lemma advanceFrame_head:
  assumes t: "head_ok c key t fin code" and i: "input c = frame_head key fin t code lb @ body"
    and l: "length_form code lb v"
  shows "advanceFrame c = frame_body (head_read c key (if isControl t then readFinal c else fin) lb v) t"
proof -
  define fin' where "fin' = (if isControl t then readFinal c else fin)"
  define b0 where "b0 = word_of_int t OR (if fin then finalBit else 0)"
  define b1 where "b1 = (if key = None then 0 else maskBit) OR (word_of_nat code :: byte)"
  define ks where "ks = (case key of None \<Rightarrow> [] | Some k \<Rightarrow> k)"
  have i': "input c = [b0, b1] @ lb @ ks @ body"
    unfolding i frame_head_def b0_def b1_def ks_def by simp
  have n: "code < 128" "isControl t \<Longrightarrow> code \<le> 125"
    using t by (auto simp: head_ok_def split: if_splits)
  have t6: "t \<in> {0, 1, 2, 8, 9, 10}"
    using t by (auto simp: head_ok_def isControl_def message_types split: if_splits)
  have ttype: "isData t = (\<not> isControl t \<and> t \<noteq> 0)" "t = 0 \<Longrightarrow> \<not> isControl t"
    using t6 by (auto simp: isControl_def isData_def message_types)
  note b0 = head_opcode [OF t6, of fin, folded b0_def]
  note b1 = head_count [OF n(1), of "key = None", folded b1_def]
  define c1 where "c1 = (at_input c 2)\<lparr>readRemaining := int code, readFinal := fin'\<rparr>"
  have head: "check_head ((at_input c 2)\<lparr>readRemaining := head_length b1\<rparr>) b0 = (None, c1)"
    using t n(2) by (auto simp: check_head_def Let_def b0 b1 ttype head_ok_def at_input_def c1_def fin'_def
        continuationFrame_def maxControlFramePayloadSize_def intro!: wsconn.equality)
  have in1: "input c1 = lb @ ks @ body"
    using input_at [of c 2] i' by (simp add: c1_def)
  define c2 where "c2 = (at_input c1 (length lb))\<lparr>readRemaining := v\<rparr>"
  have rl: "read_length c1 = (None, c2)"
    unfolding c2_def by (rule read_length_form [OF _ in1 l]) (simp add: c1_def)
  have in2: "input c2 = ks @ body"
    using input_at [of c1 "length lb"] in1 by (simp add: c2_def)
  define c3 where "c3 = (if key = None then c2 else (at_input c2 4)\<lparr>readMaskPos := 0, readMaskKey := ks\<rparr>)"
  have rm: "(if head_mask b1 then read_mask c2 else (None, c2)) = (None, c3)"
  proof (cases key)
    case (Some k)
    then have "conn_read (c2\<lparr>readMaskPos := 0\<rparr>) 4 = (ks, None, at_input (c2\<lparr>readMaskPos := 0\<rparr>) 4)"
      using in2 t by (intro conn_read_prefix) (auto simp: head_ok_def ks_def)
    then show ?thesis
      using b1(1) Some by (simp add: read_mask_def c3_def at_input_def)
  qed (use b1(1) in \<open>simp add: c3_def\<close>)
  have server: "isServer c2 = isServer c"
    by (simp add: c2_def c1_def at_input_def)
  have "advanceFrame c = frame_after_head (at_input c 2) b0 b1"
    using t i' conn_read_prefix [of c "[b0, b1]" _ 2] by (simp add: advanceFrame_def skip_rest_def head_ok_def)
  also have "\<dots> = frame_body c3 t"
    using head rl rm server t b0(2) b1(1)
    by (cases "isServer c") (auto simp: frame_after_head_def head_ok_def)
  also have "c3 = head_read c key fin' lb v"
    using t by (intro wsconn.equality netconn.equality)
      (auto simp: c3_def c2_def c1_def head_read_def at_input_def drop_chunks_add head_ok_def ks_def
        add.assoc split: option.split)
  finally show ?thesis
    by (simp add: fin'_def)
qed

definition takes :: "wsconn \<Rightarrow> bytes option \<Rightarrow> int \<Rightarrow> int \<Rightarrow> bool" where
  "takes c key t n =
     (head_ok c key t False 0 \<and> \<not> isControl t \<and> - (2 ^ 63) \<le> readLength c + n \<and>
      readLength c + n < 2 ^ 63 \<and> (readLimit c \<le> 0 \<or> readLength c + n \<le> readLimit c))"

definition after_head :: "wsconn \<Rightarrow> bytes option \<Rightarrow> bool \<Rightarrow> bytes \<Rightarrow> int \<Rightarrow> wsconn" where
  "after_head c key fin lb v = (head_read c key fin lb v)\<lparr>readLength := readLength c + v\<rparr>"

lemma advanceFrame_data_form:
  assumes t: "takes c key t v" and i: "input c = frame_head key fin t code lb @ body"
    and l: "length_form code lb v"
  shows "advanceFrame c = (Inr t, after_head c key fin lb v)"
proof -
  define c3 where "c3 = head_read c key fin lb v"
  have "code < 128"
    using l by (auto simp: length_form_def)
  then have "advanceFrame c = frame_body c3 t"
    using advanceFrame_head [OF _ i l] t by (auto simp: takes_def head_ok_def c3_def)
  also have "\<dots> = data_frame c3 t"
    using t by (auto simp: frame_body_def takes_def head_ok_def message_types)
  also have "\<dots> = (Inr t, c3\<lparr>readLength := readLength c + v\<rparr>)"
  proof -
    have "to_int64 (readLength c + v) = readLength c + v"
      using t by (auto simp: takes_def to_int64_def)
    moreover have "readLength c3 = readLength c" "readRemaining c3 = v" "readLimit c3 = readLimit c"
      by (simp_all add: c3_def head_read_def at_input_def)
    ultimately show ?thesis
      using t by (auto simp: data_frame_def Let_def takes_def)
  qed
  finally show ?thesis
    by (simp add: after_head_def c3_def)
qed

abbreviation after_data :: "wsconn \<Rightarrow> bytes option \<Rightarrow> bool \<Rightarrow> nat \<Rightarrow> wsconn" where
  "after_data c key fin n \<equiv> after_head c key fin (length_bytes n) (int n)"

lemma advanceFrame_data:
  assumes t: "takes c key t (int (length p))" and i: "input c = frame_bytes key fin t p @ rest"
    and n: "length p < 2 ^ 63"
  shows "advanceFrame c = (Inr t, after_data c key fin (length p))"
    and "input (after_data c key fin (length p)) = on_wire key p @ rest"
proof -
  have i': "input c = frame_head key fin t (length_code (length p)) (length_bytes (length p)) @
      (on_wire key p @ rest)"
    using i by (simp add: frame_bytes_split)
  show "advanceFrame c = (Inr t, after_data c key fin (length p))"
    by (rule advanceFrame_data_form [OF t i' length_form_of [OF n]])
  show "input (after_data c key fin (length p)) = on_wire key p @ rest"
    using input_head_read [OF i'] by (simp add: after_head_def)
qed

lemma advanceFrame_control:
  assumes t: "head_ok c key t True (length p)" "isControl t" and i: "input c = frame_bytes key True t p @ rest"
  shows "\<exists>c1. advanceFrame c = process_control c1 t p \<and> readRemaining c1 = 0 \<and> input c1 = rest \<and>
     moved c c1 \<and> readFinal c1 = readFinal c \<and> readSeq c1 = readSeq c \<and> readLength c1 = readLength c"
proof -
  have n: "length p \<le> 125"
    using t by (auto simp: head_ok_def)
  then have i': "input c = frame_head key True t (length p) [] @ (on_wire key p @ rest)"
    and l: "length_form (length p) [] (int (length p))"
    using i by (simp_all add: frame_bytes_split length_code_def length_bytes_def length_form_def)
  define c3 where "c3 = head_read c key (readFinal c) [] (int (length p))"
  define c1 where "c1 = (if p = [] then c3 else at_input (c3\<lparr>readRemaining := 0\<rparr>) (length p))"
  have in3: "input c3 = on_wire key p @ rest"
    using input_head_read [OF i'] by (simp add: c3_def)
  have len: "length (on_wire key p) = length p"
    by (simp add: on_wire_def split: option.split)
  have "control_payload c3 = (p, None, c1)"
  proof (cases "p = []")
    case False
    have "conn_read (c3\<lparr>readRemaining := 0\<rparr>) (length p) = (on_wire key p, None, c1)"
      using in3 len False by (simp add: conn_read_prefix c1_def)
    moreover have "readRemaining c3 = int (length p)"
      by (simp add: c3_def head_read_def)
    moreover have "isServer c1 = isServer c" "key = Some k \<Longrightarrow> readMaskKey c1 = k" for k
      by (simp_all add: c1_def c3_def head_read_def at_input_def)
    ultimately show ?thesis
      using False t by (auto simp: control_payload_def head_ok_def on_wire_def maskBytes_involution)
  qed (simp add: control_payload_def c1_def c3_def head_read_def)
  moreover have "advanceFrame c = frame_body c3 t"
    using advanceFrame_head [OF t(1) i' l] t(2) by (simp add: c3_def)
  moreover have "frame_body c3 t = (let (payload, err, c1) = control_payload c3 in
        case err of Some e \<Rightarrow> (Inl e, c1) | None \<Rightarrow> process_control c1 t payload)"
    using t(2) by (auto simp: frame_body_def isControl_def message_types)
  ultimately have "advanceFrame c = process_control c1 t p"
    by simp
  moreover have "readRemaining c1 = 0" "moved c c1" "readFinal c1 = readFinal c" "readSeq c1 = readSeq c"
    "readLength c1 = readLength c"
    by (auto simp: c1_def c3_def head_read_def at_input_def moved_iff)
  moreover have "input c1 = rest"
    using in3 len by (auto simp: c1_def at_input_def incoming_def concat_drop_chunks)
  ultimately show ?thesis
    by blast
qed

section \<open>A message\<close>

lemma maskBytes_Nil_iff [simp]: "fst (maskBytes key pos bs) = [] \<longleftrightarrow> bs = []"
  by (metis length_0_conv length_maskBytes)

lemma take_maskBytes: "take m (fst (maskBytes key pos bs)) = fst (maskBytes key pos (take m bs))"
proof (induction bs arbitrary: m pos)
  case (Cons b bs)
  then show ?case
    by (cases m) (simp_all add: Let_def case_prod_beta)
qed simp

definition masked_body :: "wsconn \<Rightarrow> bytes \<Rightarrow> bytes" where
  "masked_body c body =
     (if isServer c then fst (maskBytes (readMaskKey c) (readMaskPos c) body) else body)"

text \<open>
  In the middle of a message: \<open>body\<close> is left of the current frame and the frames of \<open>ps\<close> follow, then
  \<open>rest\<close>. The other side masks its frames if this one is the server.
\<close>

definition fits :: "wsconn \<Rightarrow> bytes list \<Rightarrow> bool" where
  "fits c ps =
     (0 \<le> readLength c \<and> readLength c + int (length (concat ps)) < 2 ^ 63 \<and>
      (readLimit c \<le> 0 \<or> readLength c + int (length (concat ps)) \<le> readLimit c))"

definition receiving :: "wsconn \<Rightarrow> (nat \<Rightarrow> 32 word) \<Rightarrow> bytes \<Rightarrow> bytes list \<Rightarrow> bytes \<Rightarrow> bool" where
  "receiving c rs body ps rest =
     (readErr c = None \<and> readRemaining c = int (length body) \<and> readFinal c = (ps = []) \<and> fits c ps \<and>
      input c = masked_body c body @ message_bytes (\<not> isServer c) rs True continuationFrame ps @ rest)"

lemma receiving_next:
  assumes r: "receiving c rs [] (p # ps) rest"
  shows "\<exists>c1. advanceFrame c = (Inr continuationFrame, c1) \<and>
           receiving c1 (\<lambda>i. rs (Suc i)) p ps rest \<and> moved c c1 \<and> readSeq c1 = readSeq c"
proof -
  define key where "key = (if isServer c then Some (mask_key (rs 0)) else None)"
  have t: "takes c key 0 (int (length p))" and n: "length p < 2 ^ 63"
    using r by (auto simp: receiving_def takes_def head_ok_def isControl_def message_types key_def fits_def)
  have i: "input c = frame_bytes key (ps = []) 0 p @
      message_bytes (\<not> isServer c) (\<lambda>i. rs (Suc i)) True continuationFrame ps @ rest"
    using r by (auto simp: receiving_def masked_body_def key_def continuationFrame_def)
  define c1 where "c1 = after_data c key (ps = []) (length p)"
  have "input c1 = on_wire key p @
      message_bytes (\<not> isServer c) (\<lambda>i. rs (Suc i)) True continuationFrame ps @ rest"
    using advanceFrame_data(2) [OF t i n] by (simp add: c1_def)
  moreover have "on_wire key p = masked_body c1 p"
    by (auto simp: on_wire_def masked_body_def c1_def after_head_def head_read_def at_input_def key_def)
  ultimately have "receiving c1 (\<lambda>i. rs (Suc i)) p ps rest"
    using r by (auto simp: receiving_def c1_def after_head_def head_read_def at_input_def fits_def)
  moreover have "moved c c1" "readSeq c1 = readSeq c"
    by (auto simp: moved_iff c1_def after_head_def head_read_def at_input_def)
  ultimately show ?thesis
    using advanceFrame_data(1) [OF t i n] by (auto simp: c1_def continuationFrame_def)
qed

lemma read_data_step:
  assumes n: "readRemaining c = int n" "length body \<le> n" "0 < n" and k: "0 < k"
    and i: "input c = masked_body c body @ after" and m0: "n \<le> length body \<or> after = []"
    and z: "chunks (netc c) = z # zs" and e: "readErr c = None"
  shows "\<exists>xs body' c1. read_data c k = (xs, None, c1) \<and> body = xs @ body' \<and>
           readRemaining c1 = int (n - length xs) \<and> input c1 = masked_body c1 body' @ after \<and>
           moved c c1 \<and> readSeq c1 = readSeq c \<and> readFinal c1 = readFinal c \<and>
           readLength c1 = readLength c"
proof -
  define k1 where "k1 = (if int k > readRemaining c then nat (readRemaining c) else k)"
  have k1: "0 < k1" "k1 \<le> n"
    using n k by (auto simp: k1_def)
  define xs where "xs = take k1 z"
  define nc where "nc = (netc c)\<lparr>chunks := (if drop k1 z = [] then zs else drop k1 z # zs)\<rparr>"
  have nr: "net_read (netc c) k1 = (xs, None, nc)"
    using z k1 by (simp add: net_read_def xs_def nc_def)
  define m where "m = length xs"
  have split: "input c = xs @ incoming nc"
    by (simp add: incoming_def z nc_def xs_def)
  have mlen: "length (masked_body c body) = length body"
    by (simp add: masked_body_def)
  have m: "m \<le> length body"
  proof (cases "after = []")
    case True
    have "length xs + length (incoming nc) = length body"
      using arg_cong [OF split, of length] i True mlen by simp
    then show ?thesis by (simp add: m_def)
  qed (use m0 k1 in \<open>auto simp: m_def xs_def\<close>)
  have wire: "masked_body c body = masked_body c (take m body) @
      (if isServer c then fst (maskBytes (readMaskKey c) (readMaskPos c + m) (drop m body)) else drop m body)"
    using m maskBytes_append [of "readMaskKey c" "readMaskPos c" "take m body" "drop m body"]
    by (simp add: masked_body_def snd_maskBytes maskBytes_mod)
  have "xs = take m (input c)"
    by (simp add: split m_def)
  also have "\<dots> = masked_body c (take m body)"
    using m by (simp add: i masked_body_def take_maskBytes)
  finally have xs: "xs = masked_body c (take m body)" .
  define c1 where "c1 = c\<lparr>netc := nc, readErr := None,
      readMaskPos := (if isServer c then (readMaskPos c + m) mod 4 else readMaskPos c),
      readRemaining := readRemaining c - int m\<rparr>"
  have "read_data c k = (take m body, None, c1)"
  proof (cases "isServer c")
    case True
    have "fst (maskBytes (readMaskKey c) (readMaskPos c) xs) = take m body"
      by (subst xs) (simp add: True masked_body_def maskBytes_involution)
    then have "maskBytes (readMaskKey c) (readMaskPos c) xs = (take m body, (readMaskPos c + m) mod 4)"
      by (intro prod_eqI) (simp_all add: snd_maskBytes flip: m_def)
    with nr True show ?thesis
      by (simp add: read_data_def c1_def flip: k1_def m_def)
  next
    case False
    have "take m body = xs"
      by (subst xs) (simp add: masked_body_def False)
    with nr False show ?thesis
      by (simp add: read_data_def c1_def flip: k1_def m_def)
  qed
  moreover have "input c1 = masked_body c1 (drop m body) @ after"
  proof -
    have b1: "masked_body c1 (drop m body) = (if isServer c then
        fst (maskBytes (readMaskKey c) (readMaskPos c + m) (drop m body)) else drop m body)"
      by (simp add: masked_body_def c1_def maskBytes_mod)
    have "xs @ incoming nc = masked_body c (take m body) @ masked_body c1 (drop m body) @ after"
      unfolding split [symmetric] b1 by (simp add: i wire)
    then show ?thesis
      by (simp add: c1_def flip: xs)
  qed
  moreover have "readRemaining c1 = int (n - length (take m body))"
    using m n by (simp add: c1_def)
  moreover have "moved c c1" "readSeq c1 = readSeq c" "readFinal c1 = readFinal c" "readLength c1 = readLength c"
    using e by (auto simp: moved_iff c1_def nc_def)
  ultimately show ?thesis
    by (metis append_take_drop_id)
qed

lemma receiving_data:
  assumes r: "receiving c rs body ps rest" and b: "body \<noteq> []" and k: "0 < k"
  shows "\<exists>xs body' c1. read_data c k = (xs, None, c1) \<and> body = xs @ body' \<and>
           receiving c1 rs body' ps rest \<and> moved c c1 \<and> readSeq c1 = readSeq c"
proof -
  have i: "input c = masked_body c body @ message_bytes (\<not> isServer c) rs True continuationFrame ps @ rest"
    and n: "readRemaining c = int (length body)" and e: "readErr c = None"
    using r by (auto simp: receiving_def)
  have "input c \<noteq> []"
    using i b by (auto simp: masked_body_def)
  then obtain z zs where z: "chunks (netc c) = z # zs"
    by (cases "chunks (netc c)") (auto simp: incoming_def)
  obtain xs body' c1 where c1: "read_data c k = (xs, None, c1)" "body = xs @ body'"
    "readRemaining c1 = int (length body - length xs)"
    "input c1 = masked_body c1 body' @ message_bytes (\<not> isServer c) rs True continuationFrame ps @ rest"
    "moved c c1" "readSeq c1 = readSeq c" "readFinal c1 = readFinal c" "readLength c1 = readLength c"
    using read_data_step [OF n order.refl _ k i disjI1 [OF order.refl] z e] b by blast
  then have "receiving c1 rs body' ps rest"
    using r by (auto simp: receiving_def fits_def moved_iff)
  with c1 show ?thesis by blast
qed

text \<open>One \<open>Read\<close>: some of the message, or its end.\<close>

definition at_end :: "wsconn \<Rightarrow> bytes \<Rightarrow> bool" where
  "at_end c rest = (readErr c = None \<and> readRemaining c = 0 \<and> readFinal c \<and> input c = rest)"

lemma reader_loop_step:
  assumes "receiving c rs body ps rest" "0 < k" "seq = readSeq c"
  shows "(\<exists>xs body' ps' rs' c1. reader_loop c seq k = (xs, None, c1) \<and>
            body @ concat ps = xs @ body' @ concat ps' \<and> receiving c1 rs' body' ps' rest \<and>
            moved c c1 \<and> readSeq c1 = readSeq c) \<or>
         (\<exists>c1. reader_loop c seq k = ([], Some EOF, c1) \<and> body @ concat ps = [] \<and>
            at_end c1 rest \<and> moved c c1)"
  using assms
proof (induction ps arbitrary: c rs body)
  case Nil
  show ?case
  proof (cases "body = []")
    case True
    then show ?thesis
      using Nil.prems by (auto simp: reader_loop.simps [of c] receiving_def at_end_def moved_iff masked_body_def)
  next
    case False
    have "reader_loop c seq k = read_data c k"
      using Nil.prems False by (simp add: reader_loop.simps [of c] receiving_def)
    with receiving_data [OF Nil.prems(1) False Nil.prems(2)] show ?thesis
      by fastforce
  qed
next
  case (Cons p ps)
  show ?case
  proof (cases "body = []")
    case False
    have "reader_loop c seq k = read_data c k"
      using Cons.prems False by (simp add: reader_loop.simps [of c] receiving_def)
    with receiving_data [OF Cons.prems(1) False Cons.prems(2)] show ?thesis
      by fastforce
  next
    case True
    with Cons.prems have r: "receiving c rs [] (p # ps) rest"
      by simp
    from receiving_next [OF this] obtain c1 where adv: "advanceFrame c = (Inr continuationFrame, c1)"
      and c1: "receiving c1 (\<lambda>i. rs (Suc i)) p ps rest" "moved c c1" "readSeq c1 = readSeq c"
      by blast
    have "reader_loop c seq k = reader_loop c1 seq k"
      using r adv by (simp add: reader_loop.simps [of c] receiving_def isData_def message_types)
    then show ?thesis
      using Cons.IH [OF c1(1) Cons.prems(2)] c1 Cons.prems(3) True moved_trans [OF c1(2)]
      by (fastforce simp: receiving_def)
  qed
qed

lemma read_all_message:
  "receiving c rs body ps rest \<Longrightarrow> seq = readSeq c \<Longrightarrow>
   \<exists>c1. read_all avail seq c acc = (acc @ body @ concat ps, None, c1) \<and> at_end c1 rest \<and> moved c c1"
proof (induction avail seq c acc arbitrary: rs body ps rule: read_all.induct)
  case (1 avail seq c acc)
  have step: "reader_Read c seq (Suc (avail (length acc))) = reader_loop c seq (Suc (avail (length acc)))"
    using 1(3) by (simp add: reader_Read_def)
  consider (more) xs body' ps' rs' c1 where
      "reader_loop c seq (Suc (avail (length acc))) = (xs, None, c1)"
      "body @ concat ps = xs @ body' @ concat ps'" "receiving c1 rs' body' ps' rest"
      "moved c c1" "readSeq c1 = readSeq c"
    | (over) c1 where "reader_loop c seq (Suc (avail (length acc))) = ([], Some EOF, c1)"
      "body @ concat ps = []" "at_end c1 rest" "moved c c1"
    using reader_loop_step [OF 1(2), of "Suc (avail (length acc))" seq] 1(3) by auto
  then show ?case
  proof cases
    case more
    obtain c2 where "read_all avail seq c1 (acc @ xs) = ((acc @ xs) @ body' @ concat ps', None, c2)"
      "at_end c2 rest" "moved c1 c2"
      using 1(1) [OF refl step [unfolded more(1), symmetric] refl refl more(3)] more(5) 1(3) by auto
    then show ?thesis
      using more step moved_trans by (auto simp: read_all.simps [of avail seq c])
  next
    case over
    then show ?thesis
      using step by (auto simp: read_all.simps [of avail seq c])
  qed
qed

text \<open>A connection between two messages, with nothing read of the next.\<close>

definition ready :: "wsconn \<Rightarrow> bool" where
  "ready c = (readErr c = None \<and> readRemaining c = 0 \<and> readFinal c)"

definition within_limit :: "wsconn \<Rightarrow> bytes \<Rightarrow> bool" where
  "within_limit c data =
     (length data < 2 ^ 63 \<and> (readLimit c \<le> 0 \<or> int (length data) \<le> readLimit c))"

theorem ReadMessage_message:
  assumes r: "ready c" and t: "isData t" and l: "within_limit c (concat (p # ps))"
    and i: "input c = message_bytes (\<not> isServer c) rs True t (p # ps) @ rest"
  shows "\<exists>c1. ReadMessage avail c = (Inr (t, concat (p # ps), None), c1) \<and>
           ready c1 \<and> input c1 = rest \<and> moved c c1"
proof -
  define c0 where "c0 = c\<lparr>readSeq := Suc (readSeq c), readLength := 0\<rparr>"
  define key where "key = (if isServer c then Some (mask_key (rs 0)) else None)"
  have tk: "takes c0 key t (int (length p))" and n: "length p < 2 ^ 63"
    using r t l by (auto simp: takes_def head_ok_def isControl_def c0_def key_def ready_def isData_def message_types within_limit_def)
  have in0: "input c0 = frame_bytes key (ps = []) t p @
      message_bytes (\<not> isServer c) (\<lambda>i. rs (Suc i)) True continuationFrame ps @ rest"
    using i by (simp add: c0_def key_def)
  define c1 where "c1 = after_data c0 key (ps = []) (length p)"
  have adv: "advanceFrame c0 = (Inr t, c1)"
    using advanceFrame_data(1) [OF tk in0 n] by (simp add: c1_def)
  have "input c1 = on_wire key p @
      message_bytes (\<not> isServer c) (\<lambda>i. rs (Suc i)) True continuationFrame ps @ rest"
    using advanceFrame_data(2) [OF tk in0 n] by (simp add: c1_def)
  moreover have "on_wire key p = masked_body c1 p"
    by (auto simp: on_wire_def masked_body_def c1_def after_head_def head_read_def at_input_def key_def c0_def)
  ultimately have rc: "receiving c1 (\<lambda>i. rs (Suc i)) p ps rest"
    using r l by (auto simp: receiving_def c1_def after_head_def head_read_def at_input_def fits_def c0_def
        ready_def within_limit_def)
  have mv: "moved c c1"
    by (auto simp: moved_iff c1_def after_head_def head_read_def at_input_def c0_def)
  have "NextReader c = (Inr (t, readSeq c1), c1)"
    using r t adv by (simp add: NextReader_def c0_def [symmetric] next_reader_loop.simps [of c0])
      (simp add: c0_def ready_def)
  then show ?thesis
    using read_all_message [OF rc refl, of avail "[]"] moved_trans [OF mv]
    by (auto simp: ReadMessage_def at_end_def ready_def)
qed

section \<open>A session\<close>

text \<open>Some messages written one after the other; some messages read.\<close>

fun write_messages :: "wsconn \<Rightarrow> (int \<times> bytes) list \<Rightarrow> wsconn option" where
  "write_messages c [] = Some c"
| "write_messages c ((t, data) # ms) =
     (case WriteMessage c t data of Some (None, c1) \<Rightarrow> write_messages c1 ms | _ \<Rightarrow> None)"

fun read_messages :: "(nat \<Rightarrow> nat) \<Rightarrow> nat \<Rightarrow> wsconn \<Rightarrow> ((int \<times> bytes) list \<times> wsconn) option" where
  "read_messages avail 0 c = Some ([], c)"
| "read_messages avail (Suc n) c =
     (case ReadMessage avail c of
        (Inr (t, data, None), c1) \<Rightarrow>
          map_option (\<lambda>(ms, c2). ((t, data) # ms, c2)) (read_messages avail n c1)
      | _ \<Rightarrow> None)"

lemma concat_pieces [simp]: "concat (pieces c data) = data"
  by (simp add: pieces_def)

lemma pieces_not_Nil [simp]: "pieces c data \<noteq> []"
  by (simp add: pieces_def)

lemma idle_after_message:
  "idle c \<Longrightarrow> isData t \<Longrightarrow> length buf = length (writeBuf c) \<Longrightarrow> idle (after_message c t data buf)"
  by (auto simp: idle_def writable_def after_message_def isData_def message_types)

lemma ReadMessage_sent:
  assumes "ready b" "isData t" "within_limit b data" "isServer b = (\<not> isServer a)"
    and "input b = message_bytes (isServer a) rs True t (pieces a data) @ rest"
  shows "\<exists>b1. ReadMessage avail b = (Inr (t, data, None), b1) \<and> ready b1 \<and> input b1 = rest \<and> moved b b1"
proof -
  obtain p ps where "pieces a data = p # ps"
    by (cases "pieces a data") auto
  then show ?thesis
    using ReadMessage_message [of b t p ps rs rest avail] assms concat_pieces [of a data] by simp
qed

lemma session_delivered:
  assumes "idle a" "\<forall>(t, data)\<in>set ms. isData t"
  shows "\<exists>a' wire. write_messages a ms = Some a' \<and> idle a' \<and> isServer a' = isServer a \<and>
     sent (netc a') = sent (netc a) @ wire \<and>
     (\<forall>b rest. ready b \<and> isServer b = (\<not> isServer a) \<and> (\<forall>(t, data)\<in>set ms. within_limit b data) \<and>
        input b = wire @ rest \<longrightarrow>
        (\<exists>b'. read_messages avail (length ms) b = Some (ms, b') \<and> ready b' \<and> input b' = rest))"
  using assms
proof (induction ms arbitrary: a)
  case (Cons m ms)
  obtain t data where m: "m = (t, data)"
    by fastforce
  have t: "isData t" "sendable a t data"
    using Cons.prems m by (auto simp: sendable_def)
  define w where "w = message_bytes (isServer a) (rands a) True t (pieces a data)"
  obtain buf where buf: "length buf = length (writeBuf a)"
    and wm: "WriteMessage a t data = Some (None, after_message a t data buf)"
    using WriteMessage_sends [OF Cons.prems(1) t(2)] by blast
  define a1 where "a1 = after_message a t data buf"
  have a1: "idle a1" "isServer a1 = isServer a" "sent (netc a1) = sent (netc a) @ w"
    using idle_after_message [OF Cons.prems(1) t(1) buf] by (simp_all add: a1_def after_message_def w_def)
  obtain a' wire where a': "write_messages a1 ms = Some a'" "idle a'" "isServer a' = isServer a1"
      "sent (netc a') = sent (netc a1) @ wire"
    and rd: "\<forall>b rest. ready b \<and> isServer b = (\<not> isServer a1) \<and> (\<forall>(t, data)\<in>set ms. within_limit b data) \<and>
        input b = wire @ rest \<longrightarrow>
        (\<exists>b'. read_messages avail (length ms) b = Some (ms, b') \<and> ready b' \<and> input b' = rest)"
    using Cons.IH [OF a1(1)] Cons.prems(2) by auto
  have "\<exists>b'. read_messages avail (length (m # ms)) b = Some (m # ms, b') \<and> ready b' \<and> input b' = rest"
    if b: "ready b" "isServer b = (\<not> isServer a)" "\<forall>(t, data)\<in>set (m # ms). within_limit b data"
      "input b = (w @ wire) @ rest" for b rest
  proof -
    obtain b1 where b1: "ReadMessage avail b = (Inr (t, data, None), b1)" "ready b1"
      "input b1 = wire @ rest" "moved b b1"
      using ReadMessage_sent [of b t data a "rands a" "wire @ rest" avail] b t m by (auto simp: w_def)
    have "\<forall>(t, data)\<in>set ms. within_limit b1 data"
      using b(3) b1(4) by (auto simp: within_limit_def moved_iff)
    moreover have "isServer b1 = (\<not> isServer a1)"
      using b1(4) b(2) a1(2) by (simp add: moved_iff)
    ultimately obtain b' where "read_messages avail (length ms) b1 = Some (ms, b')" "ready b'" "input b' = rest"
      using rd b1(2,3) by blast
    with b1 m show ?thesis by simp
  qed
  then show ?case
    using a' a1 wm m by (intro exI [of _ a'] exI [of _ "w @ wire"]) (auto simp: a1_def)
qed auto

section \<open>Control frames are answered\<close>

lemma WriteControl_ok:
  assumes "isControl t" "length data \<le> 125" "\<not> closeSent c" "write_plan (netc c) = []"
  shows "WriteControl c t data False = (None,
     c\<lparr>netc := (netc c)\<lparr>sent := sent (netc c) @ frame_bytes (frame_key c) True t data\<rparr>,
       closeSent := (t = CloseMessage), rands := next_rands c 1\<rparr>)"
  using assms newMaskKey_fst [of c]
  by (auto simp: WriteControl_def control_frame_def frame_bytes_def frame_key_def Let_def case_prod_beta
      net_write_def next_rands_def maxControlFramePayloadSize_def or.commute
      intro!: wsconn.equality)

lemma ping_answered:
  assumes "head_ok c key PingMessage True (length p)" and "input c = frame_bytes key True PingMessage p @ rest"
    and "handlePing c = DefaultHandler" "\<not> closeSent c" "write_plan (netc c) = []"
  shows "\<exists>c1. advanceFrame c = (Inr PingMessage, c1) \<and> input c1 = rest \<and>
     sent (netc c1) = sent (netc c) @ frame_bytes (frame_key c) True PongMessage p \<and>
     readRemaining c1 = 0 \<and> readFinal c1 = readFinal c \<and> readErr c1 = readErr c \<and> \<not> closeSent c1 \<and>
     readSeq c1 = readSeq c \<and> readLength c1 = readLength c \<and> readLimit c1 = readLimit c \<and> isServer c1 = isServer c"
proof -
  have ctl: "isControl PingMessage" "isControl PongMessage"
    by (simp_all add: isControl_def)
  have len: "length p \<le> 125"
    using assms(1) ctl by (simp add: head_ok_def)
  obtain c1 where c1: "advanceFrame c = process_control c1 PingMessage p" "readRemaining c1 = 0"
      "input c1 = rest" "moved c c1" "readFinal c1 = readFinal c" "readSeq c1 = readSeq c"
      "readLength c1 = readLength c"
    using advanceFrame_control [OF assms(1) ctl(1) assms(2)] by blast
  have "process_control c1 PingMessage p = (Inr PingMessage, snd (WriteControl c1 PongMessage p False))"
    using c1(4) assms(3) by (simp add: process_control_def call_ping_def moved_iff message_types)
  moreover have "WriteControl c1 PongMessage p False = (None,
     c1\<lparr>netc := (netc c1)\<lparr>sent := sent (netc c1) @ frame_bytes (frame_key c1) True PongMessage p\<rparr>,
       closeSent := (PongMessage = CloseMessage), rands := next_rands c1 1\<rparr>)"
    using c1(4) assms(4,5) len ctl by (intro WriteControl_ok) (auto simp: moved_iff)
  moreover have "frame_key c1 = frame_key c" "sent (netc c1) = sent (netc c)" "readErr c1 = readErr c"
    "readLimit c1 = readLimit c" "isServer c1 = isServer c"
    using c1(4) by (auto simp: moved_iff frame_key_def)
  ultimately show ?thesis
    using c1 by (simp add: message_types incoming_def)
qed

lemma close_answered:
  assumes "head_ok c key CloseMessage True (length p)" and "input c = frame_bytes key True CloseMessage p @ rest"
    and "\<not> closeSent c" "write_plan (netc c) = []"
  shows "\<exists>c1. advanceFrame c = (Inl (close_result p), c1) \<and> closeSent c1 \<and>
     sent (netc c1) = sent (netc c) @ frame_bytes (frame_key c) True CloseMessage []"
proof -
  have ctl: "isControl CloseMessage"
    by (simp add: isControl_def)
  obtain c1 where c1: "advanceFrame c = process_control c1 CloseMessage p" "moved c c1"
    using advanceFrame_control [OF assms(1) ctl assms(2)] by blast
  have "process_control c1 CloseMessage p = (Inl (close_result p), snd (WriteControl c1 CloseMessage [] False))"
    by (simp add: process_control_def message_types)
  moreover have "WriteControl c1 CloseMessage [] False = (None,
     c1\<lparr>netc := (netc c1)\<lparr>sent := sent (netc c1) @ frame_bytes (frame_key c1) True CloseMessage []\<rparr>,
       closeSent := (CloseMessage = CloseMessage), rands := next_rands c1 1\<rparr>)"
    using c1(2) assms(3,4) ctl by (intro WriteControl_ok) (auto simp: moved_iff)
  moreover have "frame_key c1 = frame_key c" "sent (netc c1) = sent (netc c)"
    using c1(2) by (auto simp: moved_iff frame_key_def)
  ultimately show ?thesis
    using c1 by simp
qed

section \<open>What the reader accepts and should not\<close>

lemma read_all_truncated:
  "readErr c = None \<Longrightarrow> seq = readSeq c \<Longrightarrow> readRemaining c = int n \<Longrightarrow> length body < n \<Longrightarrow>
   input c = masked_body c body \<Longrightarrow> read_end (netc c) = EOF \<Longrightarrow>
   \<exists>c1. read_all avail seq c acc = (acc @ body, None, c1)"
proof (induction avail seq c acc arbitrary: n body rule: read_all.induct)
  case (1 avail seq c acc)
  define k where "k = Suc (avail (length acc))"
  have rd: "reader_Read c seq k = read_data c k"
    using 1 by (simp add: reader_Read_def reader_loop.simps [of c])
  show ?case
  proof (cases "chunks (netc c)")
    case Nil
    then have "masked_body c body = []"
      using 1(6) by (simp add: incoming_def)
    then have "body = []"
      by (simp add: masked_body_def split: if_splits)
    moreover have "fst (read_data c k) = [] \<and> fst (snd (read_data c k)) = Some EOF"
      using Nil 1 by (auto simp: read_data_def net_read_def k_def Let_def case_prod_beta)
    ultimately show ?thesis
      using rd by (auto simp: read_all.simps [of avail seq c] Let_def case_prod_beta k_def)
  next
    case (Cons z zs)
    obtain xs body' c1 where c1: "read_data c k = (xs, None, c1)" "body = xs @ body'"
      "readRemaining c1 = int (n - length xs)" "input c1 = masked_body c1 body' @ []"
      "moved c c1" "readSeq c1 = readSeq c"
      using read_data_step [OF 1(4) less_imp_le [OF 1(5)] _ _ _ disjI2 [OF refl] Cons, of k] 1(2,5,6)
      by (auto simp: k_def)
    have "\<exists>c2. read_all avail seq c1 (acc @ xs) = ((acc @ xs) @ body', None, c2)"
    proof (rule 1(1) [OF refl _ refl refl])
      show "(xs, None, c1) = reader_Read c seq (Suc (avail (length acc)))"
        using rd c1(1) by (simp add: k_def)
      show "length body' < n - length xs"
        using 1(5) c1(2) by simp
    qed (use 1 c1 in \<open>auto simp: moved_iff\<close>)
    then show ?thesis
      using rd c1 by (auto simp: read_all.simps [of avail seq c] k_def)
  qed
qed

lemma NextReader_data:
  assumes "ready c" "isData t" "takes (c\<lparr>readSeq := Suc (readSeq c), readLength := 0\<rparr>) key t v"
    and "input c = frame_head key fin t code lb @ body" "length_form code lb v"
  shows "\<exists>c1. NextReader c = (Inr (t, readSeq c1), c1) \<and> input c1 = body \<and> readRemaining c1 = v \<and>
     readFinal c1 = fin \<and> readLength c1 = v \<and> moved c c1 \<and> readErr c1 = None \<and>
     (key = Some k \<longrightarrow> readMaskKey c1 = k \<and> readMaskPos c1 = 0)"
proof -
  define c0 where "c0 = c\<lparr>readSeq := Suc (readSeq c), readLength := 0\<rparr>"
  define c1 where "c1 = after_head c0 key fin lb v"
  have in0: "input c0 = frame_head key fin t code lb @ body"
    using assms(4) by (simp add: c0_def)
  have "advanceFrame c0 = (Inr t, c1)"
    using advanceFrame_data_form [OF _ in0 assms(5)] assms(3) by (simp add: c0_def c1_def)
  then have "NextReader c = (Inr (t, readSeq c1), c1)"
    using assms(1,2) by (simp add: NextReader_def c0_def [symmetric] next_reader_loop.simps [of c0])
      (simp add: c0_def ready_def)
  moreover have "input c1 = body"
    using input_head_read [OF in0] by (simp add: c1_def after_head_def)
  ultimately show ?thesis
    using assms(1) by (auto simp: c1_def after_head_def head_read_def at_input_def moved_iff c0_def ready_def)
qed

text \<open>
  If the connection ends inside the payload of a frame, the message is returned as if it were whole:
  \<open>Read\<close> passes on the \<open>io.EOF\<close> of the network, and \<open>ReadAll\<close> takes it for the end of the message.
\<close>

lemma ReadMessage_truncated:
  assumes r: "ready c" and t: "isData t" and l: "within_limit c p"
    and key: "key = (if isServer c then Some (mask_key n) else None)"
    and i: "input c @ missing = frame_bytes key True t p" "missing \<noteq> []" "length missing \<le> length p"
    and e: "read_end (netc c) = EOF"
  shows "\<exists>c1. ReadMessage avail c = (Inr (t, take (length p - length missing) p, None), c1)"
proof -
  define m where "m = length p - length missing"
  have i2: "input c = frame_head key True t (length_code (length p)) (length_bytes (length p)) @
      take m (on_wire key p)"
  proof -
    have len: "length (on_wire key p) = length p"
      by (simp add: on_wire_def split: option.split)
    have "input c = take (length (frame_bytes key True t p) - length missing) (frame_bytes key True t p)"
      by (simp flip: i(1))
    then show ?thesis
      using i(3) len by (simp add: frame_bytes_split m_def)
  qed
  have tk: "takes (c\<lparr>readSeq := Suc (readSeq c), readLength := 0\<rparr>) key t (int (length p))"
    using r t l by (auto simp: takes_def head_ok_def isControl_def key ready_def isData_def message_types
        within_limit_def)
  have lf: "length_form (length_code (length p)) (length_bytes (length p)) (int (length p))"
    using l by (intro length_form_of) (auto simp: within_limit_def)
  obtain c1 where c1: "NextReader c = (Inr (t, readSeq c1), c1)" "input c1 = take m (on_wire key p)"
    "readRemaining c1 = int (length p)" "moved c c1" "readErr c1 = None"
    "key = Some (mask_key n) \<longrightarrow> readMaskKey c1 = mask_key n \<and> readMaskPos c1 = 0"
    using NextReader_data [OF r t tk i2 lf, of "mask_key n"] by blast
  have "take m (on_wire key p) = masked_body c1 (take m p)"
    using c1(4,6) by (auto simp: on_wire_def masked_body_def key take_maskBytes moved_iff)
  then have body: "input c1 = masked_body c1 (take m p)"
    using c1(2) by simp
  have "read_end (netc c1) = EOF" "m < length p"
    using c1(4) e i(2,3) by (simp add: moved_iff, cases missing, auto simp: m_def)
  then obtain c2 where "read_all avail (readSeq c1) c1 [] = (take m p, None, c2)"
    using read_all_truncated [OF c1(5) refl c1(3) _ body, of avail "[]"] by auto
  with c1(1) show ?thesis
    by (auto simp: ReadMessage_def m_def)
qed

text \<open>
  A 64-bit length of \<open>2^63\<close> or more turns negative and takes from the count that the read limit is
  compared with: after such a frame a message of any size is accepted.
\<close>

lemma ReadMessage_over_limit:
  assumes r: "ready c" "\<not> isServer c" and t: "isData t" and p: "length p < 2 ^ 63" "p \<noteq> []"
    and i: "input c = frame_head None False t 127 (be_bytes 8 (2 ^ 64 - length p)) @
              frame_bytes None True continuationFrame p @ rest"
  shows "\<exists>c1. ReadMessage avail c = (Inr (t, p, None), c1)"
proof -
  define v where "v = - int (length p)"
  have lf: "length_form 127 (be_bytes 8 (2 ^ 64 - length p)) v"
  proof -
    have "be_val (be_bytes 8 (2 ^ 64 - length p)) = 2 ^ 64 - length p"
      using p by (simp add: be_val_be_bytes)
    moreover have "to_int64 (int (2 ^ 64 - length p)) = v"
    proof -
      have "int (2 ^ 64 - length p) + 2 ^ 63 = (2 ^ 63 - int (length p)) + 1 * 2 ^ 64"
        using p by (simp add: of_nat_diff)
      then have "(int (2 ^ 64 - length p) + 2 ^ 63) mod 2 ^ 64 = (2 ^ 63 - int (length p)) mod 2 ^ 64"
        by (metis mod_mult_self1)
      also have "\<dots> = 2 ^ 63 - int (length p)"
        using p by (intro mod_pos_pos_trivial) auto
      finally show ?thesis
        unfolding to_int64_def v_def by linarith
    qed
    ultimately show ?thesis
      by (simp add: length_form_def)
  qed
  have tk: "takes (c\<lparr>readSeq := Suc (readSeq c), readLength := 0\<rparr>) None t v"
    using r t p by (auto simp: takes_def head_ok_def isControl_def ready_def isData_def message_types v_def)
  obtain c1 where c1: "NextReader c = (Inr (t, readSeq c1), c1)"
    "input c1 = frame_bytes None True continuationFrame p @ rest"
    "readRemaining c1 = v" "\<not> readFinal c1" "readLength c1 = v" "moved c c1" "readErr c1 = None"
    using NextReader_data [OF r(1) t tk i lf] by blast
  define c2 where "c2 = after_data c1 None True (length p)"
  have tk2: "takes c1 None 0 (int (length p))"
    using c1 r p by (auto simp: takes_def head_ok_def isControl_def message_types moved_iff v_def)
  have adv: "advanceFrame c1 = (Inr 0, c2)" "input c2 = p @ rest"
    using advanceFrame_data [OF tk2 _ p(1), of True rest] c1(2)
    by (auto simp: c2_def continuationFrame_def on_wire_def)
  have rc: "receiving c2 (\<lambda>_. 0) p [] rest"
    using adv(2) c1 r p
    by (auto simp: receiving_def c2_def after_head_def head_read_def at_input_def fits_def masked_body_def
        moved_iff v_def)
  have seq: "readSeq c2 = readSeq c1"
    by (simp add: c2_def after_head_def head_read_def at_input_def)
  have "read_all avail (readSeq c1) c1 [] = read_all avail (readSeq c1) c2 []"
  proof -
    have "reader_Read c1 (readSeq c1) k = reader_Read c2 (readSeq c1) k" for k
      using c1 adv p seq
      by (simp add: reader_Read_def reader_loop.simps [of c1] isData_def message_types v_def)
    then show ?thesis
      by (simp add: read_all.simps [of avail "readSeq c1" c1] read_all.simps [of avail "readSeq c1" c2])
  qed
  then show ?thesis
    using read_all_message [OF rc, of "readSeq c1" avail "[]"] seq c1(1) by (auto simp: ReadMessage_def)
qed

end
