(* ===== verification/Ws_Results.thy ===== *)
theory Ws_Results
  imports Ws_Handshake Ws_Writer_Safety Ws_Delivery
begin

text \<open>
  The properties of the WebSocket layer, from the lemmas of the theories on its writer, its reader and
  its handshake, each with an instance on concrete connections.
\<close>

text \<open>A network connection on which nothing has happened yet and whose writes all succeed.\<close>

definition quiet_conn :: netconn where
  "quiet_conn = \<lparr>sent = [], net_closed = False, write_plan = [], chunks = [], read_end = EOF\<rparr>"

lemma new_idle: "write_plan nc = [] \<Longrightarrow> 0 < wb \<Longrightarrow> idle (newConn nc server wb rs)"
  by (simp add: idle_def writable_def newConn_def)

lemma new_ready: "ready (newConn nc server wb rs)"
  by (simp add: ready_def newConn_def)

lemma new_fields [simp]:
  "netc (newConn nc server wb rs) = nc" "isServer (newConn nc server wb rs) = server"
  "readLimit (newConn nc server wb rs) = 0" "closeSent (newConn nc server wb rs) = False"
  "handlePing (newConn nc server wb rs) = DefaultHandler" "writeSeq (newConn nc server wb rs) = 0"
  "writeFrameType (newConn nc server wb rs) = noFrame"
  by (simp_all add: newConn_def)

lemma idle_subprotocol [simp]: "idle (c\<lparr>subprotocol := s\<rparr>) = idle c"
  by (simp add: idle_def writable_def)

lemma ready_subprotocol [simp]: "ready (c\<lparr>subprotocol := s\<rparr>) = ready c"
  by (simp add: ready_def)

section \<open>Messages\<close>

text \<open>
  C6: Whatever data messages one end writes, the other end reads: \<open>WriteMessage\<close> accepts every one of
  them, and from the bytes it sent, cut into chunks in any way and followed by anything, \<open>ReadMessage\<close>
  returns the same messages in the same order and leaves the rest, whichever end is the server, however
  the payloads were fragmented and masked, and however much room the reader offers each time.
\<close>

theorem websocket_session:
  assumes "idle a" and "\<forall>(t, data)\<in>set ms. isData t"
  shows "\<exists>a' bs. write_messages a ms = Some a' \<and> idle a' \<and> sent (netc a') = sent (netc a) @ bs \<and>
    (\<forall>b avail rest. ready b \<and> isServer b = (\<not> isServer a) \<and>
       (\<forall>(t, data)\<in>set ms. within_limit b data) \<and> concat (chunks (netc b)) = bs @ rest \<longrightarrow>
       (\<exists>b'. read_messages avail (length ms) b = Some (ms, b') \<and> ready b' \<and>
          concat (chunks (netc b')) = rest))"
proof -
  obtain a' bs where w: "write_messages a ms = Some a'" "idle a'" "sent (netc a') = sent (netc a) @ bs"
    using session_delivered [OF assms] by blast
  have "\<exists>b'. read_messages avail (length ms) b = Some (ms, b') \<and> ready b' \<and> input b' = rest"
    if "ready b" "isServer b = (\<not> isServer a)" "\<forall>(t, data)\<in>set ms. within_limit b data"
      "input b = bs @ rest" for b avail rest
    using session_delivered [OF assms, of avail] that w by auto
  with w show ?thesis
    by (auto simp: incoming_def)
qed

theorem websocket_session_witness:
  "\<exists>a' bs. write_messages (newConn quiet_conn True 8 (\<lambda>_. 0)) [(1, bytes_of ''hello, world''), (2, [])] = Some a' \<and>
     sent (netc a') = bs \<and>
     (\<exists>b'. read_messages (\<lambda>_. 0) 2
         (newConn (quiet_conn\<lparr>chunks := map (\<lambda>b. [b]) bs\<rparr>) False 8 (\<lambda>_. 0)) =
         Some ([(1, bytes_of ''hello, world''), (2, [])], b'))"
proof -
  have c: "concat (map (\<lambda>b. [b]) bs) = bs" for bs :: bytes
    by (induction bs) simp_all
  define ms where "ms = [(1 :: int, bytes_of ''hello, world''), (2, [])]"
  have i: "idle (newConn quiet_conn True 8 (\<lambda>_. 0))"
    by (rule new_idle) (simp_all add: quiet_conn_def)
  have d: "\<forall>(t, data)\<in>set ms. isData t"
    and l: "\<forall>(t, data)\<in>set ms. within_limit (newConn nc False 8 (\<lambda>_. 0)) data" and n: "length ms = 2" for nc
    by (simp_all add: ms_def isData_def message_types within_limit_def)
  obtain a' bs where w: "write_messages (newConn quiet_conn True 8 (\<lambda>_. 0)) ms = Some a'"
      "sent (netc a') = [] @ bs"
    and r: "\<forall>b avail rest. ready b \<and> isServer b = (\<not> True) \<and>
       (\<forall>(t, data)\<in>set ms. within_limit b data) \<and> concat (chunks (netc b)) = bs @ rest \<longrightarrow>
       (\<exists>b'. read_messages avail (length ms) b = Some (ms, b') \<and> ready b' \<and> concat (chunks (netc b')) = rest)"
    using websocket_session [OF i d] unfolding new_fields by (auto simp: quiet_conn_def)
  have "\<exists>b'. read_messages (\<lambda>_. 0) (length ms)
      (newConn (quiet_conn\<lparr>chunks := map (\<lambda>b. [b]) bs\<rparr>) False 8 (\<lambda>_. 0)) = Some (ms, b')"
    using r [rule_format, of "newConn (quiet_conn\<lparr>chunks := map (\<lambda>b. [b]) bs\<rparr>) False 8 (\<lambda>_. 0)" "[]" "\<lambda>_. 0"] l
    by (auto simp: new_ready c)
  then have "\<exists>a' bs. write_messages (newConn quiet_conn True 8 (\<lambda>_. 0)) ms = Some a' \<and> sent (netc a') = bs \<and>
     (\<exists>b'. read_messages (\<lambda>_. 0) (length ms)
         (newConn (quiet_conn\<lparr>chunks := map (\<lambda>b. [b]) bs\<rparr>) False 8 (\<lambda>_. 0)) = Some (ms, b'))"
    using w by auto
  then show ?thesis
    unfolding n unfolding ms_def .
qed

text \<open>
  C18: \<open>WriteMessage\<close> sends exactly the frames of its message and nothing else: the payload cut into
  pieces that fit the buffer (or one piece, when a server writes a large message), the first frame with
  the message's type and the others continuations, only the last one final, each masked by the client
  with the next random key; and the connection is idle again.
\<close>

theorem write_message_frames:
  assumes "idle c" and "sendable c t data"
  shows "\<exists>c'. WriteMessage c t data = Some (None, c') \<and>
    sent (netc c') = sent (netc c) @ message_bytes (isServer c) (rands c) True t (pieces c data) \<and>
    concat (pieces c data) = data \<and>
    (pieces c data = [data] \<or> list_all (\<lambda>p. length p \<le> length (writeBuf c) - maxFrameHeaderSize) (pieces c data)) \<and>
    rands c' = next_rands c (length (pieces c data)) \<and> closeSent c' = (t = CloseMessage) \<and>
    (t \<noteq> CloseMessage \<longrightarrow> idle c')"
proof -
  obtain buf where buf: "length buf = length (writeBuf c)"
    and wm: "WriteMessage c t data = Some (None, after_message c t data buf)"
    using WriteMessage_sends [OF assms] by blast
  have "0 < room c"
    using assms(1) by (simp add: idle_def writable_def)
  then have "list_all (\<lambda>p. length p \<le> room c) (fragments (room c) data)"
    unfolding list_all_iff by (blast intro: length_fragments)
  then have "pieces c data = [data] \<or> list_all (\<lambda>p. length p \<le> room c) (pieces c data)"
    by (simp add: pieces_def)
  moreover have "idle (after_message c t data buf)" if "t \<noteq> CloseMessage"
    using that assms(1) buf by (auto simp: idle_def writable_def after_message_def)
  ultimately show ?thesis
    using wm by (intro exI [of _ "after_message c t data buf"]) (auto simp: after_message_def)
qed

theorem write_message_frames_witness:
  "\<exists>c'. WriteMessage (newConn quiet_conn True 4 (\<lambda>_. 0)) TextMessage (bytes_of ''hello'') = Some (None, c') \<and>
     sent (netc c') = [0x01, 4, 0x68, 0x65, 0x6c, 0x6c, 0x80, 1, 0x6f]"
proof -
  let ?c = "newConn quiet_conn True 4 (\<lambda>_. 0)"
  have i: "idle ?c"
    by (rule new_idle) (simp_all add: quiet_conn_def)
  have s: "sendable ?c TextMessage (bytes_of ''hello'')"
    by (simp add: sendable_def isData_def)
  have "fragments 4 (bytes_of ''hello'') = [bytes_of ''hell'', bytes_of ''o'']"
    using fragments_full [of "bytes_of ''hell''" 4 "bytes_of ''o''"] by (simp add: fragments_short)
  then have p: "pieces ?c (bytes_of ''hello'') = [bytes_of ''hell'', bytes_of ''o'']"
    by (simp add: pieces_def newConn_def)
  have f: "message_bytes True rs True TextMessage [bytes_of ''hell'', bytes_of ''o''] =
      [0x01, 4, 0x68, 0x65, 0x6c, 0x6c, 0x80, 1, 0x6f]" for rs
    by (simp add: frame_bytes_def Let_def message_types finalBit_def)
  show ?thesis
    using write_message_frames [OF i s] unfolding p new_fields f by (auto simp: quiet_conn_def)
qed

section \<open>The order of frames\<close>

lemma conn_read_final [simp]:
  "readFinal (snd (snd (conn_read c k))) = readFinal c" "isServer (snd (snd (conn_read c k))) = isServer c"
  by (simp_all add: conn_read_def case_prod_beta Let_def)

lemma WriteControl_final [simp]: "readFinal (snd (WriteControl c t data late)) = readFinal c"
  by (simp add: WriteControl_def control_frame_def Let_def case_prod_beta Close_def)

lemma read_steps_final [simp]:
  "readFinal (snd (skip_rest c)) = readFinal c" "readFinal (snd (read_length c)) = readFinal c"
  "readFinal (snd (read_mask c)) = readFinal c" "readFinal (snd (data_frame c t)) = readFinal c"
  "readFinal (snd (snd (control_payload c))) = readFinal c"
  by (simp_all add: skip_rest_def read_length_def read_mask_def data_frame_def control_payload_def Let_def
      case_prod_beta split: option.split)

lemma frame_body_type:
  assumes "frame_body c t = (Inr t', c')"
  shows "t' = t \<and> t \<noteq> CloseMessage \<and> readFinal c' = readFinal c"
proof (cases "t = continuationFrame \<or> t = TextMessage \<or> t = BinaryMessage")
  case True
  with assms have d: "data_frame c t = (Inr t', c')"
    by (simp add: frame_body_def)
  then have "readFinal c' = readFinal c"
    using read_steps_final(4) [of c t] by simp
  with True d show ?thesis
    by (auto simp: data_frame_def Let_def message_types split: if_splits)
next
  case False
  define r where "r = control_payload c"
  have "process_control (snd (snd r)) t (fst r) = (Inr t', c')"
    using assms False by (simp add: frame_body_def r_def case_prod_beta Let_def split: option.splits)
  moreover have "readFinal (snd (process_control x t y)) = readFinal x" for x y
    by (auto simp: process_control_def call_ping_def call_pong_def Let_def case_prod_beta split: handler.split)
  ultimately show ?thesis
    using read_steps_final(5) [of c]
    by (auto simp: process_control_def r_def message_types Let_def case_prod_beta split: if_splits option.splits)
qed

text \<open>
  C19: Frames come in the order of the protocol. A frame that \<open>advanceFrame\<close> lets pass is a text, binary or
  continuation frame, a ping or a pong; a message starts only when the one before it was finished, a
  continuation comes only inside a message, and a control frame changes nothing about that.
\<close>

theorem frames_in_order:
  assumes "advanceFrame c = (Inr t, c')"
  shows "t \<in> {TextMessage, BinaryMessage, continuationFrame, PingMessage, PongMessage} \<and>
    (isData t \<longrightarrow> readFinal c) \<and> (t = continuationFrame \<longrightarrow> \<not> readFinal c) \<and>
    (isControl t \<longrightarrow> readFinal c' = readFinal c)"
proof -
  define b where "b = conn_read (snd (skip_rest c)) 2"
  define c2 where "c2 = (snd (snd b))\<lparr>readRemaining := head_length (fst b ! 1)\<rparr>"
  have fr: "readFinal c2 = readFinal c"
    by (simp add: c2_def b_def)
  define r1 where "r1 = check_head c2 (fst b ! 0)"
  define r2 where "r2 = read_length (snd r1)"
  define r3 where "r3 = (if head_mask (fst b ! 1) then read_mask (snd r2) else (None, snd r2))"
  have "frame_after_head (snd (snd b)) (fst b ! 0) (fst b ! 1) = (Inr t, c')"
    using assms by (simp add: advanceFrame_def b_def case_prod_beta Let_def split: option.splits)
  note after = this [unfolded frame_after_head_def Let_def case_prod_beta c2_def [symmetric] r1_def [symmetric]
      r2_def [symmetric] r3_def [symmetric]]
  have "fst r1 = None"
    using after by (auto simp: protocol_error_def case_prod_beta split: option.splits)
  then have ck: "check_head c2 (fst b ! 0) = (None, snd r1)"
    by (metis prod.collapse r1_def)
  have "fst r2 = None"
    using after \<open>fst r1 = None\<close> by (auto split: option.splits)
  have fb: "frame_body (snd r3) (head_type (fst b ! 0)) = (Inr t, c')"
    using after \<open>fst r1 = None\<close> \<open>fst r2 = None\<close>
    by (auto simp: protocol_error_def case_prod_beta split: option.splits if_splits)
  have f4: "readFinal (snd r3) = readFinal (snd r1)"
    by (simp add: r3_def r2_def)
  from frame_body_type [OF fb] have t: "t = head_type (fst b ! 0)" "t \<noteq> CloseMessage" "readFinal c' = readFinal (snd r1)"
    using f4 by simp_all
  show ?thesis
    using ck t fr by (auto simp: check_head_def Let_def isControl_def isData_def message_types split: if_splits)
qed

theorem frames_in_order_witness:
  "advanceFrame (newConn (quiet_conn\<lparr>chunks := [[0x01], [1, 104]]\<rparr>) False 8 (\<lambda>_. 0)) =
     (Inr TextMessage, after_data (newConn (quiet_conn\<lparr>chunks := [[0x01], [1, 104]]\<rparr>) False 8 (\<lambda>_. 0)) None False 1) \<and>
   TextMessage \<in> {TextMessage, BinaryMessage, continuationFrame, PingMessage, PongMessage}"
proof -
  let ?c = "newConn (quiet_conn\<lparr>chunks := [[0x01], [1, 104]]\<rparr>) False 8 (\<lambda>_. 0)"
  have t: "takes ?c None TextMessage (int (length [104 :: byte]))"
    by (simp add: takes_def head_ok_def newConn_def isControl_def message_types)
  have i: "input ?c = frame_bytes None False TextMessage [104] @ []"
    by (simp add: incoming_def frame_bytes_def Let_def message_types)
  have a: "advanceFrame ?c = (Inr TextMessage, after_data ?c None False 1)"
    using advanceFrame_data(1) [OF t i] by simp
  with frames_in_order [OF a] show ?thesis
    by blast
qed

section \<open>Writing returns, or does not\<close>

text \<open>
  C24: With room in the buffer for a byte of payload \<open>WriteMessage\<close> returns, whatever message it is given
  and whichever writes of the network fail: the copying loop makes progress even after errors.
\<close>

theorem writing_returns:
  assumes "maxFrameHeaderSize \<le> writePos c" and "writePos c \<le> length (writeBuf c)"
    and "maxFrameHeaderSize < length (writeBuf c)"
  shows "\<exists>err c'. WriteMessage c t data = Some (err, c')"
  using WriteMessage_returns [of c t data] assms by (auto simp: buffer_ok_def)

theorem writing_returns_witness:
  "\<exists>err c'. WriteMessage (newConn (quiet_conn\<lparr>write_plan := [None, Some (3, EOF)]\<rparr>) True 1 (\<lambda>_. 0))
     TextMessage (bytes_of ''hello'') = Some (err, c')"
  by (rule writing_returns) (simp_all add: newConn_def)

text \<open>
  C37: \<open>NewClient\<close> takes the size of the write buffer as it is given; with the size 0 the connection it
  returns has no room for payload, and writing any non-empty data message never returns: the copying loop
  flushes empty frames for ever.
\<close>

theorem writing_without_room_diverges:
  assumes "write_plan nc = []" and "NewClient nc u h 0 random rs = Inr (c, resp)"
    and "isData t" and "data \<noteq> []"
  shows "WriteMessage c t data = None"
proof -
  obtain nc2 sub where c: "c = (newConn nc2 False 0 rs)\<lparr>subprotocol := sub\<rparr>" and p: "write_plan nc2 = []"
    using assms(1,2)
    by (auto simp: NewClient_def net_write_def Let_def split: option.splits if_splits)
  define c1 where "c1 = c\<lparr>writeFrameType := t\<rparr>"
  have "stuck c1 data"
    using assms(3,4) p
    by (auto simp: stuck_def c1_def c newConn_def buffer_ok_def isData_def isControl_def message_types)
  then have "copy_loop c1 data = None"
    by (rule copy_loop_stuck)
  moreover have "NextWriter c t = (Inr (writeSeq c1), c1)"
    using assms(3) by (simp add: NextWriter_def c1_def c newConn_def)
  moreover have "writer_err c1 (writeSeq c1) = None" "\<not> isServer c1"
    using assms(3) by (simp_all add: writer_err_def c1_def c newConn_def)
  ultimately show ?thesis
    by (simp add: WriteMessage_def writer_write_def)
qed

theorem writing_without_room_diverges_witness:
  "\<exists>c resp. NewClient (quiet_conn\<lparr>chunks := [bytes_of (upgrade_response (base64 [1]) [] None)]\<rparr>)
       \<lparr>Scheme = ''ws'', Opaque = [], Host = ''h'', UrlPath = ''/''\<rparr> [] 0 (Some [1]) (\<lambda>_. 0) = Inr (c, resp) \<and>
     WriteMessage c TextMessage [7] = None"
proof -
  let ?nc = "quiet_conn\<lparr>chunks := [bytes_of (upgrade_response (base64 [1]) [] None)]\<rparr>"
  have g: "good_server [] None"
    by (simp add: good_server_def trim_by_def header_fields_def)
  have q: "write_plan ?nc = []" "incoming ?nc = bytes_of (upgrade_response (base64 [1]) [] None) @ []"
    by (simp_all add: quiet_conn_def incoming_def)
  obtain c resp where c: "NewClient ?nc \<lparr>Scheme = ''ws'', Opaque = [], Host = ''h'', UrlPath = ''/''\<rparr> [] 0
      (Some [1]) (\<lambda>_. 0) = Inr (c, resp)"
    using client_accepts [OF g q] by blast
  have t: "isData TextMessage"
    by (simp add: isData_def)
  show ?thesis
    using c writing_without_room_diverges [OF q(1) c t, of "[7]"] by blast
qed

section \<open>The closing handshake\<close>

text \<open>
  C22: Once a close frame was sent nothing more goes out: \<open>WriteControl\<close> and \<open>WriteMessage\<close> return with an
  error for every kind of message, having written no byte, and the connection stays closed for writing.
\<close>

theorem nothing_after_close:
  assumes "closeSent c"
  shows "(\<exists>e c'. WriteControl c t data late = (Some e, c') \<and> netc c' = netc c \<and> closeSent c') \<and>
    (\<exists>e c'. WriteMessage c t data = Some (Some e, c') \<and> netc c' = netc c \<and> closeSent c')"
  using closed_is_silent(1) [OF assms, of t data late] closed_is_silent(2) [OF assms, of t data]
  by (auto simp: silent_def)

theorem nothing_after_close_witness:
  "closeSent (snd (WriteControl (newConn quiet_conn True 8 (\<lambda>_. 0)) CloseMessage [3, 232] False)) \<and>
   (\<exists>e c'. WriteMessage (snd (WriteControl (newConn quiet_conn True 8 (\<lambda>_. 0)) CloseMessage [3, 232] False))
      TextMessage (bytes_of ''late'') = Some (Some e, c') \<and> sent (netc c') = [0x88, 2, 3, 232])"
proof -
  let ?c = "newConn quiet_conn True 8 (\<lambda>_. 0)"
  have w: "snd (WriteControl ?c CloseMessage [3, 232] False) =
      ?c\<lparr>netc := quiet_conn\<lparr>sent := [0x88, 2, 3, 232]\<rparr>, closeSent := True, rands := rands ?c\<rparr>"
    by (subst WriteControl_ok)
      (simp_all add: isControl_def message_types frame_bytes_def frame_key_def finalBit_def next_rands_def
        Let_def quiet_conn_def)
  then have c: "closeSent (snd (WriteControl ?c CloseMessage [3, 232] False))"
    "sent (netc (snd (WriteControl ?c CloseMessage [3, 232] False))) = [0x88, 2, 3, 232]"
    by simp_all
  obtain e c' where "WriteMessage (snd (WriteControl ?c CloseMessage [3, 232] False))
      TextMessage (bytes_of ''late'') = Some (Some e, c')"
    and "netc c' = netc (snd (WriteControl ?c CloseMessage [3, 232] False))"
    using nothing_after_close [OF c(1), of TextMessage "bytes_of ''late''" False] by blast
  with c show ?thesis
    by auto
qed

section \<open>Control frames\<close>

text \<open>
  C20: A ping that arrives before a message is answered at once by a pong with the same payload and does
  not disturb the message: one call of \<open>ReadMessage\<close> sends the pong, returns the message that follows and
  leaves what comes after it.
\<close>

theorem ping_then_message:
  assumes "ready c" and "length p \<le> 125" and "handlePing c = DefaultHandler"
    and "\<not> closeSent c" and "write_plan (netc c) = []" and "isData t" and "within_limit c data"
    and "concat (chunks (netc c)) =
      frame_bytes (if isServer c then Some (mask_key n) else None) True PingMessage p @
      message_bytes (\<not> isServer c) rs True t (pieces peer data) @ rest"
  shows "\<exists>c'. ReadMessage avail c = (Inr (t, data, None), c') \<and>
    sent (netc c') = sent (netc c) @ frame_bytes (frame_key c) True PongMessage p \<and>
    concat (chunks (netc c')) = rest \<and> ready c'"
proof -
  define c0 where "c0 = c\<lparr>readSeq := Suc (readSeq c), readLength := 0\<rparr>"
  obtain q qs where q: "pieces peer data = q # qs"
    by (cases "pieces peer data") auto
  have h: "head_ok c0 (if isServer c then Some (mask_key n) else None) PingMessage True (length p)"
    using assms(1,2) by (simp add: head_ok_def c0_def ready_def isControl_def)
  have i: "input c0 = frame_bytes (if isServer c then Some (mask_key n) else None) True PingMessage p @
      (message_bytes (\<not> isServer c) rs True t (pieces peer data) @ rest)"
    using assms(8) by (simp add: c0_def incoming_def)
  obtain c1 where adv: "advanceFrame c0 = (Inr PingMessage, c1)"
    and in1: "input c1 = message_bytes (\<not> isServer c) rs True t (pieces peer data) @ rest"
    and c1: "sent (netc c1) = sent (netc c) @ frame_bytes (frame_key c) True PongMessage p" "readRemaining c1 = 0"
      "readFinal c1 = readFinal c" "readErr c1 = readErr c" "readSeq c1 = Suc (readSeq c)" "readLength c1 = 0"
      "readLimit c1 = readLimit c" "isServer c1 = isServer c"
    using ping_answered [OF h i] assms(3-5) by (auto simp: c0_def frame_key_def)
  define c2 where "c2 = c1\<lparr>readSeq := readSeq c\<rparr>"
  have "c2\<lparr>readSeq := Suc (readSeq c2), readLength := 0\<rparr> = c1"
    using c1 by (auto simp: c2_def intro!: wsconn.equality)
  moreover have "NextReader c = next_reader_loop c1"
    using adv c1(4) assms(1)
    by (simp add: NextReader_def c0_def [symmetric] next_reader_loop.simps [of c0] isData_def message_types)
      (simp add: c0_def ready_def isData_def message_types)
  ultimately have "ReadMessage avail c = ReadMessage avail c2"
    by (simp add: ReadMessage_def NextReader_def)
  moreover have "ready c2" "within_limit c2 (concat (q # qs))" "isServer c2 = isServer c"
    using assms(1,7) c1 q concat_pieces [of peer data]
    by (simp_all add: c2_def ready_def within_limit_def)
  moreover have "input c2 = message_bytes (\<not> isServer c2) rs True t (q # qs) @ rest"
    using in1 c1 q by (simp add: c2_def)
  ultimately obtain c3 where "ReadMessage avail c = (Inr (t, data, None), c3)" "ready c3"
    "input c3 = rest" "moved c2 c3"
    using ReadMessage_message [of c2 t q qs rs rest avail] assms(6) q concat_pieces [of peer data] by auto
  then show ?thesis
    using c1(1) by (auto simp: moved_iff c2_def incoming_def)
qed

theorem ping_then_message_witness:
  "\<exists>c'. ReadMessage (\<lambda>_. 2) (newConn (quiet_conn\<lparr>chunks := [[0x89], [2, 7], [8, 0x81, 2, 104], [105, 0]]\<rparr>) False 8 (\<lambda>_. 0)) =
       (Inr (TextMessage, bytes_of ''hi'', None), c') \<and>
     concat (chunks (netc c')) = [0]"
proof -
  let ?c = "newConn (quiet_conn\<lparr>chunks := [[0x89], [2, 7], [8, 0x81, 2, 104], [105, 0]]\<rparr>) False 8 (\<lambda>_. 0)"
  let ?p = "newConn quiet_conn True 8 (\<lambda>_. 0)"
  have "fragments 8 (bytes_of ''hi'') = [bytes_of ''hi'']"
    by (simp add: fragments_short)
  then have "pieces ?p (bytes_of ''hi'') = [bytes_of ''hi'']"
    by (simp add: pieces_def newConn_def)
  then have i: "concat (chunks (netc ?c)) =
      frame_bytes (if isServer ?c then Some (mask_key 0) else None) True PingMessage [7, 8] @
      message_bytes (\<not> isServer ?c) (\<lambda>_. 0) True TextMessage (pieces ?p (bytes_of ''hi'')) @ [0]"
    by (simp add: frame_bytes_def Let_def message_types finalBit_def)
  have "length [7, 8 :: byte] \<le> 125" "handlePing ?c = DefaultHandler" "\<not> closeSent ?c"
    "write_plan (netc ?c) = []" "isData TextMessage" "within_limit ?c (bytes_of ''hi'')"
    by (simp_all add: quiet_conn_def isData_def within_limit_def)
  from ping_then_message [OF new_ready this i] show ?thesis
    by blast
qed

text \<open>
  C21: A close frame that arrives between messages ends the reading: \<open>ReadMessage\<close> answers it with a close
  frame and returns an error, \<open>io.EOF\<close> for the codes of a normal closure and of going away, else the code
  and the reason; and every later call returns that same error without reading anything.
\<close>

theorem close_ends_reading:
  assumes "ready c" and "length p \<le> 125" and "\<not> closeSent c" and "write_plan (netc c) = []"
    and "concat (chunks (netc c)) =
      frame_bytes (if isServer c then Some (mask_key n) else None) True CloseMessage p @ rest"
  shows "\<exists>c'. ReadMessage avail c = (Inl (close_result p), c') \<and> closeSent c' \<and>
    sent (netc c') = sent (netc c) @ frame_bytes (frame_key c) True CloseMessage [] \<and>
    (\<forall>avail'. \<exists>c''. ReadMessage avail' c' = (Inl (close_result p), c'') \<and> netc c'' = netc c')"
proof -
  define c0 where "c0 = c\<lparr>readSeq := Suc (readSeq c), readLength := 0\<rparr>"
  have h: "head_ok c0 (if isServer c then Some (mask_key n) else None) CloseMessage True (length p)"
    using assms(1,2) by (simp add: head_ok_def c0_def ready_def isControl_def)
  have i: "input c0 = frame_bytes (if isServer c then Some (mask_key n) else None) True CloseMessage p @ rest"
    using assms(5) by (simp add: c0_def incoming_def)
  obtain c1 where adv: "advanceFrame c0 = (Inl (close_result p), c1)" "closeSent c1"
    "sent (netc c1) = sent (netc c) @ frame_bytes (frame_key c) True CloseMessage []"
    using close_answered [OF h i] assms(3,4) by (auto simp: c0_def frame_key_def)
  have t: "hideTempErr (Some (close_result p)) = Some (close_result p)"
    by (simp add: close_result_def Let_def)
  have "ReadMessage avail c = (Inl (close_result p), c1\<lparr>readErr := Some (close_result p)\<rparr>)"
    using adv assms(1) t
    by (simp add: ReadMessage_def NextReader_def c0_def [symmetric] next_reader_loop.simps [of c0])
      (simp add: c0_def ready_def)
  moreover have "\<exists>c''. ReadMessage avail' (c1\<lparr>readErr := Some (close_result p)\<rparr>) = (Inl (close_result p), c'') \<and>
      netc c'' = netc c1" for avail'
    by (simp add: ReadMessage_def NextReader_def next_reader_loop.simps)
  ultimately show ?thesis
    using adv by auto
qed

theorem close_ends_reading_witness:
  "\<exists>c'. ReadMessage (\<lambda>_. 0) (newConn (quiet_conn\<lparr>chunks := [[0x88, 5, 3], [0xea, 98, 121, 101, 7]]\<rparr>) False 8 (\<lambda>_. 0)) =
       (Inl (CloseError 1002 ''bye''), c') \<and> closeSent c'"
proof -
  let ?c = "newConn (quiet_conn\<lparr>chunks := [[0x88, 5, 3], [0xea, 98, 121, 101, 7]]\<rparr>) False 8 (\<lambda>_. 0)"
  have i: "concat (chunks (netc ?c)) =
      frame_bytes (if isServer ?c then Some (mask_key 0) else None) True CloseMessage [3, 0xea, 98, 121, 101] @ [7]"
    by (simp add: frame_bytes_def Let_def message_types finalBit_def)
  have r: "close_result [3, 0xea, 98, 121, 101] = CloseError 1002 ''bye''"
    by code_simp
  have "length [3, 0xea, 98, 121, 101 :: byte] \<le> 125" "\<not> closeSent ?c" "write_plan (netc ?c) = []"
    by (simp_all add: quiet_conn_def)
  from close_ends_reading [OF new_ready this i, of "\<lambda>_. 0"] r show ?thesis
    by auto
qed

section \<open>What the reader accepts and should not\<close>

text \<open>
  C35: When the connection ends inside the payload of a final frame, \<open>ReadMessage\<close> returns what came of the
  payload as if it were the whole message, with no error.
\<close>

theorem truncated_message_accepted:
  assumes "ready c" and "isData t" and "within_limit c data" and "read_end (netc c) = EOF"
    and "concat (chunks (netc c)) @ missing =
      frame_bytes (if isServer c then Some (mask_key n) else None) True t data"
    and "missing \<noteq> []" and "length missing \<le> length data"
  shows "\<exists>c'. ReadMessage avail c = (Inr (t, take (length data - length missing) data, None), c')"
  using ReadMessage_truncated [OF assms(1-3) refl, of missing n avail] assms(4-7) by (simp add: incoming_def)

theorem truncated_message_accepted_witness:
  "\<exists>c'. ReadMessage (\<lambda>_. 0) (newConn (quiet_conn\<lparr>chunks := [[0x81], [5, 104, 101]]\<rparr>) False 8 (\<lambda>_. 0)) =
     (Inr (TextMessage, bytes_of ''he'', None), c')"
proof -
  let ?c = "newConn (quiet_conn\<lparr>chunks := [[0x81], [5, 104, 101]]\<rparr>) False 8 (\<lambda>_. 0)"
  have "isData TextMessage" "within_limit ?c (bytes_of ''hello'')" "read_end (netc ?c) = EOF"
    "concat (chunks (netc ?c)) @ bytes_of ''llo'' =
       frame_bytes (if isServer ?c then Some (mask_key 0) else None) True TextMessage (bytes_of ''hello'')"
    by (simp_all add: isData_def within_limit_def quiet_conn_def frame_bytes_def Let_def message_types finalBit_def)
  from truncated_message_accepted [OF new_ready this] show ?thesis
    by simp
qed

text \<open>
  C36: The read limit can be passed: a first frame whose 64-bit length is \<open>2^64 - n\<close> counts as \<open>-n\<close> bytes and
  carries no payload, so that a continuation frame of \<open>n\<close> bytes is returned whole, whatever limit was set.
\<close>

theorem over_limit_message_accepted:
  assumes "ready c" and "\<not> isServer c" and "isData t" and "data \<noteq> []" and "length data < 2 ^ 63"
    and "concat (chunks (netc c)) =
      frame_head None False t 127 (be_bytes 8 (2 ^ 64 - length data)) @
      frame_bytes None True continuationFrame data @ rest"
  shows "\<exists>c'. ReadMessage avail (SetReadLimit c limit) = (Inr (t, data, None), c')"
  using assms ReadMessage_over_limit [of "SetReadLimit c limit" t data rest avail]
  by (simp add: SetReadLimit_def ready_def incoming_def)

theorem over_limit_message_accepted_witness:
  "\<exists>c'. ReadMessage (\<lambda>_. 0) (SetReadLimit (newConn (quiet_conn\<lparr>chunks :=
       [[0x01, 127, 255, 255, 255, 255, 255, 255, 255, 253], [0x80, 3, 98, 105, 103]]\<rparr>) False 8 (\<lambda>_. 0)) 1) =
     (Inr (TextMessage, bytes_of ''big'', None), c')"
proof -
  let ?c = "newConn (quiet_conn\<lparr>chunks :=
       [[0x01, 127, 255, 255, 255, 255, 255, 255, 255, 253], [0x80, 3, 98, 105, 103]]\<rparr>) False 8 (\<lambda>_. 0)"
  have b: "be_bytes 8 (2 ^ 64 - length (bytes_of ''big'')) = [255, 255, 255, 255, 255, 255, 255, 253]"
  proof -
    have "rev [0..<8] = [7, 6, 5, 4, 3, 2, 1, 0 :: nat]"
      by code_simp
    then show ?thesis
      by (simp add: be_bytes_def)
  qed
  have "\<not> isServer ?c" "isData TextMessage" "bytes_of ''big'' \<noteq> []" "length (bytes_of ''big'') < 2 ^ 63"
    by (simp_all add: isData_def)
  moreover have "concat (chunks (netc ?c)) =
      frame_head None False TextMessage 127 (be_bytes 8 (2 ^ 64 - length (bytes_of ''big''))) @
      frame_bytes None True continuationFrame (bytes_of ''big'') @ []"
    unfolding b by (simp add: frame_head_def frame_bytes_def Let_def message_types finalBit_def)
  ultimately show ?thesis
    by (rule over_limit_message_accepted [OF new_ready])
qed

section \<open>The opening handshake\<close>

text \<open>
  C8: The two sides of the opening handshake agree. The request a client writes is parsed by the server
  and upgraded by \<open>Upgrade\<close>, which answers with one response and nothing else; \<open>NewClient\<close>, given that
  response, accepts it, takes over the same subprotocol and leaves the bytes that follow to the reader;
  and both connections are then idle and ready, one as server and one as client, so that messages can go
  both ways.
\<close>

theorem handshake_completes:
  assumes "good_client u h" and "p \<noteq> []" and "CheckOrigin up = Some (\<lambda>_. True)"
    and "write_plan nc = []" and "0 < wb"
  shows "\<exists>r. read_request (client_request u (base64 p) h) = Some r \<and>
    (good_server (selectSubprotocol up r rh) rh \<longrightarrow>
     (\<exists>s resp. Upgrade up (Some (Inr (nc, 0))) rs r rh = \<lparr>replies = [], outcome = Inr s\<rparr> \<and>
        sent (netc s) = sent nc @ resp \<and> idle s \<and> isServer s \<and> ready s \<and>
        (\<forall>nc' rest. write_plan nc' = [] \<and> concat (chunks nc') = resp @ rest \<longrightarrow>
          (\<exists>c hr. NewClient nc' u h wb (Some p) rs' = Inr (c, hr) \<and>
             sent (netc c) = sent nc' @ bytes_of (client_request u (base64 p) h) \<and>
             subprotocol c = subprotocol s \<and> idle c \<and> \<not> isServer c \<and> ready c \<and>
             concat (chunks (netc c)) = rest))))"
proof -
  obtain r where r: "read_request (client_request u (base64 p) h) = Some r" "valid_handshake up r"
    "header_get (Header r) ''Sec-Websocket-Key'' = base64 p"
    using client_request_valid [OF assms(1-3)] by blast
  define sub where "sub = selectSubprotocol up r rh"
  define resp where "resp = bytes_of (upgrade_response (base64 p) sub rh)"
  define s where "s = (newConn (nc\<lparr>sent := sent nc @ resp\<rparr>) True (or_default (UWriteBufferSize up)) rs)
    \<lparr>subprotocol := sub\<rparr>"
  have "Upgrade up (Some (Inr (nc, 0))) rs r rh = \<lparr>replies = [], outcome = Inr s\<rparr>"
    using assms(4) by (simp add: Upgrade_valid [OF r(2) refl] r(3) Let_def net_write_def s_def resp_def sub_def newConn_def)
  moreover have "idle s" "ready s"
    using assms(4) by (simp_all add: s_def new_idle new_ready or_default_def)
  moreover have "\<exists>c hr. NewClient nc' u h wb (Some p) rs' = Inr (c, hr) \<and>
             sent (netc c) = sent nc' @ bytes_of (client_request u (base64 p) h) \<and>
             subprotocol c = subprotocol s \<and> idle c \<and> \<not> isServer c \<and> ready c \<and>
             concat (chunks (netc c)) = rest"
    if g: "good_server sub rh" and q: "write_plan nc' = []" "concat (chunks nc') = resp @ rest" for nc' rest
  proof -
    have "incoming nc' = bytes_of (upgrade_response (base64 p) sub rh) @ rest"
      using q by (simp add: incoming_def resp_def)
    from client_accepts [OF g q(1) this, of u h wb rs'] assms(5) show ?thesis
      by (auto simp: new_idle new_ready s_def incoming_def)
  qed
  moreover have "sent (netc s) = sent nc @ resp" "isServer s"
    by (simp_all add: s_def)
  ultimately show ?thesis
    using r(1) unfolding sub_def by blast
qed

text \<open>A client of the proxy's own kind, and an upgrader that lets every origin in.\<close>

theorem handshake_completes_witness:
  "\<exists>r s c hr. read_request (client_request \<lparr>Scheme = ''ws'', Opaque = ''/network/chat/1'', Host = ''h:2000'', UrlPath = []\<rparr>
       (base64 [1, 2, 3]) [(''X-Networkwebsocket-Proxy'', [''true''])]) = Some r \<and>
     outcome (Upgrade (deprecated_upgrader 0 0) (Some (Inr (quiet_conn, 0))) (\<lambda>_. 0) r None) = Inr s \<and>
     NewClient (quiet_conn\<lparr>chunks := [sent (netc s), [0x81, 0]]\<rparr>)
       \<lparr>Scheme = ''ws'', Opaque = ''/network/chat/1'', Host = ''h:2000'', UrlPath = []\<rparr>
       [(''X-Networkwebsocket-Proxy'', [''true''])] 4096 (Some [1, 2, 3]) (\<lambda>_. 0) = Inr (c, hr) \<and>
     concat (chunks (netc c)) = [0x81, 0]"
proof -
  let ?u = "\<lparr>Scheme = ''ws'', Opaque = ''/network/chat/1'', Host = ''h:2000'', UrlPath = []\<rparr>"
  let ?h = "[(''X-Networkwebsocket-Proxy'', [''true''])]"
  let ?up = "deprecated_upgrader 0 0"
  have "''X-Networkwebsocket-Proxy'' = canon_key True ''X-Networkwebsocket-Proxy''"
    by code_simp
  then have "good_client ?u ?h"
    by (simp add: good_client_def good_field_def header_fields_def reserved_keys_def request_uri_def
        CR_def LF_def blank_def)
  moreover have "CheckOrigin ?up = Some (\<lambda>_. True)" "[1, 2, 3 :: byte] \<noteq> []" "write_plan quiet_conn = []"
    by (simp_all add: deprecated_upgrader_def quiet_conn_def)
  moreover have g: "good_server (selectSubprotocol ?up r None) None" for r
    by (simp add: good_server_def selectSubprotocol_def deprecated_upgrader_def trim_by_def header_fields_def)
  ultimately obtain r where r: "read_request (client_request ?u (base64 [1, 2, 3]) ?h) = Some r"
    and ex: "good_server (selectSubprotocol ?up r None) None \<longrightarrow>
      (\<exists>s resp. Upgrade ?up (Some (Inr (quiet_conn, 0))) (\<lambda>_. 0) r None = \<lparr>replies = [], outcome = Inr s\<rparr> \<and>
        sent (netc s) = sent quiet_conn @ resp \<and> idle s \<and> isServer s \<and> ready s \<and>
        (\<forall>nc' rest. write_plan nc' = [] \<and> concat (chunks nc') = resp @ rest \<longrightarrow>
          (\<exists>c hr. NewClient nc' ?u ?h 4096 (Some [1, 2, 3]) (\<lambda>_. 0) = Inr (c, hr) \<and>
             sent (netc c) = sent nc' @ bytes_of (client_request ?u (base64 [1, 2, 3]) ?h) \<and>
             subprotocol c = subprotocol s \<and> idle c \<and> \<not> isServer c \<and> ready c \<and>
             concat (chunks (netc c)) = rest)))"
    using handshake_completes [of ?u ?h "[1, 2, 3]" ?up quiet_conn 4096 None "\<lambda>_. 0" "\<lambda>_. 0"] by auto
  from ex g obtain s resp where s: "Upgrade ?up (Some (Inr (quiet_conn, 0))) (\<lambda>_. 0) r None = \<lparr>replies = [], outcome = Inr s\<rparr>"
      "sent (netc s) = sent quiet_conn @ resp"
    and c: "\<forall>nc' rest. write_plan nc' = [] \<and> concat (chunks nc') = resp @ rest \<longrightarrow>
          (\<exists>c hr. NewClient nc' ?u ?h 4096 (Some [1, 2, 3]) (\<lambda>_. 0) = Inr (c, hr) \<and>
             sent (netc c) = sent nc' @ bytes_of (client_request ?u (base64 [1, 2, 3]) ?h) \<and>
             subprotocol c = subprotocol s \<and> idle c \<and> \<not> isServer c \<and> ready c \<and>
             concat (chunks (netc c)) = rest)"
    by blast
  have "write_plan (quiet_conn\<lparr>chunks := [sent (netc s), [0x81, 0]]\<rparr>) = []"
    "concat (chunks (quiet_conn\<lparr>chunks := [sent (netc s), [0x81, 0]]\<rparr>)) = resp @ [0x81, 0]"
    using s(2) by (simp_all add: quiet_conn_def)
  with c obtain c hr where "NewClient (quiet_conn\<lparr>chunks := [sent (netc s), [0x81, 0]]\<rparr>) ?u ?h 4096
      (Some [1, 2, 3]) (\<lambda>_. 0) = Inr (c, hr)" "concat (chunks (netc c)) = [0x81, 0]"
    by blast
  moreover have "outcome (Upgrade ?up (Some (Inr (quiet_conn, 0))) (\<lambda>_. 0) r None) = Inr s"
    by (simp add: s(1))
  ultimately show ?thesis
    using r by blast
qed

end
