(* ===== verification/Dns_Compression.thy ===== *)
theory Dns_Compression
  imports Dns_Name_Codec
begin

text \<open>
  Names written with compression. A name that ends like one written before ends in a pointer to it, and that
  one may end in a pointer again; reading follows ten pointers and no more.
\<close>

section \<open>Names with pointers\<close>

text \<open>
  \<open>name_at m p ls k e\<close>: at \<open>p\<close> of \<open>m\<close> stands the name of the labels \<open>ls\<close>, written with \<open>k\<close> pointers, one
  behind the other; what follows it begins at \<open>e\<close>.
\<close>

definition pointer_bytes :: "nat \<Rightarrow> bytes" where
  "pointer_bytes q = [word_of_nat (192 + q div 256), word_of_nat (q mod 256)]"

inductive name_at :: "bytes \<Rightarrow> nat \<Rightarrow> string list \<Rightarrow> nat \<Rightarrow> nat \<Rightarrow> bool" for m where
  root: "p < length m \<Longrightarrow> m ! p = 0 \<Longrightarrow> name_at m p [] 0 (p + 1)"
| label: "wire_label l \<Longrightarrow> take (length l + 1) (drop p m) = word_of_nat (length l) # bytes_of l \<Longrightarrow>
    name_at m (p + 1 + length l) ls k e \<Longrightarrow> name_at m p (l # ls) k e"
| pointer: "q < 16384 \<Longrightarrow> take 2 (drop p m) = pointer_bytes q \<Longrightarrow> name_at m q ls k e \<Longrightarrow> ls \<noteq> [] \<Longrightarrow>
    name_at m p ls (Suc k) (p + 2)"

lemma take_drop_append:
  "take n (drop p m) = xs \<Longrightarrow> length xs = n \<Longrightarrow> 0 < n \<Longrightarrow> take n (drop p (m @ x)) = xs"
  by (auto simp: min_def split: if_splits)

lemma name_at_append: "name_at m p ls k e \<Longrightarrow> name_at (m @ x) p ls k e"
proof (induction rule: name_at.induct)
  case (root p)
  then show ?case by (intro name_at.root) (simp_all add: nth_append)
next
  case (label l p ls k e)
  then show ?case by (intro name_at.label take_drop_append) simp_all
next
  case (pointer q p ls k e)
  then show ?case by (intro name_at.pointer take_drop_append) (simp_all add: pointer_bytes_def)
qed

lemma pointer_byte:
  assumes "q < 16384"
  shows "unat ((word_of_nat (192 + q div 256) :: byte) AND 0xC0) = 0xC0"
    "unat (word_of_nat (192 + q div 256) :: byte) = 192 + q div 256" "unat (word_of_nat (q mod 256) :: byte) = q mod 256"
proof -
  have all: "\<forall>n\<in>{192..<256}. unat ((word_of_nat n :: byte) AND 0xC0) = 0xC0"
    by code_simp
  have n: "192 + q div 256 \<in> {192..<256}"
    using assms by simp
  with all show "unat ((word_of_nat (192 + q div 256) :: byte) AND 0xC0) = 0xC0"
    by blast
  show "unat (word_of_nat (192 + q div 256) :: byte) = 192 + q div 256" "unat (word_of_nat (q mod 256) :: byte) = q mod 256"
    unfolding unsigned_of_nat take_bit_eq_mod using n by simp_all
qed

text \<open>What reading makes of such a name, from any state of the loop.\<close>

lemma unpack_name_at:
  "name_at m p ls k e \<Longrightarrow> ptr \<le> 10 \<Longrightarrow>
   unpack_loop m p s ptr off1 =
     (if ptr + k > 10 then Inl (DnsError ''too many compression pointers'')
      else if s @ labels_text ls = [] then Inr (''.'', p + 1)
      else Inr (s @ labels_text ls, if ptr = 0 then e else off1))"
proof (induction arbitrary: s ptr off1 rule: name_at.induct)
  case (root p)
  then show ?case
    by (subst unpack_loop.simps) auto
next
  case (label l p ls k e)
  have n: "length l < 64" "l \<noteq> []"
    using label(1) by (auto simp: wire_label_def)
  have d: "drop p m = (word_of_nat (length l) # bytes_of l) @ drop (p + 1 + length l) m"
    using append_take_drop_id [of "length l + 1" "drop p m"] unfolding label(2) by (simp add: ac_simps)
  have len: "p + 1 + length l \<le> length m"
    using arg_cong [OF label(2), of length] by simp
  have at: "m ! p = word_of_nat (length l)"
    using d len nth_drop [of p m 0] by (simp del: nth_drop)
  have slice: "go_slice m (p + 1) (p + 1 + length l) = bytes_of l"
    using arg_cong [OF d, of "drop 1"] by (simp add: go_slice_def)
  have "unpack_loop m p s ptr off1 = unpack_loop m (p + 1 + length l) (s @ label_text l @ ''.'') ptr off1"
    using n length_byte [OF n(1)] slice len
    by (subst unpack_loop.simps) (auto simp: at Let_def label_text_def)
  then show ?case
    using label.IH [of ptr "s @ label_text l @ ''.''" off1] label.prems by simp
next
  case (pointer q p ls k e)
  have d: "drop p m = pointer_bytes q @ drop (p + 2) m"
    using append_take_drop_id [of 2 "drop p m"] unfolding pointer(2) by (simp add: ac_simps)
  have len: "p + 1 < length m"
    using arg_cong [OF pointer(2), of length] by (simp add: pointer_bytes_def)
  have at: "m ! p = word_of_nat (192 + q div 256)" "m ! (p + 1) = word_of_nat (q mod 256)"
    using d len nth_drop [of p m 0] nth_drop [of p m 1] by (simp_all add: pointer_bytes_def del: nth_drop)
  have "256 * (unat (m ! p) - 0xC0) + unat (m ! (p + 1)) = q"
    unfolding at pointer_byte(2,3) [OF pointer(1)] by simp
  then have "unpack_loop m p s ptr off1 =
      (if ptr + 1 > 10 then Inl (DnsError ''too many compression pointers'')
       else unpack_loop m q s (ptr + 1) (if ptr = 0 then p + 2 else off1))"
    using len pointer_byte(1) [OF pointer(1)] by (subst unpack_loop.simps) (simp add: at Let_def)
  then show ?case
    using pointer.IH [of "ptr + 1"] pointer(4) by (cases ls) auto
qed

section \<open>Packing with compression\<close>

text \<open>
  The bytes a name is written with, and the map afterwards: each suffix is looked for, from the longest to
  the shortest, and is noted with its offset until one is found.
\<close>

fun squeeze :: "(string \<rightharpoonup> nat) \<Rightarrow> string list \<Rightarrow> bytes" where
  "squeeze cm [] = [0]"
| "squeeze cm (l # ls) =
     (case cm (dotted (l # ls)) of
        Some q \<Rightarrow> pointer_bytes q
      | None \<Rightarrow> word_of_nat (length l) # bytes_of l @ squeeze cm ls)"

fun remember :: "(string \<rightharpoonup> nat) \<Rightarrow> nat \<Rightarrow> string list \<Rightarrow> (string \<rightharpoonup> nat)" where
  "remember cm off [] = cm"
| "remember cm off (l # ls) =
     (case cm (dotted (l # ls)) of
        Some q \<Rightarrow> cm
      | None \<Rightarrow> (remember cm (off + 1 + length l) ls)(dotted (l # ls) \<mapsto> off))"

text \<open>A longer name in the map makes no difference.\<close>

lemma squeeze_longer: "length (dotted ls) < length s \<Longrightarrow> squeeze (cm(s \<mapsto> p)) ls = squeeze cm ls"
  by (induction ls) (auto split: option.splits)

lemma remember_longer:
  "length (dotted ls) < length s \<Longrightarrow> remember (cm(s \<mapsto> p)) off ls = (remember cm off ls)(s \<mapsto> p)"
  by (induction ls arbitrary: off) (auto split: option.splits intro: fun_upd_twist)

lemma length_squeeze: "list_all wire_label ls \<Longrightarrow> length (squeeze cm ls) \<le> length (wire_name ls)"
  by (induction ls) (auto simp: wire_name_def wire_label_def pointer_bytes_def Suc_le_eq split: option.splits)

definition clean_label :: "string \<Rightarrow> bool" where
  "clean_label l \<longleftrightarrow> wire_label l \<and> (\<forall>c\<in>set l. escape_char c = [c])"

lemma clean_plain: "clean_label l \<Longrightarrow> plain_label l"
  by (auto simp: clean_label_def plain_label_def wire_label_def escape_char_def)

lemma clean_text: "list_all clean_label ls \<Longrightarrow> labels_text ls = dotted ls"
proof -
  have "\<forall>c\<in>set l. escape_char c = [c] \<Longrightarrow> label_text l = l" for l
    by (induction l) simp_all
  then show "list_all clean_label ls \<Longrightarrow> labels_text ls = dotted ls"
    by (induction ls) (simp_all add: clean_label_def)
qed

lemma pack_loop_plain:
  "\<forall>c\<in>set cs. c \<noteq> CHR ''.'' \<and> c \<noteq> CHR 0x5C \<Longrightarrow> drop (pk_i st) (pk_bs st) = cs @ R \<Longrightarrow>
   pk_ls st = length (pk_bs st) \<Longrightarrow> pk_pointer st = None \<Longrightarrow> cs \<noteq> [] \<Longrightarrow>
   pack_loop n compress st = pack_loop n compress (st\<lparr>pk_i := pk_i st + length cs, pk_escaped := False\<rparr>)"
proof (induction cs arbitrary: st)
  case (Cons c cs)
  have i: "pk_i st < length (pk_bs st)"
    using Cons.prems(2) by (auto simp: not_le [symmetric])
  then have c: "pk_bs st ! pk_i st = c" "drop (Suc (pk_i st)) (pk_bs st) = cs @ R"
    using Cons.prems(2) Cons_nth_drop_Suc [OF i] by simp_all
  let ?st = "st\<lparr>pk_i := pk_i st + 1, pk_escaped := False\<rparr>"
  have swap: "st\<lparr>pk_escaped := False, pk_i := pk_i st + 1\<rparr> = ?st"
    by simp
  have one: "pack_loop n compress st = pack_loop n compress ?st"
    unfolding swap [symmetric] using Cons.prems(1,3,4) c(1) i by (subst pack_loop.simps) (simp add: pack_step_def)
  show ?case
  proof (cases "cs = []")
    case True
    then show ?thesis
      using one by simp
  next
    case False
    then have "pack_loop n compress ?st = pack_loop n compress (?st\<lparr>pk_i := pk_i ?st + length cs, pk_escaped := False\<rparr>)"
      using Cons.prems c(2) by (intro Cons.IH) simp_all
    then show ?thesis
      using one by simp
  qed
qed simp

lemma pointer_word:
  assumes "q < 16384"
  shows "be_bytes 2 (unat ((word_of_nat q :: u16) XOR 0xC000)) = pointer_bytes q"
proof -
  have "q AND push_bit 14 3 = 0"
  proof (rule bit_eqI)
    fix n
    have "take_bit 14 q = q"
      using assms by (simp add: take_bit_nat_eq_self)
    then have "bit q n \<Longrightarrow> n < 14"
      by (metis bit_take_bit_iff)
    moreover have "bit (push_bit 14 (3 :: nat)) n \<Longrightarrow> 14 \<le> n"
      by (simp only: bit_push_bit_iff)
    ultimately show "bit (q AND push_bit 14 3) n = bit (0 :: nat) n"
      by (metis bit_and_iff bit_0_eq bot_apply not_le bot_bool_def)
  qed
  then have "q XOR push_bit 14 3 = q + push_bit 14 3"
    by (simp add: disjunctive_add_eq_xor)
  then have x: "q XOR 49152 = q + 49152"
    by (simp add: push_bit_eq_mult)
  have "unat ((word_of_nat q :: u16) XOR 0xC000) = q + 49152"
    using assms x by (simp add: unsigned_xor_eq unsigned_of_nat take_bit_nat_eq_self)
  moreover have "(q + 49152) div 256 = 192 + q div 256" "(q + 192 * 256) mod 256 = q mod 256"
    by (simp, rule mod_mult_self1)
  ultimately show ?thesis
    using assms by (simp add: be_bytes_def pointer_bytes_def upt_rec numeral_2_eq_2)
qed

text \<open>The dot behind a label, when the name from there on was found in the map, and when it was not.\<close>

lemma dot_step_plain:
  assumes l: "clean_label l" and bs: "pk_bs st = P @ l @ CHR ''.'' # R" and i: "pk_i st = length P + length l"
    and b: "pk_begin st = length P" and ro: "pk_ro st = pk_bs st" "pk_fresh st" and e: "\<not> pk_escaped st"
    and off: "pk_off st + 1 + length l \<le> lenmsg" "pk_off st < 16384"
  shows "pack_step lenmsg True st =
     (let st1 = st\<lparr>pk_msg := put_label (pk_msg st) (pk_off st) l, pk_off := pk_off st + 1 + length l\<rparr>;
          key = l @ CHR ''.'' # R in
      Inr (case pk_map st key of
             Some q \<Rightarrow> st1\<lparr>pk_pointer := Some (q, pk_off st)\<rparr>
           | None \<Rightarrow> st1\<lparr>pk_map := (pk_map st)(key \<mapsto> pk_off st), pk_labels := pk_labels st + 1,
                         pk_begin := length P + length l + 1, pk_i := length P + length l + 1\<rparr>))"
proof -
  have p: "l \<noteq> []" "length l < 64" "CHR ''.'' \<notin> set l"
    using l clean_plain [OF l] by (auto simp: clean_label_def wire_label_def plain_label_def)
  have stop: "last l \<noteq> CHR ''.''"
    using last_in_set [OF p(1)] p(3) by metis
  have dot: "pk_bs st ! pk_i st = CHR ''.''"
    using bs i by (simp add: nth_append)
  have before: "pk_bs st ! (pk_i st - 1) = last l"
    using bs i p(1) by (cases l rule: rev_cases) (auto simp: nth_append)
  have lab: "go_slice (pk_bs st) (pk_begin st) (pk_i st) = l"
    using bs i b by (simp add: go_slice_def)
  have key: "drop (pk_begin st) (pk_ro st) = l @ CHR ''.'' # R" "l @ CHR ''.'' # R \<noteq> ''.''"
    using bs b ro p(1) by (auto simp: append_eq_Cons_conv)
  have len: "pk_i st - pk_begin st = length l"
    using i b by simp
  show ?thesis
    using dot before lab key len off p(2) stop e ro(2)
    by (cases "pk_map st (l @ CHR ''.'' # R)")
      (auto simp: pack_step_def dot_step_def Let_def maxCompressionOffset_def i intro!: packing.equality)
qed

lemma pack_end_pointer:
  assumes "pk_pointer st = Some (q, at)" and "pk_bs st \<noteq> ''.''" and "pk_msg st = Some m" and "at + 1 < length m"
    and "q < 16384"
  shows "\<exists>m'. pack_end st = Some (at + 2, pk_labels st, Some m', pk_map st) \<and> length m' = length m
    \<and> take (at + 2) m' = take at m @ pointer_bytes q"
  using assms pointer_word [OF assms(5)]
  by (intro exI [of _ "take at m @ pointer_bytes q @ drop (at + 2) m"])
    (simp add: pack_end_def pointer_bytes_def)

lemma pack_end_plain:
  assumes "pk_pointer st = None" and "pk_bs st \<noteq> ''.''" and "pk_msg st = Some m" and "pk_off st < length m"
  shows "pack_end st = Some (pk_off st + 1, pk_labels st, Some (m[pk_off st := 0]), pk_map st)"
  using assms by (simp add: pack_end_def)

lemma put_label_take:
  assumes "off + 1 + length l \<le> length m"
  shows "\<exists>m'. put_label (Some m) off l = Some m' \<and> length m' = length m \<and> take off m' = take off m
    \<and> take (off + 1 + length l) m' = take off m @ word_of_nat (length l) # bytes_of l"
  using assms by (intro exI [of _ "take off m @ (word_of_nat (length l) # bytes_of l) @ drop (off + 1 + length l) m"])
    (simp add: put_label_def)

lemma pack_squeeze:
  "list_all clean_label ls \<Longrightarrow> pk_bs st = P @ dotted ls \<Longrightarrow> pk_ls st = length (pk_bs st) \<Longrightarrow> pk_i st = length P \<Longrightarrow>
   pk_begin st = length P \<Longrightarrow> pk_ro st = pk_bs st \<Longrightarrow> pk_fresh st \<Longrightarrow> \<not> pk_escaped st \<Longrightarrow> pk_pointer st = None \<Longrightarrow>
   pk_msg st = Some m \<Longrightarrow> pk_off st + length (wire_name ls) \<le> length m \<Longrightarrow> pk_off st + length (wire_name ls) \<le> 16384 \<Longrightarrow>
   \<forall>q\<in>ran (pk_map st). q < 16384 \<Longrightarrow> 2 \<le> length P \<or> ls \<noteq> [] \<Longrightarrow>
   \<exists>st' n m'. pack_loop (length m) True st = Inr st'
     \<and> pack_end st' = Some (pk_off st + length (squeeze (pk_map st) ls), n, Some m', remember (pk_map st) (pk_off st) ls)
     \<and> length m' = length m
     \<and> take (pk_off st + length (squeeze (pk_map st) ls)) m' = take (pk_off st) m @ squeeze (pk_map st) ls"
proof (induction ls arbitrary: st P m)
  case Nil
  have "pk_bs st \<noteq> ''.''" "pk_off st < length m"
    using Nil.prems by (auto simp: wire_name_def)
  from pack_end_plain [OF Nil.prems(9) this(1) Nil.prems(10) this(2)] this(2) show ?case
    using Nil.prems by (intro exI [of _ st], subst pack_loop.simps) (simp add: take_Suc_conv_app_nth)
next
  case (Cons l ls)
  define R where "R = dotted ls"
  have l: "clean_label l" "list_all clean_label ls" "l \<noteq> []" "\<forall>c\<in>set l. c \<noteq> CHR ''.'' \<and> c \<noteq> CHR 0x5C"
    using Cons.prems(1) clean_plain [of l] by (auto simp: plain_label_def)
  have bs: "pk_bs st = P @ l @ CHR ''.'' # R"
    using Cons.prems(2) by (simp add: R_def)
  have room: "pk_off st + 1 + length l + length (wire_name ls) \<le> length m" "pk_off st + 1 + length l + length (wire_name ls) \<le> 16384"
      "1 \<le> length (wire_name ls)"
    using Cons.prems(11,12) by (simp_all add: wire_name_def)
  define st1 where "st1 = st\<lparr>pk_i := pk_i st + length l, pk_escaped := False\<rparr>"
  have one: "pack_loop (length m) True st = pack_loop (length m) True st1"
    unfolding st1_def by (rule pack_loop_plain [of l _ "CHR ''.'' # R"])
      (use l(3,4) bs Cons.prems(3,4,9) in simp_all)
  obtain m1 where m1: "put_label (Some m) (pk_off st) l = Some m1" "length m1 = length m" "take (pk_off st) m1 = take (pk_off st) m"
      "take (pk_off st + 1 + length l) m1 = take (pk_off st) m @ word_of_nat (length l) # bytes_of l"
    using put_label_take [of "pk_off st" l m] room by auto
  have st1: "pk_bs st1 = P @ l @ CHR ''.'' # R" "pk_i st1 = length P + length l" "pk_begin st1 = length P"
      "pk_ro st1 = pk_bs st1" "pk_fresh st1" "\<not> pk_escaped st1" "pk_off st1 + 1 + length l \<le> length m" "pk_off st1 < 16384"
      "pk_msg st1 = Some m" "pk_map st1 = pk_map st" "pk_off st1 = pk_off st" "pk_pointer st1 = None" "pk_labels st1 = pk_labels st"
      "pk_ls st1 = length (pk_bs st1)"
    using Cons.prems bs room by (simp_all add: st1_def)
  note step = dot_step_plain [OF l(1) st1(1-8), unfolded Let_def st1(9-11) m1(1)]
  have more: "pk_i st1 < pk_ls st1"
    by (simp add: st1(1,2,14))
  have root: "pk_bs st1 \<noteq> ''.''"
    using l(3) by (simp add: st1(1) append_eq_Cons_conv)
  show ?case
  proof (cases "pk_map st (l @ CHR ''.'' # R)")
    case (Some q)
    then have found: "squeeze (pk_map st) (l # ls) = pointer_bytes q" "remember (pk_map st) (pk_off st) (l # ls) = pk_map st"
      by (simp_all add: R_def)
    define st2 where "st2 = st1\<lparr>pk_msg := Some m1, pk_off := pk_off st + 1 + length l, pk_pointer := Some (q, pk_off st)\<rparr>"
    have "pack_loop (length m) True st1 = Inr st2"
      using step more Some by (subst pack_loop.simps) (simp add: st2_def)
    moreover have "q < 16384"
      using Cons.prems(13) Some by (auto simp: ran_def)
    then obtain m2 where "pack_end st2 = Some (pk_off st + 2, pk_labels st2, Some m2, pk_map st2) \<and> length m2 = length m1
        \<and> take (pk_off st + 2) m2 = take (pk_off st) m1 @ pointer_bytes q"
      using pack_end_pointer [of st2 q "pk_off st" m1] root room l(3) m1(2)
      by (cases l) (auto simp: st2_def)
    ultimately show ?thesis
      using one m1(2,3) by (simp add: found st2_def st1(10) pointer_bytes_def del: squeeze.simps remember.simps)
  next
    case None
    then have new: "squeeze (pk_map st) (l # ls) = word_of_nat (length l) # bytes_of l @ squeeze (pk_map st) ls"
        "remember (pk_map st) (pk_off st) (l # ls) =
          (remember (pk_map st) (pk_off st + 1 + length l) ls)(l @ CHR ''.'' # R \<mapsto> pk_off st)"
      by (simp_all add: R_def)
    define st2 where "st2 = st1\<lparr>pk_msg := Some m1, pk_off := pk_off st + 1 + length l,
        pk_map := (pk_map st)(l @ CHR ''.'' # R \<mapsto> pk_off st), pk_labels := pk_labels st1 + 1,
        pk_begin := length P + length l + 1, pk_i := length P + length l + 1\<rparr>"
    have two: "pack_loop (length m) True st1 = pack_loop (length m) True st2"
      using step more None st1(12) by (subst pack_loop.simps) (simp add: st2_def)
    have more: "\<exists>st' n m'. pack_loop (length m1) True st2 = Inr st'
        \<and> pack_end st' = Some (pk_off st2 + length (squeeze (pk_map st2) ls), n, Some m', remember (pk_map st2) (pk_off st2) ls)
        \<and> length m' = length m1
        \<and> take (pk_off st2 + length (squeeze (pk_map st2) ls)) m' = take (pk_off st2) m1 @ squeeze (pk_map st2) ls"
    proof (rule Cons.IH [of st2 "P @ l @ ''.''"])
      show "\<forall>q\<in>ran (pk_map st2). q < 16384"
        using Cons.prems(13) st1(8,11) by (auto simp: st2_def ran_def)
    qed (insert room l(2,3), simp_all add: st2_def R_def st1 m1(2) Suc_le_eq)
    have eqs: "squeeze (pk_map st2) ls = squeeze (pk_map st) ls"
        "remember (pk_map st2) (pk_off st2) ls = (remember (pk_map st) (pk_off st2) ls)(l @ CHR ''.'' # R \<mapsto> pk_off st)"
        "take (pk_off st2) m1 = take (pk_off st) m @ word_of_nat (length l) # bytes_of l" "pk_off st2 = pk_off st + 1 + length l"
      using m1(4) by (simp_all add: st2_def R_def squeeze_longer remember_longer)
    have "pk_off st + length (squeeze (pk_map st) (l # ls)) = pk_off st2 + length (squeeze (pk_map st) ls)"
        "take (pk_off st) m @ squeeze (pk_map st) (l # ls) = take (pk_off st2) m1 @ squeeze (pk_map st) ls"
        "remember (pk_map st) (pk_off st) (l # ls) = (remember (pk_map st) (pk_off st2) ls)(l @ CHR ''.'' # R \<mapsto> pk_off st)"
      unfolding new using eqs(3,4) by simp_all
    from this more [unfolded eqs(1,2) m1(2)] show ?thesis
      unfolding one two by (simp only:)
  qed
qed

section \<open>The map and the names it stands for\<close>

text \<open>
  The number of pointers behind one another when a name is read, as a function of those of the suffixes
  written before, and these afterwards.
\<close>

fun pointers :: "(string list \<rightharpoonup> nat) \<Rightarrow> string list \<Rightarrow> nat" where
  "pointers d [] = 0"
| "pointers d (l # ls) = (case d (l # ls) of Some k \<Rightarrow> Suc k | None \<Rightarrow> pointers d ls)"

fun note_suffixes :: "(string list \<rightharpoonup> nat) \<Rightarrow> string list \<Rightarrow> (string list \<rightharpoonup> nat)" where
  "note_suffixes d [] = d"
| "note_suffixes d (l # ls) =
     (case d (l # ls) of
        Some k \<Rightarrow> d
      | None \<Rightarrow> (note_suffixes d ls)(l # ls \<mapsto> pointers d ls))"

definition map_ok :: "bytes \<Rightarrow> (string \<rightharpoonup> nat) \<Rightarrow> (string list \<rightharpoonup> nat) \<Rightarrow> bool" where
  "map_ok w cm d \<longleftrightarrow>
     (\<forall>s q. cm s = Some q \<longrightarrow>
        (\<exists>ls k e. s = dotted ls \<and> list_all clean_label ls \<and> ls \<noteq> [] \<and> q < 16384 \<and> d ls = Some k \<and> name_at w q ls k e))
     \<and> (\<forall>ls. list_all clean_label ls \<and> cm (dotted ls) = None \<longrightarrow> d ls = None)"

lemma dotted_inject:
  "list_all plain_label ls \<Longrightarrow> list_all plain_label ks \<Longrightarrow> dotted ls = dotted ks \<Longrightarrow> ls = ks"
proof (induction ls arbitrary: ks)
  case (Cons l ls)
  then obtain k ks' where ks: "ks = k # ks'"
    by (cases ks) auto
  have n: "CHR ''.'' \<notin> set l" "CHR ''.'' \<notin> set k"
    using Cons.prems(1,2) by (auto simp: ks plain_label_def)
  have "takeWhile (\<lambda>c. c \<noteq> CHR ''.'') (dotted (l # ls)) = l" "takeWhile (\<lambda>c. c \<noteq> CHR ''.'') (dotted ks) = k"
    using n by (simp_all add: ks, (subst takeWhile_append2, auto)+)
  then have "l = k"
    using Cons.prems(3) by simp
  then show ?case
    using Cons by (simp add: ks)
qed (metis dotted_simps(1) dotted_eq_Nil)

lemma map_ok_append: "map_ok w cm d \<Longrightarrow> map_ok (w @ x) cm d"
  unfolding map_ok_def using name_at_append by blast

lemma map_ok_found:
  assumes "map_ok w cm d" and "list_all clean_label ls" and "cm (dotted ls) = Some q"
  obtains k e where "q < 16384" "d ls = Some k" "name_at w q ls k e"
proof -
  obtain ks k e where k: "dotted ls = dotted ks" "list_all clean_label ks" "q < 16384" "d ks = Some k" "name_at w q ks k e"
    using assms(1,3) unfolding map_ok_def by blast
  have "list_all plain_label ls" "list_all plain_label ks"
    using assms(2) k(2) clean_plain by (auto simp: list_all_iff)
  then have "ls = ks"
    using k(1) by (rule dotted_inject)
  with k show ?thesis
    by (intro that) simp_all
qed

lemma name_at_squeeze:
  "map_ok w cm d \<Longrightarrow> list_all clean_label ls \<Longrightarrow>
   name_at (w @ squeeze cm ls) (length w) ls (pointers d ls) (length w + length (squeeze cm ls))"
proof (induction ls arbitrary: w)
  case Nil
  then show ?case
    using name_at.root [of "length w" "w @ [0]"] by simp
next
  case (Cons l ls)
  show ?case
  proof (cases "cm (dotted (l # ls))")
    case (Some q)
    from map_ok_found [OF Cons.prems Some] obtain k e where k: "q < 16384" "d (l # ls) = Some k" "name_at w q (l # ls) k e" .
    have s: "squeeze cm (l # ls) = pointer_bytes q"
      using Some by simp
    show ?thesis
      using name_at.pointer [OF k(1) _ name_at_append [OF k(3), of "pointer_bytes q"], of "length w"] k(2)
      unfolding s by (simp add: pointer_bytes_def)
  next
    case None
    define w1 where "w1 = w @ word_of_nat (length l) # bytes_of l"
    have s: "squeeze cm (l # ls) = word_of_nat (length l) # bytes_of l @ squeeze cm ls" "d (l # ls) = None"
      using None Cons.prems by (auto simp: map_ok_def)
    have "name_at (w1 @ squeeze cm ls) (length w1) ls (pointers d ls) (length w1 + length (squeeze cm ls))"
      unfolding w1_def using Cons.prems by (intro Cons.IH map_ok_append) simp_all
    then have tail: "name_at (w @ squeeze cm (l # ls)) (length w + 1 + length l) ls (pointers d ls)
        (length w + length (squeeze cm (l # ls)))"
      unfolding s by (simp add: w1_def ac_simps)
    have "name_at (w @ squeeze cm (l # ls)) (length w) (l # ls) (pointers d ls) (length w + length (squeeze cm (l # ls)))"
    proof (rule name_at.label [OF _ _ tail])
      show "wire_label l"
        using Cons.prems(2) by (simp add: clean_label_def)
      show "take (length l + 1) (drop (length w) (w @ squeeze cm (l # ls))) = word_of_nat (length l) # bytes_of l"
        unfolding s by simp
    qed
    then show ?thesis
      by (simp only: pointers.simps s option.case)
  qed
qed

lemma map_ok_upd:
  assumes "map_ok w cm d" and "list_all clean_label ks" "ks \<noteq> []" and "q < 16384" "name_at w q ks k e"
  shows "map_ok w (cm(dotted ks \<mapsto> q)) (d(ks \<mapsto> k))"
  unfolding map_ok_def
proof (intro conjI allI impI)
  fix s q'
  assume s: "(cm(dotted ks \<mapsto> q)) s = Some q'"
  show "\<exists>ls k' e'. s = dotted ls \<and> list_all clean_label ls \<and> ls \<noteq> [] \<and> q' < 16384 \<and> (d(ks \<mapsto> k)) ls = Some k'
      \<and> name_at w q' ls k' e'"
  proof (cases "s = dotted ks")
    case True
    then show ?thesis
      using s assms(2-5) by (intro exI [of _ ks] exI [of _ k] exI [of _ e]) simp
  next
    case False
    then have "cm s = Some q'"
      using s by simp
    then obtain ls k' e' where "s = dotted ls" "list_all clean_label ls" "ls \<noteq> []" "q' < 16384" "d ls = Some k'" "name_at w q' ls k' e'"
      using assms(1) unfolding map_ok_def by blast
    with False show ?thesis
      by (intro exI [of _ ls] exI [of _ k'] exI [of _ e']) auto
  qed
next
  fix ls
  assume "list_all clean_label ls \<and> (cm(dotted ks \<mapsto> q)) (dotted ls) = None"
  then show "(d(ks \<mapsto> k)) ls = None"
    using assms(1) by (auto simp: map_ok_def split: if_splits)
qed

lemma map_ok_remember:
  "map_ok w cm d \<Longrightarrow> list_all clean_label ls \<Longrightarrow> length w + length (wire_name ls) \<le> 16384 \<Longrightarrow>
   map_ok (w @ squeeze cm ls) (remember cm (length w) ls) (note_suffixes d ls)"
proof (induction ls arbitrary: w)
  case Nil
  then show ?case by (simp add: map_ok_append)
next
  case (Cons l ls)
  note at = name_at_squeeze [OF Cons.prems(1,2)]
  show ?case
  proof (cases "cm (dotted (l # ls))")
    case (Some q)
    from map_ok_found [OF Cons.prems(1,2) Some] obtain k where "d (l # ls) = Some k" .
    then show ?thesis
      using Some Cons.prems(1) by (simp add: map_ok_append)
  next
    case None
    define w1 where "w1 = w @ word_of_nat (length l) # bytes_of l"
    have d: "d (l # ls) = None"
      using None Cons.prems by (auto simp: map_ok_def)
    have "map_ok (w1 @ squeeze cm ls) (remember cm (length w1) ls) (note_suffixes d ls)"
      unfolding w1_def using Cons.prems by (intro Cons.IH map_ok_append) (simp_all add: wire_name_def)
    moreover have "w1 @ squeeze cm ls = w @ squeeze cm (l # ls)"
      using None by (simp add: w1_def)
    ultimately have "map_ok (w @ squeeze cm (l # ls)) ((remember cm (length w1) ls)(dotted (l # ls) \<mapsto> length w))
        ((note_suffixes d ls)(l # ls \<mapsto> pointers d (l # ls)))"
      using at Cons.prems(2,3) by (intro map_ok_upd) (simp_all add: wire_name_def del: squeeze.simps pointers.simps)
    moreover have "remember cm (length w) (l # ls) = (remember cm (length w1) ls)(dotted (l # ls) \<mapsto> length w)"
        "note_suffixes d (l # ls) = (note_suffixes d ls)(l # ls \<mapsto> pointers d (l # ls))"
      using None d by (simp_all add: w1_def)
    ultimately show ?thesis
      by (simp only:)
  qed
qed

lemma map_ok_empty: "map_ok w Map.empty Map.empty"
  by (simp add: map_ok_def)

section \<open>Names one after the other\<close>

text \<open>The calls that write some names into a buffer, and the offsets they are written at.\<close>

fun pack_names_at :: "string list \<Rightarrow> bytes \<Rightarrow> nat \<Rightarrow> (string \<rightharpoonup> nat) \<Rightarrow> (nat list \<times> bytes) option" where
  "pack_names_at [] m off cm = Some ([off], m)"
| "pack_names_at (s # ss) m off cm =
     (case packDomainName s (Some m) off cm True of
        Some (Inr (off1, _, Some m1, cm1)) \<Rightarrow>
          map_option (\<lambda>(os, m2). (off # os, m2)) (pack_names_at ss m1 off1 cm1)
      | _ \<Rightarrow> None)"

fun pointer_counts :: "(string list \<rightharpoonup> nat) \<Rightarrow> string list list \<Rightarrow> nat list" where
  "pointer_counts d [] = []"
| "pointer_counts d (ls # lss) = pointers d ls # pointer_counts (note_suffixes d ls) lss"

lemma packDomainName_squeeze:
  assumes ls: "list_all clean_label ls" "ls \<noteq> []" and room: "off + length (wire_name ls) \<le> length m"
    "off + length (wire_name ls) \<le> 16384" and cm: "\<forall>q\<in>ran cm. q < 16384"
  shows "\<exists>n m'. packDomainName (dotted ls) (Some m) off cm True =
      Some (Inr (off + length (squeeze cm ls), n, Some m', remember cm off ls))
    \<and> length m' = length m \<and> take (off + length (squeeze cm ls)) m' = take off m @ squeeze cm ls"
proof -
  let ?t = "dotted ls"
  define st where "st = \<lparr>pk_i = 0, pk_ls = length ?t, pk_bs = ?t, pk_off = off, pk_labels = 0, pk_begin = 0,
                pk_ro = ?t, pk_fresh = True, pk_escaped = False, pk_msg = Some m, pk_map = cm,
                pk_pointer = None\<rparr>"
  have "\<exists>st' n m'. pack_loop (length m) True st = Inr st'
     \<and> pack_end st' = Some (pk_off st + length (squeeze (pk_map st) ls), n, Some m', remember (pk_map st) (pk_off st) ls)
     \<and> length m' = length m
     \<and> take (pk_off st + length (squeeze (pk_map st) ls)) m' = take (pk_off st) m @ squeeze (pk_map st) ls"
    by (rule pack_squeeze [of ls st "[]" m]) (use assms in \<open>simp_all add: st_def\<close>)
  then show ?thesis
    using ls(2) last_dotted [OF ls(2)] by (auto simp: packDomainName_def Let_def simp flip: st_def) (auto simp: st_def)
qed

lemma pack_names:
  "\<forall>ls\<in>set names. ls \<noteq> [] \<and> list_all clean_label ls \<Longrightarrow>
   off + length (concat (map wire_name names)) \<le> length m \<Longrightarrow> off + length (concat (map wire_name names)) \<le> 16384 \<Longrightarrow>
   map_ok (take off m) cm d \<Longrightarrow>
   \<exists>os m'. pack_names_at (map dotted names) m off cm = Some (os, m') \<and> length os = Suc (length names) \<and> os ! 0 = off
     \<and> length m' = length m \<and> take off m' = take off m
     \<and> (\<forall>i<length names. name_at m' (os ! i) (names ! i) (pointer_counts d names ! i) (os ! Suc i))"
proof (induction names arbitrary: m off cm d)
  case (Cons ls names)
  have ls: "list_all clean_label ls" "ls \<noteq> []" "list_all wire_label ls"
    using Cons.prems(1) by (auto simp: clean_label_def list_all_iff)
  have room: "off + length (wire_name ls) \<le> length m" "off + length (wire_name ls) \<le> 16384"
    using Cons.prems(2,3) by simp_all
  have w: "length (take off m) = off" "\<forall>q\<in>ran cm. q < 16384"
    using room(1) Cons.prems(4) by (auto simp: map_ok_def ran_def)
  define off1 where "off1 = off + length (squeeze cm ls)"
  obtain n m1 where one: "packDomainName (dotted ls) (Some m) off cm True = Some (Inr (off1, n, Some m1, remember cm off ls))"
      "length m1 = length m" "take off1 m1 = take off m @ squeeze cm ls"
    using packDomainName_squeeze [OF ls(1,2) room w(2)] by (auto simp: off1_def)
  have sq: "length (squeeze cm ls) \<le> length (wire_name ls)"
    by (rule length_squeeze [OF ls(3)])
  have ok: "map_ok (take off1 m1) (remember cm off ls) (note_suffixes d ls)"
    using map_ok_remember [OF Cons.prems(4) ls(1)] room(2) w(1) by (simp add: one(3))
  have more: "\<forall>ls\<in>set names. ls \<noteq> [] \<and> list_all clean_label ls"
      "off1 + length (concat (map wire_name names)) \<le> length m1" "off1 + length (concat (map wire_name names)) \<le> 16384"
    using Cons.prems(1-3) sq one(2) by (simp_all add: off1_def)
  from Cons.IH [OF more ok] obtain os m' where rest: "pack_names_at (map dotted names) m1 off1 (remember cm off ls) = Some (os, m')"
      "length os = Suc (length names)" "os ! 0 = off1" "length m' = length m1" "take off1 m' = take off1 m1"
      "\<forall>i<length names. name_at m' (os ! i) (names ! i) (pointer_counts (note_suffixes d ls) names ! i) (os ! Suc i)"
    by blast
  have "name_at (take off1 m1) off ls (pointers d ls) off1"
    using name_at_squeeze [OF Cons.prems(4) ls(1)] by (simp only: w(1) one(3) off1_def [symmetric])
  from name_at_append [OF this, of "drop off1 m'"] have first: "name_at m' off ls (pointers d ls) off1"
    by (simp flip: rest(5))
  have "take off (take off1 m') = take off (take off m @ squeeze cm ls)"
    by (simp only: rest(5) one(3))
  then have before: "take off m' = take off m"
    using w(1) by (simp add: off1_def)
  have "name_at m' ((off # os) ! i) ((ls # names) ! i) (pointer_counts d (ls # names) ! i) ((off # os) ! Suc i)"
    if "i < length (ls # names)" for i
    using that first rest(3,6) by (cases i) simp_all
  moreover have "pack_names_at (map dotted (ls # names)) m off cm = Some (off # os, m')"
    using one(1) rest(1) by simp
  ultimately show ?case
    using before one(2) rest(2,4) by (intro exI [of _ "off # os"] exI [of _ m'] conjI allI impI) simp_all
qed simp

lemma read_name_at:
  assumes "name_at m p ls k e" and "list_all clean_label ls" and "ls \<noteq> []"
  shows "UnpackDomainName m p =
    (if k \<le> 10 then Inr (dotted ls, e) else Inl (DnsError ''too many compression pointers''))"
  using unpack_name_at [OF assms(1), of 0 "[]" 0] assms(3) by (simp add: UnpackDomainName_def clean_text [OF assms(2)])

end
