(* ===== verification/Dns_Results.thy ===== *)
theory Dns_Results
  imports Dns_Compression Dns_Edns
begin

text \<open>
  Properties of the name functions of package \<open>dns\<close>: the two directions of the codec, offsets, the
  functions on labels against lists of labels, and the options of EDNS0.
\<close>

section \<open>Names on the wire\<close>

text \<open>
  C17: Names survive the wire. Packing the text of any name, whose labels are 1 to 63 bytes of any values,
  without compression writes the labels with their lengths and a zero into the room there is and changes
  no other byte; unpacking at the same offset gives the same text and the offset behind it.
\<close>

theorem name_roundtrip:
  assumes "list_all wire_label ls" and "off + length (wire_name ls) \<le> length m"
  shows "\<exists>m'. packDomainName (name_text ls) (Some m) off cm False =
      Some (Inr (off + length (wire_name ls), max 1 (length ls), Some m', cm)) \<and>
    UnpackDomainName m' off = Inr (name_text ls, off + length (wire_name ls)) \<and>
    length m' = length m \<and> take off m' = take off m \<and>
    drop (off + length (wire_name ls)) m' = drop (off + length (wire_name ls)) m"
proof -
  define m' where "m' = take off m @ wire_name ls @ drop (off + length (wire_name ls)) m"
  have "length (take off m) = off"
    using assms(2) by simp
  then have "UnpackDomainName m' off = Inr (name_text ls, off + length (wire_name ls))"
    using UnpackDomainName_wire [OF assms(1), of "take off m"] by (simp add: m'_def)
  then show ?thesis
    using packDomainName_wire [OF assms, of cm] assms(2) by (auto simp: m'_def)
qed

theorem name_roundtrip_witness:
  "\<exists>m'. packDomainName (''a'' @ CHR 0x5C # ''.b.'' @ CHR 0x5C # ''255.'') (Some (replicate 9 1)) 1 Map.empty False =
      Some (Inr (8, 2, Some m', Map.empty)) \<and> UnpackDomainName m' 1 = Inr (''a'' @ CHR 0x5C # ''.b.'' @ CHR 0x5C # ''255.'', 8)"
proof -
  have n: "name_text [''a.b'', [CHR 0xFF]] = ''a'' @ CHR 0x5C # ''.b.'' @ CHR 0x5C # ''255.''"
    by code_simp
  have l: "list_all wire_label [''a.b'', [CHR 0xFF]]"
    by (simp add: wire_label_def)
  have w: "1 + length (wire_name [''a.b'', [CHR 0xFF]]) = 8" "max 1 (length [''a.b'', [CHR 0xFF]]) = 2"
    by (simp_all add: wire_name_def)
  have "1 + length (wire_name [''a.b'', [CHR 0xFF]]) \<le> length (replicate 9 (1 :: byte))"
    unfolding w by simp
  from name_roundtrip [OF l this, of Map.empty] show ?thesis
    unfolding n w by blast
qed

text \<open>
  C27: Unpacking a name stays inside the message: whatever the bytes are and however the compression
  pointers lead, the offset after the name is at most the length of the message.
\<close>

theorem unpacked_offset_in_bounds:
  assumes "UnpackDomainName msg off = Inr (s, off1)"
  shows "off1 \<le> length msg"
  using assms unpack_loop_bound [of msg off "[]" 0 0 s off1]
  by (auto simp: UnpackDomainName_def split: sum.splits if_splits)

theorem unpacked_offset_in_bounds_witness:
  "UnpackDomainName [0, 1, 97, 0, 0xC0, 1] 4 = Inr (''a.'', 6) \<and> 6 \<le> length [0, 1, 97, 0, 0xC0, 1 :: byte]"
proof -
  have "UnpackDomainName [0, 1, 97, 0, 0xC0, 1] 4 = Inr (''a.'', 6)"
    by code_simp
  with unpacked_offset_in_bounds [OF this] show ?thesis by blast
qed

text \<open>
  C28: Names packed with compression, one after the other into one message, from an empty map, are each read
  back where they were written, and reading ends where the next one begins, if no more than ten pointers follow one
  another. With more, which takes twelve names that each have the one before as a suffix, the name that was
  packed without an error cannot be read.
\<close>

theorem compressed_names:
  assumes "\<forall>ls\<in>set names. ls \<noteq> [] \<and> list_all clean_label ls"
    and "off + length (concat (map wire_name names)) \<le> length m" "off + length (concat (map wire_name names)) \<le> 16384"
  shows "\<exists>os m'. pack_names_at (map dotted names) m off Map.empty = Some (os, m')
    \<and> os ! 0 = off \<and> length m' = length m \<and> take off m' = take off m
    \<and> (\<forall>i<length names. UnpackDomainName m' (os ! i) =
        (if pointer_counts Map.empty names ! i \<le> 10 then Inr (dotted (names ! i), os ! Suc i)
         else Inl (DnsError ''too many compression pointers'')))"
proof -
  from pack_names [OF assms map_ok_empty] obtain os m' where p: "pack_names_at (map dotted names) m off Map.empty = Some (os, m')"
      "os ! 0 = off" "length m' = length m" "take off m' = take off m"
      "\<forall>i<length names. name_at m' (os ! i) (names ! i) (pointer_counts Map.empty names ! i) (os ! Suc i)"
    by blast
  have "UnpackDomainName m' (os ! i) = (if pointer_counts Map.empty names ! i \<le> 10 then Inr (dotted (names ! i), os ! Suc i)
      else Inl (DnsError ''too many compression pointers''))" if "i < length names" for i
    by (rule read_name_at) (use p(5) assms(1) that in auto)
  with p show ?thesis by blast
qed

theorem compressed_names_witness:
  "\<exists>os m. pack_names_at (map (\<lambda>i. dotted (replicate (Suc i) ''a'')) [0..<12]) (replicate 200 0) 0 Map.empty = Some (os, m)
    \<and> UnpackDomainName m (os ! 10) = Inr (''a.a.a.a.a.a.a.a.a.a.a.'', os ! 11)
    \<and> UnpackDomainName m (os ! 11) = Inl (DnsError ''too many compression pointers'')"
proof -
  let ?names = "map (\<lambda>i. replicate (Suc i) ''a'') [0..<12]"
  have a: "clean_label ''a''"
    by (simp add: clean_label_def wire_label_def escape_char_def)
  then have n: "\<forall>ls\<in>set ?names. ls \<noteq> [] \<and> list_all clean_label ls"
    by (auto simp: list_all_iff)
  have l: "0 + length (concat (map wire_name ?names)) \<le> length (replicate 200 (0 :: byte))"
      "0 + length (concat (map wire_name ?names)) \<le> 16384"
    by code_simp+
  have c: "pointer_counts Map.empty ?names ! 10 = 10" "pointer_counts Map.empty ?names ! 11 = 11"
    by code_simp+
  have d: "dotted (?names ! 10) = ''a.a.a.a.a.a.a.a.a.a.a.''"
    by code_simp
  from compressed_names [OF n l] obtain os m where p: "pack_names_at (map dotted ?names) (replicate 200 0) 0 Map.empty = Some (os, m)"
      "\<And>i. i < length ?names \<Longrightarrow> UnpackDomainName m (os ! i) =
        (if pointer_counts Map.empty ?names ! i \<le> 10 then Inr (dotted (?names ! i), os ! Suc i)
         else Inl (DnsError ''too many compression pointers''))"
    by blast
  from p(2) [of 10] p(2) [of 11] have "UnpackDomainName m (os ! 10) = Inr (''a.a.a.a.a.a.a.a.a.a.a.'', os ! 11)"
      "UnpackDomainName m (os ! 11) = Inl (DnsError ''too many compression pointers'')"
    unfolding c d by simp_all
  then show ?thesis
    using p(1) by (auto simp: comp_def)
qed

text \<open>
  After a compression pointer to the root, \<open>UnpackDomainName\<close> returns the offset behind the root and
  not the one behind the pointer, so that what follows is read from the wrong place.
\<close>

theorem root_pointer_offset:
  assumes "off + 1 < length msg" and "p < off" and "p < 16384" and "msg ! p = 0"
    and "unat (msg ! off) = 192 + p div 256" and "unat (msg ! (off + 1)) = p mod 256"
  shows "UnpackDomainName msg off = Inr (''.'', p + 1)"
  using assms by (rule pointer_to_root)

theorem root_pointer_offset_witness: "UnpackDomainName [7, 0, 7, 7, 192, 1, 9] 4 = Inr (''.'', 2)"
  using root_pointer_offset [of 4 "[7, 0, 7, 7, 192, 1, 9]" 1] by simp

section \<open>Labels\<close>

text \<open>
  C26: On fully qualified names of plain labels (without dots and backslashes) the label functions are the
  list functions they stand for: \<open>SplitDomainName\<close> gives the labels back, \<open>CountLabel\<close> counts them,
  \<open>CompareDomainName\<close> counts the labels two names share at their ends, and \<open>IsSubDomain\<close> holds exactly
  when the labels of the parent end those of the child.
\<close>

theorem label_functions:
  assumes "\<forall>l\<in>set ps. plain_label l" and "\<forall>l\<in>set cs. plain_label l" and "ps \<noteq> []" and "cs \<noteq> []"
  shows "SplitDomainName (dotted ps) = ps \<and> CountLabel (dotted ps) = length ps \<and>
    CompareDomainName (dotted ps) (dotted cs) =
      length (takeWhile (\<lambda>(x, y). x = y) (zip (rev ps) (rev cs))) \<and>
    (IsSubDomain (dotted ps) (dotted cs) \<longleftrightarrow> (\<exists>pre. cs = pre @ ps))"
  using SplitDomainName_dotted [OF assms(1)] CompareDomainName_dotted [OF assms] IsSubDomain_dotted [OF assms]
    Split_dotted [OF assms(1,3)]
  by (simp add: CountLabel_Split common_suffix_def)

theorem label_functions_witness:
  "SplitDomainName ''example.org.'' = [''example'', ''org''] \<and>
   CompareDomainName ''example.org.'' ''www.example.org.'' = 2 \<and> IsSubDomain ''example.org.'' ''www.example.org.''"
proof -
  have d: "dotted [''example'', ''org''] = ''example.org.''" "dotted [''www'', ''example'', ''org''] = ''www.example.org.''"
    by simp_all
  have "\<forall>l\<in>set [''example'', ''org'']. plain_label l" "\<forall>l\<in>set [''www'', ''example'', ''org'']. plain_label l"
    by (simp_all add: plain_label_def)
  from label_functions [OF this] have
    "SplitDomainName ''example.org.'' = [''example'', ''org''] \<and>
     CompareDomainName ''example.org.'' ''www.example.org.'' =
       length (takeWhile (\<lambda>(x, y). x = y) (zip (rev [''example'', ''org'']) (rev [''www'', ''example'', ''org'']))) \<and>
     (IsSubDomain ''example.org.'' ''www.example.org.'' \<longleftrightarrow>
       (\<exists>pre. [''www'', ''example'', ''org''] = pre @ [''example'', ''org'']))"
    unfolding d by blast
  then show ?thesis
    by simp
qed

text \<open>
  The search for a suffix of a name in the compression map ends, whatever the name: it walks from one
  label to the next and stops at the last.
\<close>

theorem compression_search_returns:
  "\<exists>n found. compressionLenSearch c s = Some (n, found)"
  using compressionLenSearch_total [of c s] by auto

section \<open>Options\<close>

text \<open>
  C29: What becomes of the options of an OPT record. The option an option packs to, with its own code, is read
  back as it was, with three exceptions: the hexadecimal text of a name server identifier comes back in lower
  case; the address of a subnet comes back only as far as its mask covers whole bytes, although the bits of
  the last byte are sent; and an expiry option is not read at all.
\<close>

theorem edns_options:
  assumes "good_option e" and "edns_pack e = Ret b"
  shows "edns_unpack (opt_code e) b = Ret (seen_option e)"
  using assms by (rule edns_unpack_pack)

theorem edns_options_witness:
  "edns_pack (EDNS0_SUBNET 1 20 0 (Some (v4_prefix @ [10, 1, 16, 0])) False) = Ret [0, 1, 20, 0, 10, 1, 16]
   \<and> edns_unpack EDNS0SUBNET [0, 1, 20, 0, 10, 1, 16] =
       Ret (Some (EDNS0_SUBNET 1 20 0 (Some (v4_prefix @ [10, 1, 0, 0])) False))"
proof -
  have p: "edns_pack (EDNS0_SUBNET 1 20 0 (Some (v4_prefix @ [10, 1, 16, 0])) False) = Ret [0, 1, 20, 0, 10, 1, 16]"
    by code_simp
  have "good_option (EDNS0_SUBNET 1 20 0 (Some (v4_prefix @ [10, 1, 16, 0])) False)"
    by simp
  moreover have "seen_option (EDNS0_SUBNET 1 20 0 (Some (v4_prefix @ [10, 1, 16, 0])) False) =
      Some (EDNS0_SUBNET 1 20 0 (Some (v4_prefix @ [10, 1, 0, 0])) False)"
    by code_simp
  ultimately show ?thesis
    using edns_options [OF _ p] p by simp
qed

end
