(* ===== verification/Nws_Wire.thy ===== *)
theory Nws_Wire
  imports Nws_System Mdns_Query
begin

text \<open>
  \<open>Browse\<close> and the discovery loop of \<open>discovery.go\<close> and \<open>service.go\<close>, and an advertisement as it crosses the
  network: the packets of the query for network web sockets and of the reply, which the responder of one
  host and the client of another read.
\<close>

section \<open>Browsing the network\<close>

text \<open>
  What one call of \<open>Browse\<close> meets: which sockets the query can open, the identifiers of its messages, the
  messages that arrive and, for each entry in turn, what dialling meets. None is a call that does not
  return.
\<close>

record browse_world =
  bw_ipv4 :: bool
  bw_ipv6 :: bool
  bw_ids :: "nat \<Rightarrow> u16"
  bw_messages :: "(bool \<times> dns_msg) list"
  bw_dial :: "nat \<Rightarrow> dial_world"

definition Browse ::
    "discovery_server \<Rightarrow> service \<Rightarrow> browse_world \<Rightarrow> (crash + service \<times> effect list) option" where
  "Browse dsv v w =
     (case Query (bw_ipv4 w) (bw_ipv6 w) None (bw_ids w) browse_param (bw_messages w) of
        None \<Rightarrow> None
      | Some Panic \<Rightarrow> Some (Inl NilDereference)
      | Some (Fail e) \<Rightarrow> Some (Inl LogFatal)
      | Some (Ret evs) \<Rightarrow>
          Some (browse_entries dsv v (map (\<lambda>(i, e). (bw_dial w i, e)) (enumerate 0 (entries_of evs)))))"

text \<open>The loop ends only when the server was closed, which nothing in the program does before.\<close>

fun discovery_loop ::
    "discovery_server \<Rightarrow> service \<Rightarrow> browse_world list \<Rightarrow> (crash + service \<times> effect list) option" where
  "discovery_loop dsv v [] = Some (Inr (v, []))"
| "discovery_loop dsv v (w # ws) =
     (if dsClosed dsv then Some (Inr (v, []))
      else
        case Browse dsv v w of
          None \<Rightarrow> None
        | Some (Inl c) \<Rightarrow> Some (Inl c)
        | Some (Inr (v1, e1)) \<Rightarrow>
            (case discovery_loop dsv v1 ws of
               Some (Inr (v2, e2)) \<Rightarrow> Some (Inr (v2, e1 @ e2))
             | res \<Rightarrow> res))"

definition StartNewDiscoveryServer ::
    "service \<Rightarrow> browse_world list \<Rightarrow> (crash + service \<times> effect list) option" where
  "StartNewDiscoveryServer v ws =
     discovery_loop \<lparr>dsHost = svcHost v, dsPort = svcPort v, dsClosed = False\<rparr> v ws"

section \<open>What can be packed\<close>

text \<open>A name of labels of 1 to 63 bytes and of a length that DNS allows.\<close>

definition fits_dns :: "string \<Rightarrow> bool" where
  "fits_dns s \<longleftrightarrow> good_name s \<and> length s \<le> 254"

lemma good_service_name: "good_name ''_ws._tcp.local.''"
proof (rule good_nameI [of "[''_ws'', ''_tcp'', ''local'']"])
  show "name_text [''_ws'', ''_tcp'', ''local''] = ''_ws._tcp.local.''"
    by code_simp
qed (simp add: wire_label_def)

lemma good_rr_PTR:
  "good_name n \<Longrightarrow> fits_dns p \<Longrightarrow> good_rr (PTR (rr_header_of n TypePTR) p)"
  using length_name_wire [of p] by (simp add: good_rr_def rr_header_of_def fits_dns_def)

lemma good_rr_SRV:
  "good_name n \<Longrightarrow> fits_dns t \<Longrightarrow> good_rr (SRV (rr_header_of n TypeSRV) x y port t)"
  using length_name_wire [of t] by (simp add: good_rr_def rr_header_of_def fits_dns_def)

lemma good_rr_A:
  "good_name n \<Longrightarrow> length q = 4 \<Longrightarrow> good_rr (RR_A (rr_header_of n TypeA) (Some (v4_prefix @ q)))"
  by (auto simp: good_rr_def rr_header_of_def length_v4_prefix)

lemma good_rr_TXT:
  assumes "good_name n" and "good_txt s" and "length s < 65535"
  shows "good_rr (TXT (rr_header_of n TypeTXT) [s])"
  using assms length_txt_wire [of s] by (simp add: good_rr_def rr_header_of_def)

text \<open>A text of plain characters is packed as it is.\<close>

lemma txt_escape_plain: "\<forall>c\<in>set s. txt_escape_char c = [c] \<Longrightarrow> txt_escape s = s"
  by (induction s) (simp_all add: txt_escape_def)


lemma name_char_txt: "name_char c \<Longrightarrow> txt_escape_char c = [c]"
proof -
  assume c: "name_char c"
  then have "c \<noteq> CHR 0x22" "c \<noteq> CHR 0x5C" "c \<noteq> CHR 0x09" "c \<noteq> CHR 0x0D" "c \<noteq> CHR 0x0A"
    by (auto simp: name_char_def)
  moreover have "\<not> ((of_char c :: nat) < 32 \<or> (of_char c :: nat) > 127)"
    using c by (auto simp: name_char_def Let_def)
  ultimately show ?thesis
    by (simp add: txt_escape_char_def)
qed

lemma good_txt_path:
  assumes "isValidServiceName t" and "length t \<le> 241"
  shows "good_txt (''path=/network/'' @ t)"
proof -
  have p: "\<forall>c\<in>set ''path=/network/''. txt_escape_char c = [c]"
    by (simp add: txt_escape_char_def)
  have "\<forall>c\<in>set t. txt_escape_char c = [c]"
    using assms(1) name_char_txt by (auto simp: isValidServiceName_iff list_all_iff)
  with p have "txt_escape (''path=/network/'' @ t) = ''path=/network/'' @ t"
    by (intro txt_escape_plain) auto
  with assms(2) show ?thesis
    unfolding good_txt_def by (intro exI [of _ "''path=/network/'' @ t"]) simp
qed

section \<open>The packets\<close>

lemma good_query: "good_name n \<Longrightarrow> good_msg (query_message ident n)"
  by (simp add: good_msg_def query_message_def SetQuestion_def new_msg_def)

text \<open>
  A host that looks for network web sockets multicasts one packet, the responder of an advertised socket
  answers it with one packet, and the client that receives that one delivers the entry.
\<close>

lemma advertisement_packets:
  assumes reg: "Register env v \<lparr>dcServiceType = t, dcPort = port, dcServer = None\<rparr> ''local'' = Inr (v1, dc)"
    and name: "isValidServiceName t" "hd t \<noteq> CHR ''.''" "length t \<le> 241"
    and init: "Init (re_host env) (mdns_service_for (dnssd_name t (re_rand env)) t ''local'' port) = Inr m"
    and port: "(word_of_int port :: u16) \<noteq> 0"
    and addr: "ipv4Addr m = Some (v4_prefix @ q)" "length q = 4"
    and host: "HostDns m \<noteq> instanceAddr m" "fits_dns (HostDns m)" "fits_dns (instanceAddr m)"
    and v4: "re_v4 env"
  shows "\<exists>srv wq wr resp e. dcServer dc = Some srv
    \<and> (\<forall>spare. parsePacket srv wq spare True = Some (Ret [SendTo True wr]))
    \<and> (\<forall>spare. Unpack new_msg wr spare = Some (Ret resp))
    \<and> Query True False None ids browse_param [(True, resp)] = Some (Ret [Sent (Multicast True wq), Entry e])
    \<and> short_name (SEName e) = dnssd_name t (re_rand env)
    \<and> SEHost e = HostDns m \<and> SEPort e = uint (word_of_int port :: u16) \<and> AddrV4 e = ipv4Addr m
    \<and> service_path (SEInfo e) = Inr (''/network/'' @ t)"
proof -
  let ?q = "query_message (ids 0) ''_ws._tcp.local.''"
  have "ipv4Addr m \<noteq> None"
    using addr(1) by simp
  from advertisement_delivered [OF reg name(1,2) init port this host(1), of no_progress "ids 0"]
  obtain srv resp st1 e where d: "dcServer dc = Some srv" "handleQuery srv ?q = Some resp"
      "handle_response no_progress True resp = Some (st1, Deliver e)" "short_name (SEName e) = dnssd_name t (re_rand env)"
      "SEHost e = HostDns m" "SEPort e = uint (word_of_int port :: u16)" "AddrV4 e = ipv4Addr m"
      "service_path (SEInfo e) = Inr (''/network/'' @ t)"
    unfolding browse_query_name by (auto simp: no_progress_def)
  have z: "config_zone srv = Some (Records m)" and s4: "has_ipv4 srv"
    using reg init v4 d(1) by (auto simp: Register_def NewServer_def Let_def split: if_splits)
  note ia = Init_addresses [OF init]
  have sa: "serviceAddr m = ''_ws._tcp.local.''" and info: "Info m = ''path=/network/'' @ t"
    using ia by (simp_all add: mdns_service_for_def trimDot_def trim_by_def)
  have a6: "ipv6Addr m = None"
    using ia(6) by (simp add: mdns_service_for_def)
  have "Answer resp = PTR (rr_header_of (serviceAddr m) TypePTR) (instanceAddr m)
      # SRV (rr_header_of (instanceAddr m) TypeSRV) 10 1 (word_of_int (Port m)) (HostDns m)
      # address_rrs (HostDns m) (ipv4Addr m) (ipv6Addr m) @ [TXT (rr_header_of (instanceAddr m) TypeTXT) [Info m]]"
    using advertised.reply_answer [OF z, of "ids 0"] d(2) by (auto simp: sa)
  then have an: "Answer resp = [PTR (rr_header_of ''_ws._tcp.local.'' TypePTR) (instanceAddr m),
      SRV (rr_header_of (instanceAddr m) TypeSRV) 10 1 (word_of_int (Port m)) (HostDns m),
      RR_A (rr_header_of (HostDns m) TypeA) (Some (v4_prefix @ q)),
      TXT (rr_header_of (instanceAddr m) TypeTXT) [''path=/network/'' @ t]]"
    unfolding sa addr(1) a6 info by (simp add: address_rrs_def)
  have n: "good_name (HostDns m)" "good_name (instanceAddr m)"
    using host by (simp_all add: fits_dns_def)
  have "list_all good_rr (Answer resp)"
    unfolding an using host(2,3) n addr(2) name(3) good_txt_path [OF name(1,3)]
    by (simp add: good_rr_PTR good_rr_SRV good_rr_A good_rr_TXT good_service_name del: append_Cons append.simps)
  then have g: "good_msg resp" "good_msg ?q"
    using good_reply [OF d(2) good_query [OF good_service_name]] good_query [OF good_service_name]
    by (simp_all add: an)
  have "sendQuery True False ?q = Some (Ret [Multicast True (message_wire ?q)])"
    by (simp add: sendQuery_def Pack_wire [OF g(2)])
  moreover have "handle_response no_progress True (received resp) = Some (st1, Deliver e)"
    using d(3) by simp
  ultimately have "Query True False None ids browse_param [(True, received resp)] =
      Some (Ret [Sent (Multicast True (message_wire ?q)), Entry e])"
    by (simp add: Query_def newClient_def client_query_def sent_by_def browse_query_name)
  moreover have "parsePacket srv (message_wire ?q) spare True = Some (Ret [SendTo True (message_wire resp)])" for spare
    by (rule parsePacket_wire [OF g(2) d(2) g(1) s4])
  ultimately show ?thesis
    using d packet_read [OF g(1)] by blast
qed

section \<open>From an entry to a connection\<close>

lemma resolve_socket_conns: "resolve_socket v path name n = (v1, i, e) \<Longrightarrow> wsconns v1 = wsconns v"
  by (auto simp: resolve_socket_def alloc_socket_def SetNamedWebSockets_def case_prod_beta split: option.splits)

text \<open>When the first host of a new entry can be dialled, the socket of its path gets the connection.\<close>

lemma browse_entry_connects:
  assumes inv: "service_inv v" and name: "NetworkServiceMatcher (short_name (SEName e))"
    "\<not> map_flag (advertisedServiceNames v) (short_name (SEName e))"
    "\<not> map_flag (registeredServiceNames v) (short_name (SEName e))"
    and path: "service_path (SEInfo e) = Inr path"
    and dial: "Dial (dw_net dw 0) None (dw_key dw 0) (dw_masks dw 0)
      (remote_url (SEHost e) (SEPort e) path (dw_id dw)) (dial_header dsv) = Inr (c, resp)"
  shows "\<exists>v1 es i. browse_entry dsv v dw e = Inr (v1, es) \<and> service_inv v1 \<and> namedWebSockets v1 path = Some i
    \<and> i < length (sockets v1) \<and> wsconns v1 = wsconns v @ [c]
    \<and> (\<exists>xs. proxies (sockets v1 ! i) = xs @ [\<lparr>pc_id = int (dw_id dw), pc_ws = length (wsconns v1), writeable = False\<rparr>])
    \<and> registeredServiceNames v1 (short_name (SEName e)) = Some True"
proof -
  let ?n = "short_name (SEName e)"
  obtain v2 i e2 where s: "resolve_socket v path (path_base path) True = (v2, i, e2)"
    by (cases "resolve_socket v path (path_base path) True") auto
  note r = resolve_socket_inv [OF inv s] and w = resolve_socket_conns [OF s]
  have d: "dial_hosts dw (dial_header dsv) (SEPort e) path 0 (entry_hosts e) =
      ([WsDial (remote_url (SEHost e) (SEPort e) path (dw_id dw))], Some c)"
    using dial by (simp add: entry_hosts_def Let_def)
  let ?x = "\<lparr>pc_id = int (dw_id dw), pc_ws = Suc (length (wsconns v2)), writeable = False\<rparr>"
  let ?v3 = "v2\<lparr>wsconns := wsconns v2 @ [c]\<rparr>"
  let ?v4 = "?v3\<lparr>sockets := (sockets ?v3)[i := fst (proxy_addConnection (sockets ?v3 ! i) ?x)]\<rparr>"
  let ?v5 = "?v4\<lparr>registeredServiceNames := (registeredServiceNames ?v4)(?n \<mapsto> True)\<rparr>"
  obtain es where b: "browse_entry dsv v dw e = Inr (?v5, es)"
    using name path s d unfolding browse_entry_def Let_def
    by (auto simp: alloc_ws_def on_socket_eq)
  from browse_entry_inv [OF inv b] r w show ?thesis
    by (intro exI [of _ ?v5] exI [of _ es] exI [of _ i]) (auto simp: b proxy_addConnection_def)
qed

lemma Browse_connects:
  assumes q: "Query (bw_ipv4 w) (bw_ipv6 w) None (bw_ids w) browse_param (bw_messages w) = Some (Ret evs)"
    and e: "entries_of evs = [e]" and b: "browse_entry dsv v (bw_dial w 0) e = Inr (v1, es)"
  shows "Browse dsv v w = Some (Inr (v1, es))"
  using b by (simp add: Browse_def q e enumerate_eq_zip)

end
