(* ===== verification/Mdns_Packets.thy ===== *)
theory Mdns_Packets
  imports Mdns_Wire
begin

text \<open>
  Packets that stop a receiver: what \<open>Unpack\<close> does behind the end of a message, with a record whose data
  is shorter than its fields, and with a HIP record whose servers go round in a circle.
\<close>

section \<open>Headers\<close>

lemma reads_u16_at:
  "off + 2 \<le> length msg \<Longrightarrow>
   unpack_value msg spare tn env rdend n tag KUint16 off = Some (Ret (VU16 (word_of_nat (num_at msg off 2)), off + 2))"
  by (simp add: unpack_value.simps unpack_uint_def)

text \<open>The values of the six fields.\<close>

definition header_at :: "bytes \<Rightarrow> gval list" where
  "header_at msg = map (\<lambda>i. VU16 (word_of_nat (num_at msg i 2))) [0, 2, 4, 6, 8, 10]"

lemma reads_header_at:
  assumes "12 \<le> length msg"
  shows "UnpackStruct msg spare ''Header'' layout_Header 0 = Some (Ret (header_at msg, 12))"
  using assms unfolding UnpackStruct_def layout_Header_def header_at_def
  by (simp add: reads_field [OF reads_u16_at] reads_end del: add_2_eq_Suc add_2_eq_Suc')

section \<open>Behind the end of a message\<close>

text \<open>There every field is zero and nothing is consumed.\<close>

definition phantom_rr :: rr where
  "phantom_rr = OtherRR no_header (''RFC3597'', [VStr []])"

definition phantom_question :: question where
  "phantom_question = \<lparr>QName = [], Qtype = 0, Qclass = 0\<rparr>"

lemma value_at_end:
  "unpack_value msg spare tn env rdend n tag KUint16 (length msg) = Some (Ret (VU16 0, length msg))"
  "unpack_value msg spare tn env rdend n tag KUint32 (length msg) = Some (Ret (VU32 0, length msg))"
  "unpack_value msg spare tn env rdend n tag KString (length msg) = Some (Ret (VStr [], length msg))"
  by (simp_all add: unpack_value.simps unpack_uint_def unpack_string_def)

lemma question_at_end:
  "unpack_question msg spare (length msg) = Some (Ret (phantom_question, length msg))"
  unfolding unpack_question_def UnpackStruct_def layout_Question_def
  by (simp add: reads_field [OF value_at_end(1)] reads_field [OF value_at_end(3)] reads_end gval_vals phantom_question_def)

lemma header_at_end:
  "unpackStructValue msg spare tn layout_RR_Header [] 0 (length msg) =
     Some (Ret ([VStr [], VU16 0, VU16 0, VU32 0, VU16 0], length msg))"
  unfolding layout_RR_Header_def
  by (simp add: reads_field [OF value_at_end(1)] reads_field [OF value_at_end(2)] reads_field [OF value_at_end(3)] reads_end)

lemma record_at_end: "UnpackRR msg spare (length msg) = Some (Ret (phantom_rr, length msg))"
proof -
  have h: "hdr_of (VStruct [VStr [], VU16 0, VU16 0, VU32 0, VU16 0]) = no_header"
    by (simp add: hdr_of_def gval_vals no_header_def)
  have t: "typeToRR (Rrtype no_header) = None" "unat (Rdlength no_header) = 0"
    by (simp_all add: no_header_def typeToRR_def rr_table_def type_codes)
  have "UnpackStruct msg spare ''RFC3597'' layout_RFC3597 (length msg) =
      Some (Ret ([VStruct [VStr [], VU16 0, VU16 0, VU32 0, VU16 0], VStr []], length msg))"
    unfolding UnpackStruct_def layout_RFC3597_def
    by (simp add: reads_header [OF header_at_end] reads_field [OF value_at_end(3)] reads_end)
  then show ?thesis
    unfolding UnpackRR_def UnpackStruct_def header_at_end
    by (simp add: h t rr_of_value_def strip_header_def phantom_rr_def)
qed

lemma unpack_n_stuck: "f off = Some (Ret (x, off)) \<Longrightarrow> unpack_n f n off = Some (Ret (replicate n x, off))"
  by (induction n) simp_all

text \<open>A message of a header only has as many questions and records as the header says, all of them empty.\<close>

lemma Unpack_header_only:
  assumes "length w = 12"
  shows "\<exists>m. Unpack m0 w spare = Some (Ret m) \<and> (\<forall>r\<in>set (Answer m). r = phantom_rr)
    \<and> (\<forall>q\<in>set (Question m). q = phantom_question)"
  unfolding Unpack_def
  using assms reads_header_at [of w spare] question_at_end [of w spare] record_at_end [of w spare]
  by (simp add: Let_def unpack_n_stuck)

section \<open>Bytes at the start of a record\<close>

text \<open>A header with the name of the root, read where its bytes stand.\<close>

definition root_header :: "u16 \<Rightarrow> u16 \<Rightarrow> 32 word \<Rightarrow> u16 \<Rightarrow> rr_header" where
  "root_header t c ttl l = \<lparr>RRName = ''.'', Rrtype = t, Class = c, Ttl = ttl, Rdlength = l\<rparr>"

lemma good_root: "good_name ''.''"
  by (rule good_nameI [of "[]"]) (simp_all add: name_text_def)

lemma reads_stop:
  assumes "off \<le> length msg" and "plain_kind k"
  shows "unpack_value msg spare tn env rdend n tag k off = Some Panic \<Longrightarrow>
      unpackStructValue msg spare tn (Field n tag k # fs) env rdend off = Some Panic"
    and "unpack_value msg spare tn env rdend n tag k off = None \<Longrightarrow>
      unpackStructValue msg spare tn (Field n tag k # fs) env rdend off = None"
  using assms by (cases k; simp add: unpackStructValue.simps plain_kind_def)+

text \<open>
  A DS record without data: the three numbers are read all the same, from what follows the record, and the
  slice of the digest then ends before it begins.
\<close>

lemma DS_without_data:
  assumes h: "holds_at msg off (hdr_wire (root_header TypeDS c ttl 0))"
    and l: "off + length (hdr_wire (root_header TypeDS c ttl 0)) + 4 < length msg"
  shows "UnpackRR msg spare off = Some Panic"
proof -
  let ?h = "root_header TypeDS c ttl 0"
  let ?o = "off + length (hdr_wire ?h)"
  have g: "good_name (RRName ?h)"
    by (simp add: root_header_def good_root)
  have t: "typeToRR (Rrtype ?h) = Some (''DS'', layout_DS)" "unat (Rdlength ?h) = 0"
    by (simp_all add: root_header_def typeToRR_def rr_table_def type_codes)
  note hd = reads_rr_header [OF g h]
  have u: "unpack_value msg spare tn env rdend n tag KUint16 ?o = Some (Ret (VU16 (word_of_nat (num_at msg ?o 2)), ?o + 2))"
    for tn env rdend n tag using l by (intro reads_u16_at) simp
  have b: "unpack_value msg spare tn env rdend n tag KUint8 o1 = Some (Ret (VU8 (word_of_nat (num_at msg o1 1)), o1 + 1))"
    if "o1 < length msg" for tn env rdend n tag o1
    using that by (simp add: unpack_value.simps unpack_uint_def)
  have s: "unpack_value msg spare tn ((''Hdr'', VStruct (hdr_fields ?h)) # env) ?o n ''hex'' KString o1 = Some Panic"
    if "?o < o1" "o1 < length msg" for tn env n o1
    using that by (simp add: unpack_value.simps unpack_string_def env_rrtype_def root_header_def type_codes unpack_slice_def sub_slice_def)
  have "UnpackStruct msg spare ''DS'' layout_DS off = Some Panic"
    unfolding UnpackStruct_def layout_DS_def
    using l t(2) holds_at_bound [OF h]
    by (simp add: reads_header [OF hd] reads_field [OF u] reads_field [OF b] reads_stop(1) [OF _ _ s]
        del: add_2_eq_Suc add_2_eq_Suc')
  then show ?thesis
    unfolding UnpackRR_def UnpackStruct_def hd
    by (simp add: t(1))
qed

section \<open>A circle of servers\<close>

lemma unpack_names_circle:
  assumes "UnpackDomainName msg off = Inr (s, off)" and "off < rdend"
  shows "unpack_names msg rdend off servers = None"
proof (rule ccontr)
  assume "unpack_names msg rdend off servers \<noteq> None"
  then obtain r where "unpack_names msg rdend off servers = Some r"
    by auto
  then have "off < rdend \<longrightarrow> UnpackDomainName msg off \<noteq> Inr (s, off)"
    by (rule unpack_names.raw_induct [rotated]) (auto split: if_splits sum.splits)
  with assms show False by blast
qed

lemma num_at_1: "off < length msg \<Longrightarrow> num_at msg off 1 = unat (msg ! off)"
  by (simp add: num_at_def go_slice_def take_Suc hd_drop_conv_nth be_val_def)

lemma num_at_2: "off + 1 < length msg \<Longrightarrow> num_at msg off 2 = 256 * unat (msg ! off) + unat (msg ! (off + 1))"
proof -
  assume l: "off + 1 < length msg"
  then have "drop off msg = msg ! off # msg ! (off + 1) # drop (off + 2) msg"
    by (simp add: Cons_nth_drop_Suc)
  then show ?thesis
    by (simp add: num_at_def go_slice_def numeral_2_eq_2 be_val_def)
qed

text \<open>
  A HIP record whose list of servers is a pointer to the zero before it: the name is the root, and the
  offset that comes back is the one the loop is at.
\<close>

lemma HIP_circle:
  assumes h: "holds_at msg off (hdr_wire (root_header TypeHIP c ttl l))"
    and o: "o1 = off + length (hdr_wire (root_header TypeHIP c ttl l))"
    and d: "o1 + 5 < length msg" "msg ! o1 = 0" "msg ! (o1 + 2) = 0" "msg ! (o1 + 3) = 0"
      "unat (msg ! (o1 + 4)) = 192 + (o1 + 3) div 256" "unat (msg ! (o1 + 5)) = (o1 + 3) mod 256"
    and l: "4 < unat l" and p: "o1 + 3 < 16384"
  shows "UnpackRR msg spare off = None"
proof -
  let ?h = "root_header TypeHIP c ttl l"
  have g: "good_name (RRName ?h)"
    by (simp add: root_header_def good_root)
  have t: "typeToRR (Rrtype ?h) = Some (''HIP'', layout_HIP)" "Rdlength ?h = l"
    by (simp_all add: root_header_def typeToRR_def rr_table_def type_codes)
  note hd = reads_rr_header [OF g h, folded o]
  define alg :: byte where "alg = word_of_nat (num_at msg (o1 + 1) 1)"
  let ?e0 = "[(''Hdr'', VStruct (hdr_fields ?h))]"
  let ?e1 = "[(''Hdr'', VStruct (hdr_fields ?h)), (''HitLength'', VU8 0)]"
  let ?e2 = "[(''Hdr'', VStruct (hdr_fields ?h)), (''HitLength'', VU8 0),
      (''PublicKeyAlgorithm'', VU8 alg)]"
  let ?e3 = "[(''Hdr'', VStruct (hdr_fields ?h)), (''HitLength'', VU8 0),
      (''PublicKeyAlgorithm'', VU8 alg), (''PublicKeyLength'', VU16 0)]"
  let ?e4 = "[(''Hdr'', VStruct (hdr_fields ?h)), (''HitLength'', VU8 0),
      (''PublicKeyAlgorithm'', VU8 alg), (''PublicKeyLength'', VU16 0), (''Hit'', VStr (hex_encode []))]"
  let ?r = "o1 + unat l"
  have n: "num_at msg o1 1 = 0" "num_at msg (o1 + 2) 2 = 0"
    using d(1-4) num_at_1 [of o1 msg] num_at_2 [of "o1 + 2" msg] by (simp_all add: add.commute [of 3] del: add_2_eq_Suc add_2_eq_Suc')
  have f1: "unpack_value msg spare ''HIP'' ?e0 ?r ''HitLength'' [] KUint8 o1 = Some (Ret (VU8 0, Suc o1))"
    using d(1) n(1) by (simp add: unpack_value.simps unpack_uint_def)
  have f2: "unpack_value msg spare ''HIP'' ?e1 ?r ''PublicKeyAlgorithm'' [] KUint8 (Suc o1) =
      Some (Ret (VU8 alg, o1 + 2))"
    using d(1) by (simp add: alg_def unpack_value.simps unpack_uint_def)
  have f3: "unpack_value msg spare ''HIP'' ?e2 ?r ''PublicKeyLength'' [] KUint16 (o1 + 2) =
      Some (Ret (VU16 0, o1 + 4))"
    using d(1) n(2) by (simp add: unpack_value.simps unpack_uint_def)
  have f4: "unpack_value msg spare ''HIP'' ?e3 ?r ''Hit'' ''hex'' KString (o1 + 4) =
      Some (Ret (VStr (hex_encode []), o1 + 4))"
    using d(1) l by (simp add: unpack_value.simps unpack_string_def env_rrtype_def root_header_def uint_field_def
        unpack_slice_def sub_slice_def go_slice_def)
  have f5: "unpack_value msg spare ''HIP'' ?e4 ?r ''PublicKey'' ''base64'' KString (o1 + 4) =
      Some (Ret (VStr [], o1 + 4))"
    using d(1) l by (simp add: unpack_value.simps unpack_string_def env_rrtype_def root_header_def uint_field_def
        unpack_slice_def sub_slice_def go_slice_def)
  have "UnpackDomainName msg (o1 + 4) = Inr (''.'', o1 + 4)"
    using pointer_to_root [of "o1 + 4" msg "o1 + 3"] d p by (simp add: add.commute [of _ o1])
  then have f6: "unpack_value msg spare ''HIP'' env ?r ''RendezvousServers'' ''domain-name'' KStrings (o1 + 4) = None"
    for env using unpack_names_circle [of msg "o1 + 4" _ ?r "[]"] l by (simp add: unpack_value.simps unpack_strings_def)
  have "UnpackStruct msg spare ''HIP'' layout_HIP off = None"
    unfolding UnpackStruct_def layout_HIP_def
    using holds_at_bound [OF h] d(1)
    by (simp add: reads_header [OF hd] t(2) reads_field [OF f1] reads_field [OF f2] reads_field [OF f3]
        reads_field [OF f4] reads_field [OF f5] reads_stop(2) [OF _ _ f6] del: add_2_eq_Suc add_2_eq_Suc')
  then show ?thesis
    unfolding UnpackRR_def UnpackStruct_def hd
    by (simp add: t(1))
qed

section \<open>Messages with such a record\<close>

text \<open>A header without questions and the bit for a truncated message, and with an answer.\<close>

definition answer_header :: "bytes \<Rightarrow> bool" where
  "answer_header h \<longleftrightarrow>
     length h = 12 \<and> num_at h 4 2 = 0 \<and> num_at h 6 2 \<noteq> 0 \<and> \<not> odd (num_at h 2 2 div 512)"

lemma num_at_append: "off + k \<le> length h \<Longrightarrow> num_at (h @ x) off k = num_at h off k"
  by (simp add: num_at_def go_slice_def)

lemma num_at_bound: "num_at msg off 2 < 65536"
proof -
  have "length (go_slice msg off (off + 2)) \<le> 2"
    by (simp add: go_slice_def)
  then have "(256 :: nat) ^ length (go_slice msg off (off + 2)) \<le> 256 ^ 2"
    by (intro power_increasing) simp_all
  then show ?thesis
    unfolding num_at_def using be_val_bound [of "go_slice msg off (off + 2)"] by simp
qed

lemma Unpack_first_record:
  assumes h: "answer_header h" and r: "UnpackRR (h @ x) spare 12 = r" "r = None \<or> r = Some Panic"
  shows "Unpack m0 (h @ x) spare = (case r of None \<Rightarrow> None | Some _ \<Rightarrow> Some Panic)"
proof -
  let ?v = "header_at (h @ x)"
  have n: "num_at (h @ x) 2 2 = num_at h 2 2" "num_at (h @ x) 4 2 = 0" "num_at (h @ x) 6 2 = num_at h 6 2"
    using h by (simp_all add: answer_header_def num_at_append)
  have c: "unat (u16_val (?v ! 2)) = 0" "unat (u16_val (?v ! 3)) = num_at h 6 2"
    "u16_val (?v ! 1) = word_of_nat (num_at h 2 2)"
    using num_at_bound [of h 6] by (simp_all add: header_at_def n gval_vals unsigned_of_nat take_bit_eq_mod)
  have "\<not> bit (word_of_nat (num_at h 2 2) :: u16) 9"
    using h unfolding bit_of_nat_iff bit_iff_odd [of "num_at h 2 2"] by (simp add: answer_header_def)
  then have t: "\<not> Truncated (header_msg m0 ?v)"
    unfolding header_msg_def Let_def c(3) bit_TC_def word_bit by simp
  obtain k where k: "num_at h 6 2 = Suc k"
    using h by (cases "num_at h 6 2") (auto simp: answer_header_def)
  have "UnpackStruct (h @ x) spare ''Header'' layout_Header 0 = Some (Ret (?v, 12))"
    using h by (intro reads_header_at) (simp add: answer_header_def)
  then show ?thesis
    using r t by (auto simp: Unpack_def Let_def c(1,2) k)
qed

lemma answer_header_holds: "answer_header h \<Longrightarrow> holds_at (h @ w @ y) 12 w"
  using holds_at_middle [of h w y] by (simp add: answer_header_def)

text \<open>Both loops that receive hand the packet to \<open>Unpack\<close>.\<close>

lemma recv_stops:
  assumes "\<And>spare. Unpack new_msg p spare = r" and "r = None \<or> r = Some Panic"
    and "length p \<le> length buf" and "\<not> shutdown s"
  shows "server_recv s buf (Some (p, from4) # rs) = (case r of None \<Rightarrow> None | Some _ \<Rightarrow> Some Panic)"
    and "client_recv buf (Some p # ps) = (case r of None \<Rightarrow> None | Some _ \<Rightarrow> Some Panic)"
  using assms by (auto simp: parsePacket_def Let_def)

lemma DS_packet:
  assumes "answer_header h" and "4 < length y"
  shows "Unpack m0 (h @ hdr_wire (root_header TypeDS c ttl 0) @ y) spare = Some Panic"
proof -
  let ?w = "hdr_wire (root_header TypeDS c ttl 0)"
  have "UnpackRR (h @ ?w @ y) spare 12 = Some Panic"
    using assms by (intro DS_without_data [of _ _ c ttl] answer_header_holds) (simp_all add: answer_header_def)
  from Unpack_first_record [OF assms(1) this] show ?thesis by simp
qed

lemma length_root_header: "length (hdr_wire (root_header t c ttl l)) = 11"
proof -
  have "name_wire ''.'' = [0]"
    using name_wire_text [of "[]"] by (simp add: name_text_def wire_name_def)
  then show ?thesis
    by (simp add: hdr_wire_def root_header_def)
qed

lemma HIP_packet:
  assumes "answer_header h"
  shows "Unpack m0 (h @ hdr_wire (root_header TypeHIP c ttl 6) @ [0, alg, 0, 0, 192, 26] @ y) spare = None"
proof -
  let ?w = "hdr_wire (root_header TypeHIP c ttl 6)" and ?d = "[0, alg, 0, 0, 192, 26] @ y"
  have l: "length (h @ ?w) = 23"
    using assms by (simp add: answer_header_def length_root_header)
  have d: "(h @ ?w @ ?d) ! (23 + i) = ?d ! i" for i
    using nth_append_length_plus [of "h @ ?w" ?d i] unfolding l by simp
  have "UnpackRR (h @ ?w @ ?d) spare 12 = None"
    using d [of 0] d [of 2] d [of 3] d [of 4] d [of 5] assms
    by (intro HIP_circle [of _ _ c ttl 6 23] answer_header_holds) (simp_all add: length_root_header answer_header_def)
  from Unpack_first_record [OF assms this] show ?thesis by simp
qed

end
