(* ===== verification/Dns_Safety.thy ===== *)
theory Dns_Safety
  imports Mdns_Wire
begin

text \<open>
  What keeps \<open>Unpack\<close> safe: which kinds of fields are read without a slice that can end before it begins,
  an index behind the message or a loop that may not end, and hence which record types cannot stop a
  receiver whatever bytes they come with.
\<close>

section \<open>Results that stop the caller\<close>

definition stops :: "'a outcome option \<Rightarrow> bool" where
  "stops r \<longleftrightarrow> r = None \<or> r = Some Panic"

lemma stops_simps [simp]:
  "stops None" "stops (Some Panic)" "\<not> stops (Some (Fail e))" "\<not> stops (Some (Ret x))"
  by (simp_all add: stops_def)

lemma stops_wbind: "stops (wbind r f) \<longleftrightarrow> stops r \<or> (\<exists>x. r = Some (Ret x) \<and> stops (f x))"
  by (cases r) (auto simp: wbind_def stops_def split: outcome.splits)

lemma stops_unpack_n:
  "stops (unpack_n f n off) \<Longrightarrow> \<exists>off1. stops (f off1)"
proof (induction n arbitrary: off)
  case (Suc n)
  then show ?case by (auto simp: stops_wbind split: prod.splits)
qed simp

section \<open>Fields\<close>

definition calm_value :: "string \<Rightarrow> gkind \<Rightarrow> bool" where
  "calm_value tag k =
     (case k of
        KString \<Rightarrow> tag \<noteq> ''hex'' \<and> tag \<noteq> ''base64''
      | KStrings \<Rightarrow> tag \<noteq> ''domain-name''
      | KUint16s \<Rightarrow> tag \<noteq> ''nsec''
      | KOpts \<Rightarrow> False
      | KStruct _ _ \<Rightarrow> False
      | _ \<Rightarrow> True)"

text \<open>The rest of the data as one text is harmless where the data begins.\<close>

definition calm_first :: "string \<Rightarrow> gkind \<Rightarrow> bool" where
  "calm_first tag k = (calm_value tag k \<or> (k = KString \<and> (tag = ''hex'' \<or> tag = ''base64'')))"

fun calm_flat :: "gfield list \<Rightarrow> bool" where
  "calm_flat [] = True"
| "calm_flat (Field n tag k # fs) = (calm_value tag k \<and> calm_flat fs)"

fun calm_data :: "gfield list \<Rightarrow> bool" where
  "calm_data [] = True"
| "calm_data (Field n tag k # fs) = (calm_first tag k \<and> calm_flat fs)"

fun calm_record :: "gfield list \<Rightarrow> bool" where
  "calm_record (Field n tag (KStruct tn inner) # fs) = (n = ''Hdr'' \<and> calm_flat inner \<and> calm_data fs)"
| "calm_record _ = False"

text \<open>A record structure, or one that embeds another.\<close>

fun calm_layout :: "gfield list \<Rightarrow> bool" where
  "calm_layout [Field n tag (KStruct tn inner)] =
     (calm_record [Field n tag (KStruct tn inner)] \<or> calm_record inner)"
| "calm_layout fs = calm_record fs"

lemma unpack_wks_safe: "\<not> stops (Some (unpack_wks msg rdend off j serv))"
proof (induction msg rdend off j serv rule: unpack_wks.induct)
  case (1 msg rdend off j serv)
  then show ?case by (subst unpack_wks.simps) auto
qed

lemma unpack_string_safe:
  assumes "off \<le> length msg" and "(tag \<noteq> ''hex'' \<and> tag \<noteq> ''base64'') \<or> off \<le> rdend"
  shows "\<not> stops (Some (unpack_string msg spare tn env rdend n tag off))"
  using assms
  by (auto simp: unpack_string_def unpack_slice_def sub_slice_def Let_def split: sum.splits)

lemma calm_value_safe:
  assumes "calm_value tag k" and "off \<le> length msg"
  shows "\<not> stops (unpack_value msg spare tn env rdend n tag k off)"
proof (cases k)
  case KString
  then show ?thesis
    using assms unpack_string_safe by (simp add: unpack_value.simps calm_value_def)
next
  case KUint16s
  then show ?thesis
    using assms unpack_wks_safe by (simp add: unpack_value.simps calm_value_def unpack_u16s_def)
qed (use assms in \<open>auto simp: unpack_value.simps calm_value_def unpack_uint_def unpack_uint64_def unpack_ip_def
      unpack_strings_def Let_def split: sum.splits\<close>)

lemma calm_first_safe:
  assumes "calm_first tag k" and "off \<le> length msg" and "off \<le> rdend"
  shows "\<not> stops (unpack_value msg spare tn env rdend n tag k off)"
  using assms calm_value_safe [of tag k off] unpack_string_safe
  by (auto simp: calm_first_def unpack_value.simps)

lemma stops_field:
  assumes "stops (unpackStructValue msg spare tn (Field n tag k # fs) env rdend off)" and "plain_kind k"
    and "\<And>off. off \<le> length msg \<Longrightarrow> \<not> stops (unpack_value msg spare tn env rdend n tag k off)"
  shows "\<exists>env1 rdend1 off1. stops (unpackStructValue msg spare tn fs env1 rdend1 off1)"
  using assms(1,2) assms(3) [of off]
  by (auto simp: unpackStructValue.simps plain_kind_def stops_wbind split: if_splits gkind.splits)

lemma calm_plain: "calm_value tag k \<Longrightarrow> plain_kind k" "calm_first tag k \<Longrightarrow> plain_kind k"
  by (auto simp: calm_first_def calm_value_def plain_kind_def split: gkind.splits)

lemma calm_flat_safe: "calm_flat fs \<Longrightarrow> \<not> stops (unpackStructValue msg spare tn fs env rdend off)"
proof (induction fs arbitrary: env rdend off)
  case Nil
  then show ?case by (simp add: unpackStructValue.simps)
next
  case (Cons f fs)
  obtain n tag k where f: "f = Field n tag k"
    by (cases f)
  show ?case
    using stops_field [of msg spare tn n tag k fs env rdend off] Cons calm_value_safe [of tag k]
      calm_plain(1) [of tag k] unfolding f by auto
qed

section \<open>Structures\<close>

lemma calm_data_safe:
  assumes "calm_data fs" and "off \<le> rdend"
  shows "\<not> stops (unpackStructValue msg spare tn fs env rdend off)"
proof (cases fs)
  case Nil
  then show ?thesis by (simp add: unpackStructValue.simps)
next
  case (Cons f gs)
  obtain n tag k where f: "f = Field n tag k"
    by (cases f)
  have c: "calm_first tag k" "calm_flat gs"
    using assms(1) by (simp_all add: Cons f)
  show ?thesis
    using assms(2) calm_first_safe [OF c(1), of off msg rdend] calm_plain(2) [OF c(1)] calm_flat_safe [OF c(2)]
    unfolding Cons f
    by (auto simp: unpackStructValue.simps plain_kind_def stops_wbind split: if_splits gkind.splits)
qed

lemma calm_record_safe:
  assumes "calm_record fs"
  shows "\<not> stops (unpackStructValue msg spare tn fs env rdend off)"
proof -
  obtain tag tn1 inner gs where f: "fs = Field ''Hdr'' tag (KStruct tn1 inner) # gs" "calm_flat inner" "calm_data gs"
    using assms by (cases fs rule: calm_record.cases) auto
  show ?thesis
    using calm_flat_safe [OF f(2)] calm_data_safe [OF f(3)]
    unfolding f(1) by (auto simp: unpackStructValue.simps stops_wbind)
qed

lemma calm_layout_safe:
  assumes "calm_layout fs"
  shows "\<not> stops (UnpackStruct msg spare tn fs off)"
proof (cases "calm_record fs")
  case True
  then show ?thesis unfolding UnpackStruct_def by (rule calm_record_safe)
next
  case False
  with assms obtain n tag tn1 inner where f: "fs = [Field n tag (KStruct tn1 inner)]" "calm_record inner"
    by (cases fs rule: calm_layout.cases) auto
  show ?thesis
    using calm_record_safe [OF f(2)]
    unfolding f(1) UnpackStruct_def by (auto simp: unpackStructValue.simps stops_wbind)
qed

section \<open>Records and messages\<close>

text \<open>The types whose records are not of this kind.\<close>

definition risky_types :: "u16 list" where
  "risky_types =
     [TypeCDS, TypeCERT, TypeDLV, TypeKEY, TypeDNSKEY, TypeDS, TypeHIP, TypeNSEC3, TypeNSEC3PARAM, TypeNSEC,
      TypeOPT, TypeRKEY, TypeSIG, TypeRRSIG, TypeSSHFP, TypeTA, TypeTLSA]"

lemma other_types_calm: "list_all (\<lambda>(t, n, fs). t \<in> set risky_types \<or> calm_layout fs) rr_table"
  by code_simp

lemma other_layouts_calm: "calm_layout layout_RFC3597" "calm_flat layout_RR_Header" "calm_flat layout_Question"
    "calm_flat layout_Header"
  by code_simp+

lemma UnpackRR_stops:
  assumes "stops (UnpackRR msg spare off)"
  shows "\<exists>hv off1. UnpackStruct msg spare ''RR_Header'' layout_RR_Header off = Some (Ret (hv, off1))
    \<and> Rrtype (hdr_of (VStruct hv)) \<in> set risky_types"
proof -
  have "\<not> stops (UnpackStruct msg spare ''RR_Header'' layout_RR_Header off)"
    unfolding UnpackStruct_def by (rule calm_flat_safe [OF other_layouts_calm(2)])
  then obtain hv off1 where h: "UnpackStruct msg spare ''RR_Header'' layout_RR_Header off = Some (Ret (hv, off1))"
    using assms by (auto simp: UnpackRR_def stops_wbind)
  let ?t = "Rrtype (hdr_of (VStruct hv))"
  obtain n fs where x: "(case typeToRR ?t of None \<Rightarrow> (''RFC3597'', layout_RFC3597) | Some x \<Rightarrow> x) = (n, fs)"
    by fastforce
  have "stops (UnpackStruct msg spare n fs off)"
    using assms unfolding UnpackRR_def h wbind_simps prod.case Let_def x
    by (auto simp: stops_def split: option.splits outcome.splits if_splits)
  then have "\<not> calm_layout fs"
    using calm_layout_safe by blast
  then have "typeToRR ?t = Some (n, fs)"
    using x other_layouts_calm(1) by (cases "typeToRR ?t") auto
  then have "?t \<in> set risky_types"
    using \<open>\<not> calm_layout fs\<close> other_types_calm map_of_SomeD [of rr_table ?t "(n, fs)"] by (auto simp: typeToRR_def list_all_iff)
  with h show ?thesis by blast
qed

lemma Unpack_stops:
  assumes "stops (Unpack m0 msg spare)"
  shows "\<exists>off. stops (UnpackRR msg spare off)"
proof -
  have h: "\<not> stops (UnpackStruct msg spare ''Header'' layout_Header 0)"
    unfolding UnpackStruct_def by (rule calm_flat_safe [OF other_layouts_calm(4)])
  have "\<not> stops (UnpackStruct msg spare ''Question'' layout_Question off)" for off
    unfolding UnpackStruct_def by (rule calm_flat_safe [OF other_layouts_calm(3)])
  then have "\<not> stops (unpack_question msg spare off)" for off
    by (auto simp: unpack_question_def stops_wbind split: prod.splits)
  then have q: "\<not> stops (unpack_n (unpack_question msg spare) n off)" for n off
    using stops_unpack_n by blast
  then show ?thesis
    using assms h stops_unpack_n [of "UnpackRR msg spare"]
    by (auto simp: Unpack_def stops_wbind Let_def split: prod.splits if_splits) 
qed

end
