(* ===== verification/Mdns_Results.thy ===== *)
theory Mdns_Results
  imports Nws_Wire Mdns_Packets Dns_Safety
begin

text \<open>
  Properties of messages as packets: the codec, discovery over the network, and the packets that stop a
  receiver.
\<close>

section \<open>A network for the witnesses\<close>

text \<open>The accepting end of the dial, on a network without errors.\<close>

definition accepted_conn :: netconn where
  "accepted_conn =
     \<lparr>sent = [], net_closed = False, write_plan = [],
      chunks = [bytes_of (upgrade_response (base64 [1, 2, 3]) [] None)], read_end = EOF\<rparr>"

definition accepting_net :: dial_net where
  "accepting_net =
     \<lparr>tcp_dial = (\<lambda>_. Some accepted_conn),
      deadline_ok = True, tls_client = (\<lambda>_ _. None), host_verified = (\<lambda>_. False)\<rparr>"

section \<open>Messages survive the wire\<close>

text \<open>
  C12: Messages survive the wire. A message without compression and truncation, whose codes fit four bits and
  whose questions and records carry names of labels of 1 to 63 bytes, texts of at most 255 bytes,
  addresses of the right length and hexadecimal and base64 fields of the size their record says, is packed
  without an error, into no more bytes than \<open>Len\<close> says. The records are those mDNS uses and those of
  43 more structures. Unpacking the bytes, whatever follows them in the buffer and whatever the message unpacked
  into was, gives the message back with the lengths of the data in the headers of its records.
\<close>

theorem message_roundtrip:
  assumes "good_msg m"
  shows "\<exists>w l. Pack m = Some (Ret w) \<and> Len m = Some (Ret l) \<and> int (length w) \<le> l
    \<and> (\<forall>x spare m0. Unpack m0 (w @ x) spare = Some (Ret ((received m)\<lparr>Compress := Compress m0\<rparr>)))"
proof -
  have "holds_at (message_wire m @ x) 0 (message_wire m)" for x
    using holds_at_middle [of "[]" "message_wire m" x] by simp
  then show ?thesis
    using Pack_wire [OF assms] Len_room [OF assms] Unpack_wire [OF assms] by blast
qed

theorem message_roundtrip_witness:
  "\<exists>w. Pack (new_msg\<lparr>Answer := [PTR (rr_header_of ''_ws._tcp.local.'' TypePTR) ''_ws._tcp.local.'']\<rparr>) = Some (Ret w)
    \<and> (\<exists>m. Unpack new_msg (w @ [1, 2, 3]) [4] = Some (Ret m)
        \<and> map (\<lambda>r. unat (Rdlength (rr_hdr r))) (Answer m) = [16])"
proof -
  let ?m = "new_msg\<lparr>Answer := [PTR (rr_header_of ''_ws._tcp.local.'' TypePTR) ''_ws._tcp.local.'']\<rparr>"
  have "fits_dns ''_ws._tcp.local.''"
    by (simp add: fits_dns_def good_service_name)
  then have "good_msg ?m"
    using good_rr_PTR [OF good_service_name] by (simp add: good_msg_def new_msg_def)
  moreover have "length (name_wire ''_ws._tcp.local.'') = 16"
    by code_simp
  ultimately show ?thesis
    using message_roundtrip [of ?m] by (fastforce simp: received_def)
qed

section \<open>Discovery over the network\<close>

text \<open>
  C11: A socket of one host is joined by another. Let a socket named \<open>t\<close> be registered on a host with an IPv4
  listener and address whose names fit what DNS allows. The query of another host's \<open>Browse\<close> is one packet;
  the responder answers these bytes with one packet, whatever its buffer held; these bytes, whatever the
  client's buffer held, are unpacked to a response. If the other host does not know the name yet and its dial
  to the host, port and path that the response leads to succeeds, then after \<open>Browse\<close> its socket of the same
  path has one more proxy connection, over the dialled web socket, and the name is registered.
\<close>

theorem advertised_socket_joined:
  assumes "Register env v \<lparr>dcServiceType = t, dcPort = port, dcServer = None\<rparr> ''local'' = Inr (v1, dc)"
    and "isValidServiceName t" and "hd t \<noteq> CHR ''.''" and "length t \<le> 241"
    and "Init (re_host env) (mdns_service_for (dnssd_name t (re_rand env)) t ''local'' port) = Inr m"
    and "(word_of_int port :: u16) \<noteq> 0" and "ipv4Addr m = Some (v4_prefix @ q)" and "length q = 4"
    and "HostDns m \<noteq> instanceAddr m" and "fits_dns (HostDns m)" and "fits_dns (instanceAddr m)"
    and "re_v4 env"
    and "service_inv vb" and "\<not> map_flag (advertisedServiceNames vb) (dnssd_name t (re_rand env))"
    and "\<not> map_flag (registeredServiceNames vb) (dnssd_name t (re_rand env))"
    and "Dial (dw_net (dws 0) 0) None (dw_key (dws 0) 0) (dw_masks (dws 0) 0)
      (remote_url (HostDns m) (uint (word_of_int port :: u16)) (''/network/'' @ t) (dw_id (dws 0))) (dial_header dsv) =
      Inr (c, r)"
  shows "\<exists>srv wq wr resp e v2 es i xs. dcServer dc = Some srv
    \<and> (\<forall>spare. parsePacket srv wq spare True = Some (Ret [SendTo True wr]))
    \<and> (\<forall>spare. Unpack new_msg wr spare = Some (Ret resp))
    \<and> Query True False None ids browse_param [(True, resp)] = Some (Ret [Sent (Multicast True wq), Entry e])
    \<and> Browse dsv vb \<lparr>bw_ipv4 = True, bw_ipv6 = False, bw_ids = ids, bw_messages = [(True, resp)], bw_dial = dws\<rparr> =
        Some (Inr (v2, es))
    \<and> namedWebSockets v2 (''/network/'' @ t) = Some i \<and> i < length (sockets v2)
    \<and> wsconns v2 = wsconns vb @ [c]
    \<and> proxies (sockets v2 ! i) = xs @ [\<lparr>pc_id = int (dw_id (dws 0)), pc_ws = length (wsconns v2), writeable = False\<rparr>]
    \<and> registeredServiceNames v2 (dnssd_name t (re_rand env)) = Some True"
proof -
  let ?n = "dnssd_name t (re_rand env)"
  from advertisement_packets [OF assms(1-12), of ids] obtain srv wq wr resp e where
    p: "dcServer dc = Some srv" "\<forall>spare. parsePacket srv wq spare True = Some (Ret [SendTo True wr])"
      "\<forall>spare. Unpack new_msg wr spare = Some (Ret resp)"
      "Query True False None ids browse_param [(True, resp)] = Some (Ret [Sent (Multicast True wq), Entry e])"
    and e: "short_name (SEName e) = ?n" "SEHost e = HostDns m" "SEPort e = uint (word_of_int port :: u16)"
      "service_path (SEInfo e) = Inr (''/network/'' @ t)"
    by blast
  have n: "NetworkServiceMatcher (short_name (SEName e))"
    unfolding e(1) by (rule NetworkServiceMatcher_dnssd [OF assms(2)])
  from browse_entry_connects [OF assms(13) n _ _ e(4), of "dws 0" dsv c r] assms(14-16)
  obtain v2 es i xs where b: "browse_entry dsv vb (dws 0) e = Inr (v2, es)"
      "namedWebSockets v2 (''/network/'' @ t) = Some i" "i < length (sockets v2)" "wsconns v2 = wsconns vb @ [c]"
      "proxies (sockets v2 ! i) = xs @ [\<lparr>pc_id = int (dw_id (dws 0)), pc_ws = length (wsconns v2), writeable = False\<rparr>]"
      "registeredServiceNames v2 ?n = Some True"
    by (auto simp: e)
  have "Browse dsv vb \<lparr>bw_ipv4 = True, bw_ipv6 = False, bw_ids = ids, bw_messages = [(True, resp)], bw_dial = dws\<rparr> =
      Some (Inr (v2, es))"
    by (rule Browse_connects [where evs = "[Sent (Multicast True wq), Entry e]" and e = e]) (simp_all add: p b)
  with p b show ?thesis
    by blast
qed

lemma accepting_net_dials:
  "\<exists>c r. Dial accepting_net None (Some [1, 2, 3]) (\<lambda>_. 0) (remote_url ''pc.'' 2000 ''/network/chat'' 1234) h = Inr (c, r)"
proof -
  have u: "parseURL (remote_url ''pc.'' 2000 ''/network/chat'' 1234) =
      Some \<lparr>Scheme = ''ws'', Opaque = ''/network/chat/1234'', Host = ''pc:2000'', UrlPath = []\<rparr>"
    by code_simp
  have g: "good_server [] None"
    by (simp add: good_server_def header_fields_def trim_by_def)
  have i: "write_plan accepted_conn = []"
      "incoming accepted_conn = bytes_of (upgrade_response (base64 [1, 2, 3]) [] None) @ []"
    by (simp_all add: accepted_conn_def incoming_def)
  let ?u = "\<lparr>Scheme = ''ws'', Opaque = ''/network/chat/1234'', Host = ''pc:2000'', UrlPath = []\<rparr>"
  obtain c r where n: "NewClient accepted_conn ?u h (or_default 0) (Some [1, 2, 3]) (\<lambda>_. 0) = Inr (c, r)"
    using client_accepts [OF g i, of ?u h "or_default 0" "\<lambda>_. 0"] by blast
  have s: "tls_step accepting_net zero_dialer ?u x accepted_conn = Inr accepted_conn" for x
    by (simp add: tls_step_def)
  have d: "tcp_dial accepting_net x = Some accepted_conn" "deadline_ok accepting_net"
      "DWriteBufferSize zero_dialer = 0" "DSubprotocols zero_dialer = []" for x
    by (simp_all add: accepting_net_def zero_dialer_def)
  show ?thesis
    unfolding Dial_def u option.case Let_def case_prod_beta d(1) s
    by (simp add: d(2-4) n)
qed

theorem advertised_socket_joined_witness:
  "\<exists>v1 dc srv wq wr resp e v2 es i. Register
      \<lparr>re_host = \<lparr>hostname = Some ''pc'', ifaddrs = Some [''10.0.0.5/24''], ifaddrs_again = None\<rparr>,
       re_v4 = True, re_v6 = False, re_rand = 17\<rparr>
      (NewNamedWebSocketService ''pc'' 2000) \<lparr>dcServiceType = ''chat'', dcPort = 2000, dcServer = None\<rparr> ''local'' =
      Inr (v1, dc)
    \<and> dcServer dc = Some srv
    \<and> parsePacket srv wq [7] True = Some (Ret [SendTo True wr])
    \<and> Unpack new_msg wr [9] = Some (Ret resp)
    \<and> Query True False None (\<lambda>_. 1) browse_param [(True, resp)] = Some (Ret [Sent (Multicast True wq), Entry e])
    \<and> Browse \<lparr>dsHost = ''pad'', dsPort = 2000, dsClosed = False\<rparr> (NewNamedWebSocketService ''pad'' 2000)
        \<lparr>bw_ipv4 = True, bw_ipv6 = False, bw_ids = (\<lambda>_. 1), bw_messages = [(True, resp)],
         bw_dial = (\<lambda>_. \<lparr>dw_id = 1234, dw_net = (\<lambda>_. accepting_net), dw_key = (\<lambda>_. Some [1, 2, 3]), dw_masks = (\<lambda>_ _. 0)\<rparr>)\<rparr> =
        Some (Inr (v2, es))
    \<and> namedWebSockets v2 ''/network/chat'' = Some i
    \<and> \<lparr>pc_id = 1234, pc_ws = 1, writeable = False\<rparr> \<in> set (proxies (sockets v2 ! i))"
proof -
  let ?env = "\<lparr>re_host = \<lparr>hostname = Some ''pc'', ifaddrs = Some [''10.0.0.5/24''], ifaddrs_again = None\<rparr>,
       re_v4 = True, re_v6 = False, re_rand = 17\<rparr>"
  let ?dc = "\<lparr>dcServiceType = ''chat'', dcPort = 2000, dcServer = None\<rparr>"
  let ?vb = "NewNamedWebSocketService ''pad'' 2000"
  let ?dw = "\<lparr>dw_id = 1234, dw_net = (\<lambda>_. accepting_net), dw_key = (\<lambda>_. Some [1, 2, 3]), dw_masks = (\<lambda>_ _. 0)\<rparr>"
  have c: "str_contains ''10.0.0.5/24'' ''::'' = False" "str_contains ''10.0.0.5/24'' ''127'' = False"
    "str_contains ''10.0.0.5/24'' ''/16'' = False" "str_contains ''10.0.0.5/24'' ''/24'' = True"
    "parse_ip (trim_suffix ''10.0.0.5/24'' ''/24'') = Some (v4_prefix @ [10, 0, 0, 5])" "nat_dec 17 = ''17''"
    by code_simp+
  obtain m where m: "Init (re_host ?env) (mdns_service_for (dnssd_name ''chat'' (re_rand ?env)) ''chat'' ''local'' 2000) = Inr m"
    and a: "ipv4Addr m = Some (v4_prefix @ [10, 0, 0, 5])" "HostDns m = ''pc.''"
    using c by (auto simp: Init_def mdns_service_for_def set_ipv4_def dnssd_name_def Let_def)
  have i: "instanceAddr m = ''chat[17]._ws._tcp.local.''"
    using Init_addresses(1-3) [OF m] by (simp add: mdns_service_for_def dnssd_name_def c trimDot_def trim_by_def)
  have f: "fits_dns (HostDns m)" "fits_dns (instanceAddr m)"
  proof -
    have "good_name ''pc.''"
      by (rule good_nameI [of "[''pc'']"]) (simp add: wire_label_def, code_simp)
    moreover have "good_name ''chat[17]._ws._tcp.local.''"
      by (rule good_nameI [of "[''chat[17]'', ''_ws'', ''_tcp'', ''local'']"]) (simp add: wire_label_def, code_simp)
    ultimately show "fits_dns (HostDns m)" "fits_dns (instanceAddr m)"
      unfolding a i fits_dns_def by simp_all
  qed
  obtain v1 dc where r: "Register ?env (NewNamedWebSocketService ''pc'' 2000) ?dc ''local'' = Inr (v1, dc)"
    using m by (simp add: Register_def NewServer_def Let_def)
  have v: "isValidServiceName ''chat''" "hd ''chat'' \<noteq> CHR ''.''" "length ''chat'' \<le> 241" "(word_of_int 2000 :: u16) \<noteq> 0"
    "HostDns m \<noteq> instanceAddr m" "length [10, 0, 0, 5 :: byte] = 4" "re_v4 ?env"
    by (simp_all add: isValidServiceName_iff name_char_def a i)
  have b: "service_inv ?vb" "\<not> map_flag (advertisedServiceNames ?vb) n" "\<not> map_flag (registeredServiceNames ?vb) n" for n
    by (rule service_inv_new) (simp_all add: NewNamedWebSocketService_def map_flag_def)
  have u: "uint (word_of_int 2000 :: u16) = 2000"
    by simp
  obtain w rp where "Dial accepting_net None (Some [1, 2, 3]) (\<lambda>_. 0) (remote_url ''pc.'' 2000 ''/network/chat'' 1234)
      (dial_header \<lparr>dsHost = ''pad'', dsPort = 2000, dsClosed = False\<rparr>) = Inr (w, rp)"
    using accepting_net_dials by blast
  then have d: "Dial (dw_net ((\<lambda>_. ?dw) 0) 0) None (dw_key ((\<lambda>_. ?dw) 0) 0) (dw_masks ((\<lambda>_. ?dw) 0) 0)
      (remote_url (HostDns m) (uint (word_of_int 2000 :: u16)) (''/network/'' @ ''chat'') (dw_id ((\<lambda>_. ?dw) 0)))
      (dial_header \<lparr>dsHost = ''pad'', dsPort = 2000, dsClosed = False\<rparr>) = Inr (w, rp)"
    by (simp add: a u)
  from advertised_socket_joined [OF r v(1-3) m v(4) a(1) v(6,5) f v(7) b d, of "\<lambda>_. 1"] show ?thesis
    using r by (fastforce simp: NewNamedWebSocketService_def)
qed

section \<open>Packets that stop a receiver\<close>

text \<open>
  C16: Only records of seventeen types can stop a receiver. Whatever bytes a packet has, \<open>Unpack\<close> returns a
  message or an error, and neither panics nor runs for ever, unless a record header somewhere in the bytes
  names one of these types, of which mDNS uses none.
\<close>

theorem only_risky_records_stop:
  assumes "Unpack m0 msg spare = None \<or> Unpack m0 msg spare = Some Panic"
  shows "\<exists>off hv off1. UnpackStruct msg spare ''RR_Header'' layout_RR_Header off = Some (Ret (hv, off1))
    \<and> Rrtype (hdr_of (VStruct hv)) \<in> {TypeCDS, TypeCERT, TypeDLV, TypeKEY, TypeDNSKEY, TypeDS, TypeHIP,
        TypeNSEC3, TypeNSEC3PARAM, TypeNSEC, TypeOPT, TypeRKEY, TypeSIG, TypeRRSIG, TypeSSHFP, TypeTA, TypeTLSA}"
proof -
  have "stops (Unpack m0 msg spare)"
    using assms by (simp add: stops_def)
  then obtain off where "stops (UnpackRR msg spare off)"
    using Unpack_stops by blast
  from UnpackRR_stops [OF this] show ?thesis
    by (force simp: risky_types_def)
qed

theorem only_risky_records_stop_witness:
  "\<exists>off hv off1.
     UnpackStruct ([0, 0, 0, 0, 0, 0, 0, 1, 0, 0, 0, 0] @ hdr_wire (root_header TypeDS 1 0 0) @ replicate 5 0) []
       ''RR_Header'' layout_RR_Header off = Some (Ret (hv, off1))
     \<and> Rrtype (hdr_of (VStruct hv)) \<in> {TypeCDS, TypeCERT, TypeDLV, TypeKEY, TypeDNSKEY, TypeDS, TypeHIP,
        TypeNSEC3, TypeNSEC3PARAM, TypeNSEC, TypeOPT, TypeRKEY, TypeSIG, TypeRRSIG, TypeSSHFP, TypeTA, TypeTLSA}"
proof -
  have "answer_header [0, 0, 0, 0, 0, 0, 0, 1, 0, 0, 0, 0]"
    by code_simp
  then have "Unpack new_msg ([0, 0, 0, 0, 0, 0, 0, 1, 0, 0, 0, 0] @ hdr_wire (root_header TypeDS 1 0 0) @ replicate 5 0) [] =
      Some Panic"
    by (rule DS_packet) simp
  then show ?thesis
    by (intro only_risky_records_stop [of new_msg]) blast
qed

text \<open>
  C30: A DS record without data stops the process. When a packet's first record is a DS record whose data length
  is 0 and more than four bytes follow, its numbers are read from those bytes and the digest is a slice that
  ends before it begins: the goroutine that receives panics, in the responder and in the client, whatever it
  has read before.
\<close>

theorem record_without_data_panics:
  assumes "answer_header h" and "4 < length y"
    and "length (h @ hdr_wire (root_header TypeDS c ttl 0) @ y) \<le> length buf" and "\<not> shutdown s"
  shows "server_recv s buf (Some (h @ hdr_wire (root_header TypeDS c ttl 0) @ y, from4) # rs) = Some Panic
    \<and> client_recv buf (Some (h @ hdr_wire (root_header TypeDS c ttl 0) @ y) # ps) = Some Panic"
  using recv_stops [OF DS_packet [OF assms(1,2)] _ assms(3,4)] by simp

theorem record_without_data_panics_witness:
  "server_recv \<lparr>config_zone = None, has_ipv4 = True, has_ipv6 = False, shutdown = False\<rparr> (replicate 100 0)
     [Some ([0, 0, 0, 0, 0, 0, 0, 1, 0, 0, 0, 0] @ hdr_wire (root_header TypeDS 1 0 0) @ replicate 5 0, True)] = Some Panic"
proof -
  have h: "answer_header [0, 0, 0, 0, 0, 0, 0, 1, 0, 0, 0, 0]"
    by code_simp
  show ?thesis
    using record_without_data_panics [OF h, of "replicate 5 0" 1 0 "replicate 100 0"
        "\<lparr>config_zone = None, has_ipv4 = True, has_ipv6 = False, shutdown = False\<rparr>" True "[]"]
    by (simp add: length_root_header)
qed

text \<open>
  C31: A HIP record can keep a receiver busy for ever. When a packet's first record is a HIP record whose list of
  servers is a pointer to the zero byte before it, the loop over the servers reads the root's name at the same
  offset again and again: the goroutine that receives never handles another packet, in the responder and in
  the client.
\<close>

theorem circular_servers_never_return:
  assumes "answer_header h"
    and "length (h @ hdr_wire (root_header TypeHIP c ttl 6) @ [0, alg, 0, 0, 192, 26] @ y) \<le> length buf"
    and "\<not> shutdown s"
  shows "server_recv s buf (Some (h @ hdr_wire (root_header TypeHIP c ttl 6) @ [0, alg, 0, 0, 192, 26] @ y, from4) # rs) = None
    \<and> client_recv buf (Some (h @ hdr_wire (root_header TypeHIP c ttl 6) @ [0, alg, 0, 0, 192, 26] @ y) # ps) = None"
  using recv_stops [OF HIP_packet [OF assms(1)] _ assms(2,3)] by simp

theorem circular_servers_never_return_witness:
  "client_recv (replicate 100 0)
     [Some ([0, 0, 0, 0, 0, 0, 0, 1, 0, 0, 0, 0] @ hdr_wire (root_header TypeHIP 1 0 6) @ [0, 2, 0, 0, 192, 26])] = None"
proof -
  have h: "answer_header [0, 0, 0, 0, 0, 0, 0, 1, 0, 0, 0, 0]"
    by code_simp
  show ?thesis
    using circular_servers_never_return [OF h, of 1 0 2 "[]" "replicate 100 0"
        "\<lparr>config_zone = None, has_ipv4 = True, has_ipv6 = False, shutdown = False\<rparr>" True "[]" "[]"]
    by (simp add: length_root_header)
qed

text \<open>
  C32: Twelve bytes stop the client. Any packet of twelve bytes, whatever they are, is unpacked without an
  error: behind the end of the message every field is zero, so the questions and records the header counts
  are there and empty. The client that handles the message then dereferences nil.
\<close>

theorem header_only_stops_client:
  assumes "length p = 12" and "12 \<le> length buf"
  shows "\<exists>m. client_recv buf [Some p] = Some (Ret [m]) \<and> handle_response st room m = None"
proof -
  obtain m where m: "Unpack new_msg p (drop 12 buf) = Some (Ret m)" "\<forall>r\<in>set (Answer m). r = phantom_rr"
    using Unpack_header_only [OF assms(1)] by blast
  then have "\<forall>r\<in>set (Answer m). \<not> known_rr r"
    by (auto simp: phantom_rr_def known_rr_def)
  then show ?thesis
    using m(1) assms by (simp add: handle_response_crash)
qed

theorem header_only_stops_client_witness:
  "\<exists>m. client_recv (replicate 16 0) [Some [0, 7, 0x84, 0, 0, 0, 0, 5, 0, 0, 0, 0]] = Some (Ret [m])
    \<and> handle_response no_progress True m = None"
  by (rule header_only_stops_client) simp_all

end
