(* ===== verification/Spec2Isabelle.thy ===== *)
theory Spec2Isabelle
  imports Dns_Service_Results Nws_Results Ws_Results Dns_Results Mdns_Results
begin

text \<open>
  The Named WebSockets proxy (src/complements/namedwebsockets-proxy/src) gives the pages and programs of
  one machine web sockets with a name: all who connect to the same path get each other's messages, and
  proxies on other hosts of the local network that find the path over multicast DNS are joined by a web
  socket between the proxies. This development models the proxy, the WebSocket library it runs on, the
  mDNS library it advertises with, and the DNS package that library packs its messages with, together with
  the client and server sides of that package; all are Go code of the repository.

  How the parts interact. run.go makes a service and starts two loops. The HTTP loop routes a request
  (service.go) to a handler that upgrades it to a web socket (gorilla/websocket/server.go) and hangs the
  connection into the lists of the named socket of its path (socket.go) as a peer, a control or a proxy
  connection (peer.go, control.go, proxy.go). Each connection gets a read pump, which puts messages on the
  channel of its socket; the dispatcher of the socket takes them off and writes them to the other peers and
  to the proxy connections. The discovery loop (discovery.go) asks over mDNS for sockets of other hosts
  (richtr/mdns/client.go), dials them (gorilla/websocket/client.go) and adds proxy connections; a socket
  made for the network is advertised by a responder (richtr/mdns/server.go, zone.go).

  The DNS package (miekg/dns) packs and unpacks the messages of all that. Beside it there are its client
  (client.go), which frames and signs messages (tsig.go) on a connection, its server (server.go), which
  reads requests, checks their signatures and hands them to the handler of the closest zone, and what
  is built from messages: zone transfers (xfr.go), dynamic updates (update.go) and the denial of existence
  by hashed names (nsecx.go).

  Theories and code.
  Prelude: the collections of rewrite rules, type names and shared lemmas.
  Go_Strings, Go_Json, Go_Http, Go_Mime, Go_Regexp, Go_Net, Go_Crypto: what the code uses of Go's standard
    library (strings, UTF-8, encoding/json, net/http, header blocks, regexp, net.IP, SHA-1 and base64).
  Nws_State, Nws_Socket: the record of a named socket, its channel, dispatcher and broadcasts (socket.go).
  Nws_Control, Nws_Notify, Nws_Peer, Nws_Proxy: the connections and their pumps (control.go, peer.go,
    proxy.go); Nws_Link joins two hosts by one proxy connection, and Notificator is the
    program that shows a notification (notification.go).
  Nws_Service: routing, paths and handlers (service.go, and the handlers of socket.go).
  Nws_Discovery: advertising and browsing (discovery.go). Nws_System: the running program (run.go) as a
    step relation over its goroutines.
  Mdns_Zone, Mdns_Client: zone.go, server.go and client.go of richtr/mdns; Mdns_Wire holds their functions
    that turn packets into messages and back, Mdns_Query a whole query, Nws_Wire the calls of Browse and the
    packets of one advertisement, and Mdns_Packets the packets that stop a receiver.
  Dns_Types, Dns_Labels, Dns_Names, Dns_Name_Codec: messages, labels, and names on the wire (types.go,
    defaults.go, labels.go and msg.go of miekg/dns).
  Dns_Layout: the structures of types.go, edns.go and tsig.go as reflection sees them, and typeToRR.
  Dns_Compression: names with compression pointers. Dns_Text, Dns_Edns: character strings (msg.go) and EDNS0
    options (edns.go).
  Dns_Pack, Dns_Unpack, Dns_Len, Dns_Message: packStructValue, unpackStructValue, the lengths, PackRR,
    UnpackRR, Pack and Unpack (msg.go, rawmsg.go, defaults.go and the methods len of types.go).
  Dns_Wire, Dns_Field_Codec, Dns_Message_Codec, Dns_Room, Dns_Roundtrip: what the fields, structures, records and
    messages write, that Len leaves room for it and that it is read back; Dns_Safety: which records cannot
    stop Unpack.
  Dns_Defaults: the rest of defaults.go and the accessors of edns.go. Dns_Tsig: signing and verifying (tsig.go),
    and Dns_Tsig_Codec what they do on messages that can be packed. Go_Hmac: MD5, SHA-256 and HMAC.
  Dns_Conn, Dns_Mux, Dns_Server: connections (client.go), the table of handlers and the server (server.go).
  Dns_Xfr, Dns_Update, Dns_Nsec3: xfr.go, update.go and nsecx.go.
  Go_Encoding: encoding/hex, base64 and base32, which the fields of records use.
  Ws_Conn, Ws_Writer, Ws_Reader, Ws_Handshake: conn.go, server.go, client.go and util.go of
    gorilla/websocket; Ws_Frames and Ws_Delivery relate the bytes to frames and messages, and
    Ws_Writer_Safety holds the facts of the writer that do not depend on the network.
  Nws_Results, Ws_Results, Dns_Results, Mdns_Results, Dns_Service_Results and this theory: the properties.

  How the code is modelled. A struct is a record, a sum of errors a datatype; Go's int is int, a length or
  an offset nat, a field of fixed width a word. A function that changes its receiver returns it changed. What a
  call does to the outside (a write to a web socket, a log line that ends the process, a goroutine
  started, a notification) is a value of the datatype effect in the order of the code. A panic of the Go
  runtime is a result of its own (a crash, or None where the text says so), never a default value. Bytes
  are 8-bit words, text is a list of characters and each character one byte of Go's string. Pointers that
  alias matter in four places and are references there: sockets and connections of the service, the
  service entries of the mDNS client, and the records of a dynamic update.

  Lemmas. The locale conn_list (Nws_State) holds what the three lists of connections share, with an
  interpretation in each of Nws_Control, Nws_Peer and Nws_Proxy; bounded_queue (Nws_Socket) is the
  contract of the channel; mdns_responder (Mdns_Client) is the contract between the responder and the
  client. Nws_System proves an invariant of every reachable state by rule induction; Nws_Link a simulation
  between the peers of one host and what the other host knows of them. Ws_Frames shows that the writer
  sends exactly the frames of a message, Ws_Delivery that the reader inverts them for every split of the
  bytes into chunks. Dns_Name_Codec states labels with their lengths as the specification of names and
  proves that both directions meet it; Dns_Compression
  adds pointers as an inductive relation between the bytes and the labels, with the number of pointers on the way. Dns_Wire does the same for fields: packs_as says which bytes a field
  writes, wherever it stands, holds_at where these bytes are in a message, and both compose; the locale
  item_codec (Dns_Message_Codec) lifts a codec of one item to the sections of a message, with an
  interpretation for questions there and one for records in Dns_Roundtrip. Reflection is a walk over the
  list of fields of a structure, so one definition packs all record types, and Dns_Field_Codec proves once
  that a list of fields is read back, for every structure whose fields are of the kinds it covers; the
  table field_types names these. Dns_Tsig_Codec rests on it: a signed message is the message and one record
  more, and verifying takes that record off again. Dns_Safety sorts the fields into
  those that can panic or loop and those that cannot, and checks the table of types against it.

  Bounds and fuel. The channel of a socket holds 512 messages, the constant of the code. The JSON decoder
  runs on fuel twice the length of its text and one, and Go_Json proves that more never changes the result.
  Loops that may not end (the writer with no room in its buffer, the reader on an endless stream) are
  partial functions whose value None means that they do not return, and where they do return this is a
  theorem. The bytes that arrive are a list of chunks followed by the error of the network; the room that
  ReadAll offers the reader is an argument. Unpack gets the bytes of a packet and the rest of the buffer behind
  them, since a slice can reach there; its value None means that it does not return, which is proved for HIP
  records and excluded for all but seventeen record types. The server reads 128 more requests from a
  connection after the first, the constant of the code, and serve_loop counts down from it.

  Parameters. The handlers of the server, the clock at each request, the results of the reads of a transfer,
  the random source, the mask keys, which write of the network fails, the TLS library, the host
  name and addresses of the machine, the text of the console page, and the answers of other hosts.

  Not modelled. Deadlines and timers, since the model has no clock but the times that signatures need: a
  time-out is a failing read or write. UDP and TCP sockets, TLS and multicast set-up, which are system calls.
  The HTML of the console (templates.go), the wrappers of json.go that nothing calls, and the packages of
  go.net, third-party copies of which the proxy uses the choice of a multicast interface only. Of miekg/dns
  the scanner of zone files (zscan.go, zscan_rr.go, kscan.go), DNSSEC signatures and keys (dnssec.go, sig0.go,
  keygen.go, tlsa.go), which rest on public-key libraries, private records, the sharing of queries in
  flight, and the printing of messages and records. When the variables of a signature cannot be packed, tsigBuffer goes on
  with a buffer that is filled in part; the model ends the call there. The JavaScript API and the Android agent
  are other programs.

  Open in the plan. That a whole message packed with name compression, which nothing here asks for, is read
  back (Dns_Compression has it for the names of a message); and the texts of records, which the proxy never
  prints.
\<close>

section \<open>The running proxy\<close>





section \<open>Two hosts\<close>

text \<open>
  C2: When a writeable proxy connection is set up and peers then join and leave, the second host,
  having read what it was sent, owns for that connection exactly the ids of the peers the first
  host has now; its own connection lists are as before and nothing was broadcast.
\<close>

theorem owned_peers_synchronise:
  assumes "writeable x" and "int_in_range (pc_id x)" and "pc_ws x \<notin> pc_ws ` set (proxies s)"
    and "distinct (map pc_ws (proxies s))" and "pc_ws x \<notin> pc_ws ` set (controllers s)"
    and "distinct (map pc_id (peers s))" and "\<forall>p\<in>set (peers s). int_in_range (pc_id p)"
    and "good_ops (fst (proxy_addConnection s x)) ops"
  shows "\<exists>t1 es. pump_run pf (fst (proxy_addConnection t y), g) y
        (texts_to (pc_ws x) (snd (proxy_addConnection s x)
          @ snd (run_ops (fst (proxy_addConnection s x)) ops))) = Some ((t1, g), es, [])
    \<and> set (owned t1 (pc_ws y)) = pc_id ` set (peers (fst (run_ops (fst (proxy_addConnection s x)) ops)))
    \<and> peers t1 = peers t \<and> proxies t1 = proxies t @ [y] \<and> controllers t1 = controllers t"
proof -
  let ?s = "fst (proxy_addConnection s x)" and ?t = "fst (proxy_addConnection t y)"
  have l: "link_ok ?s x"
    using assms(1-6) by (simp add: link_ok_def)
  have "\<forall>k\<in>set (map pc_id (peers s)). int_in_range k"
    using assms(7) by auto
  from connects_owned [OF assms(2) this, of pf ?t g y] obtain t0 e0 where
    c: "pump_run pf (?t, g) y (texts_to (pc_ws x) (snd (proxy_addConnection s x))) = Some ((t0, g), e0, [])"
      "set (owned t0 (pc_ws y)) = pc_id ` set (peers ?s)"
      "peers t0 = peers t" "proxies t0 = proxies t @ [y]" "controllers t0 = controllers t"
    unfolding initial_frames [OF assms(1)] by auto
  from ops_synchronise [OF l assms(8) c(2), of pf g] c show ?thesis
    by (auto simp: pump_run_append)
qed

theorem owned_peers_synchronise_witness:
  "\<exists>t1 es. pump_run \<lparr>goos = ''linux'', goarch = ''amd64'', abs_icon = None\<rparr>
        (fst (proxy_addConnection (fst (NewNamedWebSocket ''chat'' True)) \<lparr>pc_id = 9000, pc_ws = 1, writeable = False\<rparr>), no_notified)
        \<lparr>pc_id = 9000, pc_ws = 1, writeable = False\<rparr>
        (texts_to 1 (snd (proxy_addConnection (fst (NewNamedWebSocket ''chat'' True)) \<lparr>pc_id = 9000, pc_ws = 1, writeable = True\<rparr>)
          @ snd (run_ops (fst (proxy_addConnection (fst (NewNamedWebSocket ''chat'' True)) \<lparr>pc_id = 9000, pc_ws = 1, writeable = True\<rparr>))
              [Join \<lparr>pc_id = 1234, pc_ws = 2\<rparr>, Join \<lparr>pc_id = 5678, pc_ws = 3\<rparr>, Leave \<lparr>pc_id = 1234, pc_ws = 2\<rparr>])))
      = Some ((t1, no_notified), es, [])
    \<and> set (owned t1 1) = {5678}"
proof -
  let ?s = "fst (NewNamedWebSocket ''chat'' True)"
  let ?x = "\<lparr>pc_id = 9000, pc_ws = 1, writeable = True\<rparr>" and ?y = "\<lparr>pc_id = 9000, pc_ws = 1, writeable = False\<rparr>"
  let ?ops = "[Join \<lparr>pc_id = 1234, pc_ws = 2\<rparr>, Join \<lparr>pc_id = 5678, pc_ws = 3\<rparr>, Leave \<lparr>pc_id = 1234, pc_ws = 2\<rparr>]"
  have f: "peers ?s = []" "proxies ?s = []" "controllers ?s = []"
    by (simp_all add: NewNamedWebSocket_def)
  have "good_ops (fst (proxy_addConnection ?s ?x)) ?ops"
    by (simp add: f int_in_range_def min_int_def max_int_def)
  from owned_peers_synchronise [OF _ _ _ _ _ _ _ this, of "\<lparr>goos = ''linux'', goarch = ''amd64'', abs_icon = None\<rparr>"
      ?s ?y no_notified]
  show ?thesis
    by (simp add: f int_in_range_def min_int_def max_int_def Let_def case_prod_beta) blast
qed





section \<open>Requests\<close>

text \<open>The socket a path leads to.\<close>

definition socket_at :: "service \<Rightarrow> string \<Rightarrow> nws option" where
  "socket_at v path = map_option (\<lambda>i. sockets v ! i) (namedWebSockets v path)"

definition socket_or_new :: "service \<Rightarrow> string \<Rightarrow> string \<Rightarrow> bool \<Rightarrow> nws" where
  "socket_or_new v path name net =
     (case socket_at v path of Some s \<Rightarrow> s | None \<Rightarrow> fst (NewNamedWebSocket name net))"

lemma resolve_socket_at:
  assumes "service_inv v" and "resolve_socket v path name net = (v1, i, e)"
  shows "sockets v1 ! i = socket_or_new v path name net" "wsconns v1 = wsconns v"
    "p \<noteq> path \<Longrightarrow> socket_at v1 p = socket_at v p"
proof -
  have "sockets v1 ! i = socket_or_new v path name net \<and> wsconns v1 = wsconns v
      \<and> (p \<noteq> path \<longrightarrow> socket_at v1 p = socket_at v p)"
  proof (cases "namedWebSockets v path")
    case (Some j)
    with assms(2) show ?thesis
      by (auto simp: resolve_socket_def socket_or_new_def socket_at_def)
  next
    case None
    have "namedWebSockets v p = Some k \<Longrightarrow> k < length (sockets v)" for k
      using assms(1) by (simp add: service_inv_def)
    with assms(2) None show ?thesis
      by (cases "namedWebSockets v p")
        (auto simp: resolve_socket_def alloc_socket_def SetNamedWebSockets_def socket_or_new_def
          socket_at_def nth_append case_prod_beta)
  qed
  then show "sockets v1 ! i = socket_or_new v path name net" "wsconns v1 = wsconns v"
    "p \<noteq> path \<Longrightarrow> socket_at v1 p = socket_at v p"
    by simp_all
qed

lemma socket_at_update:
  assumes "service_inv v" and "namedWebSockets v path = Some i"
  shows "socket_at (v\<lparr>sockets := (sockets v)[i := s]\<rparr>) path = Some s"
    and "p \<noteq> path \<Longrightarrow> socket_at (v\<lparr>sockets := (sockets v)[i := s]\<rparr>) p = socket_at v p"
proof -
  have "\<forall>p q i. namedWebSockets v p = Some i \<and> namedWebSockets v q = Some i \<longrightarrow> p = q"
    "i < length (sockets v)"
    using assms by (simp_all add: service_inv_def)
  then have i: "i < length (sockets v)" and u: "\<And>q. namedWebSockets v q = Some i \<Longrightarrow> q = path"
    using assms(2) by blast+
  from i assms(2) show "socket_at (v\<lparr>sockets := (sockets v)[i := s]\<rparr>) path = Some s"
    by (simp add: socket_at_def)
  show "p \<noteq> path \<Longrightarrow> socket_at (v\<lparr>sockets := (sockets v)[i := s]\<rparr>) p = socket_at v p"
  proof (cases "namedWebSockets v p")
    case (Some j)
    assume "p \<noteq> path"
    with Some u have "j \<noteq> i" by blast
    with Some show ?thesis by (simp add: socket_at_def)
  qed (simp add: socket_at_def)
qed

text \<open>What \<open>serveService\<close> and \<open>serveControl\<close> do with an upgraded connection.\<close>

definition served :: "bool \<Rightarrow> http_request \<Rightarrow> int \<Rightarrow> ws_ref \<Rightarrow> nws \<Rightarrow> nws" where
  "served control r k w s =
     (if control then fst (control_addConnection s \<lparr>pc_id = k, pc_ws = w\<rparr>)
      else if header_get (Header r) ''X-NetworkWebSocket-Proxy'' = ''true''
      then fst (proxy_addConnection s \<lparr>pc_id = k, pc_ws = w, writeable = True\<rparr>)
      else fst (peer_addConnection s \<lparr>pc_id = k, pc_ws = w\<rparr>))"

lemma serve_upgraded:
  assumes "Method r = ''GET''" and "upgradable env r"
  shows "\<exists>c es. serveService v env r i k =
      ((v\<lparr>wsconns := wsconns v @ [c]\<rparr>)\<lparr>sockets := (sockets v)[i :=
          served False r k (Suc (length (wsconns v))) (sockets v ! i)]\<rparr>, es)"
    and "\<exists>c es. serveControl v env r i k =
      ((v\<lparr>wsconns := wsconns v @ [c]\<rparr>)\<lparr>sockets := (sockets v)[i :=
          served True r k (Suc (length (wsconns v))) (sockets v ! i)]\<rparr>, es)"
proof -
  obtain c where c: "upgradeToWebSocket v env r = (v\<lparr>wsconns := wsconns v @ [c]\<rparr>, Suc (length (wsconns v)), [])"
    using upgrade_success [OF assms(2)] by blast
  show "\<exists>c es. serveService v env r i k =
      ((v\<lparr>wsconns := wsconns v @ [c]\<rparr>)\<lparr>sockets := (sockets v)[i :=
          served False r k (Suc (length (wsconns v))) (sockets v ! i)]\<rparr>, es)"
    using assms(1) c by (intro exI [of _ c]) (auto simp: serveService_def served_def on_socket_eq Let_def)
  show "\<exists>c es. serveControl v env r i k =
      ((v\<lparr>wsconns := wsconns v @ [c]\<rparr>)\<lparr>sockets := (sockets v)[i :=
          served True r k (Suc (length (wsconns v))) (sockets v ! i)]\<rparr>, es)"
    using assms(1) c by (intro exI [of _ c]) (auto simp: serveControl_def served_def on_socket_eq Let_def)
qed

text \<open>
  C4: A request with a valid name and id whose handshake succeeds adds one connection with that id
  to the socket of its path, which is created on first use: \<open>/network/N/ID\<close> and \<open>/local/N/ID\<close> add a
  peer, or a writeable proxy connection when the proxy header is set; \<open>/control/network/N/ID\<close> adds a
  control connection to the socket of \<open>/network/N\<close>. The sockets of other paths stay as they are.
\<close>

theorem serve_adds_connection:
  assumes "service_inv v" and "plain_name name" and "peer_id_text ident"
    and "scope \<in> {''network'', ''local''}"
    and "Path r = (if control then ''/control'' else []) @ ''/'' @ scope @ ''/'' @ name @ ''/'' @ ident"
    and "Method r = ''GET''" and "to_lower (header_get (Header r) ''Upgrade'') = ''websocket''"
    and "upgradable env r"
  shows "\<exists>v1 es. serveHTTP asset v env r = Some (v1, es)
    \<and> socket_at v1 (''/'' @ scope @ ''/'' @ name) =
        Some (served control r (fst (atoi ident)) (Suc (length (wsconns v)))
          (socket_or_new v (''/'' @ scope @ ''/'' @ name) name (scope = ''network'')))
    \<and> (\<forall>p. p \<noteq> ''/'' @ scope @ ''/'' @ name \<longrightarrow> socket_at v1 p = socket_at v p)"
proof -
  define path where "path = ''/'' @ scope @ ''/'' @ name"
  have vn: "isValidServiceName name"
    using assms(2) by (simp add: plain_name_def)
  have mux: "mux_route serveMux r = Handler WSCreator"
    using mux_scope [OF assms(2,3,4), of r] mux_control [OF assms(2,3,4), of r] assms(5) by (cases control) auto
  have parse: "parse_ws_path (Path r) = Some \<lparr>isNetwork = (scope = ''network''), isControlPath = control,
      servicePath = path, serviceNamePart = name, peerIdStr = ident\<rparr>"
    using parse_network_path [OF vn assms(3)] parse_local_path [OF vn assms(3)]
      parse_control_path [OF vn assms(3,4)] assms(4,5) by (cases control) (auto simp: path_def)
  obtain v1 i e1 where s: "resolve_socket v path name (scope = ''network'') = (v1, i, e1)"
    by (cases "resolve_socket v path name (scope = ''network'')") auto
  note inv = resolve_socket_inv [OF assms(1) s] and at = resolve_socket_at [OF assms(1) s]
  obtain c es where sv: "(if control then serveControl v1 env r i (fst (atoi ident))
        else serveService v1 env r i (fst (atoi ident))) =
      ((v1\<lparr>wsconns := wsconns v1 @ [c]\<rparr>)\<lparr>sockets := (sockets v1)[i :=
          served control r (fst (atoi ident)) (Suc (length (wsconns v1))) (sockets v1 ! i)]\<rparr>, es)"
    using serve_upgraded [OF assms(6,8), of v1 i "fst (atoi ident)"] by (cases control) auto
  let ?s = "served control r (fst (atoi ident)) (Suc (length (wsconns v1))) (sockets v1 ! i)"
  let ?v = "(v1\<lparr>wsconns := wsconns v1 @ [c]\<rparr>)\<lparr>sockets := (sockets v1)[i := ?s]\<rparr>"
  have "serveHTTP asset v env r = Some (?v, e1 @ es)"
    using sv by (simp add: serveHTTP_def mux serveWSCreator_def assms(6,7) parse vn s)
  moreover have "socket_at ?v p = socket_at (v1\<lparr>sockets := (sockets v1)[i := ?s]\<rparr>) p" for p
    by (simp add: socket_at_def)
  ultimately show ?thesis
    using socket_at_update [OF inv(1,3), where s = ?s] at unfolding path_def [symmetric] by simp
qed

text \<open>A browser's request for a path, and the connection it comes on.\<close>

definition browser_request :: "string \<Rightarrow> http_request" where
  "browser_request path =
     \<lparr>Method = ''GET'', Path = path, HostName = ''h:2000'',
      Header = [(''Upgrade'', [''websocket'']), (''Connection'', [''Upgrade'']),
                (''Sec-Websocket-Version'', [''13'']), (''Sec-Websocket-Key'', [''AAAA''])]\<rparr>"

definition quiet_env :: http_env where
  "quiet_env = \<lparr>hijacked = Some (Inr (quiet_conn, 0)), env_rands = (\<lambda>_. 0)\<rparr>"

lemma upgradableI:
  assumes "valid_handshake proxy_upgrader r" and "hijacked env = Some (Inr (nc, 0))"
    and "write_plan nc = []"
  shows "upgradable env r"
  using assms(3) unfolding upgradable_def Upgrade_valid [OF assms(1,2)]
  by (simp add: net_write_def Let_def)

lemma browser_request_upgradable: "upgradable quiet_env (browser_request path)"
proof (rule upgradableI [where nc = quiet_conn])
  have "split_on CHR '','' ''Upgrade'' = [''Upgrade'']" "split_on CHR '','' ''websocket'' = [''websocket'']"
    "trim_space ''Upgrade'' = ''Upgrade''" "trim_space ''websocket'' = ''websocket''"
    "equal_fold ''upgrade'' ''Upgrade''" "equal_fold ''websocket'' ''websocket''"
    by code_simp+
  then show "valid_handshake proxy_upgrader (browser_request path)"
    by (simp add: valid_handshake_def browser_request_def header_values_def header_get_def
        tokenListContainsValue_def proxy_upgrader_def)
qed (simp_all add: quiet_env_def quiet_conn_def)

lemma browser_request_simps [simp]:
  "Path (browser_request p) = p" "Method (browser_request p) = ''GET''"
  "header_get (Header (browser_request p)) ''X-NetworkWebSocket-Proxy'' = []"
  "to_lower (header_get (Header (browser_request p)) ''Upgrade'') = ''websocket''"
  by (simp_all add: browser_request_def header_get_def header_values_def to_lower_def) code_simp

lemma chat_names: "plain_name ''chat''" "peer_id_text ''1234''" "fst (atoi ''1234'') = 1234"
  by code_simp+

theorem serve_adds_connection_witness:
  "\<exists>v1 es s. serveHTTP (\<lambda>_. None) (NewNamedWebSocketService ''h'' 2000) quiet_env
        (browser_request ''/local/chat/1234'') = Some (v1, es)
    \<and> socket_at v1 ''/local/chat'' = Some s \<and> peers s = [\<lparr>pc_id = 1234, pc_ws = 1\<rparr>]"
proof -
  let ?v = "NewNamedWebSocketService ''h'' 2000"
  have n: "socket_or_new ?v p ''chat'' False = fst (NewNamedWebSocket ''chat'' False)" for p
    by (simp add: socket_or_new_def socket_at_def NewNamedWebSocketService_def)
  have w: "wsconns ?v = []"
    by (simp add: NewNamedWebSocketService_def)
  obtain v1 es where "serveHTTP (\<lambda>_. None) ?v quiet_env (browser_request ''/local/chat/1234'') = Some (v1, es)"
    "socket_at v1 (''/'' @ ''local'' @ ''/'' @ ''chat'') =
      Some (served False (browser_request ''/local/chat/1234'') (fst (atoi ''1234'')) (Suc (length (wsconns ?v)))
        (socket_or_new ?v (''/'' @ ''local'' @ ''/'' @ ''chat'') ''chat'' (''local'' = ''network'')))"
    using serve_adds_connection [OF service_inv_new [of "''h''" 2000] chat_names(1,2), of "''local''"
        "browser_request ''/local/chat/1234''" False quiet_env "\<lambda>_. None"] browser_request_upgradable
    by auto
  then show ?thesis
    by (simp add: n w served_def chat_names(3)) (simp add: NewNamedWebSocket_def)
qed

text \<open>
  C5: A request that passes the checks of \<open>serveWSCreator\<close> but not those of the upgrade ends the
  process: the handler goes on with a nil connection and starts its pumps. This holds for every
  control request and for every request without the proxy header.
\<close>

theorem failed_upgrade_crashes:
  assumes "service_inv v" and "\<forall>s\<in>set (sockets v). no_nil s"
    and "Method r = ''GET''" and "to_lower (header_get (Header r) ''Upgrade'') = ''websocket''"
    and "parse_ws_path (Path r) = Some w" and "isValidServiceName (serviceNamePart w)"
    and "\<not> upgradable env r"
    and "isControlPath w \<or> header_get (Header r) ''X-NetworkWebSocket-Proxy'' \<noteq> ''true''"
  shows "\<exists>v1 es. serveWSCreator v env r = Some (v1, es)
    \<and> snd (run_effects es) = Crashed NilDereference"
proof -
  obtain v1 i e1 where s: "resolve_socket v (servicePath w) (serviceNamePart w) (isNetwork w) = (v1, i, e1)"
    by (cases "resolve_socket v (servicePath w) (serviceNamePart w) (isNetwork w)") auto
  note at = resolve_socket_at(1) [OF assms(1) s]
  have n: "no_nil (sockets v1 ! i)"
  proof (cases "namedWebSockets v (servicePath w)")
    case None
    then show ?thesis
      by (simp add: at socket_or_new_def socket_at_def NewNamedWebSocket_def no_nil_def)
  next
    case (Some j)
    then have "j < length (sockets v)"
      using assms(1) by (simp add: service_inv_def)
    with Some assms(2) show ?thesis
      by (simp add: at socket_or_new_def socket_at_def)
  qed
  have e1: "run_effects e1 = (e1, Returned)"
    using s by (auto simp: resolve_socket_def alloc_socket_def NewNamedWebSocket_def split: option.splits)
  obtain e where u: "upgradeToWebSocket v1 env r = (v1, nil_ws, e)" "\<forall>x\<in>set e. \<exists>n. x = HttpError n"
    using upgrade_failure [OF assms(7)] by blast
  have run: "snd (run_effects (e1 @ e @ [HttpError 404] @ es)) = snd (run_effects es)" for es
    using run_effects_append [of e1] run_effects_replies [OF u(2), of "[HttpError 404] @ es"] e1
    by (simp add: case_prod_beta)
  show ?thesis
  proof (cases "isControlPath w")
    case True
    have "serveWSCreator v env r = Some (fst (serveControl v1 env r i (fst (atoi (peerIdStr w)))),
        e1 @ e @ [HttpError 404] @ snd (control_addConnection (sockets v1 ! i)
          \<lparr>pc_id = fst (atoi (peerIdStr w)), pc_ws = nil_ws\<rparr>))"
      using serveWSCreator_ok [OF assms(3-6) s, of env] True u(1) assms(3)
      by (simp add: serveControl_def case_prod_beta Let_def on_socket_eq)
    with run control_add_run show ?thesis by auto
  next
    case False
    with assms(8) have h: "header_get (Header r) ''X-NetworkWebSocket-Proxy'' \<noteq> ''true''" by simp
    have "serveWSCreator v env r = Some (fst (serveService v1 env r i (fst (atoi (peerIdStr w)))),
        e1 @ e @ [HttpError 404] @ snd (peer_addConnection (sockets v1 ! i)
          \<lparr>pc_id = fst (atoi (peerIdStr w)), pc_ws = nil_ws\<rparr>))"
      using serveWSCreator_ok [OF assms(3-6) s, of env] False u(1) assms(3) h
      by (simp add: serveService_def case_prod_beta Let_def on_socket_eq)
    with run peer_add_run [OF n] show ?thesis by auto
  qed
qed

text \<open>For instance a request that asks for no version of the protocol.\<close>

theorem failed_upgrade_crashes_witness:
  "\<exists>v1 es. serveWSCreator (NewNamedWebSocketService ''h'' 2000) quiet_env
      \<lparr>Method = ''GET'', Path = ''/local/chat/1234'', HostName = ''h:2000'',
       Header = [(''Upgrade'', [''websocket''])]\<rparr> = Some (v1, es)
    \<and> snd (run_effects es) = Crashed NilDereference"
proof -
  let ?r = "\<lparr>Method = ''GET'', Path = ''/local/chat/1234'', HostName = ''h:2000'',
       Header = [(''Upgrade'', [''websocket''])]\<rparr>"
  have "\<not> upgradable quiet_env ?r"
    by (simp add: upgradable_def Upgrade_def header_values_def returnError_def)
  moreover have "isValidServiceName ''chat''"
    using chat_names(1) by (simp add: plain_name_def)
  moreover have "parse_ws_path ''/local/chat/1234'' = Some \<lparr>isNetwork = False, isControlPath = False,
      servicePath = ''/local/chat'', serviceNamePart = ''chat'', peerIdStr = ''1234''\<rparr>"
    using parse_local_path [OF calculation(2) chat_names(2)] by simp
  moreover have "to_lower ''websocket'' = ''websocket''" by code_simp
  ultimately show ?thesis
    using failed_upgrade_crashes [OF service_inv_new, where r = ?r and env = quiet_env]
    by (simp add: header_get_def header_values_def NewNamedWebSocketService_def)
qed

end
